(* ===== verification/Prelude.thy ===== *)
theory Prelude
  imports "HOL-Library.Word" "HOL-Library.Char_ord" "HOL-Library.List_Lexorder"
begin

text \<open>
  Shared vocabulary of the development: the machine types of the C++ sources, the
  result type that models a function which may throw, and the generic lemmas on
  results, lists and tables that the component theories use.  The collection
  \<open>result_dest\<close> gathers the inversion rules of fallible code.
\<close>

named_theorems result_dest \<open>inversion of successful fallible computations\<close>

section \<open>Machine types\<close>

type_synonym byte = "8 word"
type_synonym u32 = "32 word"
type_synonym u64 = "64 word"

definition bytes_of :: "string \<Rightarrow> byte list" where
  "bytes_of s = map of_char s"

definition int64_max :: int where
  "int64_max = 9223372036854775807"

section \<open>Fallible computations\<close>

text \<open>
  A C++ function that returns \<open>'a\<close> or throws is modelled by a value of
  \<open>'e + 'a\<close>: \<open>Inl e\<close> is the exception, \<open>Inr v\<close> the returned value.
\<close>

type_synonym ('e, 'a) result = "'e + 'a"

fun rbind :: "('e, 'a) result \<Rightarrow> ('a \<Rightarrow> ('e, 'b) result) \<Rightarrow> ('e, 'b) result" where
  "rbind (Inl e) k = Inl e"
| "rbind (Inr v) k = k v"

definition require_that :: "'e \<Rightarrow> bool \<Rightarrow> ('e, unit) result" where
  "require_that e b = (if b then Inr () else Inl e)"

definition of_option :: "'e \<Rightarrow> 'a option \<Rightarrow> ('e, 'a) result" where
  "of_option e x = (case x of None \<Rightarrow> Inl e | Some v \<Rightarrow> Inr v)"

fun foldM :: "('a \<Rightarrow> 's \<Rightarrow> ('e, 's) result) \<Rightarrow> 'a list \<Rightarrow> 's \<Rightarrow> ('e, 's) result" where
  "foldM f [] s = Inr s"
| "foldM f (x # xs) s = rbind (f x s) (foldM f xs)"

fun mapM :: "('a \<Rightarrow> ('e, 'b) result) \<Rightarrow> 'a list \<Rightarrow> ('e, 'b list) result" where
  "mapM f [] = Inr []"
| "mapM f (x # xs) = rbind (f x) (\<lambda>y. rbind (mapM f xs) (\<lambda>ys. Inr (y # ys)))"

lemma rbind_Inr_iff [result_dest]:
  "rbind m k = Inr w \<longleftrightarrow> (\<exists>v. m = Inr v \<and> k v = Inr w)"
  by (cases m) auto

lemma rbind_Inl_iff:
  "rbind m k = Inl e \<longleftrightarrow> m = Inl e \<or> (\<exists>v. m = Inr v \<and> k v = Inl e)"
  by (cases m) auto

lemma rbind_InrE [elim]:
  assumes "rbind m k = Inr w"
  obtains v where "m = Inr v" "k v = Inr w"
  using assms by (auto simp: rbind_Inr_iff)

lemma require_that_Inr [simp]: "require_that e b = Inr u \<longleftrightarrow> b"
  by (cases u) (simp add: require_that_def)

lemma require_that_Inl [simp]: "require_that e b = Inl e' \<longleftrightarrow> \<not> b \<and> e' = e"
  by (auto simp: require_that_def)

lemma require_that_simps [simp]:
  "require_that e True = Inr ()" "require_that e False = Inl e"
  by (simp_all add: require_that_def)

lemma of_option_Inr [simp]: "of_option e x = Inr v \<longleftrightarrow> x = Some v"
  by (cases x) (auto simp: of_option_def)

lemma of_option_Inl [simp]: "of_option e x = Inl e' \<longleftrightarrow> x = None \<and> e' = e"
  by (cases x) (auto simp: of_option_def)

lemma of_option_simps [simp]: "of_option e (Some v) = Inr v" "of_option e None = Inl e"
  by (simp_all add: of_option_def)

lemma foldM_append:
  "foldM f (xs @ ys) s = rbind (foldM f xs s) (foldM f ys)"
proof (induction xs arbitrary: s)
  case (Cons x xs)
  then show ?case by (cases "f x s") simp_all
qed simp

lemma foldM_invariant:
  assumes "foldM f xs s = Inr s'" and "I s"
    and "\<And>x t t'. x \<in> set xs \<Longrightarrow> I t \<Longrightarrow> f x t = Inr t' \<Longrightarrow> I t'"
  shows "I s'"
  using assms
proof (induction xs arbitrary: s)
  case (Cons x xs)
  from Cons.prems(1) obtain t where t: "f x s = Inr t" "foldM f xs t = Inr s'"
    by auto
  show ?case
    using Cons.IH [OF t(2)] Cons.prems(2,3) t(1) by (meson list.set_intros)
qed simp

lemma mapM_Inr_length [result_dest]: "mapM f xs = Inr ys \<Longrightarrow> length ys = length xs"
  by (induction xs arbitrary: ys) (auto simp: rbind_Inr_iff)

lemma mapM_Inr_iff: "mapM f xs = Inr ys \<longleftrightarrow> list_all2 (\<lambda>x y. f x = Inr y) xs ys"
  by (induction xs arbitrary: ys) (auto simp: rbind_Inr_iff list_all2_Cons1)

section \<open>Lists\<close>

text \<open>\<open>std::copy\<close> into an array at an offset: the target keeps its length.\<close>

definition overwrite :: "'a list \<Rightarrow> nat \<Rightarrow> 'a list \<Rightarrow> 'a list" where
  "overwrite xs i ys = take i xs @ ys @ drop (i + length ys) xs"

lemma length_overwrite [simp]:
  "i + length ys \<le> length xs \<Longrightarrow> length (overwrite xs i ys) = length xs"
  by (simp add: overwrite_def)

lemma take_overwrite:
  "i \<le> length xs \<Longrightarrow> take (i + length ys) (overwrite xs i ys) = take i xs @ ys"
  by (simp add: overwrite_def)

lemma list_eq_takeD: "take n xs = ys \<Longrightarrow> length xs = n \<Longrightarrow> xs = ys"
  by auto

section \<open>Decimal text\<close>

text \<open>\<open>std::to_string\<close> on unsigned and signed integers.\<close>

fun nat_to_string :: "nat \<Rightarrow> string" where
  "nat_to_string n =
     (if n < 10 then [char_of (48 + n)] else nat_to_string (n div 10) @ [char_of (48 + n mod 10)])"

declare nat_to_string.simps [simp del]

definition int_to_string :: "int \<Rightarrow> string" where
  "int_to_string i = (if i < 0 then CHR ''-'' # nat_to_string (nat (- i)) else nat_to_string (nat i))"

definition is_digit :: "char \<Rightarrow> bool" where
  "is_digit c \<longleftrightarrow> 48 \<le> (of_char c :: nat) \<and> (of_char c :: nat) \<le> 57"

fun string_to_nat :: "string \<Rightarrow> nat" where
  "string_to_nat s = fold (\<lambda>c n. 10 * n + (of_char c - 48)) s 0"

lemma is_digit_char_of: "(d::nat) < 10 \<Longrightarrow> is_digit (char_of (48 + d))"
  by (simp add: is_digit_def)

lemma nat_to_string_digits: "c \<in> set (nat_to_string n) \<Longrightarrow> is_digit c"
proof (induction n rule: nat_to_string.induct)
  case (1 n)
  then show ?case
    by (cases "n < 10") (auto simp: nat_to_string.simps [of n] is_digit_char_of)
qed

lemma nat_to_string_nonempty [simp]: "nat_to_string n \<noteq> []"
  by (subst nat_to_string.simps) simp

lemma string_to_nat_to_string [simp]: "string_to_nat (nat_to_string n) = n"
proof (induction n rule: nat_to_string.induct)
  case (1 n)
  then show ?case
    by (cases "n < 10") (simp_all add: nat_to_string.simps [of n])
qed

lemma nat_to_string_inject [simp]: "nat_to_string m = nat_to_string n \<longleftrightarrow> m = n"
  by (metis string_to_nat_to_string)

end
