(* ===== verification/Hash_Spec.thy ===== *)
theory Hash_Spec
  imports Prelude
begin

unbundle bit_operations_syntax

text \<open>
  What a SHA-256 implementation of the repository promises.  The message is padded and
  split into 64-byte blocks as FIPS 180-4 says (\<open>sha_pad\<close>, \<open>blocks64\<close>), the blocks are
  folded with a compression function, and the eight state words are written in
  lower-case hexadecimal.  The locale \<open>streaming_hash\<close> is the contract of an incremental
  hasher: whatever the way the message is cut into \<open>update\<close> calls, the digest is the one
  of the whole message, and \<open>update\<close> refuses exactly the messages beyond its limit.
\<close>

section \<open>Padding and blocks\<close>

definition blocks64 :: "byte list \<Rightarrow> byte list list" where
  "blocks64 xs = map (\<lambda>i. take 64 (drop (64 * i) xs)) [0..<length xs div 64]"

definition absorb :: "(byte list \<Rightarrow> 's \<Rightarrow> 's) \<Rightarrow> 's \<Rightarrow> byte list \<Rightarrow> 's" where
  "absorb f s xs = fold f (blocks64 xs) s"

definition be64 :: "u64 \<Rightarrow> byte list" where
  "be64 w = map (\<lambda>i. ucast (drop_bit (8 * (7 - i)) w)) [0..<8]"

definition sha_pad :: "byte list \<Rightarrow> byte list" where
  "sha_pad m = m @ [0x80] @ replicate ((119 - length m mod 64) mod 64) 0
     @ be64 (of_nat (8 * length m))"

text \<open>The longest message whose bit length fits 64 bits: \<open>UINT64_MAX / 8\<close> bytes.\<close>

definition sha_limit :: nat where
  "sha_limit = 2305843009213693951"

lemma length_be64 [simp]: "length (be64 w) = 8"
  by (simp add: be64_def)

lemma pad_zeros:
  "r < 64 \<Longrightarrow> (119 - r) mod 64 = (if 56 < Suc r then (63 - r) + 56 else 55 - (r::nat))"
proof (cases "56 < Suc r")
  case False
  then have "119 - r = 64 + (55 - r)" by simp
  then have "(119 - r) mod 64 = (55 - r) mod 64" by (simp only: mod_add_self1)
  then show ?thesis using False by simp
qed simp

lemma length_sha_pad: "64 dvd length (sha_pad m)"
proof -
  define r q where "r = length m mod 64" and "q = length m div 64"
  have len: "length m = 64 * q + r" and r: "r < 64"
    by (simp_all add: r_def q_def)
  have "length (sha_pad m) = 64 * q + (r + 9 + (119 - r) mod 64)"
    by (simp add: sha_pad_def len r)
  also have "\<dots> = 64 * (if 56 < Suc r then q + 2 else q + 1)"
    using r by (simp add: pad_zeros)
  finally show ?thesis by simp
qed

lemma blocks64_Nil [simp]: "blocks64 [] = []"
  by (simp add: blocks64_def)

lemma blocks64_short: "length xs < 64 \<Longrightarrow> blocks64 xs = []"
  by (simp add: blocks64_def)

lemma blocks64_Cons:
  assumes "64 \<le> length xs"
  shows "blocks64 xs = take 64 xs # blocks64 (drop 64 xs)"
proof -
  have eq: "length xs div 64 = Suc ((length xs - 64) div 64)"
    using assms by (simp add: le_div_geq)
  show ?thesis
    unfolding blocks64_def eq by (simp add: map_upt_Suc add.commute del: upt_Suc)
qed

lemma blocks64_append:
  assumes "64 dvd length xs"
  shows "blocks64 (xs @ ys) = blocks64 xs @ blocks64 ys"
  using assms
proof (induction "length xs div 64" arbitrary: xs)
  case 0
  then have "xs = []" by (auto elim!: dvdE)
  then show ?case by simp
next
  case (Suc n)
  then have le: "64 \<le> length xs"
    by (metis dvd_imp_le div_0 length_0_conv length_greater_0_conv nat.distinct(1)
        list.size(3) neq0_conv)
  have "n = length (drop 64 xs) div 64" "64 dvd length (drop 64 xs)"
    using Suc.hyps(2) Suc.prems le by (simp_all add: le_div_geq dvd_diff_nat)
  then have "blocks64 (drop 64 xs @ ys) = blocks64 (drop 64 xs) @ blocks64 ys"
    by (rule Suc.hyps(1))
  then show ?case
    using le by (simp add: blocks64_Cons)
qed

lemma absorb_append:
  "64 dvd length xs \<Longrightarrow> absorb f s (xs @ ys) = absorb f (absorb f s xs) ys"
  by (simp add: absorb_def blocks64_append)

lemma absorb_Nil [simp]: "absorb f s [] = s"
  by (simp add: absorb_def)

lemma absorb_block: "length xs = 64 \<Longrightarrow> absorb f s xs = f xs s"
  by (simp add: absorb_def blocks64_Cons)

lemma absorb_two_blocks:
  "64 dvd length pre \<Longrightarrow> length b = 64 \<Longrightarrow> length c = 64 \<Longrightarrow>
     absorb f s (pre @ b @ c) = f c (f b (absorb f s pre))"
  by (simp add: absorb_append absorb_block)

section \<open>The state of a hasher that has absorbed a message\<close>

text \<open>
  \<open>buffered f s0 st buf used m\<close>: the complete blocks of \<open>m\<close> are folded into \<open>st\<close>
  and the rest of \<open>m\<close> stands in the first \<open>used\<close> bytes of the 64-byte buffer.
\<close>

definition buffered ::
  "(byte list \<Rightarrow> 's \<Rightarrow> 's) \<Rightarrow> 's \<Rightarrow> 's \<Rightarrow> byte list \<Rightarrow> nat \<Rightarrow> byte list \<Rightarrow> bool" where
  "buffered f s0 st buf used m \<longleftrightarrow>
     length buf = 64 \<and> used < 64 \<and>
     (\<exists>pre. 64 dvd length pre \<and> m = pre @ take used buf \<and> st = absorb f s0 pre)"

lemma buffered_used: "buffered f s0 st buf used m \<Longrightarrow> used = length m mod 64"
  by (auto simp: buffered_def elim!: dvdE)

lemma buffered_empty: "length buf = 64 \<Longrightarrow> buffered f s0 s0 buf 0 []"
  by (auto simp: buffered_def intro: exI [of _ "[]"])

text \<open>Filling the buffer without completing a block, and completing one.\<close>

lemma buffered_fill:
  assumes "buffered f s0 st buf used m" and "used + length xs < 64"
  shows "buffered f s0 st (overwrite buf used xs) (used + length xs) (m @ xs)"
  using assms by (auto simp: buffered_def take_overwrite)

lemma buffered_complete:
  assumes "buffered f s0 st buf used m" and "used + length xs = 64" and "length buf' = 64"
  shows "buffered f s0 (f (overwrite buf used xs) st) buf' 0 (m @ xs)"
proof -
  from assms(1) obtain pre where pre: "64 dvd length pre" "m = pre @ take used buf"
    "st = absorb f s0 pre" and buf: "length buf = 64" "used < 64"
    by (auto simp: buffered_def)
  have ow: "overwrite buf used xs = take used buf @ xs"
    using assms(2) buf by (simp add: overwrite_def)
  have len: "length (take used buf @ xs) = 64"
    using assms(2) buf by simp
  have "f (overwrite buf used xs) st = absorb f s0 (pre @ take used buf @ xs)"
    using pre(3) by (simp add: ow absorb_append [OF pre(1)] absorb_block [OF len])
  moreover have "64 dvd length (pre @ take used buf @ xs)"
    using pre(1) len by (simp del: length_take add: dvd_add)
  ultimately show ?thesis
    using pre(2) assms(3) by (auto simp: buffered_def intro!: exI [of _ "pre @ take used buf @ xs"])
qed

text \<open>A whole block hashed straight from the input while the buffer is empty.\<close>

lemma buffered_direct:
  assumes "buffered f s0 st buf 0 m" and "length xs = 64"
  shows "buffered f s0 (f xs st) buf 0 (m @ xs)"
  using buffered_complete [of f s0 st buf 0 m xs buf] assms
  by (simp add: overwrite_def buffered_def)

text \<open>The final one or two blocks complete the padded message.\<close>

definition final_state :: "(byte list \<Rightarrow> 's \<Rightarrow> 's) \<Rightarrow> 's \<Rightarrow> byte list \<Rightarrow> nat \<Rightarrow> byte list \<Rightarrow> 's" where
  "final_state f st buf used lenbytes =
     (if Suc used > 56
      then f (replicate 56 0 @ lenbytes) (f (take used buf @ [0x80] @ replicate (63 - used) 0) st)
      else f (take used buf @ [0x80] @ replicate (55 - used) 0 @ lenbytes) st)"

lemma final_state_pad:
  assumes "buffered f s0 st buf used m"
  shows "final_state f st buf used (be64 (of_nat (8 * length m))) = absorb f s0 (sha_pad m)"
proof -
  from assms obtain pre where pre: "64 dvd length pre" "m = pre @ take used buf"
    "st = absorb f s0 pre" and buf: "length buf = 64" "used < 64"
    by (auto simp: buffered_def)
  have used: "length m mod 64 = used"
    using buffered_used [OF assms] by simp
  let ?len = "be64 (of_nat (8 * length m))"
  have pad: "sha_pad m = pre @ take used buf @ [0x80]
      @ replicate ((119 - used) mod 64) 0 @ ?len"
    unfolding sha_pad_def used by (simp add: pre(2))
  show ?thesis
  proof (cases "Suc used > 56")
    case True
    with buf(2) have k: "(119 - used) mod 64 = (63 - used) + 56" by (simp add: pad_zeros)
    let ?b1 = "take used buf @ [0x80] @ replicate (63 - used) 0"
    have l1: "length ?b1 = 64" using buf by simp
    have "sha_pad m = pre @ ?b1 @ (replicate 56 0 @ ?len)"
      by (simp add: pad k replicate_add)
    then have "absorb f s0 (sha_pad m) = f (replicate 56 0 @ ?len) (f ?b1 st)"
      using absorb_two_blocks [OF pre(1) l1, of "replicate 56 0 @ ?len"] pre(3) by simp
    then show ?thesis
      using True by (simp only: final_state_def if_True)
  next
    case False
    with buf(2) have k: "(119 - used) mod 64 = 55 - used" by (simp add: pad_zeros)
    let ?b = "take used buf @ [0x80] @ replicate (55 - used) 0 @ ?len"
    have "length ?b = 64" using buf False by simp
    moreover have "sha_pad m = pre @ ?b" by (simp add: pad k)
    ultimately show ?thesis
      using False pre(1,3) by (simp add: final_state_def absorb_append absorb_block)
  qed
qed

section \<open>The contract of an incremental hasher\<close>

locale streaming_hash =
  fixes represents :: "'h \<Rightarrow> byte list \<Rightarrow> bool"
    and empty :: 'h
    and update :: "'h \<Rightarrow> byte list \<Rightarrow> ('e, 'h) result"
    and finish :: "'h \<Rightarrow> string"
    and hash :: "byte list \<Rightarrow> string"
    and too_long :: 'e
  assumes represents_empty: "represents empty []"
    and update_accepts: "represents h m \<Longrightarrow> length m + length xs \<le> sha_limit \<Longrightarrow>
      \<exists>h'. update h xs = Inr h' \<and> represents h' (m @ xs)"
    and update_refuses: "represents h m \<Longrightarrow> sha_limit < length m + length xs \<Longrightarrow>
      update h xs = Inl too_long"
    and finish_hash: "represents h m \<Longrightarrow> finish h = hash m"
begin

lemma update_all_accepts:
  assumes "represents h m" and "length m + length (concat xss) \<le> sha_limit"
  shows "\<exists>h'. foldM (\<lambda>xs h. update h xs) xss h = Inr h' \<and> represents h' (m @ concat xss)"
  using assms
proof (induction xss arbitrary: h m)
  case Nil
  then show ?case by simp
next
  case (Cons xs xss)
  then obtain h1 where h1: "update h xs = Inr h1" "represents h1 (m @ xs)"
    using update_accepts [of h m xs] by auto
  have "\<exists>h'. foldM (\<lambda>xs h. update h xs) xss h1 = Inr h' \<and> represents h' ((m @ xs) @ concat xss)"
    using Cons.prems(2) by (intro Cons.IH [OF h1(2)]) simp
  then show ?case using h1(1) by simp
qed

lemma update_all_refuses:
  assumes "represents h m" and "sha_limit < length m + length (concat xss)"
    and "length m \<le> sha_limit"
  shows "foldM (\<lambda>xs h. update h xs) xss h = Inl too_long"
  using assms
proof (induction xss arbitrary: h m)
  case Nil
  then show ?case by simp
next
  case (Cons xs xss)
  show ?case
  proof (cases "length m + length xs \<le> sha_limit")
    case True
    then obtain h1 where h1: "update h xs = Inr h1" "represents h1 (m @ xs)"
      using update_accepts [OF Cons.prems(1)] by blast
    have "foldM (\<lambda>xs h. update h xs) xss h1 = Inl too_long"
      using Cons.prems(2) True by (intro Cons.IH [OF h1(2)]) simp_all
    then show ?thesis using h1(1) by simp
  next
    case False
    then show ?thesis using update_refuses [OF Cons.prems(1)] by simp
  qed
qed

text \<open>The digest depends on the message only, not on how it was fed.\<close>

lemma split_independent:
  assumes "length (concat xss) \<le> sha_limit"
  shows "map_sum id finish (foldM (\<lambda>xs h. update h xs) xss empty) = Inr (hash (concat xss))"
  using update_all_accepts [OF represents_empty, of xss] assms finish_hash by auto

end

end
