(* ===== verification/Native_Sha256.thy ===== *)
theory Native_Sha256
  imports Hash_Spec
begin

unbundle bit_operations_syntax

text \<open>
  The Native SHA-256 (\<open>Native/src/Crypto/Sha256.cpp\<close>, \<open>Sha256_p.h\<close>): the compression
  \<open>transform\<close>, the incremental \<open>update\<close> with its 64-byte pending buffer, \<open>digest\<close>,
  \<open>hexDigest\<close> and the one-shot \<open>sha256\<close>.  The class is the record \<open>sha256_state\<close>;
  \<open>std::rotr\<close> is \<open>word_rotr\<close>, the shifts are \<open>push_bit\<close> and \<open>drop_bit\<close>.  The theory
  interprets \<open>streaming_hash\<close>: the digest is that of the padded message however the
  message is cut.
\<close>

datatype hash_error = LengthError

record sha256_state =
  m_state :: "u32 list"
  m_pending :: "byte list"
  m_bytes :: u64
  m_pendingSize :: nat

section \<open>The compression function\<close>

definition sha256_constants :: "u32 list" where
  "sha256_constants = concat
    [[0x428a2f98, 0x71374491, 0xb5c0fbcf, 0xe9b5dba5, 0x3956c25b, 0x59f111f1, 0x923f82a4],
     [0xab1c5ed5, 0xd807aa98, 0x12835b01, 0x243185be, 0x550c7dc3, 0x72be5d74, 0x80deb1fe],
     [0x9bdc06a7, 0xc19bf174, 0xe49b69c1, 0xefbe4786, 0x0fc19dc6, 0x240ca1cc, 0x2de92c6f],
     [0x4a7484aa, 0x5cb0a9dc, 0x76f988da, 0x983e5152, 0xa831c66d, 0xb00327c8, 0xbf597fc7],
     [0xc6e00bf3, 0xd5a79147, 0x06ca6351, 0x14292967, 0x27b70a85, 0x2e1b2138, 0x4d2c6dfc],
     [0x53380d13, 0x650a7354, 0x766a0abb, 0x81c2c92e, 0x92722c85, 0xa2bfe8a1, 0xa81a664b],
     [0xc24b8b70, 0xc76c51a3, 0xd192e819, 0xd6990624, 0xf40e3585, 0x106aa070, 0x19a4c116],
     [0x1e376c08, 0x2748774c, 0x34b0bcb5, 0x391c0cb3, 0x4ed8aa4a, 0x5b9cca4f, 0x682e6ff3],
     [0x748f82ee, 0x78a5636f, 0x84c87814, 0x8cc70208, 0x90befffa, 0xa4506ceb, 0xbef9a3f7],
     [0xc67178f2]]"

definition sha256_words :: "byte list \<Rightarrow> u32 list" where
  "sha256_words block =
     (let words = map (\<lambda>i. push_bit 24 (ucast (block ! (i * 4)))
                        OR push_bit 16 (ucast (block ! (i * 4 + 1)))
                        OR push_bit 8 (ucast (block ! (i * 4 + 2)))
                        OR ucast (block ! (i * 4 + 3))) [0..<16] @ replicate 48 0
      in fold (\<lambda>i words.
           let a = words ! (i - 15); b = words ! (i - 2);
               small0 = word_rotr 7 a XOR word_rotr 18 a XOR drop_bit 3 a;
               small1 = word_rotr 17 b XOR word_rotr 19 b XOR drop_bit 10 b
           in words[i := words ! (i - 16) + small0 + words ! (i - 7) + small1])
         [16..<64] words)"

type_synonym sha256_vars = "u32 \<times> u32 \<times> u32 \<times> u32 \<times> u32 \<times> u32 \<times> u32 \<times> u32"

definition sha256_round :: "u32 list \<Rightarrow> nat \<Rightarrow> sha256_vars \<Rightarrow> sha256_vars" where
  "sha256_round words i = (\<lambda>(a, b, c, d, e, f, g, h).
     let big1 = word_rotr 6 e XOR word_rotr 11 e XOR word_rotr 25 e;
         choice = (e AND f) XOR (NOT e AND g);
         first = h + big1 + choice + sha256_constants ! i + words ! i;
         big0 = word_rotr 2 a XOR word_rotr 13 a XOR word_rotr 22 a;
         majority = (a AND b) XOR (a AND c) XOR (b AND c)
     in (first + big0 + majority, a, b, c, d + first, e, f, g))"

definition sha256_transform :: "byte list \<Rightarrow> u32 list \<Rightarrow> u32 list" where
  "sha256_transform block st =
     (let words = sha256_words block
      in case fold (sha256_round words) [0..<64]
             (st ! 0, st ! 1, st ! 2, st ! 3, st ! 4, st ! 5, st ! 6, st ! 7) of
        (a, b, c, d, e, f, g, h) \<Rightarrow>
          [st ! 0 + a, st ! 1 + b, st ! 2 + c, st ! 3 + d,
           st ! 4 + e, st ! 5 + f, st ! 6 + g, st ! 7 + h])"

section \<open>Incremental hashing\<close>

definition sha256_iv :: "u32 list" where
  "sha256_iv = [0x6a09e667, 0xbb67ae85, 0x3c6ef372, 0xa54ff53a,
                0x510e527f, 0x9b05688c, 0x1f83d9ab, 0x5be0cd19]"

definition sha256_init :: sha256_state where
  "sha256_init = \<lparr>m_state = sha256_iv, m_pending = replicate 64 0, m_bytes = 0,
     m_pendingSize = 0\<rparr>"

definition sha256_maximumBytes :: u64 where
  "sha256_maximumBytes = 0xffffffffffffffff div 8"

text \<open>The \<open>while (input.size() >= 64)\<close> loop of \<open>update\<close>.\<close>

function sha256_direct :: "u32 list \<Rightarrow> byte list \<Rightarrow> u32 list \<times> byte list" where
  "sha256_direct st input =
     (if 64 \<le> length input
      then sha256_direct (sha256_transform (take 64 input) st) (drop 64 input)
      else (st, input))"
  by pat_completeness auto
termination
  by (relation "measure (\<lambda>(st, input). length input)") auto

declare sha256_direct.simps [simp del]

text \<open>The branch that first tops up a partly filled pending buffer.\<close>

definition sha256_topup :: "sha256_state \<Rightarrow> byte list \<Rightarrow> sha256_state \<times> byte list" where
  "sha256_topup h input =
     (if m_pendingSize h \<noteq> 0 then
        let count = min (length input) (64 - m_pendingSize h);
            h = h\<lparr>m_pending := overwrite (m_pending h) (m_pendingSize h) (take count input),
                  m_pendingSize := m_pendingSize h + count\<rparr>;
            input = drop count input
        in if m_pendingSize h = 64
           then (h\<lparr>m_state := sha256_transform (m_pending h) (m_state h), m_pendingSize := 0\<rparr>, input)
           else (h, input)
      else (h, input))"

definition sha256_update :: "sha256_state \<Rightarrow> byte list \<Rightarrow> (hash_error, sha256_state) result" where
  "sha256_update h input =
     (if int (length input) > uint (sha256_maximumBytes - m_bytes h) then Inl LengthError
      else
        let h = h\<lparr>m_bytes := m_bytes h + of_nat (length input)\<rparr>
        in case sha256_topup h input of (h, input) \<Rightarrow>
           (case sha256_direct (m_state h) input of (st, input) \<Rightarrow>
              let h = h\<lparr>m_state := st\<rparr>
              in Inr (if input \<noteq> []
                      then h\<lparr>m_pending := overwrite (m_pending h) 0 input,
                             m_pendingSize := length input\<rparr>
                      else h)))"

section \<open>The digest\<close>

definition fill_zero :: "byte list \<Rightarrow> nat \<Rightarrow> nat \<Rightarrow> byte list" where
  "fill_zero xs i j = take i xs @ replicate (j - i) 0 @ drop j xs"

definition put_length :: "u64 \<Rightarrow> byte list \<Rightarrow> byte list" where
  "put_length bits block =
     fold (\<lambda>i block. block[63 - i := ucast (drop_bit (8 * i) bits)]) [0..<8] block"

definition sha256_finalized :: "sha256_state \<Rightarrow> u32 list" where
  "sha256_finalized h =
     (let bits = m_bytes h * 8;
          block = (m_pending h)[m_pendingSize h := 0x80];
          used = Suc (m_pendingSize h);
          (st, block, used) =
            (if used > 56
             then let block = fill_zero block used 64
                  in (sha256_transform block (m_state h), block, 0)
             else (m_state h, block, used));
          block = put_length bits (fill_zero block used 56)
      in sha256_transform block st)"

definition sha256_digest :: "sha256_state \<Rightarrow> byte list" where
  "sha256_digest h =
     concat (map (\<lambda>i. map (\<lambda>j. ucast (drop_bit (24 - 8 * j) (sha256_finalized h ! i))) [0..<4])
       [0..<8])"

definition hex_digits :: string where
  "hex_digits = ''0123456789abcdef''"

definition sha256_hexDigest :: "sha256_state \<Rightarrow> string" where
  "sha256_hexDigest h =
     concat (map (\<lambda>v. [hex_digits ! unat (drop_bit 4 v), hex_digits ! unat (v AND 15)])
       (sha256_digest h))"

definition sha256 :: "byte list \<Rightarrow> (hash_error, string) result" where
  "sha256 input = rbind (sha256_update sha256_init input) (\<lambda>h. Inr (sha256_hexDigest h))"

section \<open>The hasher represents the message it was fed\<close>

definition sha256_represents :: "sha256_state \<Rightarrow> byte list \<Rightarrow> bool" where
  "sha256_represents h m \<longleftrightarrow>
     length m \<le> sha_limit \<and> m_bytes h = of_nat (length m) \<and>
     buffered sha256_transform sha256_iv (m_state h) (m_pending h) (m_pendingSize h) m"

definition hash_hex :: "u32 list \<Rightarrow> string" where
  "hash_hex st =
     concat (map (\<lambda>v. [hex_digits ! unat (drop_bit 4 v), hex_digits ! unat (v AND 15)])
       (concat (map (\<lambda>i. map (\<lambda>j. ucast (drop_bit (24 - 8 * j) (st ! i)) :: byte) [0..<4]) [0..<8])))"

definition sha256_hash :: "byte list \<Rightarrow> string" where
  "sha256_hash m = hash_hex (absorb sha256_transform sha256_iv (sha_pad m))"

lemma remaining_bytes:
  assumes "n \<le> sha_limit"
  shows "uint (sha256_maximumBytes - of_nat n) = int (sha_limit - n)"
proof -
  have max: "sha256_maximumBytes = of_nat sha_limit"
    by (simp add: sha256_maximumBytes_def sha_limit_def word_div_def)
  have "sha256_maximumBytes - of_nat n = (of_nat (sha_limit - n) :: u64)"
    using assms by (simp add: max of_nat_diff)
  moreover have "sha_limit - n < 2 ^ LENGTH(64)"
    by (simp add: sha_limit_def)
  ultimately show ?thesis
    by (simp add: unsigned_of_nat take_bit_nat_eq_self)
qed

lemma sha256_represents_init: "sha256_represents sha256_init []"
  by (simp add: sha256_represents_def sha256_init_def buffered_empty)

lemma sha256_direct_buffered:
  assumes "buffered sha256_transform sha256_iv st buf 0 m"
    and "sha256_direct st input = (st', rest)"
  shows "\<exists>dn. input = dn @ rest \<and> length rest < 64 \<and>
    buffered sha256_transform sha256_iv st' buf 0 (m @ dn)"
  using assms
proof (induction st input arbitrary: m rule: sha256_direct.induct)
  case (1 st input)
  show ?case
  proof (cases "64 \<le> length input")
    case True
    let ?st = "sha256_transform (take 64 input) st"
    have step: "buffered sha256_transform sha256_iv ?st buf 0 (m @ take 64 input)"
      using "1.prems"(1) True by (intro buffered_direct) simp_all
    have "sha256_direct ?st (drop 64 input) = (st', rest)"
      using "1.prems"(2) True by (simp add: sha256_direct.simps [of st input])
    from "1.IH" [OF True step this] obtain dn where
      "drop 64 input = dn @ rest" "length rest < 64"
      "buffered sha256_transform sha256_iv st' buf 0 ((m @ take 64 input) @ dn)" by blast
    then show ?thesis
      by (intro exI [of _ "take 64 input @ dn"]) (metis append.assoc append_take_drop_id)
  next
    case False
    then show ?thesis
      using "1.prems" by (auto simp: sha256_direct.simps [of st input])
  qed
qed

lemma sha256_topup_buffered:
  assumes "buffered sha256_transform sha256_iv (m_state h) (m_pending h) (m_pendingSize h) m"
    and "sha256_topup h input = (h', rest)"
  shows "\<exists>dn. input = dn @ rest \<and> m_bytes h' = m_bytes h \<and>
    (rest = [] \<or> m_pendingSize h' = 0) \<and>
    buffered sha256_transform sha256_iv (m_state h') (m_pending h') (m_pendingSize h') (m @ dn)"
proof (cases "m_pendingSize h = 0")
  case True
  then show ?thesis using assms by (auto simp: sha256_topup_def)
next
  case False
  define c where "c = min (length input) (64 - m_pendingSize h)"
  have used: "m_pendingSize h < 64" "length (m_pending h) = 64"
    using assms(1) by (auto simp: buffered_def)
  show ?thesis
  proof (cases "m_pendingSize h + c = 64")
    case True
    have "h' = h\<lparr>m_pending := overwrite (m_pending h) (m_pendingSize h) (take c input),
        m_pendingSize := 0,
        m_state := sha256_transform (overwrite (m_pending h) (m_pendingSize h) (take c input)) (m_state h)\<rparr>"
      and rest: "rest = drop c input"
      using assms(2) False True by (auto simp: sha256_topup_def c_def [symmetric] Let_def)
    moreover have "buffered sha256_transform sha256_iv
        (sha256_transform (overwrite (m_pending h) (m_pendingSize h) (take c input)) (m_state h))
        (overwrite (m_pending h) (m_pendingSize h) (take c input)) 0 (m @ take c input)"
      using True used by (intro buffered_complete [OF assms(1)]) (auto simp: c_def)
    ultimately show ?thesis
      by (intro exI [of _ "take c input"]) simp
  next
    case partial: False
    then have c: "c = length input" "m_pendingSize h + c < 64"
      using used by (auto simp: c_def min_def split: if_splits)
    have "h' = h\<lparr>m_pending := overwrite (m_pending h) (m_pendingSize h) input,
        m_pendingSize := m_pendingSize h + c\<rparr>" and rest: "rest = []"
      using assms(2) False partial c(1) by (auto simp: sha256_topup_def c_def [symmetric] Let_def)
    then show ?thesis
      using buffered_fill [OF assms(1), of input] c by (intro exI [of _ input]) simp
  qed
qed

lemma sha256_update_accepts:
  assumes "sha256_represents h m" and "length m + length xs \<le> sha_limit"
  shows "\<exists>h'. sha256_update h xs = Inr h' \<and> sha256_represents h' (m @ xs)"
proof -
  let ?h = "h\<lparr>m_bytes := m_bytes h + of_nat (length xs)\<rparr>"
  from assms(1) have rep: "length m \<le> sha_limit" "m_bytes h = of_nat (length m)"
    "buffered sha256_transform sha256_iv (m_state ?h) (m_pending ?h) (m_pendingSize ?h) m"
    by (simp_all add: sha256_represents_def)
  have fits: "\<not> int (length xs) > uint (sha256_maximumBytes - m_bytes h)"
    using assms(2) by (simp add: rep(2) remaining_bytes [OF rep(1)])
  obtain h1 rest where h1: "sha256_topup ?h xs = (h1, rest)" by (cases "sha256_topup ?h xs")
  obtain st rest2 where st: "sha256_direct (m_state h1) rest = (st, rest2)"
    by (cases "sha256_direct (m_state h1) rest")
  obtain d1 where d1: "xs = d1 @ rest" "m_bytes h1 = m_bytes ?h" "rest = [] \<or> m_pendingSize h1 = 0"
    "buffered sha256_transform sha256_iv (m_state h1) (m_pending h1) (m_pendingSize h1) (m @ d1)"
    using sha256_topup_buffered [OF rep(3) h1] by blast
  have bytes: "m_bytes h1 = of_nat (length (m @ xs))"
    by (simp add: d1(2) rep(2))
  let ?r = "(if rest2 \<noteq> [] then h1\<lparr>m_state := st, m_pending := overwrite (m_pending h1) 0 rest2,
      m_pendingSize := length rest2\<rparr> else h1\<lparr>m_state := st\<rparr>)"
  have upd: "sha256_update h xs = Inr ?r"
    using fits by (simp add: sha256_update_def h1 st Let_def)
  have "buffered sha256_transform sha256_iv (m_state ?r) (m_pending ?r) (m_pendingSize ?r) (m @ xs)"
  proof (cases "rest = []")
    case True
    then show ?thesis using st d1 by (simp add: sha256_direct.simps)
  next
    case False
    with d1 have zero: "m_pendingSize h1 = 0" by simp
    then obtain d2 where d2: "rest = d2 @ rest2" "length rest2 < 64"
      "buffered sha256_transform sha256_iv st (m_pending h1) 0 (m @ d1 @ d2)"
      using sha256_direct_buffered [OF _ st, of "m_pending h1" "m @ d1"] d1(4) by auto
    show ?thesis
      using buffered_fill [OF d2(3), of rest2] d1(1) d2 zero by simp
  qed
  moreover have "m_bytes ?r = of_nat (length (m @ xs))" using bytes by simp
  ultimately show ?thesis
    using upd assms(2) by (simp add: sha256_represents_def)
qed

lemma sha256_update_refuses:
  assumes "sha256_represents h m" and "sha_limit < length m + length xs"
  shows "sha256_update h xs = Inl LengthError"
  using assms by (simp add: sha256_represents_def sha256_update_def remaining_bytes)

lemma put_length_append:
  assumes "length p = 56" and "length t = 8"
  shows "put_length w (p @ t) = p @ be64 w"
proof -
  obtain x0 x1 x2 x3 x4 x5 x6 x7 where "t = [x0, x1, x2, x3, x4, x5, x6, x7]"
    using assms(2) by (auto simp: length_Suc_conv eval_nat_numeral)
  then show ?thesis
    using assms(1) by (simp add: put_length_def be64_def list_update_append upt_rec)
qed

lemma put_length_be64:
  "length b = 64 \<Longrightarrow> put_length w b = take 56 b @ be64 w"
  using put_length_append [of "take 56 b" "drop 56 b"] by simp

lemma list_update_at_take:
  "n < length xs \<Longrightarrow> take (Suc n) (xs[n := v]) = take n xs @ [v]"
  by (simp add: take_Suc_conv_app_nth)

lemma sha256_finalized_eq:
  assumes "buffered f s0 (m_state h) (m_pending h) (m_pendingSize h) m"
  shows "sha256_finalized h =
    final_state sha256_transform (m_state h) (m_pending h) (m_pendingSize h) (be64 (m_bytes h * 8))"
proof -
  have len: "length (m_pending h) = 64" "m_pendingSize h < 64"
    using assms by (auto simp: buffered_def)
  let ?b = "(m_pending h)[m_pendingSize h := 0x80]"
  have prefix: "take (Suc (m_pendingSize h)) ?b = take (m_pendingSize h) (m_pending h) @ [0x80]"
    using len by (intro list_update_at_take) simp
  show ?thesis
  proof (cases "Suc (m_pendingSize h) > 56")
    case True
    then have "fill_zero ?b (Suc (m_pendingSize h)) 64
        = take (m_pendingSize h) (m_pending h) @ [0x80] @ replicate (63 - m_pendingSize h) 0"
      using len by (simp add: fill_zero_def prefix)
    with True len show ?thesis
      by (simp add: sha256_finalized_def final_state_def put_length_be64 fill_zero_def Let_def)
  next
    case False
    then have "56 - m_pendingSize h = Suc (55 - m_pendingSize h)" by simp
    with False len show ?thesis
      by (simp add: sha256_finalized_def final_state_def put_length_be64 fill_zero_def Let_def
          prefix)
  qed
qed

lemma sha256_finish_hash:
  assumes "sha256_represents h m"
  shows "sha256_hexDigest h = sha256_hash m"
proof -
  have "m_bytes h * 8 = of_nat (8 * length m)"
    and "buffered sha256_transform sha256_iv (m_state h) (m_pending h) (m_pendingSize h) m"
    using assms by (simp_all add: sha256_represents_def)
  then have "sha256_finalized h = absorb sha256_transform sha256_iv (sha_pad m)"
    by (simp only: sha256_finalized_eq final_state_pad)
  then show ?thesis
    by (simp add: sha256_hexDigest_def sha256_digest_def sha256_hash_def hash_hex_def)
qed

interpretation native_hash: streaming_hash sha256_represents sha256_init sha256_update
    sha256_hexDigest sha256_hash LengthError
  by unfold_locales
    (rule sha256_represents_init sha256_update_accepts sha256_update_refuses sha256_finish_hash;
     assumption)+

end
