(* ===== verification/Object_Hash.thy ===== *)
theory Object_Hash
  imports Native_Sha256
begin

unbundle bit_operations_syntax

text \<open>
  The hasher of the object store (\<open>src/Objects/ObjectHash.cpp\<close>, the portable branch):
  \<open>block\<close>, \<open>update\<close>, \<open>finish\<close> and \<open>digest\<close>.  It buffers every byte, prints nibbles of
  the state words instead of bytes, and is written independently of the Native class.
  Both implement the same \<open>streaming_hash\<close> contract with the same hash function.
\<close>

record object_hash =
  oh_state :: "u32 list"
  oh_pending :: "byte list"
  oh_length :: u64
  oh_used :: nat

definition ObjectHash_k :: "u32 list" where
  "ObjectHash_k = concat
    [[0x428a2f98, 0x71374491, 0xb5c0fbcf, 0xe9b5dba5, 0x3956c25b, 0x59f111f1, 0x923f82a4, 0xab1c5ed5],
     [0xd807aa98, 0x12835b01, 0x243185be, 0x550c7dc3, 0x72be5d74, 0x80deb1fe, 0x9bdc06a7, 0xc19bf174],
     [0xe49b69c1, 0xefbe4786, 0x0fc19dc6, 0x240ca1cc, 0x2de92c6f, 0x4a7484aa, 0x5cb0a9dc, 0x76f988da],
     [0x983e5152, 0xa831c66d, 0xb00327c8, 0xbf597fc7, 0xc6e00bf3, 0xd5a79147, 0x06ca6351, 0x14292967],
     [0x27b70a85, 0x2e1b2138, 0x4d2c6dfc, 0x53380d13, 0x650a7354, 0x766a0abb, 0x81c2c92e, 0x92722c85],
     [0xa2bfe8a1, 0xa81a664b, 0xc24b8b70, 0xc76c51a3, 0xd192e819, 0xd6990624, 0xf40e3585, 0x106aa070],
     [0x19a4c116, 0x1e376c08, 0x2748774c, 0x34b0bcb5, 0x391c0cb3, 0x4ed8aa4a, 0x5b9cca4f, 0x682e6ff3],
     [0x748f82ee, 0x78a5636f, 0x84c87814, 0x8cc70208, 0x90befffa, 0xa4506ceb, 0xbef9a3f7, 0xc67178f2]]"

definition ObjectHash_block :: "byte list \<Rightarrow> u32 list \<Rightarrow> u32 list" where
  "ObjectHash_block data state =
     (let w = map (\<lambda>i. push_bit 24 (ucast (data ! (i*4))) OR push_bit 16 (ucast (data ! (i*4+1)))
                    OR push_bit 8 (ucast (data ! (i*4+2))) OR ucast (data ! (i*4+3))) [0..<16]
              @ replicate 48 0;
          w = fold (\<lambda>i w. let a = w ! (i - 15); b = w ! (i - 2) in
                w[i := w ! (i - 16) + (word_rotr 7 a XOR word_rotr 18 a XOR drop_bit 3 a)
                         + w ! (i - 7) + (word_rotr 17 b XOR word_rotr 19 b XOR drop_bit 10 b)])
              [16..<64] w;
          vars = fold (\<lambda>i (a, b, c, d, e, f, g, h).
                let t1 = h + (word_rotr 6 e XOR word_rotr 11 e XOR word_rotr 25 e)
                           + ((e AND f) XOR (NOT e AND g)) + ObjectHash_k ! i + w ! i;
                    t2 = (word_rotr 2 a XOR word_rotr 13 a XOR word_rotr 22 a)
                           + ((a AND b) XOR (a AND c) XOR (b AND c))
                in (t1 + t2, a, b, c, d + t1, e, f, g)) [0..<64]
              (state ! 0, state ! 1, state ! 2, state ! 3, state ! 4, state ! 5, state ! 6, state ! 7)
      in case vars of (a, b, c, d, e, f, g, h) \<Rightarrow>
           map (\<lambda>i. state ! i + [a, b, c, d, e, f, g, h] ! i) [0..<8])"

definition ObjectHash_init :: object_hash where
  "ObjectHash_init =
     \<lparr>oh_state = [0x6a09e667,0xbb67ae85,0x3c6ef372,0xa54ff53a,0x510e527f,0x9b05688c,0x1f83d9ab,0x5be0cd19],
      oh_pending = replicate 64 0, oh_length = 0, oh_used = 0\<rparr>"

text \<open>
  The \<open>while (!bytes.empty())\<close> loop.  The class keeps \<open>used < 64\<close>, so every round copies
  at least one byte; the second disjunct of the guard is never taken from such a state.
\<close>

function ObjectHash_absorb ::
  "u32 list \<Rightarrow> byte list \<Rightarrow> nat \<Rightarrow> byte list \<Rightarrow> u32 list \<times> byte list \<times> nat" where
  "ObjectHash_absorb state pending used bytes =
     (if bytes = [] \<or> 64 \<le> used then (state, pending, used)
      else let n = min (length bytes) (64 - used);
               pending = overwrite pending used (take n bytes)
           in if used + n = 64
              then ObjectHash_absorb (ObjectHash_block pending state) pending 0 (drop n bytes)
              else ObjectHash_absorb state pending (used + n) (drop n bytes))"
  by pat_completeness auto
termination
  by (relation "measure (\<lambda>(state, pending, used, bytes). length bytes)") (auto simp: min_def)

declare ObjectHash_absorb.simps [simp del]

definition ObjectHash_update :: "object_hash \<Rightarrow> byte list \<Rightarrow> (hash_error, object_hash) result" where
  "ObjectHash_update h bytes =
     (if int (length bytes) > uint (0xffffffffffffffff div 8 - oh_length h) then Inl LengthError
      else case ObjectHash_absorb (oh_state h) (oh_pending h) (oh_used h) bytes of
        (state, pending, used) \<Rightarrow>
          Inr \<lparr>oh_state = state, oh_pending = pending,
               oh_length = oh_length h + of_nat (length bytes), oh_used = used\<rparr>)"

definition ObjectHash_final_state :: "object_hash \<Rightarrow> u32 list" where
  "ObjectHash_final_state h =
     (let bits = oh_length h * 8;
          pending = (oh_pending h)[oh_used h := 0x80];
          used = Suc (oh_used h);
          (state, pending, used) =
            (if used > 56
             then let pending = fill_zero pending used 64
                  in (ObjectHash_block pending (oh_state h), pending, 0)
             else (oh_state h, pending, used));
          pending = fill_zero pending used 56;
          pending = fold (\<lambda>i p. p[63 - i := ucast (drop_bit (8 * i) bits)]) [0..<8] pending
      in ObjectHash_block pending state)"

definition nibble :: "u32 \<Rightarrow> nat \<Rightarrow> char" where
  "nibble word shift = ''0123456789abcdef'' ! unat (drop_bit shift word AND 15)"

definition ObjectHash_finish :: "object_hash \<Rightarrow> string" where
  "ObjectHash_finish h =
     concat (map (\<lambda>word. map (nibble word) [28, 24, 20, 16, 12, 8, 4, 0]) (ObjectHash_final_state h))"

definition ObjectHash_digest :: "byte list \<Rightarrow> (hash_error, string) result" where
  "ObjectHash_digest bytes = rbind (ObjectHash_update ObjectHash_init bytes) (\<lambda>h. Inr (ObjectHash_finish h))"

section \<open>The block function is the Native transform\<close>

lemma upt_0_8: "[0..<8] = [0, 1, 2, 3, 4, 5, 6, 7]"
  by (simp add: upt_rec)

lemma ObjectHash_block_transform: "ObjectHash_block = sha256_transform"
proof (intro ext)
  fix data state
  have round: "(\<lambda>i (a, b, c, d, e, f, g, h).
      let t1 = h + (word_rotr 6 e XOR word_rotr 11 e XOR word_rotr 25 e)
                 + ((e AND f) XOR (NOT e AND g)) + ObjectHash_k ! i + w ! i;
          t2 = (word_rotr 2 a XOR word_rotr 13 a XOR word_rotr 22 a)
                 + ((a AND b) XOR (a AND c) XOR (b AND c))
      in (t1 + t2, a, b, c, d + t1, e, f, g)) = sha256_round w" for w
    by (intro ext)
      (simp add: sha256_round_def ObjectHash_k_def sha256_constants_def Let_def add.assoc
        split: prod.splits)
  have words: "fold (\<lambda>i w. let a = w ! (i - 15); b = w ! (i - 2) in
        w[i := w ! (i - 16) + (word_rotr 7 a XOR word_rotr 18 a XOR drop_bit 3 a)
                 + w ! (i - 7) + (word_rotr 17 b XOR word_rotr 19 b XOR drop_bit 10 b)])
      [16..<64] (map (\<lambda>i. push_bit 24 (ucast (data ! (i*4))) OR push_bit 16 (ucast (data ! (i*4+1)))
        OR push_bit 8 (ucast (data ! (i*4+2))) OR ucast (data ! (i*4+3))) [0..<16] @ replicate 48 0)
      = sha256_words data"
    by (simp only: sha256_words_def Let_def)
  have eight: "map (\<lambda>i. state ! i + [a, b, c, d, e, f, g, h] ! i) [0..<8] =
      [state ! 0 + a, state ! 1 + b, state ! 2 + c, state ! 3 + d,
       state ! 4 + e, state ! 5 + f, state ! 6 + g, state ! 7 + h]" for a b c d e f g h :: u32
    by (simp add: upt_0_8)
  show "ObjectHash_block data state = sha256_transform data state"
    unfolding ObjectHash_block_def sha256_transform_def Let_def [of "map _ _ @ _"]
    by (subst Let_def, subst words, simp only: Let_def round [unfolded Let_def] eight)
qed

lemma length_transform [simp]: "length (sha256_transform block st) = 8"
  by (simp add: sha256_transform_def Let_def split: prod.splits)

section \<open>The hasher represents the message it was fed\<close>

definition ObjectHash_represents :: "object_hash \<Rightarrow> byte list \<Rightarrow> bool" where
  "ObjectHash_represents h m \<longleftrightarrow>
     length m \<le> sha_limit \<and> oh_length h = of_nat (length m) \<and>
     buffered ObjectHash_block sha256_iv (oh_state h) (oh_pending h) (oh_used h) m"

lemma ObjectHash_represents_init: "ObjectHash_represents ObjectHash_init []"
  by (simp add: ObjectHash_represents_def ObjectHash_init_def buffered_empty
      sha256_iv_def [symmetric])

lemma ObjectHash_absorb_buffered:
  assumes "buffered ObjectHash_block sha256_iv state pending used m"
    and "ObjectHash_absorb state pending used bytes = (state', pending', used')"
  shows "buffered ObjectHash_block sha256_iv state' pending' used' (m @ bytes)"
  using assms
proof (induction state pending used bytes arbitrary: m rule: ObjectHash_absorb.induct)
  case (1 state pending used bytes)
  have used: "used < 64" "length pending = 64"
    using "1.prems"(1) by (auto simp: buffered_def)
  show ?case
  proof (cases "bytes = []")
    case True
    then show ?thesis using "1.prems" by (simp add: ObjectHash_absorb.simps)
  next
    case False
    define n where "n = min (length bytes) (64 - used)"
    let ?p = "overwrite pending used (take n bytes)"
    have go: "\<not> (bytes = [] \<or> 64 \<le> used)" using False used by simp
    have n: "length (take n bytes) = n" "used + n \<le> 64" using used by (auto simp: n_def)
    have p: "length ?p = 64" using used n by simp
    have bytes: "(m @ take n bytes) @ drop n bytes = m @ bytes" by simp
    show ?thesis
    proof (cases "used + n = 64")
      case True
      have "buffered ObjectHash_block sha256_iv (ObjectHash_block ?p state) ?p 0 (m @ take n bytes)"
        using True n(1) by (intro buffered_complete [OF "1.prems"(1) _ p]) simp
      then show ?thesis
        using "1.IH"(1) [OF go n_def refl True, of "m @ take n bytes"] "1.prems"(2) go True
        unfolding bytes by (simp add: ObjectHash_absorb.simps [of state pending used] n_def Let_def)
    next
      case False
      have "buffered ObjectHash_block sha256_iv state ?p (used + n) (m @ take n bytes)"
        using buffered_fill [OF "1.prems"(1), of "take n bytes"] n False by simp
      then show ?thesis
        using "1.IH"(2) [OF go n_def refl False, of "m @ take n bytes"] "1.prems"(2) go False
        unfolding bytes by (simp add: ObjectHash_absorb.simps [of state pending used] n_def Let_def)
    qed
  qed
qed

lemma ObjectHash_remaining:
  "ObjectHash_represents h m \<Longrightarrow>
     uint (0xffffffffffffffff div 8 - oh_length h) = int (sha_limit - length m)"
  using remaining_bytes [of "length m"]
  by (simp add: ObjectHash_represents_def sha256_maximumBytes_def)

lemma ObjectHash_update_accepts:
  assumes "ObjectHash_represents h m" and "length m + length xs \<le> sha_limit"
  shows "\<exists>h'. ObjectHash_update h xs = Inr h' \<and> ObjectHash_represents h' (m @ xs)"
proof -
  obtain st p u where absorbed: "ObjectHash_absorb (oh_state h) (oh_pending h) (oh_used h) xs = (st, p, u)"
    by (cases "ObjectHash_absorb (oh_state h) (oh_pending h) (oh_used h) xs")
  have rep: "oh_length h = of_nat (length m)"
    "buffered ObjectHash_block sha256_iv (oh_state h) (oh_pending h) (oh_used h) m"
    using assms(1) by (simp_all add: ObjectHash_represents_def)
  have "\<not> int (length xs) > uint (0xffffffffffffffff div 8 - oh_length h)"
    using assms(2) by (simp only: ObjectHash_remaining [OF assms(1)])
  then show ?thesis
    using ObjectHash_absorb_buffered [OF rep(2) absorbed] assms(2)
    by (simp only: ObjectHash_update_def if_False absorbed prod.case Inr_inject ex_simps
        ObjectHash_represents_def rep(1)) simp
qed

lemma ObjectHash_update_refuses:
  assumes "ObjectHash_represents h m" and "sha_limit < length m + length xs"
  shows "ObjectHash_update h xs = Inl LengthError"
proof -
  have "int (length xs) > uint (0xffffffffffffffff div 8 - oh_length h)"
    using assms by (simp only: ObjectHash_remaining [OF assms(1)])
      (simp add: ObjectHash_represents_def)
  then show ?thesis by (simp only: ObjectHash_update_def if_True)
qed

text \<open>The final block is assembled as in the Native class.\<close>

lemma ObjectHash_final_state_eq:
  "ObjectHash_final_state h =
     sha256_finalized \<lparr>m_state = oh_state h, m_pending = oh_pending h, m_bytes = oh_length h,
       m_pendingSize = oh_used h\<rparr>"
  by (simp add: ObjectHash_final_state_def sha256_finalized_def put_length_def
      ObjectHash_block_transform Let_def)

lemma fifteen_mask: "15 = (mask 4 :: 'a::len word)"
  by (simp add: mask_eq_exp_minus_1)

lemma unat_byte_via_u32: "ucast (y :: byte) = (z :: u32) \<Longrightarrow> unat y = unat z"
proof -
  assume "ucast y = z"
  then have "unat z = unat (ucast y :: u32)" by simp
  also have "\<dots> = unat y"
    using unsigned_less [of y, where 'a = nat] by (simp add: unsigned_ucast_eq take_bit_nat_eq_self)
  finally show ?thesis by simp
qed

lemma high_nibble:
  "unat (drop_bit 4 (ucast (drop_bit n w) :: byte)) = unat (drop_bit (n + 4) (w :: u32) AND 15)"
  by (rule unat_byte_via_u32, rule bit_eqI)
    (auto simp: bit_simps fifteen_mask add.commute add.left_commute)

lemma low_nibble:
  "unat ((ucast (drop_bit n w) :: byte) AND 15) = unat (drop_bit n (w :: u32) AND 15)"
  by (rule unat_byte_via_u32, rule bit_eqI)
    (auto simp: bit_simps fifteen_mask)

lemma word_hex:
  "concat (map (\<lambda>v. [hex_digits ! unat (drop_bit 4 v), hex_digits ! unat (v AND 15)])
     (map (\<lambda>j. ucast (drop_bit (24 - 8 * j) (w :: u32)) :: byte) [0..<4])) =
   map (nibble w) [28, 24, 20, 16, 12, 8, 4, 0]"
proof -
  have "[0..<4] = [0, 1, 2, 3 :: nat]" by (simp add: upt_rec)
  then show ?thesis
    using high_nibble [of 24 w] high_nibble [of 16 w] high_nibble [of 8 w] high_nibble [of 0 w]
      low_nibble [of 24 w] low_nibble [of 16 w] low_nibble [of 8 w] low_nibble [of 0 w]
    by (simp add: nibble_def hex_digits_def)
qed

lemma concat_map_concat: "concat (map f (concat xss)) = concat (map (\<lambda>xs. concat (map f xs)) xss)"
  by (induction xss) auto

lemma ObjectHash_hex:
  assumes "length st = 8"
  shows "concat (map (\<lambda>w. map (nibble w) [28, 24, 20, 16, 12, 8, 4, 0]) st) = hash_hex st"
proof -
  have "st = map ((!) st) [0..<8]"
    using assms by (metis map_nth)
  then have "concat (map (\<lambda>w. map (nibble w) [28, 24, 20, 16, 12, 8, 4, 0]) st) =
      concat (map (\<lambda>i. map (nibble (st ! i)) [28, 24, 20, 16, 12, 8, 4, 0]) [0..<8])"
    by (metis (no_types, lifting) comp_apply list.map_comp map_eq_conv)
  also have "\<dots> = hash_hex st"
    unfolding hash_hex_def concat_map_concat map_map o_def word_hex [symmetric] by simp
  finally show ?thesis .
qed

lemma ObjectHash_finish_hash:
  assumes "ObjectHash_represents h m"
  shows "ObjectHash_finish h = sha256_hash m"
proof -
  let ?n = "\<lparr>m_state = oh_state h, m_pending = oh_pending h, m_bytes = oh_length h,
    m_pendingSize = oh_used h\<rparr>"
  have "sha256_represents ?n m"
    using assms by (simp add: ObjectHash_represents_def sha256_represents_def ObjectHash_block_transform)
  then have "sha256_hash m = hash_hex (sha256_finalized ?n)"
    using sha256_finish_hash [of ?n m] by (simp add: sha256_hexDigest_def sha256_digest_def hash_hex_def)
  moreover have "length (sha256_finalized ?n) = 8"
    by (simp add: sha256_finalized_def Let_def split: prod.splits)
  ultimately show ?thesis
    by (simp only: ObjectHash_finish_def ObjectHash_final_state_eq ObjectHash_hex)
qed

interpretation object_hash: streaming_hash ObjectHash_represents ObjectHash_init ObjectHash_update
    ObjectHash_finish sha256_hash LengthError
  by unfold_locales
    (rule ObjectHash_represents_init ObjectHash_update_accepts ObjectHash_update_refuses
      ObjectHash_finish_hash; assumption)+

end
