(* ===== verification/Hash_Properties.thy ===== *)
theory Hash_Properties
  imports Object_Hash
begin

text \<open>
  The properties of the two SHA-256 implementations: the digest does not depend on how
  the message is split, the two classes agree on every input, and messages beyond the
  64-bit bit length are refused.
\<close>

text \<open>
  C1: Feeding the Native hasher a message in any sequence of pieces and taking the hex
  digest gives the SHA-256 of the whole message (padding of FIPS 180-4 over the code's
  compression function), for every message of at most \<open>UINT64_MAX / 8\<close> bytes.
\<close>
theorem native_sha256_streaming:
  assumes "length (concat pieces) \<le> sha_limit"
  shows "rbind (foldM (\<lambda>piece h. sha256_update h piece) pieces sha256_init)
           (\<lambda>h. Inr (sha256_hexDigest h)) = Inr (sha256_hash (concat pieces))"
proof -
  obtain h where "foldM (\<lambda>piece h. sha256_update h piece) pieces sha256_init = Inr h"
    and "sha256_hexDigest h = sha256_hash (concat pieces)"
    using native_hash.split_independent [OF assms]
    by (cases "foldM (\<lambda>piece h. sha256_update h piece) pieces sha256_init") auto
  then show ?thesis by simp
qed

theorem native_sha256_streaming_witness:
  "rbind (foldM (\<lambda>piece h. sha256_update h piece) [bytes_of ''ab'', [], bytes_of ''c''] sha256_init)
     (\<lambda>h. Inr (sha256_hexDigest h)) = Inr (sha256_hash (bytes_of ''abc''))"
  using native_sha256_streaming [of "[bytes_of ''ab'', [], bytes_of ''c'']"]
  by (simp add: sha_limit_def bytes_of_def)

text \<open>
  C2: The object store's hasher and the Native hasher compute the same function: on every
  byte string both return the same hex digest, or both refuse it.
\<close>
theorem object_hash_equals_native: "ObjectHash_digest m = sha256 m"
proof (cases "length m \<le> sha_limit")
  case True
  obtain h where h: "sha256_update sha256_init m = Inr h" "sha256_represents h m"
    using native_hash.update_accepts [OF native_hash.represents_empty] True by fastforce
  obtain g where g: "ObjectHash_update ObjectHash_init m = Inr g" "ObjectHash_represents g m"
    using object_hash.update_accepts [OF object_hash.represents_empty] True by fastforce
  show ?thesis
    using native_hash.finish_hash [OF h(2)] object_hash.finish_hash [OF g(2)]
    by (simp add: ObjectHash_digest_def sha256_def h(1) g(1))
next
  case False
  then show ?thesis
    using native_hash.update_refuses [OF native_hash.represents_empty, of m]
      object_hash.update_refuses [OF object_hash.represents_empty, of m]
    by (simp add: ObjectHash_digest_def sha256_def)
qed

text \<open>
  Both hashers refuse, with the length error and on whichever piece crosses the
  boundary, exactly the sequences of pieces whose total exceeds \<open>UINT64_MAX / 8\<close> bytes.
\<close>
theorem hash_length_limit:
  "(foldM (\<lambda>piece h. sha256_update h piece) pieces sha256_init = Inl LengthError \<longleftrightarrow>
     sha_limit < length (concat pieces)) \<and>
   (foldM (\<lambda>piece h. ObjectHash_update h piece) pieces ObjectHash_init = Inl LengthError \<longleftrightarrow>
     sha_limit < length (concat pieces))"
proof (cases "sha_limit < length (concat pieces)")
  case True
  then show ?thesis
    using object_hash.update_all_refuses [OF object_hash.represents_empty, of pieces]
      native_hash.update_all_refuses [OF native_hash.represents_empty, of pieces] by simp
next
  case False
  then show ?thesis
    using object_hash.update_all_accepts [OF object_hash.represents_empty, of pieces]
      native_hash.update_all_accepts [OF native_hash.represents_empty, of pieces] by auto
qed

end
