(* ===== verification/Object_Types.thy ===== *)
theory Object_Types
  imports Object_Hash
begin

text \<open>
  The value types of the object store (\<open>src/Objects/ObjectStore.h\<close>) and the checks on
  caller-supplied text of \<open>ObjectStore.cpp\<close>: \<open>field\<close>, \<open>metadataValid\<close>, \<open>authorValid\<close>,
  \<open>authorshipValid\<close> and \<open>pathValid\<close>.  A \<open>std::runtime_error\<close> is \<open>Fail\<close> with its message, a
  constraint that SQLite reports is \<open>Constraint\<close>, the length error of the hasher is
  \<open>HashTooLong\<close>.
\<close>

datatype store_error = Fail string | Constraint string | HashTooLong

section \<open>Structures\<close>

record ObjectMetadata =
  md_format :: string
  md_payload :: string

record ObjectAuthor =
  origin :: string
  subject :: string
  displayName :: string
  profile :: ObjectMetadata

record ObjectRecord =
  r_key :: string
  r_indexKey :: int
  r_version :: nat
  r_path :: string
  r_sha256 :: string
  r_size :: nat
  r_author :: ObjectAuthor
  r_sessionKey :: string
  r_recordedAtNs :: int
  r_operation :: string
  r_deleted :: bool
  r_parentValidationKey :: string
  r_validationKey :: string
  r_authorship :: ObjectMetadata
  r_sourceStamp :: string
  r_schemaVersion :: nat

record ObjectSession =
  s_key :: string
  s_author :: ObjectAuthor
  s_device :: string
  s_description :: string
  s_startedAtNs :: int
  s_endedAtNs :: int

record ObjectIndexEntry =
  ix_key :: string
  ix_indexKey :: int
  ix_version :: nat
  ix_path :: string
  ix_sha256 :: string
  ix_size :: nat
  ix_validationKey :: string
  ix_sessionKey :: string
  ix_deleted :: bool
  ix_authorOrigin :: string
  ix_authorSubject :: string

record ObjectChange =
  ch_offset :: nat
  ch_beforeHash :: string
  ch_afterHash :: string
  ch_beforeSize :: nat
  ch_afterSize :: nat

record Chunk =
  c_hash :: string
  c_size :: nat

text \<open>
  \<open>ObjectWriteOptions\<close>: the stop token is polled; the answer to the \<open>n\<close>-th poll of a
  call is \<open>wo_cancelled n\<close>.
\<close>

record ObjectWriteOptions =
  wo_authorship :: "ObjectMetadata option"
  wo_sourceStamp :: string
  wo_cancelled :: "nat \<Rightarrow> bool"

record ObjectJournalEntry =
  j_sequence :: int
  j_objectKey :: string
  j_version :: nat
  j_sessionKey :: string
  j_recordedAtNs :: int
  j_operation :: string
  j_path :: string
  j_sha256 :: string
  j_size :: nat
  j_deleted :: bool
  j_validationKey :: string

definition chunkBytes :: nat where
  "chunkBytes = 1024 * 1024"

definition maximumBatchFiles :: nat where
  "maximumBatchFiles = 256"

definition maximumBatchMetadataBytes :: nat where
  "maximumBatchMetadataBytes = 16 * 1024 * 1024"

definition no_metadata :: ObjectMetadata where
  "no_metadata = \<lparr>md_format = [], md_payload = []\<rparr>"

section \<open>Checks on caller text\<close>

definition nul :: char where
  "nul = char_of (0 :: nat)"

definition field :: "string \<Rightarrow> nat \<Rightarrow> bool \<Rightarrow> (store_error, unit) result" where
  "field s maximum required =
     (if (required \<and> s = []) \<or> length s > maximum \<or> nul \<in> set s
      then Inl (Fail ''invalid object metadata'') else Inr ())"

definition fileAuthorFormat :: string where
  "fileAuthorFormat = ''iiFileProvider.FileAuthor/1''"

definition authorshipFormat :: string where
  "authorshipFormat = ''iiFileProvider.Authorship/3''"

definition metadataValid :: "ObjectMetadata \<Rightarrow> (store_error, unit) result" where
  "metadataValid document =
     rbind (field (md_format document) 128 False) (\<lambda>_.
     rbind (field (md_payload document) (2 * 1024 * 1024) False) (\<lambda>_.
       if (md_format document = []) \<noteq> (md_payload document = [])
       then Inl (Fail ''incomplete object metadata document'')
       else if md_format document \<noteq> [] \<and> md_format document \<noteq> fileAuthorFormat
               \<and> md_format document \<noteq> authorshipFormat
       then Inl (Fail ''unsupported object metadata document format'')
       else Inr ()))"

definition authorValid :: "ObjectAuthor \<Rightarrow> (store_error, unit) result" where
  "authorValid author =
     rbind (field (origin author) 2048 True) (\<lambda>_.
     rbind (field (subject author) 1024 True) (\<lambda>_.
     rbind (field (displayName author) 4096 False) (\<lambda>_.
     rbind (metadataValid (profile author)) (\<lambda>_.
       if md_format (profile author) \<noteq> [] \<and> md_format (profile author) \<noteq> fileAuthorFormat
       then Inl (Fail ''actor profile requires FileAuthor metadata'') else Inr ()))))"

definition authorshipValid :: "ObjectMetadata \<Rightarrow> (store_error, unit) result" where
  "authorshipValid document =
     rbind (metadataValid document) (\<lambda>_.
       if md_format document \<noteq> [] \<and> md_format document \<noteq> authorshipFormat
       then Inl (Fail ''original authorship requires an Authorship roster'') else Inr ())"

text \<open>
  The component loop of \<open>pathValid\<close>: it cuts the text at the next \<open>'/'\<close> and stops after
  the last component.
\<close>

function path_parts :: "string \<Rightarrow> string list" where
  "path_parts path =
     (let part = takeWhile (\<lambda>c. c \<noteq> CHR ''/'') path; rest = dropWhile (\<lambda>c. c \<noteq> CHR ''/'') path
      in if rest = [] then [part] else part # path_parts (tl rest))"
  by pat_completeness auto
termination
proof (relation "measure length")
  fix path part rest :: string
  assume "rest = dropWhile (\<lambda>c. c \<noteq> CHR ''/'') path" and "rest \<noteq> []"
  then have "length (tl rest) < length rest" "length rest \<le> length path"
    by (simp_all add: length_dropWhile_le)
  then show "(tl rest, path) \<in> measure length" by simp
qed simp

declare path_parts.simps [simp del]

definition pathValid :: "string \<Rightarrow> (store_error, unit) result" where
  "pathValid path =
     rbind (field path 32768 True) (\<lambda>_.
       if hd path = CHR ''/'' \<or> last path = CHR ''/'' \<or> CHR 0x5C \<in> set path \<or> CHR '':'' \<in> set path
       then Inl (Fail ''logical object path must be relative'')
       else if (\<exists>part \<in> set (path_parts path). part = [] \<or> part = ''.'' \<or> part = ''..'')
       then Inl (Fail ''logical object path contains traversal'')
       else Inr ())"

lemma field_Inr [simp, result_dest]:
  "field s maximum required = Inr u \<longleftrightarrow>
     (required \<longrightarrow> s \<noteq> []) \<and> length s \<le> maximum \<and> nul \<notin> set s"
  by (auto simp: field_def)

lemma field_Inl [simp]:
  "field s maximum required = Inl e \<longleftrightarrow>
     e = Fail ''invalid object metadata'' \<and>
     \<not> ((required \<longrightarrow> s \<noteq> []) \<and> length s \<le> maximum \<and> nul \<notin> set s)"
  by (auto simp: field_def)

end
