(* ===== verification/Object_Db.thy ===== *)
theory Object_Db
  imports Object_Types
begin

text \<open>
  The object package as its SQLite tables (the schema strings of the \<open>ObjectStore\<close>
  constructor) and the statements the store runs on them.  A table is the list of its
  rows in insertion order, or a map where the code only inserts and looks up by the
  primary key.  A statement checks the bound text lengths (\<open>Query::bind\<close>), the
  connection's \<open>query_only\<close> flag and the declared constraints, and fires the two
  triggers: \<open>object_journal_append\<close> and \<open>current_index_publish\<close>.
\<close>

section \<open>Rows and tables\<close>

record object_row =
  ob_index_key :: int
  ob_object_key :: string
  ob_head :: nat
  ob_path :: string
  ob_deleted :: bool

record revision_row =
  rv_object_key :: string
  rv_version :: nat
  rv_path :: string
  rv_sha256 :: string
  rv_size :: nat
  rv_author_origin :: string
  rv_author_subject :: string
  rv_author_name :: string
  rv_session_key :: string
  rv_at_ns :: int
  rv_operation :: string
  rv_deleted :: bool
  rv_parent_key :: string
  rv_validation_key :: string
  rv_metadata_format :: string
  rv_metadata :: string
  rv_source_stamp :: string
  rv_record_format :: nat

record chunk_row =
  cr_object_key :: string
  cr_version :: nat
  cr_ordinal :: int
  cr_sha256 :: string
  cr_size :: nat

record journal_row =
  jr_sequence :: int
  jr_object_key :: string
  jr_version :: nat
  jr_session_key :: string

record work_session_row =
  ws_sequence :: int
  ws_session_key :: string
  ws_context :: string

text \<open>
  The state of \<open>ObjectStore::Impl\<close>: the connection's container key, schema number and
  read-only mode, then the tables.
\<close>

record object_db =
  container :: string
  schema :: nat
  query_only :: bool
  container_key :: string
  sessions :: "ObjectSession list"
  work_sessions :: "work_session_row list"
  objects :: "object_row list"
  revisions :: "revision_row list"
  chunk_data :: "string \<rightharpoonup> byte list"
  revision_chunks :: "chunk_row list"
  raw_revisions :: "(string \<times> nat) \<rightharpoonup> string"
  object_journal :: "journal_row list"
  current_index :: "ObjectIndexEntry list"

definition empty_db :: "string \<Rightarrow> object_db" where
  "empty_db key = \<lparr>container = key, schema = 5, query_only = False, container_key = key, sessions = [],
     work_sessions = [], objects = [], revisions = [], chunk_data = Map.empty,
     revision_chunks = [], raw_revisions = Map.empty, object_journal = [], current_index = []\<rparr>"

text \<open>The next key of an \<open>INTEGER PRIMARY KEY AUTOINCREMENT\<close> column (no row is ever deleted).\<close>

definition next_rowid :: "int list \<Rightarrow> int" where
  "next_rowid ids = fold max ids 0 + 1"

section \<open>Row lookup\<close>

definition find_object :: "object_db \<Rightarrow> string \<Rightarrow> object_row option" where
  "find_object db key = find (\<lambda>ob. ob_object_key ob = key) (objects db)"

definition find_revision :: "object_db \<Rightarrow> string \<Rightarrow> nat \<Rightarrow> revision_row option" where
  "find_revision db key version =
     find (\<lambda>r. rv_object_key r = key \<and> rv_version r = version) (revisions db)"

definition find_session :: "object_db \<Rightarrow> string \<Rightarrow> ObjectSession option" where
  "find_session db key = find (\<lambda>s. s_key s = key) (sessions db)"

definition find_work_session :: "object_db \<Rightarrow> string \<Rightarrow> work_session_row option" where
  "find_work_session db key = find (\<lambda>w. ws_session_key w = key) (work_sessions db)"

section \<open>Statements\<close>

definition bind_limit :: nat where
  "bind_limit = 2 * 1024 * 1024"

definition bind_texts :: "string list \<Rightarrow> (store_error, unit) result" where
  "bind_texts ss =
     (if \<exists>s \<in> set ss. length s > bind_limit
      then Inl (Fail ''object metadata field exceeds limit'') else Inr ())"

definition writable :: "object_db \<Rightarrow> (store_error, unit) result" where
  "writable db = (if query_only db then Inl (Constraint ''read-only database'') else Inr ())"

definition insert_session :: "ObjectSession \<Rightarrow> object_db \<Rightarrow> (store_error, object_db) result" where
  "insert_session s db =
     rbind (bind_texts [s_key s, origin (s_author s), subject (s_author s), displayName (s_author s),
       s_device s, s_description s, md_format (profile (s_author s)), md_payload (profile (s_author s))]) (\<lambda>_.
     rbind (writable db) (\<lambda>_.
       if find_session db (s_key s) \<noteq> None then Inl (Constraint ''sessions.session_key'')
       else Inr (db\<lparr>sessions := sessions db @ [s]\<rparr>)))"

definition insert_work_session ::
  "string \<Rightarrow> string \<Rightarrow> object_db \<Rightarrow> (store_error, object_db) result" where
  "insert_work_session key context db =
     rbind (bind_texts [key, context]) (\<lambda>_.
     rbind (writable db) (\<lambda>_.
       if find_work_session db key \<noteq> None then Inl (Constraint ''work_sessions.session_key'')
       else if find_session db key = None then Inl (Constraint ''foreign key'')
       else Inr (db\<lparr>work_sessions := work_sessions db @
         [\<lparr>ws_sequence = next_rowid (map ws_sequence (work_sessions db)),
           ws_session_key = key, ws_context = context\<rparr>]\<rparr>)))"

definition update_session_ended ::
  "string \<Rightarrow> int \<Rightarrow> object_db \<Rightarrow> (store_error, object_db) result" where
  "update_session_ended key at db =
     rbind (bind_texts [key]) (\<lambda>_.
     rbind (writable db) (\<lambda>_.
       Inr (db\<lparr>sessions := map (\<lambda>s. if s_key s = key then s\<lparr>s_endedAtNs := at\<rparr> else s) (sessions db)\<rparr>)))"

definition live_path_taken :: "object_db \<Rightarrow> string \<Rightarrow> string \<Rightarrow> bool" where
  "live_path_taken db key path \<longleftrightarrow>
     (\<exists>ob \<in> set (objects db). ob_object_key ob \<noteq> key \<and> \<not> ob_deleted ob \<and> ob_path ob = path)"

text \<open>\<open>INSERT INTO objects(object_key,head,path,deleted) VALUES(?,0,?,0)\<close> and its row id.\<close>

definition insert_object ::
  "string \<Rightarrow> string \<Rightarrow> object_db \<Rightarrow> (store_error, int \<times> object_db) result" where
  "insert_object key path db =
     rbind (bind_texts [key, path]) (\<lambda>_.
     rbind (writable db) (\<lambda>_.
       if find_object db key \<noteq> None then Inl (Constraint ''objects.object_key'')
       else if live_path_taken db key path then Inl (Constraint ''live_paths'')
       else let i = next_rowid (map ob_index_key (objects db))
            in Inr (i, db\<lparr>objects := objects db @
                 [\<lparr>ob_index_key = i, ob_object_key = key, ob_head = 0, ob_path = path,
                   ob_deleted = False\<rparr>]\<rparr>)))"

text \<open>The trigger \<open>object_journal_append\<close>.\<close>

definition journal_append :: "revision_row \<Rightarrow> object_db \<Rightarrow> object_db" where
  "journal_append r db = db\<lparr>object_journal := object_journal db @
     [\<lparr>jr_sequence = next_rowid (map jr_sequence (object_journal db)),
       jr_object_key = rv_object_key r, jr_version = rv_version r,
       jr_session_key = rv_session_key r\<rparr>]\<rparr>"

definition insert_revision :: "revision_row \<Rightarrow> object_db \<Rightarrow> (store_error, object_db) result" where
  "insert_revision r db =
     rbind (bind_texts [rv_object_key r, rv_path r, rv_sha256 r, rv_author_origin r,
       rv_author_subject r, rv_author_name r, rv_session_key r, rv_operation r, rv_parent_key r,
       rv_validation_key r, rv_metadata_format r, rv_metadata r, rv_source_stamp r]) (\<lambda>_.
     rbind (writable db) (\<lambda>_.
       if rv_version r = 0 \<or> (rv_record_format r \<noteq> 1 \<and> rv_record_format r \<noteq> 2)
       then Inl (Constraint ''check'')
       else if find_revision db (rv_object_key r) (rv_version r) \<noteq> None
       then Inl (Constraint ''revisions.primary key'')
       else if find_object db (rv_object_key r) = None \<or> find_session db (rv_session_key r) = None
       then Inl (Constraint ''foreign key'')
       else Inr (journal_append r (db\<lparr>revisions := revisions db @ [r]\<rparr>))))"

definition insert_raw ::
  "string \<Rightarrow> nat \<Rightarrow> string \<Rightarrow> object_db \<Rightarrow> (store_error, object_db) result" where
  "insert_raw key version document db =
     rbind (bind_texts [key, document]) (\<lambda>_.
     rbind (writable db) (\<lambda>_.
       if raw_revisions db (key, version) \<noteq> None then Inl (Constraint ''raw_revisions.primary key'')
       else if find_revision db key version = None then Inl (Constraint ''foreign key'')
       else Inr (db\<lparr>raw_revisions := (raw_revisions db)((key, version) \<mapsto> document)\<rparr>)))"

definition insert_chunk ::
  "string \<Rightarrow> byte list \<Rightarrow> object_db \<Rightarrow> (store_error, object_db) result" where
  "insert_chunk digest data db =
     rbind (bind_texts [digest]) (\<lambda>_.
       if length data > chunkBytes then Inl (Fail ''object chunk exceeds limit'')
       else rbind (writable db) (\<lambda>_.
         if chunk_data db digest \<noteq> None then Inl (Constraint ''chunks.sha256'')
         else Inr (db\<lparr>chunk_data := (chunk_data db)(digest \<mapsto> data)\<rparr>)))"

definition insert_revision_chunk ::
  "chunk_row \<Rightarrow> object_db \<Rightarrow> (store_error, object_db) result" where
  "insert_revision_chunk c db =
     rbind (bind_texts [cr_object_key c, cr_sha256 c]) (\<lambda>_.
     rbind (writable db) (\<lambda>_.
       if cr_ordinal c < 0 \<or> cr_size c = 0 then Inl (Constraint ''check'')
       else if (\<exists>d \<in> set (revision_chunks db). cr_object_key d = cr_object_key c
                 \<and> cr_version d = cr_version c \<and> cr_ordinal d = cr_ordinal c)
       then Inl (Constraint ''revision_chunks.primary key'')
       else if chunk_data db (cr_sha256 c) = None
               \<or> find_revision db (cr_object_key c) (cr_version c) = None
       then Inl (Constraint ''foreign key'')
       else Inr (db\<lparr>revision_chunks := revision_chunks db @ [c]\<rparr>)))"

text \<open>The trigger \<open>current_index_publish\<close>: \<open>INSERT OR REPLACE\<close> of the head's projection.\<close>

definition index_entry :: "object_row \<Rightarrow> revision_row \<Rightarrow> ObjectIndexEntry" where
  "index_entry ob r =
     \<lparr>ix_key = ob_object_key ob, ix_indexKey = ob_index_key ob, ix_version = ob_head ob,
      ix_path = ob_path ob, ix_sha256 = rv_sha256 r, ix_size = rv_size r,
      ix_validationKey = rv_validation_key r, ix_sessionKey = rv_session_key r,
      ix_deleted = ob_deleted ob, ix_authorOrigin = rv_author_origin r,
      ix_authorSubject = rv_author_subject r\<rparr>"

definition current_index_publish :: "object_row \<Rightarrow> object_db \<Rightarrow> object_db" where
  "current_index_publish ob db =
     (if ob_head ob > 0 then
        (case find_revision db (ob_object_key ob) (ob_head ob) of
           None \<Rightarrow> db
         | Some r \<Rightarrow> db\<lparr>current_index :=
             filter (\<lambda>e. ix_indexKey e \<noteq> ob_index_key ob) (current_index db) @ [index_entry ob r]\<rparr>)
      else db)"

text \<open>\<open>UPDATE objects SET head=?,path=?,deleted=? WHERE object_key=?\<close>\<close>

definition update_object ::
  "string \<Rightarrow> nat \<Rightarrow> string \<Rightarrow> bool \<Rightarrow> object_db \<Rightarrow> (store_error, object_db) result" where
  "update_object key head path deleted db =
     rbind (bind_texts [path, key]) (\<lambda>_.
     rbind (writable db) (\<lambda>_.
       case find_object db key of
         None \<Rightarrow> Inr db
       | Some ob \<Rightarrow>
           if \<not> deleted \<and> live_path_taken db key path then Inl (Constraint ''live_paths'')
           else let ob' = ob\<lparr>ob_head := head, ob_path := path, ob_deleted := deleted\<rparr>
                in Inr (current_index_publish ob'
                     (db\<lparr>objects := map (\<lambda>x. if ob_object_key x = key then ob' else x) (objects db)\<rparr>))))"

end
