(* ===== verification/Json.thy ===== *)
theory Json
  imports Prelude
begin

text \<open>
  JSON values, as the two parsers the sources call deliver them: SQLite's JSON functions
  (object members in textual order, duplicates possible) and nlohmann/json (members
  sorted, unique).  The parsers and printers themselves are library code; they are the
  fields of \<open>json_library\<close>, an argument of the definitions that use them.
\<close>

datatype json =
    JNull
  | JBool bool
  | JInt int
  | JReal string
  | JString string
  | JArray "json list"
  | JObject "(string \<times> json) list"

record json_library =
  sql_parse :: "string \<Rightarrow> json option"
  sql_text :: "json \<Rightarrow> string"
  nl_parse :: "string \<Rightarrow> json option"
  nl_dump :: "json \<Rightarrow> string option"

fun member :: "json \<Rightarrow> string \<Rightarrow> json option" where
  "member (JObject kvs) k = map_of kvs k"
| "member _ k = None"

fun is_object :: "json \<Rightarrow> bool" where
  "is_object (JObject _) = True"
| "is_object _ = False"

fun is_array :: "json \<Rightarrow> bool" where
  "is_array (JArray _) = True"
| "is_array _ = False"

text \<open>Every object key of the tree, the \<open>key\<close> column of \<open>json_tree\<close>.\<close>

fun json_keys :: "json \<Rightarrow> string list" where
  "json_keys (JArray xs) = concat (map json_keys xs)"
| "json_keys (JObject kvs) = concat (map (\<lambda>(k, v). k # json_keys v) kvs)"
| "json_keys _ = []"

text \<open>No object of the tree names a key twice.\<close>

fun json_distinct :: "json \<Rightarrow> bool" where
  "json_distinct (JArray xs) = list_all json_distinct xs"
| "json_distinct (JObject kvs) =
     (distinct (map fst kvs) \<and> list_all (\<lambda>(k, v). json_distinct v) kvs)"
| "json_distinct _ = True"

definition ascii_lower :: "char \<Rightarrow> char" where
  "ascii_lower c = (let n = (of_char c :: nat) in if 65 \<le> n \<and> n \<le> 90 then char_of (n + 32) else c)"

end
