(* ===== verification/Object_Impl.thy ===== *)
theory Object_Impl
  imports Object_Db Json
begin

text \<open>
  \<open>ObjectStore::Impl\<close> and the free functions of \<open>ObjectStore.cpp\<close> it uses: document
  validation over SQLite's JSON functions, the record projection, the validation key
  (hash chain), chunk storage, ingestion of a source file, publication of a revision and
  validation of a revision chain.  Random keys, the clock and what the file system
  delivers for a source file are arguments.
\<close>

section \<open>Document validation\<close>

definition credential_keys :: "string list" where
  "credential_keys = [''token'', ''secret'', ''authenticationtoken'', ''accesstoken'',
     ''refreshtoken'', ''access_token'', ''refresh_token'', ''password'', ''authorization'']"

definition document_keys :: "bool \<Rightarrow> string list" where
  "document_keys authorship =
     (if authorship
      then [''schemaVersion'', ''revision'', ''modifiedAt'', ''authors'', ''lastAuthor'',
            ''firstEditor'', ''participants'', ''links'']
      else [''schemaVersion'', ''account'', ''details'', ''attribution'', ''serviceOrigin'',
            ''capturedAt'', ''device''])"

definition document_shape :: "bool \<Rightarrow> json \<Rightarrow> bool" where
  "document_shape authorship doc =
     (if authorship
      then list_all (\<lambda>k. \<exists>v \<in> set_option (member doc k). is_array v)
             [''authors'', ''participants'', ''links'']
      else list_all (\<lambda>k. \<exists>v \<in> set_option (member doc k). is_object v)
             [''account'', ''details'', ''attribution''])"

text \<open>The checks of \<open>validateDocument\<close> before it descends into the authors.\<close>

definition validateFields ::
  "json_library \<Rightarrow> ObjectMetadata \<Rightarrow> (store_error, json option) result" where
  "validateFields J document =
     rbind (metadataValid document) (\<lambda>_.
       if md_payload document = [] then Inr None
       else case sql_parse J (md_payload document) of
         None \<Rightarrow> Inl (Fail ''invalid object metadata JSON'')
       | Some doc \<Rightarrow>
           let authorship = (md_format document = authorshipFormat) in
           if \<not> (is_object doc \<and> member doc ''schemaVersion'' = Some (JInt (if authorship then 3 else 1)))
           then Inl (Fail ''invalid object metadata schema'')
           else if \<exists>k \<in> set (case doc of JObject kvs \<Rightarrow> map fst kvs | _ \<Rightarrow> []).
                     k \<notin> set (document_keys authorship)
           then Inl (Fail ''unknown object metadata field'')
           else if \<exists>k \<in> set (json_keys doc). map ascii_lower k \<in> set credential_keys
           then Inl (Fail ''runtime credentials are forbidden in object metadata'')
           else if \<not> json_distinct doc then Inl (Fail ''duplicate object metadata key'')
           else if \<not> document_shape authorship doc
           then Inl (Fail ''incomplete object metadata document'')
           else Inr (Some doc))"

text \<open>
  \<open>json_extract(value,'$.author')\<close> of one element of \<open>json_each(?,'$.authors')\<close>, read with
  \<open>Query::text\<close>: a string element is itself JSON text, an object or array result is its
  text, any other result is not a text column.
\<close>

definition author_text :: "json_library \<Rightarrow> json \<Rightarrow> (store_error, string) result" where
  "author_text J element =
     rbind (case element of
              JString s \<Rightarrow> of_option (Constraint ''malformed JSON'') (sql_parse J s)
            | _ \<Rightarrow> Inr element) (\<lambda>doc.
       case member doc ''author'' of
         Some (JString s) \<Rightarrow> Inr s
       | Some (JObject kvs) \<Rightarrow> Inr (sql_text J (JObject kvs))
       | Some (JArray xs) \<Rightarrow> Inr (sql_text J (JArray xs))
       | _ \<Rightarrow> Inl (Fail ''invalid object text field''))"

fun validateAuthors ::
  "json_library \<Rightarrow> nat \<Rightarrow> json list \<Rightarrow> (store_error, unit) result" where
  "validateAuthors J count [] = Inr ()"
| "validateAuthors J count (x # xs) =
     (if Suc count > 256 then Inl (Fail ''too many object authors'')
      else rbind (author_text J x) (\<lambda>text.
           rbind (validateFields J \<lparr>md_format = fileAuthorFormat, md_payload = text\<rparr>) (\<lambda>_.
             validateAuthors J (Suc count) xs)))"

definition validateDocument :: "json_library \<Rightarrow> ObjectMetadata \<Rightarrow> (store_error, unit) result" where
  "validateDocument J document =
     rbind (validateFields J document) (\<lambda>parsed.
       case parsed of
         None \<Rightarrow> Inr ()
       | Some doc \<Rightarrow>
           if md_format document = authorshipFormat
           then (case member doc ''authors'' of
                   Some (JArray xs) \<Rightarrow> validateAuthors J 0 xs
                 | _ \<Rightarrow> Inr ())
           else Inr ())"

definition json_text_at :: "json \<Rightarrow> string list \<Rightarrow> string option" where
  "json_text_at doc path =
     (case foldl (\<lambda>d k. Option.bind d (\<lambda>d. member d k)) (Some doc) path of
        Some (JString s) \<Rightarrow> Some s | _ \<Rightarrow> None)"

definition validateActor :: "json_library \<Rightarrow> ObjectAuthor \<Rightarrow> (store_error, unit) result" where
  "validateActor J author =
     rbind (validateDocument J (profile author)) (\<lambda>_.
       if md_payload (profile author) = [] then Inr ()
       else rbind (of_option (Fail ''invalid object metadata JSON'')
                     (sql_parse J (md_payload (profile author)))) (\<lambda>doc.
            rbind (of_option (Fail ''invalid object text field'')
                     (json_text_at doc [''account'', ''sub''])) (\<lambda>sub.
            if sub \<noteq> subject author then Inl (Fail ''object actor profile identity mismatch'')
            else rbind (of_option (Fail ''invalid object text field'')
                     (json_text_at doc [''serviceOrigin''])) (\<lambda>service.
            if service \<noteq> origin author then Inl (Fail ''object actor profile identity mismatch'')
            else Inr ()))))"

section \<open>Records and the validation key\<close>

definition record_of :: "object_row \<Rightarrow> revision_row \<Rightarrow> ObjectSession \<Rightarrow> ObjectRecord" where
  "record_of ob r s =
     \<lparr>r_key = rv_object_key r, r_indexKey = ob_index_key ob, r_version = rv_version r,
      r_path = rv_path r, r_sha256 = rv_sha256 r, r_size = rv_size r,
      r_author = \<lparr>origin = rv_author_origin r, subject = rv_author_subject r,
        displayName = rv_author_name r, profile = profile (s_author s)\<rparr>,
      r_sessionKey = rv_session_key r, r_recordedAtNs = rv_at_ns r, r_operation = rv_operation r,
      r_deleted = rv_deleted r, r_parentValidationKey = rv_parent_key r,
      r_validationKey = rv_validation_key r,
      r_authorship = \<lparr>md_format = rv_metadata_format r, md_payload = rv_metadata r\<rparr>,
      r_sourceStamp = rv_source_stamp r, r_schemaVersion = rv_record_format r\<rparr>"

definition lift_hash :: "(hash_error, 'a) result \<Rightarrow> (store_error, 'a) result" where
  "lift_hash = map_sum (\<lambda>_. HashTooLong) id"

text \<open>
  The lambda \<open>add\<close> of \<open>validationKey\<close>: three updates, the decimal length, a colon, the text.
\<close>

definition key_pieces :: "string list \<Rightarrow> byte list list" where
  "key_pieces vs =
     concat (map (\<lambda>v. [bytes_of (nat_to_string (length v)), bytes_of '':'', bytes_of v]) vs)"

definition record_format_name :: "nat \<Rightarrow> string" where
  "record_format_name version = (if version = 1 then ''society-object-v1'' else ''society-object-v2'')"

definition key_fields ::
  "ObjectRecord \<Rightarrow> ObjectSession \<Rightarrow> string \<Rightarrow> string \<Rightarrow> string \<Rightarrow> string list" where
  "key_fields r s box context raw =
     [record_format_name (r_schemaVersion r), box, r_key r, int_to_string (r_indexKey r),
      nat_to_string (r_version r), r_path r, r_sha256 r, nat_to_string (r_size r),
      origin (r_author r), subject (r_author r), displayName (r_author r), r_sessionKey r,
      int_to_string (r_recordedAtNs r), r_operation r,
      (if r_deleted r then ''deleted'' else ''live''), r_parentValidationKey r,
      s_device s, s_description s, int_to_string (s_startedAtNs s)]
     @ (if r_schemaVersion r = 2
        then [md_format (profile (r_author r)), md_payload (profile (r_author r)),
              md_format (r_authorship r), md_payload (r_authorship r), r_sourceStamp r]
        else [])
     @ (if context \<noteq> [] then [''iiFileProvider.WorkSession/1'', context] else [])
     @ (if raw \<noteq> [] then [''iiFileProvider.RawEnvelope/1'', raw] else [])"

definition hash_pieces :: "byte list list \<Rightarrow> (store_error, string) result" where
  "hash_pieces pieces =
     lift_hash (rbind (foldM (\<lambda>piece h. ObjectHash_update h piece) pieces ObjectHash_init)
       (\<lambda>h. Inr (ObjectHash_finish h)))"

definition validationKey ::
  "ObjectRecord \<Rightarrow> ObjectSession \<Rightarrow> string \<Rightarrow> string \<Rightarrow> string \<Rightarrow> (store_error, string) result" where
  "validationKey r s box context raw =
     rbind (hash_pieces (key_pieces (key_fields r s box context raw))) (\<lambda>digest.
       Inr (record_format_name (r_schemaVersion r) @ '':'' @ digest))"

section \<open>Reading rows\<close>

definition session_context :: "object_db \<Rightarrow> string \<Rightarrow> (store_error, string) result" where
  "session_context db key =
     (if schema db < 4 then Inr []
      else rbind (bind_texts [key]) (\<lambda>_.
        case find_work_session db key of
          None \<Rightarrow> Inl (Fail ''work-session context is missing'')
        | Some w \<Rightarrow> Inr (ws_context w)))"

definition rawDocument :: "object_db \<Rightarrow> string \<Rightarrow> nat \<Rightarrow> (store_error, string) result" where
  "rawDocument db key version =
     (if schema db < 4 then Inr []
      else rbind (bind_texts [key]) (\<lambda>_.
        Inr (case raw_revisions db (key, version) of None \<Rightarrow> [] | Some d \<Rightarrow> d)))"

definition getSession :: "object_db \<Rightarrow> string \<Rightarrow> bool \<Rightarrow> (store_error, ObjectSession) result" where
  "getSession db key active =
     rbind (bind_texts [key]) (\<lambda>_.
       case find_session db key of
         None \<Rightarrow> Inl (Fail ''object work session not found'')
       | Some s \<Rightarrow> if active \<and> s_endedAtNs s \<noteq> 0
                   then Inl (Fail ''object work session is closed'') else Inr s)"

text \<open>\<open>get(key, version)\<close>; version 0 selects the head.\<close>

definition select_record :: "object_db \<Rightarrow> string \<Rightarrow> nat \<Rightarrow> ObjectRecord option" where
  "select_record db key version =
     (case find_object db key of
        None \<Rightarrow> None
      | Some ob \<Rightarrow>
          (case find_revision db key (if version \<noteq> 0 then version else ob_head ob) of
             None \<Rightarrow> None
           | Some r \<Rightarrow>
               (case find_session db (rv_session_key r) of
                  None \<Rightarrow> None
                | Some s \<Rightarrow> Some (record_of ob r s))))"

definition get_record :: "object_db \<Rightarrow> string \<Rightarrow> nat \<Rightarrow> (store_error, ObjectRecord option) result" where
  "get_record db key version = rbind (bind_texts [key]) (\<lambda>_. Inr (select_record db key version))"

definition select_chunks :: "object_db \<Rightarrow> string \<Rightarrow> nat \<Rightarrow> chunk_row list" where
  "select_chunks db key version =
     sort_key cr_ordinal (filter (\<lambda>c. cr_object_key c = key \<and> cr_version c = version) (revision_chunks db))"

definition chunks :: "object_db \<Rightarrow> string \<Rightarrow> nat \<Rightarrow> (store_error, Chunk list) result" where
  "chunks db key version =
     rbind (bind_texts [key]) (\<lambda>_.
       let rows = select_chunks db key version in
       if map cr_ordinal rows \<noteq> map int [0..<length rows]
       then Inl (Fail ''non-contiguous object chunks'')
       else Inr (map (\<lambda>c. \<lparr>c_hash = cr_sha256 c, c_size = cr_size c\<rparr>) rows))"

section \<open>Storing chunks and ingesting a source\<close>

definition storeChunk ::
  "byte list \<Rightarrow> object_db \<Rightarrow> (store_error, Chunk \<times> object_db) result" where
  "storeChunk bytes db =
     rbind (lift_hash (ObjectHash_digest bytes)) (\<lambda>digest.
     rbind (bind_texts [digest]) (\<lambda>_.
     rbind (case chunk_data db digest of
              Some previous \<Rightarrow>
                if previous \<noteq> bytes then Inl (Fail ''corrupt existing object chunk'') else Inr db
            | None \<Rightarrow> insert_chunk digest bytes db) (\<lambda>db'.
       Inr (\<lparr>c_hash = digest, c_size = length bytes\<rparr>, db'))))"

text \<open>
  What the file system delivers for one source during \<open>ingest\<close>: the canonical path or a
  redirection (\<open>None\<close>), the file type, size and modification time before the read, the
  bytes the stream yields up to its end, the stream's bad bit, and the second look at
  path, size and time.
\<close>

record source_file =
  sf_direct :: "string option"
  sf_regular :: bool
  sf_size :: nat
  sf_modified :: int
  sf_opens :: bool
  sf_bytes :: "byte list"
  sf_bad :: bool
  sf_direct_after :: "string option"
  sf_size_after :: nat
  sf_modified_after :: int

record ingest_state =
  ig_polls :: nat
  ig_total :: nat
  ig_hash :: object_hash
  ig_parts :: "Chunk list"

definition ingest_start :: ingest_state where
  "ingest_start = \<lparr>ig_polls = 0, ig_total = 0, ig_hash = ObjectHash_init, ig_parts = []\<rparr>"

definition cancelled_error :: store_error where
  "cancelled_error = Fail ''object packaging cancelled''"

definition changed_error :: store_error where
  "changed_error = Fail ''object source changed during packaging''"

text \<open>The bookkeeping after one chunk: a poll is spent, the totals, hash and part list grow.\<close>

definition ingest_next :: "ingest_state \<Rightarrow> byte list \<Rightarrow> object_hash \<Rightarrow> Chunk \<Rightarrow> ingest_state" where
  "ingest_next g piece h part =
     g\<lparr>ig_polls := Suc (ig_polls g), ig_total := ig_total g + length piece, ig_hash := h,
       ig_parts := ig_parts g @ [part]\<rparr>"

text \<open>
  The \<open>while(stream)\<close> loop: a read shorter than a chunk sets the end-of-file bit, so the
  loop ends after it; a read of zero bytes breaks.
\<close>

function ingest_stream ::
  "(nat \<Rightarrow> bool) \<Rightarrow> nat \<Rightarrow> byte list \<Rightarrow> ingest_state \<Rightarrow> object_db
     \<Rightarrow> (store_error, ingest_state \<times> object_db) result" where
  "ingest_stream cancelled expected rest g db =
     (if cancelled (ig_polls g) then Inl cancelled_error
      else let piece = take chunkBytes rest in
        if piece = [] then Inr (g\<lparr>ig_polls := Suc (ig_polls g)\<rparr>, db)
        else rbind (lift_hash (ObjectHash_update (ig_hash g) piece)) (\<lambda>h.
          if ig_total g + length piece > expected then Inl changed_error
          else rbind (storeChunk piece db) (\<lambda>(part, db).
            if length piece < chunkBytes then Inr (ingest_next g piece h part, db)
            else ingest_stream cancelled expected (drop chunkBytes rest) (ingest_next g piece h part) db)))"
  by pat_completeness auto
termination
  by (relation "measure (\<lambda>(cancelled, expected, rest, g, db). length rest)") (auto simp: chunkBytes_def)

declare ingest_stream.simps [simp del]

definition ingest_file ::
  "source_file \<Rightarrow> (nat \<Rightarrow> bool) \<Rightarrow> ObjectRecord \<Rightarrow> object_db
     \<Rightarrow> (store_error, Chunk list \<times> ObjectRecord \<times> object_db) result" where
  "ingest_file f cancelled r db =
     rbind (of_option (Fail ''redirected object path is forbidden'') (sf_direct f)) (\<lambda>source.
       if \<not> sf_regular f then Inl (Fail ''object source is not a regular file'')
       else if int (sf_size f) > int64_max then Inl (Fail ''object source exceeds format size'')
       else if \<not> sf_opens f then Inl (Fail ''cannot read object source'')
       else rbind (ingest_stream cancelled (sf_size f) (sf_bytes f) ingest_start db) (\<lambda>(g, db).
         if cancelled (ig_polls g) then Inl cancelled_error
         else if sf_bad f \<or> ig_total g \<noteq> sf_size f then Inl changed_error
         else rbind (of_option (Fail ''redirected object path is forbidden'') (sf_direct_after f)) (\<lambda>again.
         if again \<noteq> source \<or> sf_size_after f \<noteq> sf_size f \<or> sf_modified_after f \<noteq> sf_modified f
         then Inl changed_error
         else Inr (ig_parts g, r\<lparr>r_sha256 := ObjectHash_finish (ig_hash g), r_size := ig_total g\<rparr>, db))))"

text \<open>
  \<open>PreparedObjectSource\<close>: bytes read ahead by \<open>readObjectBatch\<close>, and whether
  \<open>ObjectSource::inspect\<close> still reports the identity taken when they were read.
\<close>

record prepared_source =
  ps_bytes :: "byte list"
  ps_unchanged :: bool

function ingest_slices ::
  "(nat \<Rightarrow> bool) \<Rightarrow> byte list \<Rightarrow> ingest_state \<Rightarrow> object_db
     \<Rightarrow> (store_error, ingest_state \<times> object_db) result" where
  "ingest_slices cancelled rest g db =
     (if rest = [] then Inr (g, db)
      else if cancelled (ig_polls g) then Inl cancelled_error
      else let piece = take chunkBytes rest in
        rbind (lift_hash (ObjectHash_update (ig_hash g) piece)) (\<lambda>h.
        rbind (storeChunk piece db) (\<lambda>(part, db).
          ingest_slices cancelled (drop chunkBytes rest) (ingest_next g piece h part) db)))"
  by pat_completeness auto
termination
  by (relation "measure (\<lambda>(cancelled, rest, g, db). length rest)") (auto simp: chunkBytes_def)

declare ingest_slices.simps [simp del]

definition ingest_prepared ::
  "prepared_source \<Rightarrow> (nat \<Rightarrow> bool) \<Rightarrow> ObjectRecord \<Rightarrow> object_db
     \<Rightarrow> (store_error, Chunk list \<times> ObjectRecord \<times> object_db) result" where
  "ingest_prepared p cancelled r db =
     rbind (ingest_slices cancelled (ps_bytes p) ingest_start db) (\<lambda>(g, db).
       if cancelled (ig_polls g) then Inl cancelled_error
       else if \<not> ps_unchanged p then Inl (Fail ''object batch source changed before publication'')
       else Inr (ig_parts g,
         r\<lparr>r_sha256 := ObjectHash_finish (ig_hash g), r_size := length (ps_bytes p)\<rparr>, db))"

datatype ingest_input = FromFile source_file | Prepared prepared_source

definition ingest ::
  "ingest_input \<Rightarrow> (nat \<Rightarrow> bool) \<Rightarrow> ObjectRecord \<Rightarrow> object_db
     \<Rightarrow> (store_error, Chunk list \<times> ObjectRecord \<times> object_db) result" where
  "ingest input cancelled r db =
     (case input of FromFile f \<Rightarrow> ingest_file f cancelled r db
      | Prepared p \<Rightarrow> ingest_prepared p cancelled r db)"

section \<open>Publication\<close>

definition revision_of :: "ObjectRecord \<Rightarrow> revision_row" where
  "revision_of r =
     \<lparr>rv_object_key = r_key r, rv_version = r_version r, rv_path = r_path r, rv_sha256 = r_sha256 r,
      rv_size = r_size r, rv_author_origin = origin (r_author r),
      rv_author_subject = subject (r_author r), rv_author_name = displayName (r_author r),
      rv_session_key = r_sessionKey r, rv_at_ns = r_recordedAtNs r, rv_operation = r_operation r,
      rv_deleted = r_deleted r, rv_parent_key = r_parentValidationKey r,
      rv_validation_key = r_validationKey r, rv_metadata_format = md_format (r_authorship r),
      rv_metadata = md_payload (r_authorship r), rv_source_stamp = r_sourceStamp r,
      rv_record_format = 2\<rparr>"

fun insert_parts ::
  "string \<Rightarrow> nat \<Rightarrow> int \<Rightarrow> Chunk list \<Rightarrow> object_db \<Rightarrow> (store_error, object_db) result" where
  "insert_parts key version ordinal [] db = Inr db"
| "insert_parts key version ordinal (part # parts) db =
     rbind (insert_revision_chunk \<lparr>cr_object_key = key, cr_version = version, cr_ordinal = ordinal,
       cr_sha256 = c_hash part, cr_size = c_size part\<rparr> db)
       (insert_parts key version (ordinal + 1) parts)"

definition publish ::
  "ObjectRecord \<Rightarrow> ObjectSession \<Rightarrow> Chunk list \<Rightarrow> string option \<Rightarrow> int \<Rightarrow> object_db
     \<Rightarrow> (store_error, ObjectRecord \<times> object_db) result" where
  "publish r s parts raw now db =
     rbind (case raw of
              Some d \<Rightarrow> Inr d
            | None \<Rightarrow> if r_version r > 1 then rawDocument db (r_key r) (r_version r - 1) else Inr []) (\<lambda>document.
     let r = r\<lparr>r_author := s_author s, r_sessionKey := s_key s, r_recordedAtNs := now,
               r_schemaVersion := 2\<rparr> in
     rbind (session_context db (s_key s)) (\<lambda>ctx.
     rbind (validationKey r s (container db) ctx document) (\<lambda>vkey.
     let r = r\<lparr>r_validationKey := vkey\<rparr> in
     rbind (insert_revision (revision_of r) db) (\<lambda>db.
     rbind (if document \<noteq> [] then insert_raw (r_key r) (r_version r) document db else Inr db) (\<lambda>db.
     rbind (insert_parts (r_key r) (r_version r) 0 parts db) (\<lambda>db.
     rbind (update_object (r_key r) (r_version r) (r_path r) (r_deleted r) db) (\<lambda>db.
       Inr (r, db))))))))"

definition new_record :: "string \<Rightarrow> string \<Rightarrow> string \<Rightarrow> ObjectWriteOptions \<Rightarrow> ObjectRecord" where
  "new_record key path operation options =
     \<lparr>r_key = key, r_indexKey = 0, r_version = 1, r_path = path, r_sha256 = [], r_size = 0,
      r_author = \<lparr>origin = [], subject = [], displayName = [], profile = no_metadata\<rparr>,
      r_sessionKey = [], r_recordedAtNs = 0, r_operation = operation, r_deleted = False,
      r_parentValidationKey = [], r_validationKey = [],
      r_authorship = (case wo_authorship options of None \<Rightarrow> no_metadata | Some m \<Rightarrow> m),
      r_sourceStamp = wo_sourceStamp options, r_schemaVersion = 2\<rparr>"

definition for_option :: "('a \<Rightarrow> ('e, unit) result) \<Rightarrow> 'a option \<Rightarrow> ('e, unit) result" where
  "for_option f x = (case x of None \<Rightarrow> Inr () | Some v \<Rightarrow> f v)"

text \<open>\<open>Impl::importFile\<close>; \<open>key\<close> is the random object key, \<open>now\<close> the clock.\<close>

definition impl_importFile ::
  "json_library \<Rightarrow> string \<Rightarrow> int \<Rightarrow> ingest_input \<Rightarrow> string \<Rightarrow> ObjectSession \<Rightarrow> ObjectWriteOptions
     \<Rightarrow> string \<Rightarrow> object_db \<Rightarrow> (store_error, ObjectRecord \<times> object_db) result" where
  "impl_importFile J key now input path s options raw db =
     rbind (for_option authorshipValid (wo_authorship options)) (\<lambda>_.
     rbind (field (wo_sourceStamp options) 32768 False) (\<lambda>_.
     rbind (pathValid path) (\<lambda>_.
     rbind (for_option (validateDocument J) (wo_authorship options)) (\<lambda>_.
     let r = new_record key path (if raw = [] then ''import'' else ''wrap_raw'') options in
     rbind (insert_object key path db) (\<lambda>(i, db).
     rbind (ingest input (wo_cancelled options) (r\<lparr>r_indexKey := i\<rparr>) db) (\<lambda>(parts, r, db).
       publish r s parts (Some raw) now db))))))"

section \<open>Validation of a revision chain\<close>

function validate_chain ::
  "object_db \<Rightarrow> string \<Rightarrow> nat \<Rightarrow> nat \<Rightarrow> string \<Rightarrow> (store_error, bool) result" where
  "validate_chain db key version v previous =
     (if v > version then Inr True
      else rbind (get_record db key v) (\<lambda>found.
        case found of
          None \<Rightarrow> Inr False
        | Some r \<Rightarrow>
            rbind (getSession db (r_sessionKey r) False) (\<lambda>s.
            if r_schemaVersion r \<noteq> 1 \<and> r_schemaVersion r \<noteq> 2 then Inr False
            else if r_schemaVersion r = 1 \<and> (md_payload (profile (r_author r)) \<noteq> []
                 \<or> md_payload (r_authorship r) \<noteq> [] \<or> r_sourceStamp r \<noteq> []) then Inr False
            else if r_version r \<noteq> v \<or> r_parentValidationKey r \<noteq> previous \<or> r_author r \<noteq> s_author s
            then Inr False
            else rbind (session_context db (s_key s)) (\<lambda>ctx.
                 rbind (rawDocument db key v) (\<lambda>raw.
                 rbind (validationKey r s (container db) ctx raw) (\<lambda>vkey.
                 if vkey \<noteq> r_validationKey r then Inr False
                 else validate_chain db key version (Suc v) (r_validationKey r)))))))"
  by pat_completeness auto
termination
  by (relation "measure (\<lambda>(db, key, version, v, previous). Suc version - v)") auto

declare validate_chain.simps [simp del]

fun validate_parts ::
  "object_db \<Rightarrow> Chunk list \<Rightarrow> nat \<Rightarrow> object_hash \<Rightarrow> (store_error, (nat \<times> object_hash) option) result" where
  "validate_parts db [] n h = Inr (Some (n, h))"
| "validate_parts db (part # parts) n h =
     (if parts \<noteq> [] \<and> c_size part \<noteq> chunkBytes then Inr None
      else rbind (bind_texts [c_hash part]) (\<lambda>_.
        case chunk_data db (c_hash part) of
          None \<Rightarrow> Inr None
        | Some bytes \<Rightarrow>
            if length bytes \<noteq> c_size part \<or> bytes = [] \<or> length bytes > chunkBytes then Inr None
            else rbind (lift_hash (ObjectHash_digest bytes)) (\<lambda>digest.
              if digest \<noteq> c_hash part then Inr None
              else rbind (lift_hash (ObjectHash_update h bytes)) (\<lambda>h.
                validate_parts db parts (n + length bytes) h))))"

definition validate_payload :: "object_db \<Rightarrow> ObjectRecord \<Rightarrow> string \<Rightarrow> nat \<Rightarrow> (store_error, bool) result" where
  "validate_payload db r key version =
     rbind (chunks db key version) (\<lambda>parts.
       if r_deleted r then Inr (parts = [])
       else if length parts \<noteq> r_size r div chunkBytes + (if r_size r mod chunkBytes \<noteq> 0 then 1 else 0)
       then Inr False
       else rbind (validate_parts db parts 0 ObjectHash_init) (\<lambda>res.
         Inr (case res of None \<Rightarrow> False
              | Some (n, h) \<Rightarrow> n = r_size r \<and> ObjectHash_finish h = r_sha256 r)))"

definition impl_validate :: "object_db \<Rightarrow> string \<Rightarrow> nat \<Rightarrow> bool \<Rightarrow> (store_error, bool) result" where
  "impl_validate db key version payload =
     (if version = 0 \<or> int version > int64_max then Inr False
      else rbind (validate_chain db key version 1 []) (\<lambda>ok.
        if \<not> ok then Inr False
        else if \<not> payload then Inr True
        else rbind (get_record db key version) (\<lambda>found.
          case found of None \<Rightarrow> Inr False | Some r \<Rightarrow> validate_payload db r key version)))"

definition impl_require :: "object_db \<Rightarrow> string \<Rightarrow> nat \<Rightarrow> (store_error, ObjectRecord) result" where
  "impl_require db key expected =
     rbind (get_record db key 0) (\<lambda>found.
       case found of
         None \<Rightarrow> Inl (Fail ''live object not found'')
       | Some r \<Rightarrow>
           if r_deleted r then Inl (Fail ''live object not found'')
           else if expected = 0 \<or> r_version r \<noteq> expected \<or> int expected \<ge> int64_max
           then Inl (Fail ''object version conflict'')
           else rbind (impl_validate db key (r_version r) False) (\<lambda>ok.
             if \<not> ok then Inl (Fail ''object metadata chain is corrupt'') else Inr r))"

end
