(* ===== verification/Object_Codec.thy ===== *)
theory Object_Codec
  imports Object_Impl
begin

text \<open>
  The documents kept beside revisions and work sessions
  (\<open>src/Objects/ObjectMetadataCodec.cpp\<close>): RAW envelope metadata and session contexts,
  encoded as canonical JSON, decoded only if re-encoding gives the same text, and compared
  member by member.  A \<open>std::map\<close> is its association list in key order; the members of
  an encoded object are listed in key order, as nlohmann/json keeps them.
\<close>

datatype ColorLabel = CNone | CRed | COrange | CYellow | CGreen | CBlue | CPurple | CGray

definition color_labels :: "ColorLabel list" where
  "color_labels = [CNone, CRed, COrange, CYellow, CGreen, CBlue, CPurple, CGray]"

fun color_number :: "ColorLabel \<Rightarrow> nat" where
  "color_number CNone = 0" | "color_number CRed = 1" | "color_number COrange = 2"
| "color_number CYellow = 3" | "color_number CGreen = 4" | "color_number CBlue = 5"
| "color_number CPurple = 6" | "color_number CGray = 7"

record FileMetadata =
  fm_title :: string
  fm_description :: string
  fm_keywords :: "string list"
  fm_rating :: nat
  fm_color :: ColorLabel
  fm_fields :: "(string \<times> string) list"
  fm_collections :: "string list"

record RawMetadata =
  rm_originalName :: string
  rm_mediaType :: string
  rm_annotations :: FileMetadata

record ObjectSessionContext =
  sc_application :: string
  sc_applicationVersion :: string
  sc_project :: string
  sc_document :: string
  sc_attributes :: "(string \<times> string) list"

definition maximumMetadataBytes :: nat where
  "maximumMetadataBytes = 256 * 1024"

section \<open>Text checks\<close>

definition dump_json :: "json_library \<Rightarrow> json \<Rightarrow> (store_error, string) result" where
  "dump_json J j = of_option (Fail ''json dump'') (nl_dump J j)"

definition codec_text :: "json_library \<Rightarrow> string \<Rightarrow> nat \<Rightarrow> bool \<Rightarrow> (store_error, unit) result" where
  "codec_text J s limit required =
     (if (required \<and> s = []) \<or> length s > limit \<or> nul \<in> set s
      then Inl (Fail ''invalid envelope/session text or byte limit'')
      else rbind (dump_json J (JString s)) (\<lambda>_. Inr ()))"

definition codec_strings ::
  "json_library \<Rightarrow> string list \<Rightarrow> nat \<Rightarrow> nat \<Rightarrow> (store_error, unit) result" where
  "codec_strings J v count bytes =
     (if length v > count then Inl (Fail ''too many envelope metadata values'')
      else foldM (\<lambda>s _. codec_text J s bytes True) v ())"

definition credential :: "string \<Rightarrow> bool" where
  "credential key \<longleftrightarrow>
     map ascii_lower (filter (\<lambda>c. c \<noteq> CHR ''_'' \<and> c \<noteq> CHR ''-'') key) \<in>
       {''token'', ''secret'', ''password'', ''authorization'', ''accesstoken'',
        ''refreshtoken'', ''authenticationtoken''}"

section \<open>File metadata\<close>

definition json_strings :: "string list \<Rightarrow> json" where
  "json_strings ss = JArray (map JString ss)"

definition json_string_map :: "(string \<times> string) list \<Rightarrow> json" where
  "json_string_map kvs = JObject (map (\<lambda>(k, v). (k, JString v)) kvs)"

definition metadata_object :: "FileMetadata \<Rightarrow> json" where
  "metadata_object m = JObject
     [(''collections'', json_strings (fm_collections m)),
      (''color'', JInt (int (color_number (fm_color m)))),
      (''description'', JString (fm_description m)),
      (''fields'', json_string_map (fm_fields m)),
      (''keywords'', json_strings (fm_keywords m)),
      (''rating'', JInt (int (fm_rating m))),
      (''title'', JString (fm_title m))]"

definition metadataJson :: "json_library \<Rightarrow> FileMetadata \<Rightarrow> (store_error, json) result" where
  "metadataJson J m =
     rbind (codec_text J (fm_title m) 4096 False) (\<lambda>_.
     rbind (codec_text J (fm_description m) (64 * 1024) False) (\<lambda>_.
     rbind (codec_strings J (fm_keywords m) 256 256) (\<lambda>_.
     rbind (codec_strings J (fm_collections m) 128 128) (\<lambda>_.
     if fm_rating m > 5 \<or> color_number (fm_color m) > 7 \<or> length (fm_fields m) > 64
     then Inl (Fail ''invalid envelope classification'')
     else rbind (foldM (\<lambda>(k, v) _. rbind (codec_text J k 256 True) (\<lambda>_.
                   codec_text J v (64 * 1024) False)) (fm_fields m) ()) (\<lambda>_.
          rbind (dump_json J (metadata_object m)) (\<lambda>text.
          if length text > maximumMetadataBytes then Inl (Fail ''envelope metadata exceeds 256 KiB'')
          else Inr (metadata_object m)))))))"

text \<open>The typed accessors of nlohmann/json throw when the member or its type is wrong.\<close>

definition json_error :: store_error where
  "json_error = Fail ''json''"

definition json_at :: "json \<Rightarrow> string \<Rightarrow> (store_error, json) result" where
  "json_at j k = of_option json_error (member j k)"

fun get_string :: "json \<Rightarrow> (store_error, string) result" where
  "get_string (JString s) = Inr s"
| "get_string _ = Inl json_error"

fun get_strings :: "json \<Rightarrow> (store_error, string list) result" where
  "get_strings (JArray xs) = mapM get_string xs"
| "get_strings _ = Inl json_error"

fun get_string_map :: "json \<Rightarrow> (store_error, (string \<times> string) list) result" where
  "get_string_map (JObject kvs) = mapM (\<lambda>(k, v). rbind (get_string v) (\<lambda>s. Inr (k, s))) kvs"
| "get_string_map _ = Inl json_error"

fun get_bounded :: "nat \<Rightarrow> json \<Rightarrow> (store_error, nat) result" where
  "get_bounded bound (JInt i) =
     (if 0 \<le> i \<and> i \<le> int bound then Inr (nat i)
      else Inl (Fail ''invalid envelope classification values''))"
| "get_bounded bound _ = Inl (Fail ''invalid envelope classification values'')"

fun json_size :: "json \<Rightarrow> nat" where
  "json_size (JObject kvs) = length kvs"
| "json_size _ = 0"

definition parseMetadata :: "json_library \<Rightarrow> json \<Rightarrow> (store_error, FileMetadata) result" where
  "parseMetadata J j =
     (if \<not> is_object j \<or> json_size j \<noteq> 7 then Inl (Fail ''invalid envelope classification schema'')
      else
        rbind (rbind (json_at j ''title'') get_string) (\<lambda>title.
        rbind (rbind (json_at j ''description'') get_string) (\<lambda>description.
        rbind (rbind (json_at j ''keywords'') get_strings) (\<lambda>keywords.
        rbind (rbind (json_at j ''rating'') (get_bounded 5)) (\<lambda>rating.
        rbind (rbind (json_at j ''color'') (get_bounded 7)) (\<lambda>color.
        rbind (rbind (json_at j ''fields'') get_string_map) (\<lambda>fs.
        rbind (rbind (json_at j ''collections'') get_strings) (\<lambda>collections.
        let m = \<lparr>fm_title = title, fm_description = description, fm_keywords = keywords,
                 fm_rating = rating, fm_color = color_labels ! color, fm_fields = fs,
                 fm_collections = collections\<rparr>
        in rbind (metadataJson J m) (\<lambda>_. Inr m)))))))))"

section \<open>RAW envelopes\<close>

definition raw_object :: "RawMetadata \<Rightarrow> json" where
  "raw_object raw = JObject
     [(''mediaType'', JString (rm_mediaType raw)),
      (''metadata'', metadata_object (rm_annotations raw)),
      (''originalName'', JString (rm_originalName raw)),
      (''schemaVersion'', JInt 1)]"

definition encodeRawMetadata :: "json_library \<Rightarrow> RawMetadata \<Rightarrow> (store_error, string) result" where
  "encodeRawMetadata J raw =
     rbind (codec_text J (rm_originalName raw) 4096 True) (\<lambda>_.
     rbind (codec_text J (rm_mediaType raw) 256 True) (\<lambda>_.
     if rm_originalName raw = ''.'' \<or> rm_originalName raw = ''..''
        \<or> CHR ''/'' \<in> set (rm_originalName raw) \<or> CHR 0x5C \<in> set (rm_originalName raw)
     then Inl (Fail ''RAW original name must be a basename'')
     else rbind (metadataJson J (rm_annotations raw)) (\<lambda>_. dump_json J (raw_object raw))))"

definition parse_document :: "json_library \<Rightarrow> string \<Rightarrow> (store_error, json) result" where
  "parse_document J s =
     (if length s > maximumMetadataBytes + 65536
      then Inl (Fail ''envelope/session document exceeds limit'')
      else of_option json_error (nl_parse J s))"

definition decodeRawMetadata :: "json_library \<Rightarrow> string \<Rightarrow> (store_error, RawMetadata) result" where
  "decodeRawMetadata J s =
     rbind (parse_document J s) (\<lambda>j.
     if \<not> is_object j \<or> json_size j \<noteq> 4 then Inl (Fail ''unknown RAW envelope schema'')
     else rbind (json_at j ''schemaVersion'') (\<lambda>v.
     if v \<noteq> JInt 1 then Inl (Fail ''unknown RAW envelope schema'')
     else rbind (rbind (json_at j ''originalName'') get_string) (\<lambda>name.
          rbind (rbind (json_at j ''mediaType'') get_string) (\<lambda>media.
          rbind (rbind (json_at j ''metadata'') (parseMetadata J)) (\<lambda>m.
          let raw = \<lparr>rm_originalName = name, rm_mediaType = media, rm_annotations = m\<rparr> in
          rbind (encodeRawMetadata J raw) (\<lambda>text.
          if text \<noteq> s then Inl (Fail ''noncanonical RAW metadata'') else Inr raw))))))"

section \<open>Session contexts\<close>

definition empty_context :: ObjectSessionContext where
  "empty_context = \<lparr>sc_application = [], sc_applicationVersion = [], sc_project = [],
     sc_document = [], sc_attributes = []\<rparr>"

definition context_object :: "ObjectSessionContext \<Rightarrow> json" where
  "context_object s = JObject
     [(''application'', JString (sc_application s)),
      (''applicationVersion'', JString (sc_applicationVersion s)),
      (''attributes'', json_string_map (sc_attributes s)),
      (''document'', JString (sc_document s)),
      (''project'', JString (sc_project s)),
      (''schemaVersion'', JInt 1)]"

definition encodeSessionContext ::
  "json_library \<Rightarrow> ObjectSessionContext \<Rightarrow> (store_error, string) result" where
  "encodeSessionContext J s =
     rbind (codec_text J (sc_application s) 4096 False) (\<lambda>_.
     rbind (codec_text J (sc_applicationVersion s) 256 False) (\<lambda>_.
     rbind (codec_text J (sc_project s) 4096 False) (\<lambda>_.
     rbind (codec_text J (sc_document s) 4096 False) (\<lambda>_.
     if length (sc_attributes s) > 64 then Inl (Fail ''too many work-session attributes'')
     else rbind (foldM (\<lambda>(k, v) _. rbind (codec_text J k 256 True) (\<lambda>_.
            rbind (codec_text J v 16384 False) (\<lambda>_.
            if credential k then Inl (Fail ''runtime credentials are forbidden in work sessions'')
            else Inr ()))) (sc_attributes s) ()) (\<lambda>_.
       if s = empty_context then Inr []
       else rbind (dump_json J (context_object s)) (\<lambda>text.
         if length text > maximumMetadataBytes then Inl (Fail ''work-session context exceeds 256 KiB'')
         else Inr text))))))"

definition decodeSessionContext ::
  "json_library \<Rightarrow> string \<Rightarrow> (store_error, ObjectSessionContext) result" where
  "decodeSessionContext J s =
     (if s = [] then Inr empty_context
      else rbind (parse_document J s) (\<lambda>j.
        if \<not> is_object j \<or> json_size j \<noteq> 6 then Inl (Fail ''unknown work-session context schema'')
        else rbind (json_at j ''schemaVersion'') (\<lambda>v.
        if v \<noteq> JInt 1 then Inl (Fail ''unknown work-session context schema'')
        else rbind (rbind (json_at j ''application'') get_string) (\<lambda>app.
             rbind (rbind (json_at j ''applicationVersion'') get_string) (\<lambda>version.
             rbind (rbind (json_at j ''project'') get_string) (\<lambda>project.
             rbind (rbind (json_at j ''document'') get_string) (\<lambda>document.
             rbind (rbind (json_at j ''attributes'') get_string_map) (\<lambda>attributes.
             let c = \<lparr>sc_application = app, sc_applicationVersion = version, sc_project = project,
                      sc_document = document, sc_attributes = attributes\<rparr> in
             rbind (encodeSessionContext J c) (\<lambda>text.
             if text \<noteq> s then Inl (Fail ''noncanonical work-session context'') else Inr c)))))))))"

section \<open>Metadata differences\<close>

record MetadataChange =
  mc_pointer :: string
  mc_before :: "json option"
  mc_after :: "json option"

definition pointerToken :: "string \<Rightarrow> string" where
  "pointerToken s = concat (map (\<lambda>c. if c = CHR ''~'' then ''~0''
     else if c = CHR ''/'' then ''~1'' else [c]) s)"

fun member_keys :: "json \<Rightarrow> string list" where
  "member_keys (JObject kvs) = map fst kvs"
| "member_keys _ = []"

definition union_keys :: "json \<Rightarrow> json \<Rightarrow> string list" where
  "union_keys a b = sort (remdups (member_keys a @ member_keys b))"

lemma size_pair_less:
  "(k, v) \<in> set kvs \<Longrightarrow> size v < Suc (size_list (size_prod (\<lambda>_. 0) size) kvs)"
  by (induction kvs) auto

lemma member_size: "member j k = Some v \<Longrightarrow> size v < size j"
  by (cases j) (auto dest!: map_of_SomeD size_pair_less)

definition option_weight :: "json option \<Rightarrow> nat" where
  "option_weight j = (case j of None \<Rightarrow> 0 | Some j \<Rightarrow> Suc (size j))"

lemma member_weight: "option_weight (member j k) < option_weight (Some j)"
  by (auto simp: option_weight_def dest: member_size split: option.split)

text \<open>A change holds the two values; \<open>dump\<close> turns them into text at the end.\<close>

function differences :: "json option \<Rightarrow> json option \<Rightarrow> string \<Rightarrow> MetadataChange list" where
  "differences before after path =
     (if before \<noteq> None \<and> after = before then []
      else case (before, after) of
        (Some (JObject a), Some (JObject b)) \<Rightarrow>
          concat (map (\<lambda>k. differences (member (JObject a) k) (member (JObject b) k)
              (path @ ''/'' @ pointerToken k))
            (union_keys (JObject a) (JObject b)))
      | _ \<Rightarrow> [\<lparr>mc_pointer = path, mc_before = before, mc_after = after\<rparr>])"
  by pat_completeness auto
termination
  by (relation "measure (\<lambda>(before, after, path). option_weight before + option_weight after)")
    (auto intro!: add_strict_mono member_weight simp del: member.simps)

declare differences.simps [simp del]

definition dump_change ::
  "json_library \<Rightarrow> MetadataChange \<Rightarrow> (store_error, string \<times> string option \<times> string option) result" where
  "dump_change J c =
     (let dump = (\<lambda>j. case j of None \<Rightarrow> Inr None
                    | Some j \<Rightarrow> rbind (dump_json J j) (\<lambda>s. Inr (Some s))) in
      rbind (dump (mc_before c)) (\<lambda>b. rbind (dump (mc_after c)) (\<lambda>a. Inr (mc_pointer c, b, a))))"

definition annotations_of :: "json_library \<Rightarrow> string \<Rightarrow> (store_error, json) result" where
  "annotations_of J s =
     (if s = [] then Inr (JObject [])
      else rbind (decodeRawMetadata J s) (\<lambda>raw. metadataJson J (rm_annotations raw)))"

definition metadataChanges ::
  "json_library \<Rightarrow> string \<Rightarrow> string
     \<Rightarrow> (store_error, (string \<times> string option \<times> string option) list) result" where
  "metadataChanges J before after =
     rbind (annotations_of J before) (\<lambda>a.
     rbind (annotations_of J after) (\<lambda>b.
       mapM (dump_change J) (differences (Some a) (Some b) [])))"

end
