(* ===== verification/Object_Store.thy ===== *)
theory Object_Store
  imports Object_Codec
begin

text \<open>
  The public operations of \<open>ObjectStore\<close> (\<open>src/Objects/ObjectStore.cpp\<close>).  A mutating
  operation runs in a \<open>Transaction\<close>: an exception rolls the tables back, which
  \<open>transaction\<close> makes explicit by returning the old state beside the error.  The
  instance mutex serialises the operations of one store, so each is one step.
  Arguments that stand for the environment: the random keys of \<open>uniqueKey\<close>, the clock, the
  source file as \<open>ingest\<close> sees it, the answers of the stop token.
\<close>

type_synonym 'a outcome = "(store_error, 'a) result \<times> object_db"

definition transaction ::
  "(object_db \<Rightarrow> (store_error, 'a \<times> object_db) result) \<Rightarrow> object_db \<Rightarrow> 'a outcome" where
  "transaction body db =
     (case body db of Inl e \<Rightarrow> (Inl e, db) | Inr (a, db') \<Rightarrow> (Inr a, db'))"

definition requireJournal :: "object_db \<Rightarrow> (store_error, unit) result" where
  "requireJournal db =
     (if schema db < 4
      then Inl (Fail ''journal/RAW APIs require schema 4 or newer; open with a writer to migrate first'')
      else Inr ())"

section \<open>Work sessions\<close>

definition beginSession ::
  "json_library \<Rightarrow> string \<Rightarrow> int \<Rightarrow> ObjectAuthor \<Rightarrow> string \<Rightarrow> string \<Rightarrow> ObjectSessionContext
     \<Rightarrow> object_db \<Rightarrow> ObjectSession outcome" where
  "beginSession J key now author device description ctx = transaction (\<lambda>db.
     rbind (authorValid author) (\<lambda>_.
     rbind (field device 4096 True) (\<lambda>_.
     rbind (field description 16384 False) (\<lambda>_.
     rbind (encodeSessionContext J ctx) (\<lambda>document.
     rbind (validateActor J author) (\<lambda>_.
     let s = \<lparr>s_key = ''session-'' @ key, s_author = author, s_device = device,
              s_description = description, s_startedAtNs = now, s_endedAtNs = 0\<rparr> in
     rbind (insert_session s db) (\<lambda>db.
     rbind (insert_work_session (s_key s) document db) (\<lambda>db.
       Inr (s, db)))))))))"

definition endSession :: "string \<Rightarrow> int \<Rightarrow> object_db \<Rightarrow> unit outcome" where
  "endSession key now = transaction (\<lambda>db.
     rbind (getSession db key True) (\<lambda>_.
     rbind (update_session_ended key now db) (\<lambda>db. Inr ((), db))))"

definition workSession ::
  "json_library \<Rightarrow> object_db \<Rightarrow> string
     \<Rightarrow> (store_error, int \<times> ObjectSession \<times> ObjectSessionContext) result" where
  "workSession J db key =
     rbind (field key 1024 True) (\<lambda>_.
     rbind (requireJournal db) (\<lambda>_.
     rbind (of_option (Fail ''work session not found'') (find_work_session db key)) (\<lambda>w.
     rbind (getSession db key False) (\<lambda>s.
     rbind (decodeSessionContext J (ws_context w)) (\<lambda>c. Inr (ws_sequence w, s, c))))))"

text \<open>
  \<open>sessions(query)\<close>: a page of work sessions, cut off before the documents of the page exceed
  16 MiB.
\<close>

definition session_bytes :: "ObjectSession \<Rightarrow> string \<Rightarrow> nat" where
  "session_bytes s document =
     length document + length (md_payload (profile (s_author s))) + length (displayName (s_author s))
     + length (s_device s) + length (s_description s) + length (origin (s_author s))
     + length (subject (s_author s)) + length (s_key s)"

fun session_rows ::
  "json_library \<Rightarrow> object_db \<Rightarrow> nat \<Rightarrow> work_session_row list
     \<Rightarrow> (store_error, (int \<times> ObjectSession \<times> ObjectSessionContext) list) result" where
  "session_rows J db bytes [] = Inr []"
| "session_rows J db bytes (w # ws) =
     rbind (getSession db (ws_session_key w) False) (\<lambda>s.
       let amount = session_bytes s (ws_context w) in
       if bytes + amount > 16 * 1024 * 1024 then Inr []
       else rbind (decodeSessionContext J (ws_context w)) (\<lambda>c.
            rbind (session_rows J db (bytes + amount) ws) (\<lambda>rest.
              Inr ((ws_sequence w, s, c) # rest))))"

definition sessions_page ::
  "json_library \<Rightarrow> object_db \<Rightarrow> int \<Rightarrow> nat \<Rightarrow> bool
     \<Rightarrow> (store_error, (int \<times> ObjectSession \<times> ObjectSessionContext) list) result" where
  "sessions_page J db after limit activeOnly =
     (if after < 0 \<or> limit = 0 \<or> limit > 128 then Inl (Fail ''invalid work-session page'')
      else rbind (requireJournal db) (\<lambda>_.
        session_rows J db 0 (take limit (sort_key ws_sequence (filter (\<lambda>w. ws_sequence w > after \<and>
          (\<exists>s \<in> set_option (find_session db (ws_session_key w)). activeOnly \<longrightarrow> s_endedAtNs s = 0))
          (work_sessions db))))))"

section \<open>Importing and revising\<close>

definition importFile ::
  "json_library \<Rightarrow> string \<Rightarrow> int \<Rightarrow> source_file \<Rightarrow> string \<Rightarrow> string \<Rightarrow> ObjectWriteOptions
     \<Rightarrow> object_db \<Rightarrow> ObjectRecord outcome" where
  "importFile J key now source path sessionKey options = transaction (\<lambda>db.
     rbind (getSession db sessionKey True) (\<lambda>s.
       impl_importFile J (''object-'' @ key) now (FromFile source) path s options [] db))"

text \<open>
  \<open>ObjectSource\<close> of \<open>wrapRaw\<close> and \<open>importDocument\<close>: the staged copy as \<open>ingest\<close> sees it and
  the identity stamp of the original, or the error of the capture.
\<close>

record captured_source =
  cs_file :: source_file
  cs_stamp :: string

definition captured_options :: "ObjectWriteOptions \<Rightarrow> captured_source \<Rightarrow> ObjectWriteOptions" where
  "captured_options options c =
     (if wo_sourceStamp options = [] then options\<lparr>wo_sourceStamp := cs_stamp c\<rparr> else options)"

definition wrapRaw ::
  "json_library \<Rightarrow> string \<Rightarrow> int \<Rightarrow> bool \<Rightarrow> (store_error, captured_source) result \<Rightarrow> string
     \<Rightarrow> RawMetadata \<Rightarrow> string \<Rightarrow> ObjectWriteOptions \<Rightarrow> object_db \<Rightarrow> ObjectRecord outcome" where
  "wrapRaw J key now cancelled capture path metadata sessionKey options = transaction (\<lambda>db.
     rbind (encodeRawMetadata J metadata) (\<lambda>document.
     rbind (pathValid path) (\<lambda>_.
     if cancelled then Inl (Fail ''RAW wrapping cancelled'')
     else rbind (requireJournal db) (\<lambda>_.
     if query_only db then Inl (Fail ''cannot wrap RAW through a read-only package'')
     else rbind (getSession db sessionKey True) (\<lambda>s.
     rbind capture (\<lambda>c.
       impl_importFile J (''object-'' @ key) now (FromFile (cs_file c)) path s
         (captured_options options c) document db))))))"

definition originals :: "string \<Rightarrow> string" where
  "originals key = ''.originals/'' @ key"

text \<open>
  \<open>importDocument\<close>: the RAW original under \<open>.originals/<working key>\<close>, then the working
  object over the same chunks.  \<open>key\<close> is the working key's random part, \<open>rawKey\<close> the
  original's; \<open>late\<close> is the poll just before the commit.
\<close>

definition importDocument ::
  "json_library \<Rightarrow> string \<Rightarrow> string \<Rightarrow> int \<Rightarrow> int \<Rightarrow> bool \<Rightarrow> bool
     \<Rightarrow> (store_error, captured_source) result \<Rightarrow> string \<Rightarrow> RawMetadata \<Rightarrow> string
     \<Rightarrow> ObjectWriteOptions \<Rightarrow> object_db \<Rightarrow> (ObjectRecord \<times> ObjectRecord) outcome" where
  "importDocument J key rawKey now now' cancelled late capture path metadata sessionKey options =
   transaction (\<lambda>db.
     rbind (encodeRawMetadata J metadata) (\<lambda>document.
     rbind (pathValid path) (\<lambda>_.
     if take 11 path = ''.originals/'' then Inl (Fail ''document path uses the original namespace'')
     else if cancelled then Inl (Fail ''document capture cancelled'')
     else rbind (requireJournal db) (\<lambda>_.
     if query_only db then Inl (Fail ''cannot capture through a read-only package'')
     else rbind (getSession db sessionKey True) (\<lambda>s.
     rbind capture (\<lambda>c.
     let co = captured_options options c; wkey = ''object-'' @ key in
     rbind (impl_importFile J (''object-'' @ rawKey) now (FromFile (cs_file c)) (originals wkey) s co
              document db) (\<lambda>(raw, db).
     rbind (insert_object wkey path db) (\<lambda>(i, db).
     rbind (chunks db (r_key raw) (r_version raw)) (\<lambda>parts.
     let w = (new_record wkey path ''import'' co)\<lparr>r_indexKey := i, r_size := r_size raw,
              r_sha256 := r_sha256 raw\<rparr> in
     rbind (publish w s parts None now' db) (\<lambda>(w, db).
     if late then Inl (Fail ''document capture cancelled'') else Inr ((w, raw), db)))))))))))"

text \<open>
  \<open>importFiles\<close>: the record of one file carries the stop token's answers in the preflight
  loop, before its import and at the end; \<open>prepared\<close> is what \<open>readObjectBatch\<close> delivers.
\<close>

record ObjectImport =
  im_key :: string
  im_now :: int
  im_logicalPath :: string
  im_options :: ObjectWriteOptions
  im_cancel_preflight :: bool
  im_cancel_before :: bool
  im_cancel_end :: bool

fun batch_preflight ::
  "nat \<Rightarrow> ObjectImport list \<Rightarrow> nat \<Rightarrow> (store_error, unit) result" where
  "batch_preflight actorBytes [] remaining = Inr ()"
| "batch_preflight actorBytes (file # files) remaining =
     (if im_cancel_preflight file then Inl cancelled_error
      else let provenance = (case wo_authorship (im_options file) of None \<Rightarrow> 0
                             | Some m \<Rightarrow> length (md_payload m)) in
        if actorBytes > remaining then Inl (Fail ''object batch metadata exceeds 16 MiB'')
        else if provenance > remaining - actorBytes
        then Inl (Fail ''object batch metadata exceeds 16 MiB'')
        else batch_preflight actorBytes files (remaining - actorBytes - provenance))"

fun batch_import ::
  "json_library \<Rightarrow> ObjectSession \<Rightarrow> (ObjectImport \<times> prepared_source) list \<Rightarrow> object_db
     \<Rightarrow> (store_error, ObjectRecord list \<times> object_db) result" where
  "batch_import J s [] db = Inr ([], db)"
| "batch_import J s ((file, prepared) # rest) db =
     (if im_cancel_before file then Inl cancelled_error
      else rbind (impl_importFile J (''object-'' @ im_key file) (im_now file) (Prepared prepared)
                    (im_logicalPath file) s (im_options file) [] db) (\<lambda>(r, db).
           rbind (batch_import J s rest db) (\<lambda>(rs, db). Inr (r # rs, db))))"

definition importFiles ::
  "json_library \<Rightarrow> ObjectImport list \<Rightarrow> (store_error, prepared_source list) result \<Rightarrow> string
     \<Rightarrow> object_db \<Rightarrow> ObjectRecord list outcome" where
  "importFiles J files prepared sessionKey = transaction (\<lambda>db.
     if files = [] \<or> length files > maximumBatchFiles
     then Inl (Fail ''object batch must contain 1 to 256 files'')
     else rbind (getSession db sessionKey True) (\<lambda>s.
       rbind (batch_preflight (length (md_payload (profile (s_author s)))) files
                maximumBatchMetadataBytes) (\<lambda>_.
       rbind prepared (\<lambda>sources.
       rbind (batch_import J s (zip files sources) db) (\<lambda>(rs, db).
       if \<exists>file \<in> set files. im_cancel_end file then Inl cancelled_error
       else Inr (rs, db))))))"

text \<open>The common start of a new revision: the parent key is the head's validation key.\<close>

definition next_revision :: "ObjectRecord \<Rightarrow> string \<Rightarrow> ObjectRecord" where
  "next_revision r operation =
     r\<lparr>r_parentValidationKey := r_validationKey r, r_version := Suc (r_version r),
       r_operation := operation\<rparr>"

definition reviseFile ::
  "json_library \<Rightarrow> int \<Rightarrow> string \<Rightarrow> source_file \<Rightarrow> nat \<Rightarrow> string \<Rightarrow> ObjectWriteOptions
     \<Rightarrow> object_db \<Rightarrow> ObjectRecord outcome" where
  "reviseFile J now key source expected sessionKey options = transaction (\<lambda>db.
     rbind (for_option authorshipValid (wo_authorship options)) (\<lambda>_.
     rbind (field (wo_sourceStamp options) 32768 False) (\<lambda>_.
     rbind (impl_require db key expected) (\<lambda>r.
     rbind (getSession db sessionKey True) (\<lambda>s.
     rbind (rawDocument db key (r_version r)) (\<lambda>raw.
     if raw \<noteq> [] then Inl (Fail ''RAW payload is immutable; revise metadata or wrap a new original'')
     else rbind (for_option (validateDocument J) (wo_authorship options)) (\<lambda>_.
     let r = r\<lparr>r_authorship := (case wo_authorship options of None \<Rightarrow> r_authorship r | Some m \<Rightarrow> m),
               r_sourceStamp := wo_sourceStamp options\<rparr> in
     rbind (ingest (FromFile source) (wo_cancelled options) (next_revision r ''revise'') db)
       (\<lambda>(parts, r, db). publish r s parts None now db))))))))"

definition move ::
  "int \<Rightarrow> bool \<Rightarrow> string \<Rightarrow> string \<Rightarrow> nat \<Rightarrow> string \<Rightarrow> ObjectWriteOptions
     \<Rightarrow> object_db \<Rightarrow> ObjectRecord outcome" where
  "move now cancelled key path expected sessionKey options = transaction (\<lambda>db.
     rbind (field (wo_sourceStamp options) 32768 False) (\<lambda>_.
     if cancelled then Inl (Fail ''object move cancelled'')
     else if wo_authorship options \<noteq> None then Inl (Fail ''move preserves original authorship'')
     else rbind (pathValid path) (\<lambda>_.
     rbind (impl_require db key expected) (\<lambda>r.
     rbind (getSession db sessionKey True) (\<lambda>s.
     let r = (if wo_sourceStamp options \<noteq> [] then r\<lparr>r_sourceStamp := wo_sourceStamp options\<rparr> else r) in
     rbind (chunks db key (r_version r)) (\<lambda>parts.
       publish (next_revision (r\<lparr>r_path := path\<rparr>) ''move'') s parts None now db))))))"

definition erase ::
  "int \<Rightarrow> string \<Rightarrow> nat \<Rightarrow> string \<Rightarrow> object_db \<Rightarrow> ObjectRecord outcome" where
  "erase now key expected sessionKey = transaction (\<lambda>db.
     rbind (impl_require db key expected) (\<lambda>r.
     rbind (getSession db sessionKey True) (\<lambda>s.
       publish ((next_revision r ''erase'')\<lparr>r_deleted := True\<rparr>) s [] None now db)))"

definition reviseMetadata ::
  "json_library \<Rightarrow> int \<Rightarrow> string \<Rightarrow> FileMetadata \<Rightarrow> nat \<Rightarrow> string \<Rightarrow> object_db \<Rightarrow> ObjectRecord outcome" where
  "reviseMetadata J now key metadata expected sessionKey = transaction (\<lambda>db.
     rbind (requireJournal db) (\<lambda>_.
     rbind (impl_require db key expected) (\<lambda>r.
     rbind (getSession db sessionKey True) (\<lambda>s.
     rbind (rawDocument db key (r_version r)) (\<lambda>previous.
     if previous = [] then Inl (Fail ''object is not a RAW envelope'')
     else rbind (decodeRawMetadata J previous) (\<lambda>raw.
     rbind (encodeRawMetadata J (raw\<lparr>rm_annotations := metadata\<rparr>)) (\<lambda>document.
     if document = previous then Inr (r, db)
     else rbind (chunks db key (r_version r)) (\<lambda>parts.
       publish (next_revision r ''metadata'') s parts (Some document) now db))))))))"

section \<open>Reading\<close>

definition lookup :: "object_db \<Rightarrow> string \<Rightarrow> (store_error, ObjectRecord option) result" where
  "lookup db key = get_record db key 0"

definition head_record :: "object_db \<Rightarrow> object_row \<Rightarrow> ObjectRecord option" where
  "head_record db ob =
     Option.bind (find_revision db (ob_object_key ob) (ob_head ob)) (\<lambda>r.
       map_option (record_of ob r) (find_session db (rv_session_key r)))"

definition lookupPath :: "object_db \<Rightarrow> string \<Rightarrow> (store_error, ObjectRecord option) result" where
  "lookupPath db path =
     rbind (pathValid path) (\<lambda>_.
     rbind (bind_texts [path]) (\<lambda>_.
       Inr (case List.map_filter (head_record db)
                   (filter (\<lambda>ob. ob_path ob = path \<and> \<not> ob_deleted ob) (objects db)) of
              [] \<Rightarrow> None | r # _ \<Rightarrow> Some r)))"

definition page_error :: "string \<Rightarrow> store_error" where
  "page_error what = Fail (''invalid object '' @ what @ '' page'')"

definition scan :: "object_db \<Rightarrow> int \<Rightarrow> nat \<Rightarrow> bool \<Rightarrow> (store_error, ObjectRecord list) result" where
  "scan db after limit deleted =
     (if after < 0 \<or> limit = 0 \<or> limit > 10000 then Inl (page_error ''index'')
      else Inr (take limit (List.map_filter (head_record db)
        (sort_key ob_index_key
          (filter (\<lambda>ob. ob_index_key ob > after \<and> (deleted \<or> \<not> ob_deleted ob)) (objects db))))))"

definition index :: "object_db \<Rightarrow> int \<Rightarrow> nat \<Rightarrow> bool \<Rightarrow> (store_error, ObjectIndexEntry list) result" where
  "index db after limit deleted =
     (if after < 0 \<or> limit = 0 \<or> limit > 10000 then Inl (page_error ''index'')
      else Inr (take limit (sort_key ix_indexKey
        (filter (\<lambda>e. ix_indexKey e > after \<and> (deleted \<or> \<not> ix_deleted e)) (current_index db)))))"

definition history :: "object_db \<Rightarrow> string \<Rightarrow> nat \<Rightarrow> nat \<Rightarrow> (store_error, ObjectRecord list) result" where
  "history db key after limit =
     (if int after > int64_max \<or> limit = 0 \<or> limit > 10000 then Inl (page_error ''history'')
      else rbind (bind_texts [key]) (\<lambda>_.
        Inr (take limit (List.map_filter (\<lambda>r. select_record db key (rv_version r))
          (sort_key rv_version
            (filter (\<lambda>r. rv_object_key r = key \<and> rv_version r > after) (revisions db)))))))"

definition journal_entry :: "object_db \<Rightarrow> journal_row \<Rightarrow> ObjectJournalEntry option" where
  "journal_entry db j =
     map_option (\<lambda>r. \<lparr>j_sequence = jr_sequence j, j_objectKey = rv_object_key r,
        j_version = rv_version r, j_sessionKey = rv_session_key r, j_recordedAtNs = rv_at_ns r,
        j_operation = rv_operation r, j_path = rv_path r, j_sha256 = rv_sha256 r,
        j_size = rv_size r, j_deleted = rv_deleted r, j_validationKey = rv_validation_key r\<rparr>)
       (find_revision db (jr_object_key j) (jr_version j))"

definition journal ::
  "object_db \<Rightarrow> int \<Rightarrow> nat \<Rightarrow> string \<Rightarrow> string \<Rightarrow> (store_error, ObjectJournalEntry list) result" where
  "journal db after limit objectKey sessionKey =
     (if after < 0 \<or> limit = 0 \<or> limit > 1024 then Inl (page_error ''journal'')
      else rbind (field objectKey 1024 False) (\<lambda>_.
           rbind (field sessionKey 1024 False) (\<lambda>_.
           rbind (requireJournal db) (\<lambda>_.
             Inr (take limit (List.map_filter (journal_entry db) (sort_key jr_sequence
               (filter (\<lambda>j. jr_sequence j > after
                    \<and> (objectKey = [] \<or> jr_object_key j = objectKey)
                    \<and> (sessionKey = [] \<or> jr_session_key j = sessionKey)) (object_journal db)))))))))"

definition no_chunk :: Chunk where
  "no_chunk = \<lparr>c_hash = [], c_size = 0\<rparr>"

definition chunk_at :: "Chunk list \<Rightarrow> nat \<Rightarrow> Chunk" where
  "chunk_at cs i = (if i < length cs then cs ! i else no_chunk)"

definition chunk_changes :: "Chunk list \<Rightarrow> Chunk list \<Rightarrow> ObjectChange list" where
  "chunk_changes before after =
     List.map_filter (\<lambda>i. let a = chunk_at before i; b = chunk_at after i in
         if c_hash a \<noteq> c_hash b \<or> c_size a \<noteq> c_size b
         then Some \<lparr>ch_offset = i * chunkBytes, ch_beforeHash = c_hash a, ch_afterHash = c_hash b,
                    ch_beforeSize = c_size a, ch_afterSize = c_size b\<rparr>
         else None)
       [0..<max (length before) (length after)]"

definition diff :: "object_db \<Rightarrow> string \<Rightarrow> nat \<Rightarrow> (store_error, ObjectChange list) result" where
  "diff db key version =
     (if version = 0 \<or> int version > int64_max then Inl (Fail ''object version not found'')
      else rbind (get_record db key version) (\<lambda>found.
        if found = None then Inl (Fail ''object version not found'')
        else rbind (if version > 1 then chunks db key (version - 1) else Inr []) (\<lambda>before.
             rbind (chunks db key version) (\<lambda>after. Inr (chunk_changes before after)))))"

definition validate :: "object_db \<Rightarrow> string \<Rightarrow> nat \<Rightarrow> bool \<Rightarrow> (store_error, bool) result" where
  "validate db key version payload = impl_validate db key version payload"

definition count :: "object_db \<Rightarrow> bool \<Rightarrow> nat" where
  "count db deleted = length (filter (\<lambda>ob. deleted \<or> \<not> ob_deleted ob) (objects db))"

fun chunk_bytes :: "object_db \<Rightarrow> Chunk list \<Rightarrow> (store_error, byte list) result" where
  "chunk_bytes db [] = Inr []"
| "chunk_bytes db (part # parts) =
     rbind (bind_texts [c_hash part]) (\<lambda>_.
     rbind (of_option (Fail ''missing object chunk'') (chunk_data db (c_hash part))) (\<lambda>bytes.
     rbind (chunk_bytes db parts) (\<lambda>rest. Inr (bytes @ rest))))"

text \<open>
  \<open>extract\<close>: the bytes of the published file.  \<open>direct\<close>, \<open>exists\<close> and \<open>staged\<close> say whether the
  destination is not redirected, already exists, and whether the staging file was created.
\<close>

definition extract_object ::
  "object_db \<Rightarrow> string \<Rightarrow> nat \<Rightarrow> bool \<Rightarrow> bool \<Rightarrow> bool \<Rightarrow> (store_error, byte list) result" where
  "extract_object db key version direct exists staged =
     rbind (impl_validate db key version True) (\<lambda>ok.
     if \<not> ok then Inl (Fail ''object integrity validation failed'')
     else rbind (get_record db key version) (\<lambda>found.
       case found of
         None \<Rightarrow> Inl (Fail ''cannot extract absent object content'')
       | Some r \<Rightarrow>
           if r_deleted r then Inl (Fail ''cannot extract absent object content'')
           else if \<not> direct then Inl (Fail ''redirected object path is forbidden'')
           else if exists then Inl (Fail ''extraction destination exists'')
           else if \<not> staged then Inl (Fail ''cannot stage object extraction'')
           else rbind (chunks db key version) (chunk_bytes db)))"

definition rawEnvelope ::
  "json_library \<Rightarrow> object_db \<Rightarrow> string \<Rightarrow> nat \<Rightarrow> (store_error, ObjectRecord \<times> RawMetadata) result" where
  "rawEnvelope J db key version =
     (if int version > int64_max then Inl (Fail ''invalid RAW revision'')
      else rbind (requireJournal db) (\<lambda>_.
        rbind (get_record db key version) (\<lambda>found.
        case found of
          None \<Rightarrow> Inl (Fail ''RAW envelope not found'')
        | Some r \<Rightarrow>
            rbind (impl_validate db key (r_version r) False) (\<lambda>ok.
            if \<not> ok then Inl (Fail ''RAW metadata chain is corrupt'')
            else rbind (rawDocument db key (r_version r)) (\<lambda>document.
            if document = [] then Inl (Fail ''object is not a RAW envelope'')
            else rbind (decodeRawMetadata J document) (\<lambda>raw. Inr (r, raw)))))))"

definition original ::
  "json_library \<Rightarrow> object_db \<Rightarrow> string \<Rightarrow> (store_error, ObjectRecord \<times> RawMetadata) result" where
  "original J db key =
     rbind (field key 1024 True) (\<lambda>_.
     if CHR ''/'' \<in> set key \<or> CHR 0x5C \<in> set key then Inl (Fail ''invalid document key'')
     else rbind (lookupPath db (originals key)) (\<lambda>found.
       case found of
         None \<Rightarrow> Inl (Fail ''document original not found'')
       | Some r \<Rightarrow> rawEnvelope J db (r_key r) 0))"

definition metadataDiff ::
  "json_library \<Rightarrow> object_db \<Rightarrow> string \<Rightarrow> nat
     \<Rightarrow> (store_error, (string \<times> string option \<times> string option) list) result" where
  "metadataDiff J db key version =
     (if version = 0 \<or> int version > int64_max then Inl (Fail ''invalid RAW metadata diff revision'')
      else rbind (requireJournal db) (\<lambda>_.
        rbind (impl_validate db key version False) (\<lambda>ok.
        if \<not> ok then Inl (Fail ''RAW metadata chain is corrupt'')
        else rbind (rawDocument db key version) (\<lambda>after.
        if after = [] then Inl (Fail ''object is not a RAW envelope'')
        else rbind (if version > 1 then rawDocument db key (version - 1) else Inr []) (\<lambda>before.
          metadataChanges J before after)))))"

section \<open>Opening a package\<close>

text \<open>
  What the constructor finds on disk: the directory, the database file and its sidecars.
  \<open>pd_package\<close> is the stored package; the columns a later schema adds hold their defaults.
\<close>

datatype Access = ReadOnly | ReadWrite | Create

record package_dir =
  pd_direct :: bool
  pd_exists :: bool
  pd_creatable :: bool
  pd_is_directory :: bool
  pd_database_direct :: bool
  pd_empty :: bool
  pd_exclusive :: bool
  pd_sidecars_direct :: bool
  pd_application :: bool
  pd_package :: "object_db option"

text \<open>The \<open>current_index\<close> rows that schema 3 materialises.\<close>

definition migrate_index :: "object_db \<Rightarrow> object_db" where
  "migrate_index db = db\<lparr>current_index := List.map_filter (\<lambda>ob.
     map_option (index_entry ob) (find_revision db (ob_object_key ob) (ob_head ob))) (objects db)\<rparr>"

text \<open>\<open>INSERT OR IGNORE\<close> of the session contexts and journal rows that schema 4 adds.\<close>

definition ignore_work_session :: "string \<Rightarrow> work_session_row list \<Rightarrow> work_session_row list" where
  "ignore_work_session key ws =
     (if key \<in> set (map ws_session_key ws) then ws
      else ws @ [\<lparr>ws_sequence = next_rowid (map ws_sequence ws), ws_session_key = key, ws_context = []\<rparr>])"

definition ignore_journal :: "revision_row \<Rightarrow> journal_row list \<Rightarrow> journal_row list" where
  "ignore_journal r js =
     (if \<exists>j \<in> set js. jr_object_key j = rv_object_key r \<and> jr_version j = rv_version r then js
      else js @ [\<lparr>jr_sequence = next_rowid (map jr_sequence js), jr_object_key = rv_object_key r,
                  jr_version = rv_version r, jr_session_key = rv_session_key r\<rparr>])"

definition migrate_journal :: "object_db \<Rightarrow> object_db" where
  "migrate_journal db = db\<lparr>
     work_sessions := fold ignore_work_session (map s_key (sort_key s_startedAtNs (sessions db))) (work_sessions db),
     object_journal := fold ignore_journal (sort_key rv_at_ns (revisions db)) (object_journal db)\<rparr>"

definition migrate :: "object_db \<Rightarrow> object_db" where
  "migrate db =
     (let db = (if schema db < 3 then migrate_index db else db);
          db = (if schema db < 4 then migrate_journal db else db)
      in db\<lparr>schema := 5\<rparr>)"

definition open_package :: "Access \<Rightarrow> string \<Rightarrow> object_db \<Rightarrow> (store_error, object_db) result" where
  "open_package access box db =
     (if schema db < 1 \<or> schema db > 5 then Inl (Fail ''unknown object package format'')
      else if access = ReadOnly \<and> schema db < 3
      then Inl (Fail ''read-only object access requires schema 3, 4 or 5; migrate with a writer first'')
      else if container_key db \<noteq> box then Inl (Fail ''object package container mismatch'')
      else if access = ReadOnly then Inr (db\<lparr>container := box, query_only := True\<rparr>)
      else Inr (migrate (db\<lparr>container := box, query_only := False\<rparr>)))"

definition open_store ::
  "Access \<Rightarrow> string \<Rightarrow> int \<Rightarrow> package_dir \<Rightarrow> (store_error, object_db) result" where
  "open_store access box pages d =
     (if pages < 0 then Inl (Fail ''WAL auto-checkpoint page limit cannot be negative'')
      else rbind (field box 1024 True) (\<lambda>_.
        if \<not> pd_direct d then Inl (Fail ''redirected object path is forbidden'')
        else if \<not> pd_exists d \<and> access \<noteq> Create then Inl (Fail ''object package does not exist'')
        else if \<not> pd_exists d \<and> \<not> pd_creatable d then Inl (Fail ''cannot create object package'')
        else if pd_exists d \<and> \<not> pd_is_directory d then Inl (Fail ''object package is not a directory'')
        else if \<not> pd_database_direct d then Inl (Fail ''redirected object path is forbidden'')
        else case pd_package d of
          None \<Rightarrow>
            if access \<noteq> Create then Inl (Fail ''object package database does not exist'')
            else if pd_exists d \<and> \<not> pd_empty d
            then Inl (Fail ''refusing to initialize a nonempty unknown package'')
            else if \<not> pd_exclusive d then Inl (Fail ''object package creation conflict'')
            else if \<not> pd_sidecars_direct d then Inl (Fail ''redirected object database sidecar'')
            else Inr (empty_db box)
        | Some db \<Rightarrow>
            if \<not> pd_sidecars_direct d then Inl (Fail ''redirected object database sidecar'')
            else if \<not> pd_application d then Inl (Fail ''unknown object package format'')
            else open_package access box db))"

end
