(* ===== verification/Object_Effects.thy ===== *)
theory Object_Effects
  imports Object_Store
begin

text \<open>
  What the statements and the Impl methods do to the tables, as equations: every
  successful call is inverted once here, and the invariant proofs use only these
  descriptions.  \<open>published\<close> is the effect of \<open>publish\<close>, \<open>stores\<close> the relation between a
  revision's chunk rows and the payload they hold.
\<close>

section \<open>Lookups\<close>

lemma find_append:
  "find P (xs @ ys) = (case find P xs of None \<Rightarrow> find P ys | Some x \<Rightarrow> Some x)"
  by (induction xs) auto

lemma find_Some_set: "find P xs = Some x \<Longrightarrow> x \<in> set xs \<and> P x"
  by (induction xs) (auto split: if_splits)

lemma find_None_iff_ball: "find P xs = None \<longleftrightarrow> (\<forall>x \<in> set xs. \<not> P x)"
  by (induction xs) auto

lemma find_distinct:
  "distinct (map f xs) \<Longrightarrow> x \<in> set xs \<Longrightarrow> find (\<lambda>y. f y = f x) xs = Some x"
  by (induction xs) (auto simp: image_iff)

lemma find_key_iff:
  "distinct (map f xs) \<Longrightarrow> find (\<lambda>y. f y = k) xs = Some x \<longleftrightarrow> x \<in> set xs \<and> f x = k"
  using find_distinct [of f xs x] find_Some_set [of "\<lambda>y. f y = k" xs x] by auto

lemma find_map_update:
  assumes "\<And>x. x \<in> set xs \<Longrightarrow> f x = key \<Longrightarrow> f (g x) = key"
  shows "find (\<lambda>x. f x = k) (map (\<lambda>x. if f x = key then g x else x) xs) =
    (if k = key then map_option g (find (\<lambda>x. f x = k) xs) else find (\<lambda>x. f x = k) xs)"
  using assms by (induction xs) auto

lemma bind_texts_Inr [simp]:
  "bind_texts ss = Inr u \<longleftrightarrow> (\<forall>s \<in> set ss. length s \<le> bind_limit)"
  unfolding bind_texts_def by (force simp: not_less)

lemma writable_Inr [simp]: "writable db = Inr u \<longleftrightarrow> \<not> query_only db"
  by (auto simp: writable_def)

section \<open>Hash values\<close>

lemma length_hash_hex [simp]: "length (hash_hex st) = 64"
  by (simp add: hash_hex_def length_concat o_def upt_0_8 upt_rec)

lemma length_sha256_hash [simp]: "length (sha256_hash m) = 64"
  by (simp add: sha256_hash_def)

lemma ObjectHash_digest_Inr:
  "ObjectHash_digest bytes = Inr d \<longleftrightarrow> length bytes \<le> sha_limit \<and> d = sha256_hash bytes"
proof (cases "length bytes \<le> sha_limit")
  case True
  then obtain h where "ObjectHash_update ObjectHash_init bytes = Inr h" "ObjectHash_represents h bytes"
    using object_hash.update_accepts [OF object_hash.represents_empty, of bytes] by auto
  then show ?thesis
    using True object_hash.finish_hash by (auto simp: ObjectHash_digest_def)
next
  case False
  then show ?thesis
    using object_hash.update_refuses [OF object_hash.represents_empty, of bytes]
    by (simp add: ObjectHash_digest_def)
qed

lemma lift_hash_Inr [simp]: "lift_hash m = Inr v \<longleftrightarrow> m = Inr v"
  by (cases m) (auto simp: lift_hash_def)

lemma ObjectHash_represents_limit: "ObjectHash_represents h m \<Longrightarrow> length m \<le> sha_limit"
  by (simp add: ObjectHash_represents_def)

lemma ObjectHash_update_Inr:
  assumes "ObjectHash_represents h m"
  shows "ObjectHash_update h xs = Inr h' \<Longrightarrow>
    length m + length xs \<le> sha_limit \<and> ObjectHash_represents h' (m @ xs)"
  using object_hash.update_accepts [OF assms, of xs] object_hash.update_refuses [OF assms, of xs]
  by (cases "length m + length xs \<le> sha_limit") auto

section \<open>Payloads and their chunks\<close>

function pieces :: "byte list \<Rightarrow> byte list list" where
  "pieces xs = (if xs = [] then [] else take chunkBytes xs # pieces (drop chunkBytes xs))"
  by pat_completeness auto
termination
  by (relation "measure length") (auto simp: chunkBytes_def)

declare pieces.simps [simp del]

lemma pieces_Nil [simp]: "pieces [] = []"
  by (simp add: pieces.simps)

lemma pieces_eq_Nil [simp]: "pieces xs = [] \<longleftrightarrow> xs = []"
  by (simp add: pieces.simps)

lemma concat_pieces [simp]: "concat (pieces xs) = xs"
proof (induction xs rule: pieces.induct)
  case (1 xs)
  then show ?case by (cases "xs = []") (simp_all add: pieces.simps [of xs])
qed

lemma pieces_bounds:
  "p \<in> set (pieces xs) \<Longrightarrow> p \<noteq> [] \<and> length p \<le> chunkBytes \<and> length p \<le> length xs"
proof (induction xs rule: pieces.induct)
  case (1 xs)
  show ?case
  proof (cases "xs = []")
    case False
    with 1 show ?thesis
      by (fastforce simp: pieces.simps [of xs] chunkBytes_def)
  qed (use 1 in simp)
qed

definition part_of :: "byte list \<Rightarrow> Chunk" where
  "part_of p = \<lparr>c_hash = sha256_hash p, c_size = length p\<rparr>"

definition parts_of :: "byte list \<Rightarrow> Chunk list" where
  "parts_of payload = map part_of (pieces payload)"

text \<open>The chunk table holds every piece of the payload under its digest.\<close>

definition holds :: "(string \<rightharpoonup> byte list) \<Rightarrow> byte list \<Rightarrow> bool" where
  "holds table payload \<longleftrightarrow> (\<forall>p \<in> set (pieces payload). table (sha256_hash p) = Some p)"

lemma holds_mono: "holds t payload \<Longrightarrow> t \<subseteq>\<^sub>m t' \<Longrightarrow> holds t' payload"
  by (auto simp: holds_def map_le_def dom_def)

lemma storeChunk_Inr:
  assumes "storeChunk bytes db = Inr (c, db')"
  shows "length bytes \<le> sha_limit" "c = part_of bytes"
    "\<exists>t. db' = db\<lparr>chunk_data := t\<rparr> \<and> chunk_data db \<subseteq>\<^sub>m t \<and> t (sha256_hash bytes) = Some bytes"
proof -
  from assms have mid: "(case chunk_data db (sha256_hash bytes) of
        Some previous \<Rightarrow>
          if previous \<noteq> bytes then Inl (Fail ''corrupt existing object chunk'') else Inr db
      | None \<Rightarrow> insert_chunk (sha256_hash bytes) bytes db) = Inr db'"
    and "length bytes \<le> sha_limit" and "c = part_of bytes"
    by (auto simp: storeChunk_def rbind_Inr_iff ObjectHash_digest_Inr part_of_def)
  then show "length bytes \<le> sha_limit" and "c = part_of bytes" by blast+
  show "\<exists>t. db' = db\<lparr>chunk_data := t\<rparr> \<and> chunk_data db \<subseteq>\<^sub>m t \<and> t (sha256_hash bytes) = Some bytes"
  proof (cases "chunk_data db (sha256_hash bytes)")
    case None
    with mid have "db' = db\<lparr>chunk_data := (chunk_data db)(sha256_hash bytes \<mapsto> bytes)\<rparr>"
      by (auto simp: insert_chunk_def rbind_Inr_iff split: if_splits)
    with None show ?thesis
      by (intro exI [of _ "(chunk_data db)(sha256_hash bytes \<mapsto> bytes)"]) (auto simp: map_le_def dom_def)
  next
    case (Some previous)
    with mid have "db' = db" "previous = bytes" by (auto split: if_splits)
    with Some show ?thesis by (intro exI [of _ "chunk_data db"]) simp
  qed
qed

section \<open>Ingestion\<close>

definition chunks_added :: "byte list \<Rightarrow> object_db \<Rightarrow> object_db \<Rightarrow> bool" where
  "chunks_added payload db db' \<longleftrightarrow>
     (\<exists>t. db' = db\<lparr>chunk_data := t\<rparr> \<and> chunk_data db \<subseteq>\<^sub>m t \<and> holds t payload)"

lemma chunks_added_Nil: "chunks_added [] db db"
  by (auto simp: chunks_added_def holds_def intro!: exI [of _ "chunk_data db"])

lemma chunks_added_Cons:
  assumes "rest \<noteq> []" and "storeChunk (take chunkBytes rest) db = Inr (c, db1)"
    and "chunks_added (drop chunkBytes rest) db1 db'"
  shows "chunks_added rest db db'" "parts_of rest = c # parts_of (drop chunkBytes rest)"
proof -
  obtain t where t: "db1 = db\<lparr>chunk_data := t\<rparr>" "chunk_data db \<subseteq>\<^sub>m t"
    "t (sha256_hash (take chunkBytes rest)) = Some (take chunkBytes rest)"
    using storeChunk_Inr(3) [OF assms(2)] by blast
  obtain u where u: "db' = db1\<lparr>chunk_data := u\<rparr>" "t \<subseteq>\<^sub>m u" "holds u (drop chunkBytes rest)"
    using assms(3) t(1) by (auto simp: chunks_added_def)
  have "holds u rest"
    using u t(3) assms(1) by (auto simp: holds_def pieces.simps [of rest] map_le_def dom_def)
  then show "chunks_added rest db db'"
    using t u by (auto simp: chunks_added_def intro!: exI [of _ u] elim: map_le_trans)
  show "parts_of rest = c # parts_of (drop chunkBytes rest)"
    using assms(1) storeChunk_Inr(2) [OF assms(2)] by (simp add: parts_of_def pieces.simps [of rest])
qed

text \<open>The hash state stands for the bytes read, and the count and parts follow them.\<close>

definition ingested :: "ingest_state \<Rightarrow> byte list \<Rightarrow> byte list \<Rightarrow> ingest_state \<Rightarrow> bool" where
  "ingested g m rest g' \<longleftrightarrow>
     ObjectHash_represents (ig_hash g') (m @ rest) \<and> ig_total g' = ig_total g + length rest \<and>
     ig_parts g' = ig_parts g @ parts_of rest"

lemma ingested_Cons:
  assumes "parts_of rest = c # parts_of (drop chunkBytes rest)"
    and "ingested (ingest_next g (take chunkBytes rest) h c) (m @ take chunkBytes rest) (drop chunkBytes rest) g'"
  shows "ingested g m rest g'"
  using assms by (auto simp: ingested_def ingest_next_def)

lemma ingest_stream_Inr:
  assumes "ingest_stream cancelled n rest g db = Inr (g', db')"
    and "ObjectHash_represents (ig_hash g) m"
  shows "ingested g m rest g' \<and> chunks_added rest db db'"
  using assms
proof (induction cancelled n rest g db arbitrary: m rule: ingest_stream.induct)
  case (1 cancelled n rest g db)
  let ?piece = "take chunkBytes rest"
  show ?case
  proof (cases "?piece = []")
    case True
    then have "rest = []" by (simp add: chunkBytes_def)
    then show ?thesis
      using "1.prems" by (auto simp: ingest_stream.simps [of cancelled n "[]"] Let_def ingested_def
          parts_of_def chunks_added_Nil split: if_splits)
  next
    case False
    then have ne: "rest \<noteq> []" by auto
    from "1.prems"(1) False obtain h c db1
      where step: "\<not> cancelled (ig_polls g)" "ObjectHash_update (ig_hash g) ?piece = Inr h"
        "\<not> ig_total g + length ?piece > n" "storeChunk ?piece db = Inr (c, db1)"
      and rest: "(if length ?piece < chunkBytes then Inr (ingest_next g ?piece h c, db1)
          else ingest_stream cancelled n (drop chunkBytes rest) (ingest_next g ?piece h c) db1) = Inr (g', db')"
      unfolding ingest_stream.simps [of cancelled n rest] Let_def
      by (auto simp: rbind_Inr_iff simp del: length_take take_eq_Nil split: if_split_asm)
    have h: "ObjectHash_represents h (m @ ?piece)"
      using ObjectHash_update_Inr [OF "1.prems"(2) step(2)] by blast
    have "ingested (ingest_next g ?piece h c) (m @ ?piece) (drop chunkBytes rest) g' \<and>
        chunks_added (drop chunkBytes rest) db1 db'"
    proof (cases "length ?piece < chunkBytes")
      case True
      then have "drop chunkBytes rest = []" by simp
      then show ?thesis using rest True h
        by (auto simp: ingested_def parts_of_def chunks_added_Nil ingest_next_def simp del: length_take)
    next
      case full: False
      have "ObjectHash_represents (ig_hash (ingest_next g ?piece h c)) (m @ ?piece)"
        using h by (simp add: ingest_next_def)
      from "1.IH" [OF step(1) refl False step(3) full _ this] rest full
      show ?thesis by (simp del: length_take)
    qed
    then show ?thesis
      using chunks_added_Cons [OF ne step(4)] ingested_Cons by blast
  qed
qed

lemma ingest_slices_Inr:
  assumes "ingest_slices cancelled rest g db = Inr (g', db')"
    and "ObjectHash_represents (ig_hash g) m"
  shows "ingested g m rest g' \<and> chunks_added rest db db'"
  using assms
proof (induction cancelled rest g db arbitrary: m rule: ingest_slices.induct)
  case (1 cancelled rest g db)
  let ?piece = "take chunkBytes rest"
  show ?case
  proof (cases "rest = []")
    case True
    then show ?thesis
      using "1.prems" by (auto simp: ingest_slices.simps [of cancelled "[]"] ingested_def
          parts_of_def chunks_added_Nil split: if_splits)
  next
    case False
    from "1.prems"(1) False obtain h c db1
      where step: "\<not> cancelled (ig_polls g)" "ObjectHash_update (ig_hash g) ?piece = Inr h"
        "storeChunk ?piece db = Inr (c, db1)"
      and rest: "ingest_slices cancelled (drop chunkBytes rest) (ingest_next g ?piece h c) db1 = Inr (g', db')"
      unfolding ingest_slices.simps [of cancelled rest] Let_def
      by (auto simp: rbind_Inr_iff simp del: length_take take_eq_Nil split: if_split_asm)
    have "ObjectHash_represents (ig_hash (ingest_next g ?piece h c)) (m @ ?piece)"
      using ObjectHash_update_Inr [OF "1.prems"(2) step(2)] by (simp add: ingest_next_def)
    from "1.IH" [OF False step(1) refl rest this]
    have "ingested (ingest_next g ?piece h c) (m @ ?piece) (drop chunkBytes rest) g' \<and>
        chunks_added (drop chunkBytes rest) db1 db'" .
    then show ?thesis
      using chunks_added_Cons [OF False step(3)] ingested_Cons by blast
  qed
qed

text \<open>The bytes an input delivers, and the checks it must pass.\<close>

fun input_payload :: "ingest_input \<Rightarrow> byte list" where
  "input_payload (FromFile f) = sf_bytes f"
| "input_payload (Prepared p) = ps_bytes p"

fun input_stable :: "ingest_input \<Rightarrow> bool" where
  "input_stable (FromFile f) \<longleftrightarrow> sf_direct f \<noteq> None \<and> sf_regular f \<and> int (sf_size f) \<le> int64_max \<and>
     sf_opens f \<and> length (sf_bytes f) = sf_size f \<and> \<not> sf_bad f \<and> sf_direct_after f = sf_direct f \<and>
     sf_size_after f = sf_size f \<and> sf_modified_after f = sf_modified f"
| "input_stable (Prepared p) \<longleftrightarrow> ps_unchanged p"

theorem ingest_Inr:
  assumes "ingest input cancelled r db = Inr (parts, r', db')"
  shows "parts = parts_of (input_payload input)"
    "r' = r\<lparr>r_sha256 := sha256_hash (input_payload input), r_size := length (input_payload input)\<rparr>"
    "chunks_added (input_payload input) db db'" "input_stable input"
    "length (input_payload input) \<le> sha_limit"
proof -
  have start: "ObjectHash_represents (ig_hash ingest_start) []"
    using object_hash.represents_empty by (simp add: ingest_start_def)
  have out: "parts = parts_of (input_payload input) \<and>
      r' = r\<lparr>r_sha256 := sha256_hash (input_payload input), r_size := length (input_payload input)\<rparr> \<and>
      chunks_added (input_payload input) db db' \<and> input_stable input \<and>
      length (input_payload input) \<le> sha_limit"
  proof (cases input)
    case (FromFile f)
    with assms obtain g where g: "ingest_stream cancelled (sf_size f) (sf_bytes f) ingest_start db = Inr (g, db')"
      and rest: "ig_total g = sf_size f" "parts = ig_parts g"
        "r' = r\<lparr>r_sha256 := ObjectHash_finish (ig_hash g), r_size := ig_total g\<rparr>"
      and st: "length (sf_bytes f) = ig_total g \<Longrightarrow> input_stable input"
      by (auto simp: ingest_def ingest_file_def rbind_Inr_iff not_less split: if_splits prod.splits)
    from ingest_stream_Inr [OF g start] rest st FromFile show ?thesis
      using object_hash.finish_hash [of "ig_hash g" "sf_bytes f"] ObjectHash_represents_limit [of "ig_hash g" "sf_bytes f"]
      by (auto simp: ingested_def ingest_start_def)
  next
    case (Prepared p)
    with assms obtain g where g: "ingest_slices cancelled (ps_bytes p) ingest_start db = Inr (g, db')"
      and rest: "parts = ig_parts g" "input_stable input"
        "r' = r\<lparr>r_sha256 := ObjectHash_finish (ig_hash g), r_size := length (ps_bytes p)\<rparr>"
      by (auto simp: ingest_def ingest_prepared_def rbind_Inr_iff split: if_splits prod.splits)
    from ingest_slices_Inr [OF g start] rest Prepared show ?thesis
      using object_hash.finish_hash [of "ig_hash g" "ps_bytes p"] ObjectHash_represents_limit [of "ig_hash g" "ps_bytes p"]
      by (auto simp: ingested_def ingest_start_def)
  qed
  then show "parts = parts_of (input_payload input)"
    "r' = r\<lparr>r_sha256 := sha256_hash (input_payload input), r_size := length (input_payload input)\<rparr>"
    "chunks_added (input_payload input) db db'" "input_stable input"
    "length (input_payload input) \<le> sha_limit" by blast+
qed

section \<open>Publication\<close>

lemma validationKey_ignores_key [simp]:
  "validationKey (r\<lparr>r_validationKey := k\<rparr>) s box ctx raw = validationKey r s box ctx raw"
  by (simp add: validationKey_def key_fields_def)

definition rows_of :: "string \<Rightarrow> nat \<Rightarrow> int \<Rightarrow> Chunk list \<Rightarrow> chunk_row list" where
  "rows_of key version ordinal parts =
     map (\<lambda>(i, part). \<lparr>cr_object_key = key, cr_version = version, cr_ordinal = i,
        cr_sha256 = c_hash part, cr_size = c_size part\<rparr>)
       (zip (map (\<lambda>n. ordinal + int n) [0..<length parts]) parts)"

lemma rows_of_Nil [simp]: "rows_of key version i [] = []"
  by (simp add: rows_of_def)

lemma rows_of_Cons [simp]:
  "rows_of key version i (part # parts) =
     \<lparr>cr_object_key = key, cr_version = version, cr_ordinal = i, cr_sha256 = c_hash part,
       cr_size = c_size part\<rparr> # rows_of key version (i + 1) parts"
proof -
  have "map (\<lambda>n. i + int n) [0..<Suc (length parts)] = i # map (\<lambda>n. i + 1 + int n) [0..<length parts]"
    by (subst map_upt_Suc) (simp add: add.assoc)
  then show ?thesis unfolding rows_of_def by simp
qed

lemma insert_parts_Inr:
  "insert_parts key version i parts db = Inr db' \<Longrightarrow>
     db' = db\<lparr>revision_chunks := revision_chunks db @ rows_of key version i parts\<rparr>"
proof (induction parts arbitrary: i db)
  case (Cons part parts)
  then show ?case
    by (auto simp: rbind_Inr_iff insert_revision_chunk_def split: if_splits dest!: Cons.IH)
qed simp

text \<open>The RAW document a new revision carries: the given one, or its predecessor's.\<close>

definition raw_text :: "object_db \<Rightarrow> string \<Rightarrow> nat \<Rightarrow> string" where
  "raw_text db key version = (case raw_revisions db (key, version) of None \<Rightarrow> [] | Some d \<Rightarrow> d)"

definition head_row :: "object_row \<Rightarrow> ObjectRecord \<Rightarrow> object_row" where
  "head_row ob r = ob\<lparr>ob_head := r_version r, ob_path := r_path r, ob_deleted := r_deleted r\<rparr>"

definition published :: "ObjectRecord \<Rightarrow> string \<Rightarrow> Chunk list \<Rightarrow> object_row \<Rightarrow> object_db \<Rightarrow> object_db" where
  "published r document parts ob db = db\<lparr>
     revisions := revisions db @ [revision_of r],
     object_journal := object_journal db @
       [\<lparr>jr_sequence = next_rowid (map jr_sequence (object_journal db)), jr_object_key = r_key r,
         jr_version = r_version r, jr_session_key = r_sessionKey r\<rparr>],
     raw_revisions := (if document = [] then raw_revisions db
       else (raw_revisions db)((r_key r, r_version r) \<mapsto> document)),
     revision_chunks := revision_chunks db @ rows_of (r_key r) (r_version r) 0 parts,
     objects := map (\<lambda>x. if ob_object_key x = r_key r then head_row ob r else x) (objects db),
     current_index := filter (\<lambda>e. ix_indexKey e \<noteq> ob_index_key ob) (current_index db) @
       [index_entry (head_row ob r) (revision_of r)]\<rparr>"

definition sealed_record :: "ObjectRecord \<Rightarrow> ObjectSession \<Rightarrow> int \<Rightarrow> string \<Rightarrow> ObjectRecord" where
  "sealed_record r s now vkey =
     r\<lparr>r_author := s_author s, r_sessionKey := s_key s, r_recordedAtNs := now, r_schemaVersion := 2,
       r_validationKey := vkey\<rparr>"

text \<open>What must hold for a sealed record to be published.\<close>

definition publishable ::
  "ObjectRecord \<Rightarrow> ObjectSession \<Rightarrow> string \<Rightarrow> Chunk list \<Rightarrow> object_row \<Rightarrow> object_db \<Rightarrow> bool" where
  "publishable r s document parts ob db \<longleftrightarrow>
     r_version r \<noteq> 0 \<and> find_revision db (r_key r) (r_version r) = None \<and>
     find_object db (r_key r) = Some ob \<and> find_session db (s_key s) \<noteq> None \<and>
     (r_deleted r \<or> \<not> live_path_taken db (r_key r) (r_path r)) \<and>
     length (r_key r) \<le> bind_limit \<and> length (s_key s) \<le> bind_limit \<and>
     (\<exists>ctx. session_context db (s_key s) = Inr ctx \<and>
        validationKey r s (container db) ctx document = Inr (r_validationKey r))"

lemma insert_revision_Inr:
  assumes "insert_revision r db = Inr db'"
  shows "db' = journal_append r (db\<lparr>revisions := revisions db @ [r]\<rparr>)" "rv_version r \<noteq> 0"
    "find_revision db (rv_object_key r) (rv_version r) = None"
    "find_object db (rv_object_key r) \<noteq> None" "find_session db (rv_session_key r) \<noteq> None"
    "length (rv_object_key r) \<le> bind_limit" "length (rv_session_key r) \<le> bind_limit"
  using assms by (auto simp: insert_revision_def rbind_Inr_iff split: if_splits)

lemma insert_raw_Inr:
  "insert_raw key version document db = Inr db' \<Longrightarrow>
     db' = db\<lparr>raw_revisions := (raw_revisions db)((key, version) \<mapsto> document)\<rparr>"
  by (auto simp: insert_raw_def rbind_Inr_iff split: if_splits)

lemma update_object_Inr:
  assumes "update_object key head path deleted db = Inr db'" and "find_object db key = Some ob"
  shows "db' = current_index_publish (ob\<lparr>ob_head := head, ob_path := path, ob_deleted := deleted\<rparr>)
      (db\<lparr>objects := map (\<lambda>x. if ob_object_key x = key
         then ob\<lparr>ob_head := head, ob_path := path, ob_deleted := deleted\<rparr> else x) (objects db)\<rparr>)"
    "deleted \<or> \<not> live_path_taken db key path"
  using assms by (auto simp: update_object_def rbind_Inr_iff Let_def split: if_splits)

lemma find_object_update [simp]:
  "find_object (db\<lparr>revisions := a\<rparr>) = find_object db"
  "find_object (db\<lparr>object_journal := b\<rparr>) = find_object db"
  "find_object (db\<lparr>raw_revisions := c\<rparr>) = find_object db"
  "find_object (db\<lparr>revision_chunks := d\<rparr>) = find_object db"
  "find_object (db\<lparr>chunk_data := e\<rparr>) = find_object db"
  "live_path_taken (db\<lparr>revisions := a\<rparr>) = live_path_taken db"
  "live_path_taken (db\<lparr>object_journal := b\<rparr>) = live_path_taken db"
  "live_path_taken (db\<lparr>raw_revisions := c\<rparr>) = live_path_taken db"
  "live_path_taken (db\<lparr>revision_chunks := d\<rparr>) = live_path_taken db"
  by (simp_all add: find_object_def live_path_taken_def fun_eq_iff)

lemma find_revision_update [simp]:
  "find_revision (db\<lparr>objects := a\<rparr>) = find_revision db"
  "find_revision (db\<lparr>object_journal := b\<rparr>) = find_revision db"
  "find_revision (db\<lparr>raw_revisions := c\<rparr>) = find_revision db"
  "find_revision (db\<lparr>revision_chunks := d\<rparr>) = find_revision db"
  "find_revision (db\<lparr>chunk_data := e\<rparr>) = find_revision db"
  by (simp_all add: find_revision_def fun_eq_iff)

lemma find_revision_snoc:
  "find_revision db (rv_object_key r) (rv_version r) = None \<Longrightarrow>
   find_revision (db\<lparr>revisions := revisions db @ [r]\<rparr>) (rv_object_key r) (rv_version r) = Some r"
  by (simp add: find_revision_def find_append)

lemma revision_of_simps [simp]:
  "rv_object_key (revision_of r) = r_key r" "rv_version (revision_of r) = r_version r"
  "rv_session_key (revision_of r) = r_sessionKey r" "rv_path (revision_of r) = r_path r"
  "rv_deleted (revision_of r) = r_deleted r" "rv_validation_key (revision_of r) = r_validationKey r"
  "rv_parent_key (revision_of r) = r_parentValidationKey r" "rv_sha256 (revision_of r) = r_sha256 r"
  "rv_size (revision_of r) = r_size r" "rv_record_format (revision_of r) = 2"
  by (simp_all add: revision_of_def)

definition inherited :: "object_db \<Rightarrow> ObjectRecord \<Rightarrow> string" where
  "inherited db r = (if r_version r > 1 then raw_text db (r_key r) (r_version r - 1) else [])"

lemma rawDocument_Inr:
  "4 \<le> schema db \<Longrightarrow> rawDocument db key version = Inr d \<longleftrightarrow>
     length key \<le> bind_limit \<and> d = raw_text db key version"
  by (auto simp: rawDocument_def rbind_Inr_iff raw_text_def)

theorem publish_Inr:
  assumes "publish r s parts raw now db = Inr (r', db')" and "4 \<le> schema db"
  obtains document ob vkey where
    "document = (case raw of Some d \<Rightarrow> d | None \<Rightarrow> inherited db r)"
    "r' = sealed_record r s now vkey" "publishable r' s document parts ob db"
    "db' = published r' document parts ob db"
proof -
  obtain document ctx vkey db1 db2 db3 where
    doc: "(case raw of Some d \<Rightarrow> Inr d | None \<Rightarrow>
       if r_version r > 1 then rawDocument db (r_key r) (r_version r - 1) else Inr []) = Inr document"
    and ctx: "session_context db (s_key s) = Inr ctx"
    and vkey: "validationKey (sealed_record r s now []) s (container db) ctx document = Inr vkey"
    and ins': "insert_revision (revision_of (sealed_record r s now vkey)) db = Inr db1"
    and db2: "(if document \<noteq> [] then insert_raw (r_key r) (r_version r) document db1 else Inr db1) = Inr db2"
    and db3: "insert_parts (r_key r) (r_version r) 0 parts db2 = Inr db3"
    and db4: "update_object (r_key r) (r_version r) (r_path r) (r_deleted r) db3 = Inr db'"
    and r': "r' = sealed_record r s now vkey"
  proof -
    show thesis
      using assms(1) unfolding publish_def Let_def ObjectRecord.simps
      by (elim rbind_InrE)
        (rule that [unfolded sealed_record_def validationKey_ignores_key], assumption+, auto)
  qed
  note db1 = ins' [folded r']
  have same [simp]: "r_key r' = r_key r" "r_version r' = r_version r" "r_path r' = r_path r"
    "r_deleted r' = r_deleted r" "r_sessionKey r' = s_key s"
    by (simp_all add: r' sealed_record_def)
  note ins = insert_revision_Inr [OF db1]
  from ins(4) obtain ob where ob: "find_object db (r_key r) = Some ob" by auto
  then have obk: "ob_object_key ob = r_key r" by (auto simp: find_object_def dest!: find_Some_set)
  have d2: "db2 = db1\<lparr>raw_revisions := (if document = [] then raw_revisions db
      else (raw_revisions db)((r_key r, r_version r) \<mapsto> document))\<rparr>"
    using db2 ins(1) by (auto simp: journal_append_def dest!: insert_raw_Inr split: if_splits)
  have d3: "db3 = db2\<lparr>revision_chunks := revision_chunks db @ rows_of (r_key r) (r_version r) 0 parts\<rparr>"
    using insert_parts_Inr [OF db3] d2 ins(1) by (simp add: journal_append_def)
  have fo: "find_object db3 (r_key r) = Some ob" and lp: "live_path_taken db3 = live_path_taken db"
    using ob unfolding d3 d2 ins(1) journal_append_def by simp_all
  have fr: "find_revision db3 (r_key r) (r_version r) = Some (revision_of r')"
    using find_revision_snoc [OF ins(3)] unfolding d3 d2 ins(1) journal_append_def by simp
  note upd = update_object_Inr [OF db4 fo]
  have "db' = published r' document parts ob db"
    using fr ins(2) unfolding upd(1) by (simp add: current_index_publish_def obk published_def head_row_def d3 d2 ins(1) journal_append_def)
  moreover have "publishable r' s document parts ob db"
    using ins ob upd(2) ctx vkey lp
    by (auto simp: publishable_def r' sealed_record_def)
  moreover have "document = (case raw of Some d \<Rightarrow> d | None \<Rightarrow> inherited db r)"
    using doc assms(2) by (auto simp: rawDocument_Inr inherited_def split: option.splits if_splits)
  ultimately show thesis using that r' by blast
qed

end
