(* ===== verification/Object_Invariant.thy ===== *)
theory Object_Invariant
  imports Object_Effects
begin

text \<open>
  The invariant of an object package and the order \<open>extends\<close> in which its history grows.
  \<open>db_ok\<close> joins the table constraints with \<open>revision_ok\<close>, which says of one stored
  revision that its validation key recomputes, that it is linked to its predecessor and
  that its chunk rows hold its payload.  Each table change of the store (a new session, the
  end of a session, a new object, new chunks, a publication) preserves it.
\<close>

section \<open>Growth of a package\<close>

definition rev_id :: "revision_row \<Rightarrow> string \<times> nat" where
  "rev_id r = (rv_object_key r, rv_version r)"

definition revision_rows :: "object_db \<Rightarrow> string \<Rightarrow> nat \<Rightarrow> chunk_row list" where
  "revision_rows db key version =
     filter (\<lambda>c. cr_object_key c = key \<and> cr_version c = version) (revision_chunks db)"

definition extends :: "object_db \<Rightarrow> object_db \<Rightarrow> bool" where
  "extends db db' \<longleftrightarrow>
     container db' = container db \<and> schema db' = schema db \<and> query_only db' = query_only db \<and>
     (\<forall>ob \<in> set (objects db). \<exists>ob' \<in> set (objects db'). ob_object_key ob' = ob_object_key ob \<and>
        ob_index_key ob' = ob_index_key ob \<and> ob_head ob \<le> ob_head ob') \<and>
     (\<forall>s \<in> set (sessions db). \<exists>t. s\<lparr>s_endedAtNs := t\<rparr> \<in> set (sessions db')) \<and>
     set (work_sessions db) \<subseteq> set (work_sessions db') \<and>
     (\<exists>new. revisions db' = revisions db @ new) \<and>
     (\<forall>r \<in> set (revisions db). raw_text db' (rv_object_key r) (rv_version r) =
          raw_text db (rv_object_key r) (rv_version r) \<and>
        revision_rows db' (rv_object_key r) (rv_version r) =
          revision_rows db (rv_object_key r) (rv_version r)) \<and>
     chunk_data db \<subseteq>\<^sub>m chunk_data db'"

lemma session_kept: "(s :: ObjectSession) \<in> S \<Longrightarrow> \<exists>t. s\<lparr>s_endedAtNs := t\<rparr> \<in> S"
  by (rule exI [of _ "s_endedAtNs s"]) simp

lemma extends_refl [simp, intro]: "extends db db"
  unfolding extends_def by (auto intro: session_kept)

lemma extends_trans:
  assumes "extends a b" and "extends b c"
  shows "extends a c"
  unfolding extends_def
proof (intro conjI ballI)
  show "container c = container a" "schema c = schema a" "query_only c = query_only a" "set (work_sessions a) \<subseteq> set (work_sessions c)"
    "\<exists>new. revisions c = revisions a @ new" "chunk_data a \<subseteq>\<^sub>m chunk_data c"
    using assms by (auto simp: extends_def intro: map_le_trans)
next
  fix ob assume "ob \<in> set (objects a)"
  with assms(1) obtain ob' where "ob' \<in> set (objects b)" "ob_object_key ob' = ob_object_key ob"
      "ob_index_key ob' = ob_index_key ob" "ob_head ob \<le> ob_head ob'"
    by (auto simp: extends_def)
  with assms(2) show "\<exists>ob'\<in>set (objects c). ob_object_key ob' = ob_object_key ob \<and>
      ob_index_key ob' = ob_index_key ob \<and> ob_head ob \<le> ob_head ob'"
    unfolding extends_def by (metis order_trans)
next
  fix s assume "s \<in> set (sessions a)"
  with assms(1) obtain t where "s\<lparr>s_endedAtNs := t\<rparr> \<in> set (sessions b)"
    by (auto simp: extends_def)
  with assms(2) obtain u where "s\<lparr>s_endedAtNs := t\<rparr>\<lparr>s_endedAtNs := u\<rparr> \<in> set (sessions c)"
    unfolding extends_def by blast
  then show "\<exists>t. s\<lparr>s_endedAtNs := t\<rparr> \<in> set (sessions c)" by auto
next
  fix r assume "r \<in> set (revisions a)"
  moreover from this have "r \<in> set (revisions b)" using assms(1) by (auto simp: extends_def)
  ultimately show "raw_text c (rv_object_key r) (rv_version r) = raw_text a (rv_object_key r) (rv_version r)"
    "revision_rows c (rv_object_key r) (rv_version r) = revision_rows a (rv_object_key r) (rv_version r)"
    using assms by (auto simp: extends_def)
qed

section \<open>One revision\<close>

definition sealed_by ::
  "object_db \<Rightarrow> revision_row \<Rightarrow> object_row \<Rightarrow> ObjectSession \<Rightarrow> work_session_row \<Rightarrow> bool" where
  "sealed_by db r ob s w \<longleftrightarrow>
     ob_object_key ob = rv_object_key r \<and> s_key s = rv_session_key r \<and>
     ws_session_key w = rv_session_key r \<and> rv_record_format r = 2 \<and>
     r_author (record_of ob r s) = s_author s \<and>
     length (rv_object_key r) \<le> bind_limit \<and> length (rv_session_key r) \<le> bind_limit \<and>
     validationKey (record_of ob r s) s (container db) (ws_context w)
       (raw_text db (rv_object_key r) (rv_version r)) = Inr (rv_validation_key r)"

definition sealed :: "object_db \<Rightarrow> revision_row \<Rightarrow> bool" where
  "sealed db r \<longleftrightarrow> (\<exists>ob \<in> set (objects db). \<exists>s \<in> set (sessions db). \<exists>w \<in> set (work_sessions db).
     sealed_by db r ob s w)"

definition linked :: "object_db \<Rightarrow> revision_row \<Rightarrow> bool" where
  "linked db r \<longleftrightarrow>
     (if rv_version r = 1 then rv_parent_key r = []
      else \<exists>q \<in> set (revisions db). rev_id q = (rv_object_key r, rv_version r - 1) \<and>
             rv_parent_key r = rv_validation_key q)"

definition stores :: "object_db \<Rightarrow> revision_row \<Rightarrow> byte list \<Rightarrow> bool" where
  "stores db r payload \<longleftrightarrow>
     revision_rows db (rv_object_key r) (rv_version r) =
       rows_of (rv_object_key r) (rv_version r) 0 (parts_of payload) \<and>
     holds (chunk_data db) payload \<and> length payload \<le> sha_limit \<and>
     rv_sha256 r = sha256_hash payload \<and> rv_size r = length payload"

definition stored :: "object_db \<Rightarrow> revision_row \<Rightarrow> bool" where
  "stored db r \<longleftrightarrow>
     (if rv_deleted r then revision_rows db (rv_object_key r) (rv_version r) = []
      else \<exists>payload. stores db r payload)"

definition revision_ok :: "object_db \<Rightarrow> revision_row \<Rightarrow> bool" where
  "revision_ok db r \<longleftrightarrow> sealed db r \<and> linked db r \<and> stored db r"

lemma validationKey_record_cong:
  "ob_index_key ob' = ob_index_key ob \<Longrightarrow>
   validationKey (record_of ob' r (s\<lparr>s_endedAtNs := t\<rparr>)) (s\<lparr>s_endedAtNs := t\<rparr>) box ctx raw =
   validationKey (record_of ob r s) s box ctx raw"
  by (simp add: validationKey_def key_fields_def record_of_def)

lemma extends_sealed:
  assumes "extends db db'" and "r \<in> set (revisions db)" and "sealed db r"
  shows "sealed db' r"
proof -
  from assms(3) obtain ob s w where mem: "ob \<in> set (objects db)" "s \<in> set (sessions db)"
      "w \<in> set (work_sessions db)" and sb: "sealed_by db r ob s w"
    by (auto simp: sealed_def)
  from assms(1) mem(1) obtain ob' where ob': "ob' \<in> set (objects db')"
      "ob_object_key ob' = ob_object_key ob" "ob_index_key ob' = ob_index_key ob"
    unfolding extends_def by blast
  from assms(1) mem(2) obtain t where t: "s\<lparr>s_endedAtNs := t\<rparr> \<in> set (sessions db')"
    unfolding extends_def by blast
  have "w \<in> set (work_sessions db')" "container db' = container db"
    "raw_text db' (rv_object_key r) (rv_version r) = raw_text db (rv_object_key r) (rv_version r)"
    using assms(1,2) mem(3) by (auto simp: extends_def)
  moreover from this sb ob' have "sealed_by db' r ob' (s\<lparr>s_endedAtNs := t\<rparr>) w"
    by (simp add: sealed_by_def validationKey_record_cong) (simp add: record_of_def)
  ultimately show ?thesis using ob' t by (auto simp: sealed_def)
qed

lemma extends_stores:
  "extends db db' \<Longrightarrow> r \<in> set (revisions db) \<Longrightarrow> stores db r payload \<Longrightarrow> stores db' r payload"
  by (auto simp: extends_def stores_def intro: holds_mono)

lemma extends_revision_ok:
  assumes "extends db db'" and "r \<in> set (revisions db)" and "revision_ok db r"
  shows "revision_ok db' r"
proof -
  have "linked db' r"
    using assms by (fastforce simp: revision_ok_def linked_def extends_def split: if_splits)
  moreover have "stored db' r"
  proof (cases "rv_deleted r")
    case True
    with assms show ?thesis by (auto simp: revision_ok_def stored_def extends_def)
  next
    case False
    with assms show ?thesis by (auto simp: revision_ok_def stored_def dest: extends_stores)
  qed
  ultimately show ?thesis
    using assms extends_sealed by (auto simp: revision_ok_def)
qed

section \<open>The tables\<close>

definition sessions_ok :: "object_db \<Rightarrow> bool" where
  "sessions_ok db \<longleftrightarrow> 4 \<le> schema db \<and> distinct (map s_key (sessions db)) \<and>
     map ws_session_key (work_sessions db) = map s_key (sessions db)"

definition objects_ok :: "object_db \<Rightarrow> bool" where
  "objects_ok db \<longleftrightarrow>
     distinct (map ob_object_key (objects db)) \<and> sorted_wrt (<) (0 # map ob_index_key (objects db)) \<and>
     inj_on ob_path {ob \<in> set (objects db). \<not> ob_deleted ob}"

text \<open>The versions of one object in publication order.\<close>

definition versions_of :: "revision_row list \<Rightarrow> string \<Rightarrow> nat list" where
  "versions_of rs key = map rv_version (filter (\<lambda>r. rv_object_key r = key) rs)"

definition versions_ok :: "object_db \<Rightarrow> bool" where
  "versions_ok db \<longleftrightarrow>
     distinct (map rev_id (revisions db)) \<and>
     (\<forall>key. versions_of (revisions db) key = map Suc [0..<length (versions_of (revisions db) key)]) \<and>
     (\<forall>key v. (key, v) \<in> rev_id ` set (revisions db) \<longleftrightarrow>
        (\<exists>ob \<in> set (objects db). ob_object_key ob = key \<and> 1 \<le> v \<and> v \<le> ob_head ob))"

definition heads_ok :: "object_db \<Rightarrow> bool" where
  "heads_ok db \<longleftrightarrow>
     (\<forall>ob \<in> set (objects db). int (ob_head ob) \<le> int64_max \<and>
        (\<forall>r \<in> set (revisions db). rev_id r = (ob_object_key ob, ob_head ob) \<longrightarrow>
           rv_path r = ob_path ob \<and> rv_deleted r = ob_deleted ob))"

definition rows_ok :: "object_db \<Rightarrow> bool" where
  "rows_ok db \<longleftrightarrow>
     (\<forall>c \<in> set (revision_chunks db). (cr_object_key c, cr_version c) \<in> rev_id ` set (revisions db)) \<and>
     dom (raw_revisions db) \<subseteq> rev_id ` set (revisions db) \<and> [] \<notin> ran (raw_revisions db)"

definition journal_ok :: "object_db \<Rightarrow> bool" where
  "journal_ok db \<longleftrightarrow>
     map (\<lambda>j. (jr_object_key j, jr_version j, jr_session_key j)) (object_journal db) =
       map (\<lambda>r. (rv_object_key r, rv_version r, rv_session_key r)) (revisions db) \<and>
     map jr_sequence (object_journal db) = map int [1..<Suc (length (object_journal db))]"

definition index_ok :: "object_db \<Rightarrow> bool" where
  "index_ok db \<longleftrightarrow>
     distinct (map ix_indexKey (current_index db)) \<and>
     set (current_index db) = {index_entry ob r | ob r. ob \<in> set (objects db) \<and>
        r \<in> set (revisions db) \<and> rev_id r = (ob_object_key ob, ob_head ob)}"

definition db_ok :: "object_db \<Rightarrow> bool" where
  "db_ok db \<longleftrightarrow> sessions_ok db \<and> objects_ok db \<and> versions_ok db \<and> heads_ok db \<and> rows_ok db \<and>
     journal_ok db \<and> index_ok db \<and> (\<forall>r \<in> set (revisions db). revision_ok db r)"

lemma db_okD:
  assumes "db_ok db"
  shows "sessions_ok db" "objects_ok db" "versions_ok db" "heads_ok db" "rows_ok db" "journal_ok db"
    "index_ok db" "\<And>r. r \<in> set (revisions db) \<Longrightarrow> revision_ok db r"
  using assms by (simp_all add: db_ok_def)

lemmas tables_ok_defs = sessions_ok_def objects_ok_def versions_ok_def heads_ok_def rows_ok_def
  journal_ok_def index_ok_def

lemma versions_of_Nil [simp]: "versions_of [] key = []"
  by (simp add: versions_of_def)

lemma versions_of_append [simp]: "versions_of (rs @ rs') key = versions_of rs key @ versions_of rs' key"
  by (simp add: versions_of_def)

lemma in_versions_of: "v \<in> set (versions_of rs key) \<longleftrightarrow> (key, v) \<in> rev_id ` set rs"
  by (force simp: versions_of_def rev_id_def)

lemma db_ok_empty: "db_ok (empty_db key)"
  by (simp add: db_ok_def tables_ok_defs empty_db_def)

lemma extends_all_revisions:
  assumes "extends db db'" and "\<forall>r \<in> set (revisions db). revision_ok db r" and "revisions db' = revisions db"
  shows "\<forall>r \<in> set (revisions db'). revision_ok db' r"
  using assms extends_revision_ok by simp

section \<open>Small changes\<close>

lemma next_rowid_upt: "next_rowid (map int [1..<Suc n]) = int n + 1"
proof -
  have "fold max (map int [1..<Suc n]) 0 = int n"
    by (induction n) (simp_all add: fold_append)
  then show ?thesis by (simp add: next_rowid_def)
qed

lemma fold_max_ge: "(x :: int) \<in> set xs \<or> x = a \<Longrightarrow> x \<le> fold max xs a"
proof (induction xs arbitrary: a x)
  case (Cons y ys)
  have "max y a \<le> fold max ys (max y a)" by (rule Cons.IH) simp
  then show ?case using Cons.IH [of x "max y a"] Cons.prems by auto
qed simp

lemma next_rowid_greater: "x \<in> set xs \<Longrightarrow> x < next_rowid xs" "0 < next_rowid xs"
  using fold_max_ge [of x xs 0] fold_max_ge [of 0 xs 0] by (auto simp: next_rowid_def)

lemma tables_ok_chunk_data [simp]:
  "sessions_ok (db\<lparr>chunk_data := t\<rparr>) = sessions_ok db" "objects_ok (db\<lparr>chunk_data := t\<rparr>) = objects_ok db"
  "versions_ok (db\<lparr>chunk_data := t\<rparr>) = versions_ok db" "heads_ok (db\<lparr>chunk_data := t\<rparr>) = heads_ok db"
  "rows_ok (db\<lparr>chunk_data := t\<rparr>) = rows_ok db" "journal_ok (db\<lparr>chunk_data := t\<rparr>) = journal_ok db"
  "index_ok (db\<lparr>chunk_data := t\<rparr>) = index_ok db"
  by (simp_all add: tables_ok_defs del: upt_Suc)

lemma tables_ok_sessions [simp]:
  "objects_ok (db\<lparr>sessions := ss\<rparr>) = objects_ok db"
  "versions_ok (db\<lparr>sessions := ss\<rparr>) = versions_ok db"
  "heads_ok (db\<lparr>sessions := ss\<rparr>) = heads_ok db"
  "rows_ok (db\<lparr>sessions := ss\<rparr>) = rows_ok db"
  "journal_ok (db\<lparr>sessions := ss\<rparr>) = journal_ok db"
  "index_ok (db\<lparr>sessions := ss\<rparr>) = index_ok db"
  by (simp_all add: tables_ok_defs del: upt_Suc)

lemma tables_ok_work_sessions [simp]:
  "objects_ok (db\<lparr>work_sessions := ws\<rparr>) = objects_ok db"
  "versions_ok (db\<lparr>work_sessions := ws\<rparr>) = versions_ok db"
  "heads_ok (db\<lparr>work_sessions := ws\<rparr>) = heads_ok db"
  "rows_ok (db\<lparr>work_sessions := ws\<rparr>) = rows_ok db"
  "journal_ok (db\<lparr>work_sessions := ws\<rparr>) = journal_ok db"
  "index_ok (db\<lparr>work_sessions := ws\<rparr>) = index_ok db"
  by (simp_all add: tables_ok_defs del: upt_Suc)

theorem chunks_added_ok:
  assumes "db_ok db" and "chunks_added payload db db'"
  shows "db_ok db'" "extends db db'"
proof -
  obtain t where t: "db' = db\<lparr>chunk_data := t\<rparr>" "chunk_data db \<subseteq>\<^sub>m t"
    using assms(2) by (auto simp: chunks_added_def)
  then show ext: "extends db db'"
    by (auto simp: extends_def raw_text_def revision_rows_def intro: session_kept)
  from assms(1) show "db_ok db'"
    using extends_all_revisions [OF ext] t(1) by (simp add: db_ok_def)
qed

theorem insert_session_ok:
  assumes "db_ok db" and "insert_session s db = Inr db1" and "insert_work_session (s_key s) document db1 = Inr db'"
  shows "db_ok db'" "extends db db'"
    "\<exists>n. db' = db\<lparr>sessions := sessions db @ [s], work_sessions := work_sessions db @
       [\<lparr>ws_sequence = n, ws_session_key = s_key s, ws_context = document\<rparr>]\<rparr>"
proof -
  from assms(2,3) obtain n where
    db': "db' = db\<lparr>sessions := sessions db @ [s], work_sessions := work_sessions db @
       [\<lparr>ws_sequence = n, ws_session_key = s_key s, ws_context = document\<rparr>]\<rparr>"
    and fresh: "find_session db (s_key s) = None"
    by (auto simp: insert_session_def insert_work_session_def rbind_Inr_iff split: if_splits)
  then show "\<exists>n. db' = db\<lparr>sessions := sessions db @ [s], work_sessions := work_sessions db @
       [\<lparr>ws_sequence = n, ws_session_key = s_key s, ws_context = document\<rparr>]\<rparr>" by blast
  have "\<exists>t. a\<lparr>s_endedAtNs := t\<rparr> \<in> set (sessions db')" if "a \<in> set (sessions db)" for a
    by (rule session_kept) (use that db' in simp)
  then show ext: "extends db db'"
    unfolding extends_def using db' by (auto simp: raw_text_def revision_rows_def)
  have "sessions_ok db'"
    using assms(1) fresh by (auto simp: db' db_ok_def sessions_ok_def find_session_def find_None_iff_ball)
  with assms(1) show "db_ok db'"
    using extends_all_revisions [OF ext] db' by (simp add: db_ok_def)
qed

theorem update_session_ok:
  assumes "db_ok db" and "update_session_ended key at db = Inr db'"
  shows "db_ok db'" "extends db db'"
proof -
  let ?close = "\<lambda>s. if s_key s = key then s\<lparr>s_endedAtNs := at\<rparr> else s"
  have db': "db' = db\<lparr>sessions := map ?close (sessions db), work_sessions := work_sessions db\<rparr>"
    using assms(2) by (auto simp: update_session_ended_def rbind_Inr_iff)
  have "\<exists>t. a\<lparr>s_endedAtNs := t\<rparr> \<in> set (sessions db')" if "a \<in> set (sessions db)" for a
    by (rule exI [of _ "if s_key a = key then at else s_endedAtNs a"]) (use that db' in auto)
  then show ext: "extends db db'"
    unfolding extends_def using db' by (auto simp: raw_text_def revision_rows_def)
  have "map s_key (map ?close (sessions db)) = map s_key (sessions db)" by auto
  then have "sessions_ok db'"
    using assms(1) by (simp add: db' db_ok_def sessions_ok_def del: map_map)
  with assms(1) show "db_ok db'"
    using extends_all_revisions [OF ext] db' by (simp add: db_ok_def)
qed

theorem insert_object_ok:
  assumes "db_ok db" and "insert_object key path db = Inr (i, db')"
  shows "db_ok db'" "extends db db'"
    "db' = db\<lparr>objects := objects db @ [\<lparr>ob_index_key = i, ob_object_key = key, ob_head = 0,
       ob_path = path, ob_deleted = False\<rparr>]\<rparr>"
    "find_object db key = None"
proof -
  let ?new = "\<lparr>ob_index_key = i, ob_object_key = key, ob_head = 0, ob_path = path, ob_deleted = False\<rparr>"
  have db': "db' = db\<lparr>objects := objects db @ [?new]\<rparr>"
    and fresh: "find_object db key = None" and free: "\<not> live_path_taken db key path"
    and i: "i = next_rowid (map ob_index_key (objects db))"
    using assms(2) by (auto simp: insert_object_def rbind_Inr_iff Let_def split: if_splits)
  show "db' = db\<lparr>objects := objects db @ [?new]\<rparr>" "find_object db key = None"
    by (fact db' fresh)+
  have new: "\<forall>ob \<in> set (objects db). ob_object_key ob \<noteq> key"
    using fresh by (simp add: find_object_def find_None_iff_ball)
  have none: "rev_id a \<noteq> (k, 0)" if "a \<in> set (revisions db)" for a k
  proof
    assume "rev_id a = (k, 0)"
    with that have "(k, 0) \<in> rev_id ` set (revisions db)" by (metis image_eqI)
    with db_okD(3) [OF assms(1)] show False by (simp add: versions_ok_def)
  qed
  from db' show ext: "extends db db'"
    unfolding extends_def by (auto simp: raw_text_def revision_rows_def intro: session_kept)
  have top: "\<forall>ob \<in> set (objects db). ob_index_key ob < i" "0 < i"
    unfolding i by (auto intro: next_rowid_greater)
  have "objects_ok db'"
    unfolding objects_ok_def
  proof (intro conjI)
    have ok: "objects_ok db" using assms(1) by (simp add: db_ok_def)
    show "distinct (map ob_object_key (objects db'))"
      using ok new by (auto simp: db' objects_ok_def)
    show "sorted_wrt (<) (0 # map ob_index_key (objects db'))"
      using ok top by (auto simp: db' objects_ok_def sorted_wrt_append)
    have "{ob \<in> set (objects db'). \<not> ob_deleted ob} = insert ?new {ob \<in> set (objects db). \<not> ob_deleted ob}"
      by (auto simp: db')
    then show "inj_on ob_path {ob \<in> set (objects db'). \<not> ob_deleted ob}"
      using ok free new by (auto simp: objects_ok_def live_path_taken_def)
  qed
  moreover have "versions_ok db'"
    using assms(1) by (auto simp: db' db_ok_def versions_ok_def)
  moreover have "heads_ok db'"
    using assms(1) none unfolding db_ok_def heads_ok_def db' by (auto simp: int64_max_def dest: none)
  moreover have "index_ok db'"
    using assms(1) none unfolding db_ok_def index_ok_def db' by (auto dest: none)
  moreover have "sessions_ok db'" "rows_ok db'" "journal_ok db'"
    using assms(1) by (simp_all add: db' db_ok_def sessions_ok_def rows_ok_def journal_ok_def)
  ultimately show "db_ok db'"
    using extends_all_revisions [OF ext] db' assms(1) by (simp add: db_ok_def)
qed

section \<open>Publication\<close>

text \<open>What a caller of \<open>publish\<close> provides: the next version of the object and its payload.\<close>

definition publication ::
  "ObjectRecord \<Rightarrow> ObjectSession \<Rightarrow> string \<Rightarrow> Chunk list \<Rightarrow> object_row \<Rightarrow> object_db \<Rightarrow> bool" where
  "publication r s document parts ob db \<longleftrightarrow>
     publishable r s document parts ob db \<and> s \<in> set (sessions db) \<and>
     r_version r = Suc (ob_head ob) \<and> int (r_version r) \<le> int64_max \<and>
     r_indexKey r = ob_index_key ob \<and> r_author r = s_author s \<and> r_sessionKey r = s_key s \<and>
     r_schemaVersion r = 2 \<and> linked db (revision_of r) \<and>
     (if r_deleted r then parts = []
      else \<exists>payload. parts = parts_of payload \<and> holds (chunk_data db) payload \<and>
        length payload \<le> sha_limit \<and> r_sha256 r = sha256_hash payload \<and> r_size r = length payload)"

lemma publication_object:
  assumes "publication r s document parts ob db" and "db_ok db"
  shows "ob \<in> set (objects db)" "ob_object_key ob = r_key r"
    "x \<in> set (objects db) \<Longrightarrow> ob_object_key x = r_key r \<Longrightarrow> x = ob"
proof -
  have d: "distinct (map ob_object_key (objects db))"
    using db_okD(2) [OF assms(2)] by (simp add: objects_ok_def)
  have f: "find (\<lambda>x. ob_object_key x = r_key r) (objects db) = Some ob"
    using assms(1) by (simp add: publication_def publishable_def find_object_def)
  show "ob \<in> set (objects db)" "ob_object_key ob = r_key r"
    using find_key_iff [OF d] f by blast+
  show "x \<in> set (objects db) \<Longrightarrow> ob_object_key x = r_key r \<Longrightarrow> x = ob"
    using find_key_iff [OF d] f by (metis option.inject)
qed

lemma publication_fresh:
  assumes "publication r s document parts ob db" and "db_ok db"
  shows "(r_key r, r_version r) \<notin> rev_id ` set (revisions db)"
  using assms by (auto simp: publication_def publishable_def find_revision_def find_None_iff_ball rev_id_def)

lemma publication_no_rows:
  assumes "publication r s document parts ob db" and "db_ok db"
  shows "revision_rows db (r_key r) (r_version r) = []"
  using publication_fresh [OF assms] db_okD(5) [OF assms(2)]
  by (auto simp: revision_rows_def filter_empty_conv rows_ok_def)

lemma rows_of_ids: "c \<in> set (rows_of key version i parts) \<Longrightarrow> cr_object_key c = key \<and> cr_version c = version"
  by (auto simp: rows_of_def)

lemma filter_rows_of:
  "filter (\<lambda>c. cr_object_key c = k \<and> cr_version c = v) (rows_of key version i parts) =
     (if k = key \<and> v = version then rows_of key version i parts else [])"
  by (auto simp: filter_id_conv filter_empty_conv dest: rows_of_ids)

lemma revision_rows_published:
  "revision_rows (published r document parts ob db) key version =
     revision_rows db key version @
     (if key = r_key r \<and> version = r_version r then rows_of (r_key r) (r_version r) 0 parts else [])"
  by (simp add: revision_rows_def published_def filter_rows_of)

lemma raw_text_published:
  assumes "db_ok db" and "publication r s document parts ob db"
  shows "raw_text (published r document parts ob db) key version =
     (if key = r_key r \<and> version = r_version r then document else raw_text db key version)"
proof -
  have "raw_revisions db (r_key r, r_version r) = None"
    using publication_fresh [OF assms(2,1)] db_okD(5) [OF assms(1)]
    by (meson domIff rows_ok_def subsetD)
  then show ?thesis by (auto simp: raw_text_def published_def)
qed

lemma published_simps [simp]:
  "revisions (published r document parts ob db) = revisions db @ [revision_of r]"
  "sessions (published r document parts ob db) = sessions db"
  "work_sessions (published r document parts ob db) = work_sessions db"
  "chunk_data (published r document parts ob db) = chunk_data db"
  "container (published r document parts ob db) = container db"
  "schema (published r document parts ob db) = schema db"
  "query_only (published r document parts ob db) = query_only db"
  by (simp_all add: published_def)

lemma published_extends:
  assumes ok: "db_ok db" and p: "publication r s document parts ob db"
  shows "extends db (published r document parts ob db)"
  unfolding extends_def
proof (intro conjI ballI)
  let ?db = "published r document parts ob db"
  fix x assume "x \<in> set (objects db)"
  then show "\<exists>ob' \<in> set (objects ?db). ob_object_key ob' = ob_object_key x \<and>
      ob_index_key ob' = ob_index_key x \<and> ob_head x \<le> ob_head ob'"
  proof (cases "ob_object_key x = r_key r")
    case True
    then have "x = ob" "head_row ob r \<in> set (objects ?db)"
      using publication_object [OF p ok] \<open>x \<in> set (objects db)\<close> by (auto simp: published_def image_iff)
    with p show ?thesis
      by (intro bexI [of _ "head_row ob r"]) (simp_all add: head_row_def publication_def)
  next
    case False
    with \<open>x \<in> set (objects db)\<close> show ?thesis
      by (intro bexI [of _ x]) (auto simp: published_def image_iff)
  qed
next
  fix a assume "a \<in> set (revisions db)"
  then have "rev_id a \<noteq> (r_key r, r_version r)"
    using publication_fresh [OF p ok] by (metis image_eqI)
  then show "raw_text (published r document parts ob db) (rv_object_key a) (rv_version a) =
      raw_text db (rv_object_key a) (rv_version a)"
    "revision_rows (published r document parts ob db) (rv_object_key a) (rv_version a) =
      revision_rows db (rv_object_key a) (rv_version a)"
    by (auto simp: raw_text_published [OF ok p] revision_rows_published rev_id_def)
qed (auto intro: session_kept)

lemma published_new_revision:
  assumes ok: "db_ok db" and p: "publication r s document parts ob db"
  shows "revision_ok (published r document parts ob db) (revision_of r)"
proof -
  let ?db = "published r document parts ob db" and ?r = "revision_of r"
  obtain ctx where ctx: "session_context db (s_key s) = Inr ctx"
    and key: "validationKey r s (container db) ctx document = Inr (r_validationKey r)"
    using p by (auto simp: publication_def publishable_def)
  then obtain w where w: "w \<in> set (work_sessions db)" "ws_session_key w = s_key s" "ctx = ws_context w"
    using db_okD(1) [OF ok] by (auto simp: session_context_def sessions_ok_def rbind_Inr_iff find_work_session_def
        dest!: find_Some_set split: if_splits option.splits)
  note obf = publication_object [OF p ok]
  have rec: "record_of (head_row ob r) ?r s = r"
    using p by (simp add: record_of_def revision_of_def head_row_def publication_def)
  have "sealed_by ?db ?r (head_row ob r) s w"
    using p w key rec obf(2)
    by (simp add: sealed_by_def raw_text_published [OF ok p] publication_def publishable_def head_row_def)
  moreover have "head_row ob r \<in> set (objects ?db)"
    using obf(1,2) by (force simp: published_def)
  ultimately have "sealed ?db ?r"
    using w p by (auto simp: sealed_def publication_def)
  moreover have "linked ?db ?r"
    using p by (auto simp: linked_def publication_def split: if_splits)
  moreover have "stored ?db ?r"
    using p publication_no_rows [OF p ok] by (auto simp: stored_def stores_def revision_rows_published publication_def)
  ultimately show ?thesis by (simp add: revision_ok_def)
qed

lemma head_row_simps [simp]:
  "ob_deleted (head_row ob r) = r_deleted r" "ob_path (head_row ob r) = r_path r"
  "ob_head (head_row ob r) = r_version r" "ob_object_key (head_row ob r) = ob_object_key ob"
  "ob_index_key (head_row ob r) = ob_index_key ob"
  by (simp_all add: head_row_def)

lemma published_tables:
  assumes ok: "db_ok db" and p: "publication r s document parts ob db"
  shows "sessions_ok (published r document parts ob db)" "rows_ok (published r document parts ob db)"
    "journal_ok (published r document parts ob db)"
proof -
  show "sessions_ok (published r document parts ob db)"
    using db_okD(1) [OF ok] by (simp add: sessions_ok_def)
  have new: "rev_id (revision_of r) = (r_key r, r_version r)" by (simp add: rev_id_def)
  show "rows_ok (published r document parts ob db)"
    using db_okD(5) [OF ok] unfolding rows_ok_def
    by (auto simp: published_def new ran_def subset_iff domIff dest!: rows_of_ids split: if_splits)
  have j: "map jr_sequence (object_journal db) = map int [1..<Suc (length (object_journal db))]"
    using db_okD(6) [OF ok] by (simp add: journal_ok_def)
  have n: "next_rowid (map jr_sequence (object_journal db)) = int (length (object_journal db)) + 1"
    by (simp only: j next_rowid_upt)
  have "object_journal (published r document parts ob db) = object_journal db @
      [\<lparr>jr_sequence = int (length (object_journal db)) + 1, jr_object_key = r_key r,
        jr_version = r_version r, jr_session_key = r_sessionKey r\<rparr>]"
    by (simp add: published_def n)
  then show "journal_ok (published r document parts ob db)"
    using db_okD(6) [OF ok] by (simp add: journal_ok_def)
qed

lemma published_objects:
  assumes ok: "db_ok db" and p: "publication r s document parts ob db"
  shows "set (objects (published r document parts ob db)) = insert (head_row ob r) (set (objects db) - {ob})"
    "objects_ok (published r document parts ob db)"
proof -
  let ?db = "published r document parts ob db"
  note obf = publication_object [OF p ok]
  let ?upd = "\<lambda>x. if ob_object_key x = r_key r then head_row ob r else x"
  have map: "objects ?db = map ?upd (objects db)" by (simp add: published_def)
  have same: "ob_object_key (?upd x) = ob_object_key x \<and> ob_index_key (?upd x) = ob_index_key x"
    if "x \<in> set (objects db)" for x
    using that obf(3) [OF that] obf(2) by (auto simp: head_row_def)
  have keys: "map ob_object_key (objects ?db) = map ob_object_key (objects db)"
    "map ob_index_key (objects ?db) = map ob_index_key (objects db)"
    using same by (simp_all add: map)
  show set: "set (objects ?db) = insert (head_row ob r) (set (objects db) - {ob})"
  proof -
    have "?upd x = (if x = ob then head_row ob r else x)" if "x \<in> set (objects db)" for x
      using obf(2) obf(3) [OF that] by metis
    then have "set (objects ?db) = (\<lambda>x. if x = ob then head_row ob r else x) ` set (objects db)"
      unfolding map set_map by (rule image_cong [OF refl])
    with obf(1) show ?thesis by (auto split: if_splits)
  qed
  have ok': "objects_ok db" by (rule db_okD(2) [OF ok])
  have free: "r_deleted r \<or> (\<forall>x \<in> set (objects db) - {ob}. \<not> ob_deleted x \<longrightarrow> ob_path x \<noteq> r_path r)"
    using p obf(3) by (auto simp: publication_def publishable_def live_path_taken_def)
  have "{x \<in> set (objects ?db). \<not> ob_deleted x} =
      {x \<in> set (objects db) - {ob}. \<not> ob_deleted x} \<union> (if r_deleted r then {} else {head_row ob r})"
    unfolding set by (auto dest: arg_cong [of _ _ ob_deleted])
  moreover have "inj_on ob_path {x \<in> set (objects db) - {ob}. \<not> ob_deleted x}"
    using ok' by (auto simp: objects_ok_def intro: inj_on_subset)
  ultimately have "inj_on ob_path {x \<in> set (objects ?db). \<not> ob_deleted x}"
    using free by auto
  then show "objects_ok ?db" using ok' keys by (simp add: objects_ok_def)
qed

lemma publication_version:
  assumes p: "publication r s document parts ob db" and ok: "db_ok db"
  shows "r_version r = Suc (ob_head ob)" "int (r_version r) \<le> int64_max"
    "rev_id (revision_of r) = (r_key r, Suc (ob_head ob))"
    "a \<in> set (revisions db) \<Longrightarrow> rev_id a \<noteq> (r_key r, Suc (ob_head ob))"
proof -
  show v: "r_version r = Suc (ob_head ob)" "int (r_version r) \<le> int64_max"
    using p by (simp_all add: publication_def)
  show "rev_id (revision_of r) = (r_key r, Suc (ob_head ob))" by (simp add: rev_id_def v)
  show "a \<in> set (revisions db) \<Longrightarrow> rev_id a \<noteq> (r_key r, Suc (ob_head ob))"
    using publication_fresh [OF p ok] v(1) by (metis image_eqI)
qed

lemma head_versions:
  assumes "db_ok db" and "ob \<in> set (objects db)"
  shows "length (versions_of (revisions db) (ob_object_key ob)) = ob_head ob"
proof -
  let ?vs = "versions_of (revisions db) (ob_object_key ob)"
  have uniq: "x = ob" if "x \<in> set (objects db)" "ob_object_key x = ob_object_key ob" for x
    using db_okD(2) [OF assms(1)] that assms(2) by (auto simp: objects_ok_def distinct_map dest: inj_onD)
  have "set ?vs = {1..ob_head ob}"
  proof (rule set_eqI)
    fix v
    have "v \<in> set ?vs \<longleftrightarrow> (\<exists>x \<in> set (objects db). ob_object_key x = ob_object_key ob \<and> 1 \<le> v \<and> v \<le> ob_head x)"
      using db_okD(3) [OF assms(1)] unfolding in_versions_of versions_ok_def by blast
    then show "v \<in> set ?vs \<longleftrightarrow> v \<in> {1..ob_head ob}" using uniq assms(2) by auto
  qed
  moreover have "?vs = map Suc [0..<length ?vs]"
    using db_okD(3) [OF assms(1)] by (simp add: versions_ok_def)
  then have "set ?vs = {1..length ?vs}"
    by (metis atLeastLessThanSuc_atLeastAtMost image_Suc_atLeastLessThan One_nat_def set_map set_upt)
  ultimately have "card {1..length ?vs} = card {1..ob_head ob}" by metis
  then show ?thesis by simp
qed

lemma published_versions:
  assumes ok: "db_ok db" and p: "publication r s document parts ob db"
  shows "versions_ok (published r document parts ob db)" "heads_ok (published r document parts ob db)"
proof -
  let ?db = "published r document parts ob db"
  note obf = publication_object [OF p ok] and objs = published_objects(1) [OF ok p]
  note v = publication_version(1,2) [OF p ok] and id = publication_version(3) [OF p ok]
    and fresh = publication_version(4) [OF p ok]
  have d: "distinct (map rev_id (revisions db))"
    using db_okD(3) [OF ok] by (simp add: versions_ok_def)
  have order: "versions_of (revisions db) key = map Suc [0..<length (versions_of (revisions db) key)]" for key
    using db_okD(3) [OF ok] by (simp add: versions_ok_def)
  have vo: "(key, n) \<in> rev_id ` set (revisions db) \<longleftrightarrow>
      (\<exists>x \<in> set (objects db). ob_object_key x = key \<and> 1 \<le> n \<and> n \<le> ob_head x)" for key n
    using db_okD(3) [OF ok] by (simp add: versions_ok_def)
  show "versions_ok ?db"
    unfolding versions_ok_def
  proof (intro conjI allI)
    show "distinct (map rev_id (revisions ?db))"
      using d publication_fresh [OF p ok] by (simp add: id v(1))
    fix key
    show "versions_of (revisions ?db) key = map Suc [0..<length (versions_of (revisions ?db) key)]"
    proof (cases "key = r_key r")
      case True
      have "length (versions_of (revisions db) key) = ob_head ob"
        using head_versions [OF ok obf(1)] obf(2) True by simp
      then show ?thesis using order [of key] True by (simp add: versions_of_def v(1))
    qed (use order [of key] in \<open>simp add: versions_of_def\<close>)
  next
    fix key n
    have split: "(\<exists>x \<in> set (objects db). ob_object_key x = key \<and> 1 \<le> n \<and> n \<le> ob_head x) \<longleftrightarrow>
        (key = r_key r \<and> 1 \<le> n \<and> n \<le> ob_head ob) \<or>
        (\<exists>x \<in> set (objects db) - {ob}. ob_object_key x = key \<and> 1 \<le> n \<and> n \<le> ob_head x)"
      using obf(1,2) by blast
    show "(key, n) \<in> rev_id ` set (revisions ?db) \<longleftrightarrow>
        (\<exists>x \<in> set (objects ?db). ob_object_key x = key \<and> 1 \<le> n \<and> n \<le> ob_head x)"
      using obf(2) by (auto simp: objs id vo split v(1) simp del: One_nat_def)
  qed
  show "heads_ok ?db"
    unfolding heads_ok_def
  proof
    fix x assume "x \<in> set (objects ?db)"
    then consider "x = head_row ob r" | "x \<in> set (objects db)" "x \<noteq> ob" by (auto simp: objs)
    then show "int (ob_head x) \<le> int64_max \<and> (\<forall>a \<in> set (revisions ?db).
        rev_id a = (ob_object_key x, ob_head x) \<longrightarrow> rv_path a = ob_path x \<and> rv_deleted a = ob_deleted x)"
    proof cases
      case 1
      then show ?thesis using v obf(2) fresh by auto
    next
      case 2
      then have "ob_object_key x \<noteq> r_key r" using obf(3) by blast
      then show ?thesis using 2 db_okD(4) [OF ok] by (auto simp: heads_ok_def id)
    qed
  qed
qed

lemma published_index:
  assumes ok: "db_ok db" and p: "publication r s document parts ob db"
  shows "index_ok (published r document parts ob db)"
proof -
  let ?db = "published r document parts ob db"
  note obf = publication_object [OF p ok] and objs = published_objects(1) [OF ok p]
  note v = publication_version(1,2) [OF p ok] and id = publication_version(3) [OF p ok]
    and fresh = publication_version(4) [OF p ok]
  have ix: "distinct (map ix_indexKey (current_index db))"
    and ents: "set (current_index db) = {index_entry ob r | ob r. ob \<in> set (objects db) \<and>
        r \<in> set (revisions db) \<and> rev_id r = (ob_object_key ob, ob_head ob)}"
    using db_okD(7) [OF ok] by (simp_all add: index_ok_def)
  have cur: "current_index ?db = filter (\<lambda>e. ix_indexKey e \<noteq> ob_index_key ob) (current_index db) @
      [index_entry (head_row ob r) (revision_of r)]" by (simp add: published_def)
  have ik: "ix_indexKey (index_entry x q) = ob_index_key x" for x q by (simp add: index_entry_def)
  have inj: "ob_index_key x = ob_index_key ob \<longleftrightarrow> x = ob" if "x \<in> set (objects db)" for x
    using db_okD(2) [OF ok] obf(1) that
    by (auto simp: objects_ok_def strict_sorted_iff distinct_map inj_on_def)
  show "index_ok ?db"
    unfolding index_ok_def
  proof
    show "distinct (map ix_indexKey (current_index ?db))"
      using ix by (auto simp: cur ik distinct_map_filter)
    have pair: "x \<in> set (objects ?db) \<and> q \<in> set (revisions ?db) \<and> rev_id q = (ob_object_key x, ob_head x) \<longleftrightarrow>
        x = head_row ob r \<and> q = revision_of r \<or>
        x \<in> set (objects db) \<and> x \<noteq> ob \<and> q \<in> set (revisions db) \<and> rev_id q = (ob_object_key x, ob_head x)"
      for x q
    proof (cases "ob_object_key x = r_key r")
      case True
      then have old: "x \<in> set (objects db) \<longrightarrow> x = ob" using obf(3) by blast
      have "x \<in> set (objects ?db) \<longleftrightarrow> x = head_row ob r" using old by (auto simp: objs)
      moreover have "q \<in> set (revisions ?db) \<and> rev_id q = (r_key r, Suc (ob_head ob)) \<longleftrightarrow> q = revision_of r"
        using fresh [of q] id by auto
      ultimately show ?thesis
        using old obf(2) v(1) by (metis head_row_simps(3,4))
    next
      case False
      then have "x \<noteq> ob" "x \<noteq> head_row ob r" using obf(2) by auto
      then show ?thesis using False id by (auto simp: objs)
    qed
    show "set (current_index ?db) = {index_entry x q | x q. x \<in> set (objects ?db) \<and>
        q \<in> set (revisions ?db) \<and> rev_id q = (ob_object_key x, ob_head x)}"
      unfolding pair cur set_append set_filter ents using inj by (auto simp: ik) blast
  qed
qed

theorem published_ok:
  assumes "db_ok db" and "publication r s document parts ob db"
  shows "db_ok (published r document parts ob db)"
proof -
  have "revision_ok (published r document parts ob db) a" if "a \<in> set (revisions db)" for a
    using extends_revision_ok [OF published_extends [OF assms] that] db_okD(8) [OF assms(1) that] by blast
  then show ?thesis
    unfolding db_ok_def
    using published_tables [OF assms] published_objects(2) [OF assms] published_versions [OF assms]
      published_index [OF assms] published_new_revision [OF assms] by simp
qed

end
