(* ===== verification/Object_Operations.thy ===== *)
theory Object_Operations
  imports Object_Invariant
begin

text \<open>
  The public operations against the invariant and against an abstract store.
  \<open>abs_store\<close> reads a package as a map from object keys to revision histories, each
  revision a path, a payload (none after an erase), a RAW document and an operation name;
  a mutating operation appends one entry to one history.
\<close>

section \<open>Chunks of a stored revision\<close>

lemma rows_of_ordinals: "map cr_ordinal (rows_of key version i parts) = map (\<lambda>n. i + int n) [0..<length parts]"
  by (rule nth_equalityI) (simp_all add: rows_of_def)

lemma rows_of_parts:
  "map (\<lambda>c. \<lparr>c_hash = cr_sha256 c, c_size = cr_size c\<rparr>) (rows_of key version i parts) = parts"
  by (rule nth_equalityI) (simp_all add: rows_of_def)

lemma select_chunks_rows: "select_chunks db key version = sort_key cr_ordinal (revision_rows db key version)"
  by (simp add: select_chunks_def revision_rows_def)

lemma select_chunks_stored:
  assumes "revision_rows db key version = rows_of key version 0 parts"
  shows "select_chunks db key version = rows_of key version 0 parts"
proof -
  have "sorted (map cr_ordinal (rows_of key version 0 parts))"
    by (simp add: rows_of_ordinals sorted_map sorted_wrt_iff_nth_less)
  then show ?thesis by (simp add: select_chunks_rows assms sorted_sort_id sort_key_id_if_sorted)
qed

lemma chunks_stored:
  assumes "revision_rows db key version = rows_of key version 0 parts" and "length key \<le> bind_limit"
  shows "chunks db key version = Inr parts"
proof -
  have "length (rows_of key version 0 parts) = length parts" by (simp add: rows_of_def)
  then show ?thesis
    using assms(2) unfolding chunks_def select_chunks_stored [OF assms(1)]
    by (simp add: Let_def rows_of_ordinals rows_of_parts bind_texts_def not_less)
qed

lemma chunk_bytes_stored:
  "\<forall>p \<in> set ps. chunk_data db (sha256_hash p) = Some p \<Longrightarrow>
     chunk_bytes db (map part_of ps) = Inr (concat ps)"
  by (induction ps) (auto simp: part_of_def bind_texts_def bind_limit_def)

section \<open>The abstract store\<close>

record revision_view =
  v_path :: string
  v_payload :: "byte list option"
  v_raw :: string
  v_operation :: string

definition payload_of :: "object_db \<Rightarrow> string \<Rightarrow> nat \<Rightarrow> byte list" where
  "payload_of db key version =
     concat (map (\<lambda>c. the (chunk_data db (cr_sha256 c))) (revision_rows db key version))"

definition view :: "object_db \<Rightarrow> revision_row \<Rightarrow> revision_view" where
  "view db r =
     \<lparr>v_path = rv_path r,
      v_payload = (if rv_deleted r then None else Some (payload_of db (rv_object_key r) (rv_version r))),
      v_raw = raw_text db (rv_object_key r) (rv_version r), v_operation = rv_operation r\<rparr>"

definition abs_store :: "object_db \<Rightarrow> string \<Rightarrow> revision_view list" where
  "abs_store db key = map (view db) (filter (\<lambda>r. rv_object_key r = key) (revisions db))"

lemma payload_of_stores: "stores db r payload \<Longrightarrow> payload_of db (rv_object_key r) (rv_version r) = payload"
proof -
  assume st: "stores db r payload"
  have "map (\<lambda>c. the (chunk_data db (cr_sha256 c))) (rows_of key v i (map part_of ps)) = ps"
    if "\<forall>p \<in> set ps. chunk_data db (sha256_hash p) = Some p" for key v i ps
    using that by (induction ps arbitrary: i) (auto simp: part_of_def)
  then have "map (\<lambda>c. the (chunk_data db (cr_sha256 c))) (revision_rows db (rv_object_key r) (rv_version r)) = pieces payload"
    using st by (simp add: stores_def parts_of_def holds_def)
  then show ?thesis by (simp add: payload_of_def)
qed

lemma view_extends:
  assumes "db_ok db" and "extends db db'" and "r \<in> set (revisions db)"
  shows "view db' r = view db r"
proof -
  have "payload_of db' (rv_object_key r) (rv_version r) = payload_of db (rv_object_key r) (rv_version r)"
    if live: "\<not> rv_deleted r"
  proof -
    obtain payload where "stores db r payload"
      using db_okD(8) [OF assms(1,3)] live by (auto simp: revision_ok_def stored_def)
    with extends_stores [OF assms(2,3) this] show ?thesis by (simp add: payload_of_stores)
  qed
  moreover have "raw_text db' (rv_object_key r) (rv_version r) = raw_text db (rv_object_key r) (rv_version r)"
    using assms(2,3) by (simp add: extends_def)
  ultimately show ?thesis by (simp add: view_def)
qed

lemma abs_store_same:
  assumes "db_ok db" and "extends db db'" and "revisions db' = revisions db"
  shows "abs_store db' = abs_store db"
  using view_extends [OF assms(1,2)] assms(3) by (auto simp: abs_store_def fun_eq_iff)

lemma abs_store_append:
  assumes "db_ok db" and "extends db db'" and "revisions db' = revisions db @ [r]"
  shows "abs_store db' = (abs_store db)(rv_object_key r := abs_store db (rv_object_key r) @ [view db' r])"
  using view_extends [OF assms(1,2)] assms(3) by (auto simp: abs_store_def fun_eq_iff)

section \<open>Publishing the next revision\<close>

text \<open>A package at rest: the invariant, and no object is left without a revision.\<close>

definition settled :: "object_db \<Rightarrow> bool" where
  "settled db \<longleftrightarrow> (\<forall>ob \<in> set (objects db). 1 \<le> ob_head ob)"

definition package_ok :: "object_db \<Rightarrow> bool" where
  "package_ok db \<longleftrightarrow> db_ok db \<and> settled db"

lemma sealed_record_simps [simp]:
  "r_key (sealed_record r s now k) = r_key r" "r_version (sealed_record r s now k) = r_version r"
  "r_path (sealed_record r s now k) = r_path r" "r_deleted (sealed_record r s now k) = r_deleted r"
  "r_operation (sealed_record r s now k) = r_operation r" "r_indexKey (sealed_record r s now k) = r_indexKey r"
  "r_sha256 (sealed_record r s now k) = r_sha256 r" "r_size (sealed_record r s now k) = r_size r"
  "r_author (sealed_record r s now k) = s_author s" "r_sessionKey (sealed_record r s now k) = s_key s"
  "r_schemaVersion (sealed_record r s now k) = 2" "r_recordedAtNs (sealed_record r s now k) = now"
  "r_parentValidationKey (sealed_record r s now k) = r_parentValidationKey r"
  "r_authorship (sealed_record r s now k) = r_authorship r"
  "r_sourceStamp (sealed_record r s now k) = r_sourceStamp r"
  by (simp_all add: sealed_record_def)

definition carries :: "object_db \<Rightarrow> ObjectRecord \<Rightarrow> Chunk list \<Rightarrow> byte list option \<Rightarrow> bool" where
  "carries db r parts payload \<longleftrightarrow>
     (case payload of
        None \<Rightarrow> r_deleted r \<and> parts = []
      | Some bytes \<Rightarrow> \<not> r_deleted r \<and> parts = parts_of bytes \<and> holds (chunk_data db) bytes \<and>
          length bytes \<le> sha_limit \<and> r_sha256 r = sha256_hash bytes \<and> r_size r = length bytes)"

text \<open>
  \<open>appends db r payload raw db'\<close>: the package after one published revision \<open>r\<close>.
\<close>

definition appends ::
  "object_db \<Rightarrow> ObjectRecord \<Rightarrow> byte list option \<Rightarrow> string \<Rightarrow> object_db \<Rightarrow> bool" where
  "appends db r payload raw db' \<longleftrightarrow>
     db_ok db' \<and> extends db db' \<and> revisions db' = revisions db @ [revision_of r] \<and>
     select_record db' (r_key r) 0 = Some r \<and> sessions db' = sessions db \<and>
     (\<forall>bytes. payload = Some bytes \<longrightarrow> stores db' (revision_of r) bytes) \<and>
     (\<forall>key. key \<noteq> r_key r \<longrightarrow> find_object db' key = find_object db key) \<and>
     (\<forall>ob. find_object db' (r_key r) = Some ob \<longrightarrow> ob_head ob = r_version r) \<and>
     abs_store db' = (abs_store db)(r_key r := abs_store db (r_key r) @
       [\<lparr>v_path = r_path r, v_payload = payload, v_raw = raw, v_operation = r_operation r\<rparr>])"

lemma find_object_published:
  assumes "find_object db (r_key r) = Some ob"
  shows "find_object (published r document parts ob db) key =
    (if key = r_key r then Some (head_row ob r) else find_object db key)"
proof -
  have "ob_object_key ob = r_key r"
    using assms by (auto simp: find_object_def dest: find_Some_set)
  then show ?thesis
    using assms find_map_update [of "objects db" ob_object_key "r_key r" "\<lambda>_. head_row ob r" key]
    by (auto simp: find_object_def published_def)
qed

lemma find_session_mem:
  "db_ok db \<Longrightarrow> s \<in> set (sessions db) \<Longrightarrow> find_session db (s_key s) = Some s"
  using db_okD(1) [of db] find_distinct [of s_key "sessions db" s]
  by (simp add: find_session_def sessions_ok_def)

lemma find_revision_mem:
  assumes "db_ok db" and "r \<in> set (revisions db)"
  shows "find_revision db (rv_object_key r) (rv_version r) = Some r"
proof -
  have "find (\<lambda>y. rev_id y = rev_id r) (revisions db) = Some r"
    using db_okD(3) [OF assms(1)] assms(2) by (intro find_distinct) (simp_all add: versions_ok_def)
  then show ?thesis by (simp add: find_revision_def rev_id_def)
qed

theorem publish_appends:
  assumes ok: "db_ok db" and pub: "publish r s parts raw now db = Inr (r', db')"
    and s: "s \<in> set (sessions db)" and ob: "find_object db (r_key r) = Some ob"
    and v: "r_version r = Suc (ob_head ob)" "int (r_version r) \<le> int64_max"
    and ix: "r_indexKey r = ob_index_key ob" and li: "linked db (revision_of r)"
    and ca: "carries db r parts payload"
  shows "appends db r' payload (case raw of Some d \<Rightarrow> d | None \<Rightarrow> inherited db r) db'"
    "\<exists>vkey. r' = sealed_record r s now vkey"
proof -
  have "4 \<le> schema db" using db_okD(1) [OF ok] by (simp add: sessions_ok_def)
  from publish_Inr [OF pub this] obtain document ob' vkey where
    doc: "document = (case raw of Some d \<Rightarrow> d | None \<Rightarrow> inherited db r)"
    and r': "r' = sealed_record r s now vkey" and p: "publishable r' s document parts ob' db"
    and db': "db' = published r' document parts ob' db" .
  have [simp]: "ob' = ob" using p ob by (simp add: publishable_def r')
  have pp: "publication r' s document parts ob db"
    using p s v ix li ca by (auto simp: publication_def r' linked_def carries_def split: option.splits)
  show "\<exists>vkey. r' = sealed_record r s now vkey" using r' by blast
  note ok' = published_ok [OF ok pp] and ext = published_extends [OF ok pp]
  have st: "stores db' (revision_of r') bytes" if "payload = Some bytes" for bytes
    using that ca publication_no_rows [OF pp ok]
    by (simp add: stores_def db' revision_rows_published carries_def r')
  have view: "view db' (revision_of r') =
      \<lparr>v_path = r_path r', v_payload = payload, v_raw = document, v_operation = r_operation r'\<rparr>"
  proof -
    have "raw_text db' (r_key r') (r_version r') = document"
      by (simp add: db' raw_text_published [OF ok pp])
    moreover have "rv_operation (revision_of r') = r_operation r'" by (simp add: revision_of_def)
    moreover have "r_deleted r' \<longleftrightarrow> payload = None" using ca by (auto simp: carries_def r' split: option.splits)
    ultimately show ?thesis
      using payload_of_stores [OF st] by (cases payload) (simp_all add: view_def)
  qed
  have fo: "find_object db' key = (if key = r_key r' then Some (head_row ob r') else find_object db key)" for key
    using find_object_published [of db r' ob] ob by (simp add: db' r')
  have "find_revision db' (r_key r') (r_version r') = Some (revision_of r')"
    using find_revision_mem [OF ok', of "revision_of r'"] by (simp add: db')
  moreover have "find_session db' (s_key s) = Some s"
    using find_session_mem [OF ok', of s] s by (simp add: db')
  ultimately have "select_record db' (r_key r') 0 = Some r'"
    using pp by (simp add: select_record_def fo r' publication_def)
      (simp add: record_of_def revision_of_def sealed_record_def)
  then show "appends db r' payload (case raw of Some d \<Rightarrow> d | None \<Rightarrow> inherited db r) db'"
    using ok' ext fo view st abs_store_append [OF ok, of db' "revision_of r'"]
    by (simp add: appends_def db' doc)
qed

lemma appends_after:
  assumes "db_ok db" and "extends db db1" and "revisions db1 = revisions db"
    and "sessions db1 = sessions db" and "\<forall>key. key \<noteq> r_key r \<longrightarrow> find_object db1 key = find_object db key"
    and "appends db1 r payload raw db'"
  shows "appends db r payload raw db'"
proof -
  have "extends db db'" using assms(2,6) extends_trans by (auto simp: appends_def)
  then show ?thesis
    using assms(3-6) abs_store_same [OF assms(1-3)] by (auto simp: appends_def)
qed

lemma appends_ingested:
  assumes "db_ok db" and "chunks_added bytes db db1" and "appends db1 r payload raw db'"
  shows "appends db r payload raw db'"
proof (rule appends_after [OF assms(1) _ _ _ _ assms(3)])
  show "extends db db1" by (rule chunks_added_ok(2) [OF assms(1,2)])
  show "revisions db1 = revisions db" "sessions db1 = sessions db"
    "\<forall>key. key \<noteq> r_key r \<longrightarrow> find_object db1 key = find_object db key"
    using assms(2) by (auto simp: chunks_added_def)
qed

lemma find_object_mem:
  "db_ok db \<Longrightarrow> ob \<in> set (objects db) \<Longrightarrow> find_object db (ob_object_key ob) = Some ob"
  using db_okD(2) [of db] find_distinct [of ob_object_key "objects db" ob]
  by (simp add: find_object_def objects_ok_def)

lemma find_object_Some:
  "find_object db key = Some ob \<Longrightarrow> ob \<in> set (objects db) \<and> ob_object_key ob = key"
  by (auto simp: find_object_def dest: find_Some_set)

lemma appends_settled:
  assumes "appends db r payload raw db'" and "1 \<le> r_version r"
    and "\<forall>ob \<in> set (objects db). ob_object_key ob \<noteq> r_key r \<longrightarrow> 1 \<le> ob_head ob"
  shows "settled db'"
  unfolding settled_def
proof
  fix ob assume "ob \<in> set (objects db')"
  moreover from assms(1) have "db_ok db'" by (simp add: appends_def)
  ultimately have "find_object db' (ob_object_key ob) = Some ob" by (rule find_object_mem [rotated])
  then show "1 \<le> ob_head ob"
    using assms find_object_Some [of db "ob_object_key ob" ob]
    by (cases "ob_object_key ob = r_key r") (auto simp: appends_def)
qed

section \<open>The live head of an object\<close>

theorem impl_require_Inr:
  assumes "db_ok db" and "impl_require db key expected = Inr r"
  obtains ob q s0 payload where
    "find_object db key = Some ob" "ob_head ob = expected" "q \<in> set (revisions db)"
    "rev_id q = (key, expected)" "r = record_of ob q s0" "stores db q payload"
    "\<not> rv_deleted q" "int expected < int64_max" "expected \<noteq> 0" "length key \<le> bind_limit"
proof -
  from assms(2) have sel: "select_record db key 0 = Some r"
    and st: "\<not> r_deleted r" "r_version r = expected" "expected \<noteq> 0" "int expected < int64_max"
      "length key \<le> bind_limit"
    by (auto simp: impl_require_def get_record_def rbind_Inr_iff not_le split: option.splits if_splits)
  from sel obtain ob q s0 where ob: "find_object db key = Some ob"
    and q: "find_revision db key (ob_head ob) = Some q" and r: "r = record_of ob q s0"
    by (auto simp: select_record_def split: option.splits)
  have q': "q \<in> set (revisions db)" "rev_id q = (key, ob_head ob)"
    using q by (auto simp: find_revision_def rev_id_def dest!: find_Some_set)
  have "\<not> rv_deleted q" "ob_head ob = expected"
    using st(1,2) q'(2) by (simp_all add: r record_of_def rev_id_def)
  moreover obtain payload where "stores db q payload"
    using db_okD(8) [OF assms(1) q'(1)] calculation(1) by (auto simp: revision_ok_def stored_def)
  ultimately show thesis using that ob q' r st by blast
qed

lemma getSession_Inr:
  "getSession db key active = Inr s \<Longrightarrow>
     s \<in> set (sessions db) \<and> s_key s = key \<and> (active \<longrightarrow> s_endedAtNs s = 0)"
  by (auto simp: getSession_def rbind_Inr_iff find_session_def dest!: find_Some_set
      split: option.splits if_splits)

lemma record_of_simps [simp]:
  "r_key (record_of ob q s) = rv_object_key q" "r_version (record_of ob q s) = rv_version q"
  "r_path (record_of ob q s) = rv_path q" "r_deleted (record_of ob q s) = rv_deleted q"
  "r_indexKey (record_of ob q s) = ob_index_key ob" "r_sha256 (record_of ob q s) = rv_sha256 q"
  "r_size (record_of ob q s) = rv_size q" "r_validationKey (record_of ob q s) = rv_validation_key q"
  by (simp_all add: record_of_def)

text \<open>
  Publishing on top of the required head.  \<open>r2\<close> is the record the operation builds from
  the head \<open>r\<close>; \<open>db1\<close> is the package after an ingestion, or the package itself.
\<close>

definition succeeds_record :: "ObjectRecord \<Rightarrow> ObjectRecord \<Rightarrow> bool" where
  "succeeds_record r r2 \<longleftrightarrow> r_key r2 = r_key r \<and> r_indexKey r2 = r_indexKey r \<and>
     r_version r2 = Suc (r_version r) \<and> r_parentValidationKey r2 = r_validationKey r"

theorem revision_appends:
  assumes ok: "db_ok db" and req: "impl_require db key expected = Inr r"
    and add: "chunks_added bytes db db1" and s: "getSession db sessionKey True = Inr s"
    and su: "succeeds_record r r2" and ca: "carries db1 r2 parts payload"
    and pub: "publish r2 s parts raw now db1 = Inr (r', db')"
  shows "appends db r' payload (case raw of Some d \<Rightarrow> d | None \<Rightarrow> raw_text db key expected) db'"
    "r_key r' = key" "r_version r' = Suc expected" "\<exists>vkey. r' = sealed_record r2 s now vkey"
    "settled db \<Longrightarrow> settled db'"
proof -
  from impl_require_Inr [OF ok req] obtain ob q s0 payload0 where
    h: "find_object db key = Some ob" "ob_head ob = expected" "q \<in> set (revisions db)"
      "rev_id q = (key, expected)" "r = record_of ob q s0" "stores db q payload0"
      "\<not> rv_deleted q" "int expected < int64_max" "expected \<noteq> 0" "length key \<le> bind_limit" .
  have q: "rv_object_key q = key" "rv_version q = expected" using h(4) by (simp_all add: rev_id_def)
  obtain t where t: "db1 = db\<lparr>chunk_data := t\<rparr>" using add by (auto simp: chunks_added_def)
  note ok1 = chunks_added_ok(1) [OF ok add]
  have r2: "r_key r2 = key" "r_version r2 = Suc expected" "r_indexKey r2 = ob_index_key ob"
    "r_parentValidationKey r2 = rv_validation_key q"
    using su q by (simp_all add: succeeds_record_def h(5))
  have li: "linked db1 (revision_of r2)"
    using h(3,4,9) by (auto simp: linked_def r2 t)
  have s1: "s \<in> set (sessions db1)" using getSession_Inr [OF s] by (simp add: t)
  have ob1: "find_object db1 (r_key r2) = Some ob" using h(1) by (simp add: t r2)
  have doc: "inherited db1 r2 = raw_text db key expected"
    using h(9) by (simp add: inherited_def r2 t raw_text_def)
  have v: "r_version r2 = Suc (ob_head ob)" "int (r_version r2) \<le> int64_max"
    using h(2,8) r2(2) by simp_all
  note pa = publish_appends(1) [OF ok1 pub s1 ob1 v r2(3) li ca, unfolded doc]
    and sr = publish_appends(2) [OF ok1 pub s1 ob1 v r2(3) li ca]
  show "appends db r' payload (case raw of Some d \<Rightarrow> d | None \<Rightarrow> raw_text db key expected) db'"
    by (rule appends_ingested [OF ok add pa])
  show "r_key r' = key" "r_version r' = Suc expected" "\<exists>vkey. r' = sealed_record r2 s now vkey"
    using sr r2 by auto
  then show "settled db'" if "settled db"
    using appends_settled [OF appends_ingested [OF ok add pa]] that by (auto simp: settled_def)
qed

section \<open>The operations\<close>

lemma transaction_Inr:
  "transaction body db = (Inr a, db') \<longleftrightarrow> body db = Inr (a, db')"
  by (auto simp: transaction_def split: sum.splits)

lemma transaction_Inl:
  "transaction body db = (Inl e, db') \<longleftrightarrow> body db = Inl e \<and> db' = db"
  by (auto simp: transaction_def split: sum.splits)

lemma new_record_simps [simp]:
  "r_key (new_record key path operation options) = key"
  "r_version (new_record key path operation options) = 1"
  "r_path (new_record key path operation options) = path"
  "r_deleted (new_record key path operation options) = False"
  "r_operation (new_record key path operation options) = operation"
  "r_parentValidationKey (new_record key path operation options) = []"
  by (simp_all add: new_record_def)

lemma abs_store_fresh:
  assumes "db_ok db" and "find_object db key = None"
  shows "abs_store db key = []"
proof -
  have "rv_object_key r \<noteq> key" if "r \<in> set (revisions db)" for r
  proof -
    have "rev_id r \<in> rev_id ` set (revisions db)" using that by simp
    then have "\<exists>ob \<in> set (objects db). ob_object_key ob = rv_object_key r"
      using db_okD(3) [OF assms(1)] by (auto simp: versions_ok_def rev_id_def)
    then show ?thesis using assms(2) by (auto simp: find_object_def find_None_iff_ball)
  qed
  then show ?thesis by (auto simp: abs_store_def filter_empty_conv)
qed

text \<open>A new object: insert the row, then publish version 1 with the given payload.\<close>

lemma create_appends:
  assumes ok: "db_ok db" and ins: "insert_object key path db = Inr (i, db1)"
    and add: "chunks_added bytes db1 db2" and s: "s \<in> set (sessions db)"
    and pub: "publish r s (parts_of bytes) raw now db2 = Inr (r', db')"
    and r: "r_key r = key" "r_version r = 1" "r_indexKey r = i" "r_parentValidationKey r = []"
    and ca: "carries db2 r (parts_of bytes) (Some bytes)"
  shows "appends db r' (Some bytes) (case raw of Some d \<Rightarrow> d | None \<Rightarrow> []) db'"
    "\<exists>vkey. r' = sealed_record r s now vkey" "abs_store db key = []" "find_object db key = None"
    "settled db \<Longrightarrow> settled db'"
proof -
  note in_ok = insert_object_ok [OF ok ins]
  note ok2 = chunks_added_ok [OF in_ok(1) add]
  obtain t where t: "db2 = db1\<lparr>chunk_data := t\<rparr>" using add by (auto simp: chunks_added_def)
  let ?ob = "\<lparr>ob_index_key = i, ob_object_key = key, ob_head = 0, ob_path = path, ob_deleted = False\<rparr>"
  have fo: "find_object db1 k = (if k = key then Some ?ob else find_object db k)" for k
    using in_ok(4) by (auto simp: in_ok(3) find_object_def find_append split: option.splits)
  have ob: "find_object db2 (r_key r) = Some ?ob" by (simp add: t fo r)
  have li: "linked db2 (revision_of r)" by (simp add: linked_def r)
  have doc: "(case raw of Some d \<Rightarrow> d | None \<Rightarrow> inherited db2 r) = (case raw of Some d \<Rightarrow> d | None \<Rightarrow> [])"
    by (simp add: inherited_def r split: option.split)
  have s2: "s \<in> set (sessions db2)" using s by (simp add: t in_ok(3))
  have v: "r_version r = Suc (ob_head ?ob)" "int (r_version r) \<le> int64_max" "r_indexKey r = ob_index_key ?ob"
    by (simp_all add: r int64_max_def)
  note pa = publish_appends [OF ok2(1) pub s2 ob v li ca, unfolded doc]
  then show sr: "\<exists>vkey. r' = sealed_record r s now vkey" by blast
  have key': "r_key r' = key" "r_version r' = 1" using sr r by auto
  have "appends db1 r' (Some bytes) (case raw of Some d \<Rightarrow> d | None \<Rightarrow> []) db'"
    by (rule appends_ingested [OF in_ok(1) add pa(1)])
  then show ap: "appends db r' (Some bytes) (case raw of Some d \<Rightarrow> d | None \<Rightarrow> []) db'"
    by (rule appends_after [OF ok in_ok(2), rotated 3]) (simp_all add: in_ok(3) fo [unfolded in_ok(3)] key')
  show "abs_store db key = []" "find_object db key = None"
    using abs_store_fresh [OF ok in_ok(4)] in_ok(4) by simp_all
  show "settled db'" if "settled db"
    by (rule appends_settled [OF ap]) (use that key' in \<open>auto simp: settled_def\<close>)
qed

theorem impl_importFile_appends:
  assumes ok: "db_ok db" and s: "s \<in> set (sessions db)"
    and im: "impl_importFile J key now input path s options raw db = Inr (r', db')"
  shows "appends db r' (Some (input_payload input)) raw db'"
    "r_key r' = key" "r_version r' = 1" "r_path r' = path" "\<not> r_deleted r'"
    "r_operation r' = (if raw = [] then ''import'' else ''wrap_raw'')"
    "r_sha256 r' = sha256_hash (input_payload input)" "r_size r' = length (input_payload input)"
    "abs_store db key = []" "settled db \<Longrightarrow> settled db'" "find_object db key = None"
    "pathValid path = Inr ()" "input_stable input"
    "\<exists>vkey. r' = sealed_record ((new_record key path (if raw = [] then ''import'' else ''wrap_raw'') options)\<lparr>
       r_indexKey := next_rowid (map ob_index_key (objects db)), r_sha256 := sha256_hash (input_payload input),
       r_size := length (input_payload input)\<rparr>) s now vkey"
proof -
  let ?r = "new_record key path (if raw = [] then ''import'' else ''wrap_raw'') options"
  obtain i db1 parts r db2 where path: "pathValid path = Inr ()"
    and ins: "insert_object key path db = Inr (i, db1)"
    and ing: "ingest input (wo_cancelled options) (?r\<lparr>r_indexKey := i\<rparr>) db1 = Inr (parts, r, db2)"
    and pub: "publish r s parts (Some raw) now db2 = Inr (r', db')"
    using im by (auto simp: impl_importFile_def Let_def rbind_Inr_iff split: prod.splits)
  note g = ingest_Inr [OF ing]
  have r: "r_key r = key" "r_version r = 1" "r_indexKey r = i" "r_parentValidationKey r = []"
    by (simp_all add: g(2))
  have ca: "carries db2 r (parts_of (input_payload input)) (Some (input_payload input))"
    using g by (auto simp: carries_def chunks_added_def)
  note c = create_appends [OF ok ins g(3) s pub [unfolded g(1)] r ca]
  then show "appends db r' (Some (input_payload input)) raw db'" by simp
  from c(2) show "r_key r' = key" "r_version r' = 1" "r_path r' = path" "\<not> r_deleted r'"
    "r_operation r' = (if raw = [] then ''import'' else ''wrap_raw'')"
    "r_sha256 r' = sha256_hash (input_payload input)" "r_size r' = length (input_payload input)"
    by (auto simp: g(2))
  from c show "abs_store db key = []" "settled db \<Longrightarrow> settled db'" "find_object db key = None" by blast+
  show "pathValid path = Inr ()" "input_stable input" by (fact path g(4))+
  have "i = next_rowid (map ob_index_key (objects db))"
    using ins by (auto simp: insert_object_def rbind_Inr_iff Let_def split: if_splits)
  with c(2) show "\<exists>vkey. r' = sealed_record ((new_record key path (if raw = [] then ''import'' else ''wrap_raw'') options)\<lparr>
      r_indexKey := next_rowid (map ob_index_key (objects db)), r_sha256 := sha256_hash (input_payload input),
      r_size := length (input_payload input)\<rparr>) s now vkey" by (simp add: g(2))
qed

lemma head_chunks:
  assumes "stores db q payload" and "rev_id q = (key, v)" and "chunks db key v = Inr parts"
  shows "parts = parts_of payload"
proof -
  have len: "length key \<le> bind_limit" using assms(3) by (auto simp: chunks_def rbind_Inr_iff)
  have "revision_rows db key v = rows_of key v 0 (parts_of payload)"
    using assms(1,2) by (auto simp: stores_def rev_id_def)
  from chunks_stored [OF this len] assms(3) show ?thesis by simp
qed

lemma chunks_kept: "db_ok db \<Longrightarrow> chunks_added [] db db"
  by (rule chunks_added_Nil)

theorem reviseFile_appends:
  assumes ok: "db_ok db"
    and op: "reviseFile J now key source expected sessionKey options db = (Inr r', db')"
  shows "appends db r' (Some (sf_bytes source)) [] db'" "r_key r' = key" "r_version r' = Suc expected"
    "r_operation r' = ''revise''" "raw_text db key expected = []" "settled db \<Longrightarrow> settled db'"
    "\<exists>r. impl_require db key expected = Inr r \<and> r_path r' = r_path r" "input_stable (FromFile source)"
proof -
  obtain r s parts r2 db1 where req: "impl_require db key expected = Inr r"
    and s: "getSession db sessionKey True = Inr s" and raw: "rawDocument db key (r_version r) = Inr []"
    and ing: "ingest (FromFile source) (wo_cancelled options) (next_revision
        (r\<lparr>r_authorship := (case wo_authorship options of None \<Rightarrow> r_authorship r | Some m \<Rightarrow> m),
           r_sourceStamp := wo_sourceStamp options\<rparr>) ''revise'') db = Inr (parts, r2, db1)"
    and pub: "publish r2 s parts None now db1 = Inr (r', db')"
    using op by (auto simp: reviseFile_def transaction_Inr Let_def rbind_Inr_iff split: prod.splits if_splits)
  note g = ingest_Inr [OF ing, simplified]
  have live: "\<not> r_deleted r" "r_version r = expected"
    using impl_require_Inr [OF ok req] by (metis Pair_inject record_of_simps(2,4) rev_id_def)+
  have su: "succeeds_record r r2" by (simp add: succeeds_record_def g(2) next_revision_def)
  have ca: "carries db1 r2 parts (Some (sf_bytes source))"
    using g live by (auto simp: carries_def chunks_added_def next_revision_def)
  have "4 \<le> schema db" using db_okD(1) [OF ok] by (simp add: sessions_ok_def)
  then show none: "raw_text db key expected = []" using raw live(2) by (simp add: rawDocument_Inr)
  note a = revision_appends [OF ok req g(3) s su ca pub]
  from a(1) none show "appends db r' (Some (sf_bytes source)) [] db'" by simp
  from a show "r_key r' = key" "r_version r' = Suc expected" "settled db \<Longrightarrow> settled db'" by blast+
  from a(4) show "r_operation r' = ''revise''" by (auto simp: g(2) next_revision_def)
  from a(4) req show "\<exists>r. impl_require db key expected = Inr r \<and> r_path r' = r_path r"
    by (auto simp: g(2) next_revision_def)
  show "input_stable (FromFile source)" using ingest_Inr(4) [OF ing] .
qed

lemma payload_head:
  assumes "db_ok db" and "impl_require db key expected = Inr r" and "chunks db key (r_version r) = Inr parts"
    and "r_deleted r2 = r_deleted r" "r_sha256 r2 = r_sha256 r" "r_size r2 = r_size r"
  shows "carries db r2 parts (Some (payload_of db key expected))"
proof -
  from impl_require_Inr [OF assms(1,2)] obtain ob q s0 payload where
    h: "find_object db key = Some ob" "ob_head ob = expected" "q \<in> set (revisions db)"
      "rev_id q = (key, expected)" "r = record_of ob q s0" "stores db q payload"
      "\<not> rv_deleted q" "int expected < int64_max" "expected \<noteq> 0" "length key \<le> bind_limit" .
  have q: "rv_object_key q = key" "rv_version q = expected" using h(4) by (simp_all add: rev_id_def)
  have "parts = parts_of payload"
    using head_chunks [OF h(6,4)] assms(3) by (simp add: h(5) q)
  then show ?thesis
    using h(6,7) payload_of_stores [OF h(6)] assms(4-6) by (simp add: carries_def h(5) stores_def q)
qed

theorem move_appends:
  assumes ok: "db_ok db" and op: "move now cancelled key path expected sessionKey options db = (Inr r', db')"
  shows "appends db r' (Some (payload_of db key expected)) (raw_text db key expected) db'"
    "r_key r' = key" "r_version r' = Suc expected" "r_path r' = path" "r_operation r' = ''move''"
    "settled db \<Longrightarrow> settled db'" "\<exists>r. impl_require db key expected = Inr r \<and> r_authorship r' = r_authorship r"
proof -
  obtain r s parts where req: "impl_require db key expected = Inr r"
    and s: "getSession db sessionKey True = Inr s" and ch: "chunks db key (r_version r) = Inr parts"
    and pub: "publish (next_revision ((if wo_sourceStamp options \<noteq> []
        then r\<lparr>r_sourceStamp := wo_sourceStamp options\<rparr> else r)\<lparr>r_path := path\<rparr>) ''move'') s parts None now db
        = Inr (r', db')" (is "publish ?r2 _ _ _ _ _ = _")
    using op by (auto simp: move_def transaction_Inr Let_def rbind_Inr_iff split: if_splits)
  have su: "succeeds_record r ?r2" by (simp add: succeeds_record_def next_revision_def)
  have ca: "carries db ?r2 parts (Some (payload_of db key expected))"
    by (rule payload_head [OF ok req ch]) (simp_all add: next_revision_def)
  note a = revision_appends [OF ok req chunks_kept [OF ok] s su ca pub]
  from a show "appends db r' (Some (payload_of db key expected)) (raw_text db key expected) db'"
    "r_key r' = key" "r_version r' = Suc expected" "settled db \<Longrightarrow> settled db'" by simp_all
  from a(4) show "r_path r' = path" "r_operation r' = ''move''" by (auto simp: next_revision_def)
  from a(4) req show "\<exists>r. impl_require db key expected = Inr r \<and> r_authorship r' = r_authorship r"
    by (auto simp: next_revision_def)
qed

theorem erase_appends:
  assumes ok: "db_ok db" and op: "erase now key expected sessionKey db = (Inr r', db')"
  shows "appends db r' None (raw_text db key expected) db'" "r_key r' = key" "r_version r' = Suc expected"
    "r_deleted r'" "r_operation r' = ''erase''" "settled db \<Longrightarrow> settled db'"
    "\<exists>r. impl_require db key expected = Inr r \<and> r_path r' = r_path r"
proof -
  obtain r s where req: "impl_require db key expected = Inr r"
    and s: "getSession db sessionKey True = Inr s"
    and pub: "publish ((next_revision r ''erase'')\<lparr>r_deleted := True\<rparr>) s [] None now db = Inr (r', db')"
      (is "publish ?r2 _ _ _ _ _ = _")
    using op by (auto simp: erase_def transaction_Inr rbind_Inr_iff)
  have su: "succeeds_record r ?r2" by (simp add: succeeds_record_def next_revision_def)
  have ca: "carries db ?r2 [] None" by (simp add: carries_def)
  note a = revision_appends [OF ok req chunks_kept [OF ok] s su ca pub]
  from a show "appends db r' None (raw_text db key expected) db'"
    "r_key r' = key" "r_version r' = Suc expected" "settled db \<Longrightarrow> settled db'" by simp_all
  from a(4) show "r_deleted r'" "r_operation r' = ''erase''" by (auto simp: next_revision_def)
  from a(4) req show "\<exists>r. impl_require db key expected = Inr r \<and> r_path r' = r_path r"
    by (auto simp: next_revision_def)
qed

theorem reviseMetadata_appends:
  assumes ok: "db_ok db"
    and op: "reviseMetadata J now key metadata expected sessionKey db = (Inr r', db')"
  obtains (unchanged) "db' = db" "impl_require db key expected = Inr r'"
  | (changed) raw document where
    "decodeRawMetadata J (raw_text db key expected) = Inr raw"
    "encodeRawMetadata J (raw\<lparr>rm_annotations := metadata\<rparr>) = Inr document"
    "document \<noteq> raw_text db key expected" "raw_text db key expected \<noteq> []"
    "appends db r' (Some (payload_of db key expected)) document db'"
    "r_key r' = key" "r_version r' = Suc expected" "r_operation r' = ''metadata''"
    "settled db \<Longrightarrow> settled db'"
proof -
  obtain r s previous raw document where req: "impl_require db key expected = Inr r"
    and s: "getSession db sessionKey True = Inr s" and raw: "rawDocument db key (r_version r) = Inr previous"
    and ne: "previous \<noteq> []" and dec: "decodeRawMetadata J previous = Inr raw"
    and enc: "encodeRawMetadata J (raw\<lparr>rm_annotations := metadata\<rparr>) = Inr document"
    and rest: "(if document = previous then Inr (r, db)
      else rbind (chunks db key (r_version r)) (\<lambda>parts.
        publish (next_revision r ''metadata'') s parts (Some document) now db)) = Inr (r', db')"
    using op by (auto simp: reviseMetadata_def transaction_Inr rbind_Inr_iff split: if_split_asm)
  have v: "r_version r = expected"
    using impl_require_Inr [OF ok req] by (metis Pair_inject record_of_simps(2) rev_id_def)
  have "4 \<le> schema db" using db_okD(1) [OF ok] by (simp add: sessions_ok_def)
  then have prev: "previous = raw_text db key expected" using raw v by (simp add: rawDocument_Inr)
  show thesis
  proof (cases "document = previous")
    case True
    then show thesis using rest req unchanged by simp
  next
    case False
    then obtain parts where ch: "chunks db key (r_version r) = Inr parts"
      and pub: "publish (next_revision r ''metadata'') s parts (Some document) now db = Inr (r', db')"
      using rest by (auto simp: rbind_Inr_iff)
    have su: "succeeds_record r (next_revision r ''metadata'')"
      by (simp add: succeeds_record_def next_revision_def)
    have ca: "carries db (next_revision r ''metadata'') parts (Some (payload_of db key expected))"
      by (rule payload_head [OF ok req ch]) (simp_all add: next_revision_def)
    note a = revision_appends [OF ok req chunks_kept [OF ok] s su ca pub, simplified]
    have "r_operation r' = ''metadata''" using a(4) by (auto simp: next_revision_def)
    then show thesis
      using changed [of raw document] dec enc False ne a by (simp add: prev)
  qed
qed

theorem importFile_appends:
  assumes "db_ok db" and "importFile J key now source path sessionKey options db = (Inr r', db')"
  shows "appends db r' (Some (sf_bytes source)) [] db'" "r_key r' = ''object-'' @ key"
    "r_version r' = 1" "r_path r' = path" "abs_store db (r_key r') = []" "settled db \<Longrightarrow> settled db'"
    "r_operation r' = ''import''"
    "\<exists>s vkey. getSession db sessionKey True = Inr s \<and>
       r' = sealed_record ((new_record (''object-'' @ key) path ''import'' options)\<lparr>
         r_indexKey := next_rowid (map ob_index_key (objects db)), r_sha256 := sha256_hash (sf_bytes source),
         r_size := length (sf_bytes source)\<rparr>) s now vkey"
proof -
  obtain s where s: "getSession db sessionKey True = Inr s"
    and im: "impl_importFile J (''object-'' @ key) now (FromFile source) path s options [] db = Inr (r', db')"
    using assms(2) by (auto simp: importFile_def transaction_Inr rbind_Inr_iff)
  have "s \<in> set (sessions db)" using getSession_Inr [OF s] by blast
  note a = impl_importFile_appends [OF assms(1) this im, simplified]
  from a show "appends db r' (Some (sf_bytes source)) [] db'" "r_key r' = ''object-'' @ key"
    "r_version r' = 1" "r_path r' = path" "abs_store db (r_key r') = []" "settled db \<Longrightarrow> settled db'"
    "r_operation r' = ''import''" by simp_all
  from a(14) s show "\<exists>s vkey. getSession db sessionKey True = Inr s \<and>
      r' = sealed_record ((new_record (''object-'' @ key) path ''import'' options)\<lparr>
        r_indexKey := next_rowid (map ob_index_key (objects db)), r_sha256 := sha256_hash (sf_bytes source),
        r_size := length (sf_bytes source)\<rparr>) s now vkey" by auto
qed

theorem wrapRaw_appends:
  assumes "db_ok db"
    and "wrapRaw J key now cancelled capture path metadata sessionKey options db = (Inr r', db')"
  obtains c document where "capture = Inr c" "encodeRawMetadata J metadata = Inr document"
    "appends db r' (Some (sf_bytes (cs_file c))) document db'" "r_key r' = ''object-'' @ key"
    "r_version r' = 1" "r_path r' = path" "abs_store db (r_key r') = []" "settled db \<Longrightarrow> settled db'"
proof -
  obtain document s c where enc: "encodeRawMetadata J metadata = Inr document"
    and s: "getSession db sessionKey True = Inr s" and c: "capture = Inr c"
    and im: "impl_importFile J (''object-'' @ key) now (FromFile (cs_file c)) path s
         (captured_options options c) document db = Inr (r', db')"
    using assms(2) by (auto simp: wrapRaw_def transaction_Inr rbind_Inr_iff split: if_split_asm)
  have "s \<in> set (sessions db)" using getSession_Inr [OF s] by blast
  note a = impl_importFile_appends [OF assms(1) this im, simplified]
  show thesis by (rule that [OF c enc]) (use a in simp_all)
qed

text \<open>
  A document capture publishes the original, then the working copy over the same chunks.
\<close>

theorem importDocument_appends:
  assumes ok: "db_ok db"
    and op: "importDocument J key rawKey now now' cancelled late capture path metadata sessionKey options db
      = (Inr (w, raw), db')"
  obtains c document db1 where "capture = Inr c" "encodeRawMetadata J metadata = Inr document"
    "appends db raw (Some (sf_bytes (cs_file c))) document db1"
    "appends db1 w (Some (sf_bytes (cs_file c))) [] db'"
    "r_key raw = ''object-'' @ rawKey" "r_key w = ''object-'' @ key" "r_version raw = 1" "r_version w = 1"
    "r_path raw = originals (r_key w)" "r_path w = path" "abs_store db (r_key raw) = []"
    "abs_store db1 (r_key w) = []" "settled db \<Longrightarrow> settled db'" "r_sha256 w = r_sha256 raw"
    "find_object db1 (r_key w) = None"
proof -
  let ?w = "''object-'' @ key"
  obtain document s c db1 i db2 parts where enc: "encodeRawMetadata J metadata = Inr document"
    and s: "getSession db sessionKey True = Inr s" and c: "capture = Inr c"
    and im: "impl_importFile J (''object-'' @ rawKey) now (FromFile (cs_file c)) (originals ?w) s
         (captured_options options c) document db = Inr (raw, db1)"
    and ins: "insert_object ?w path db1 = Inr (i, db2)"
    and ch: "chunks db2 (r_key raw) (r_version raw) = Inr parts"
    and pub: "publish ((new_record ?w path ''import'' (captured_options options c))\<lparr>r_indexKey := i,
        r_size := r_size raw, r_sha256 := r_sha256 raw\<rparr>) s parts None now' db2 = Inr (w, db')"
      (is "publish ?r _ _ _ _ _ = _")
    using op unfolding importDocument_def transaction_Inr Let_def
    by (auto simp: rbind_Inr_iff split: if_split_asm prod.splits)
  have mem: "s \<in> set (sessions db)" using getSession_Inr [OF s] by blast
  note a = impl_importFile_appends [OF ok mem im, simplified]
  let ?bytes = "sf_bytes (cs_file c)"
  have ok1: "db_ok db1" and mem1: "s \<in> set (sessions db1)" and st: "stores db1 (revision_of raw) ?bytes"
    and rev: "revision_of raw \<in> set (revisions db1)"
    using a(1) mem by (simp_all add: appends_def)
  note in_ok = insert_object_ok [OF ok1 ins]
  have st2: "stores db2 (revision_of raw) ?bytes" by (rule extends_stores [OF in_ok(2) rev st])
  have parts: "parts = parts_of ?bytes"
    by (rule head_chunks [OF st2 _ ch]) (simp add: rev_id_def)
  have add: "chunks_added ?bytes db2 db2"
    using st2 by (auto simp: chunks_added_def stores_def intro!: exI [of _ "chunk_data db2"])
  have ca: "carries db2 ?r (parts_of ?bytes) (Some ?bytes)"
    using st2 by (simp add: carries_def stores_def)
  note b = create_appends [OF ok1 ins add mem1 pub [unfolded parts] _ _ _ _ ca, simplified]
  have w: "r_key w = ?w" "r_version w = 1" "r_path w = path" "r_sha256 w = r_sha256 raw"
    using b(2) by auto
  show thesis
    by (rule that [OF c enc a(1) b(1)]) (use a b w in simp_all)
qed

fun appends_all :: "object_db \<Rightarrow> (ObjectRecord \<times> byte list) list \<Rightarrow> object_db \<Rightarrow> bool" where
  "appends_all db [] db' \<longleftrightarrow> db' = db"
| "appends_all db ((r, bytes) # rest) db' \<longleftrightarrow>
     (\<exists>db1. appends db r (Some bytes) [] db1 \<and> appends_all db1 rest db')"

lemma appends_all_ok:
  "appends_all db xs db' \<Longrightarrow> db_ok db \<Longrightarrow> db_ok db' \<and> extends db db'"
proof (induction xs arbitrary: db)
  case (Cons x xs)
  then obtain db1 where "appends db (fst x) (Some (snd x)) [] db1" "appends_all db1 xs db'"
    by (cases x) auto
  then show ?case using Cons.IH [of db1] extends_trans by (auto simp: appends_def)
qed simp

lemma batch_import_appends:
  assumes "batch_import J s items db = Inr (rs, db')" and "db_ok db" and "s \<in> set (sessions db)"
  shows "appends_all db (zip rs (map (ps_bytes \<circ> snd) items)) db' \<and> length rs = length items \<and>
    map r_path rs = map (im_logicalPath \<circ> fst) items \<and> (settled db \<longrightarrow> settled db')"
  using assms
proof (induction items arbitrary: db rs)
  case (Cons item items)
  obtain item_file prepared where item [simp]: "item = (item_file, prepared)" by (cases item)
  from Cons.prems(1) obtain r db1 rest where
    im: "impl_importFile J (''object-'' @ im_key item_file) (im_now item_file) (Prepared prepared)
        (im_logicalPath item_file) s (im_options item_file) [] db = Inr (r, db1)"
    and rest: "batch_import J s items db1 = Inr (rest, db')" and rs [simp]: "rs = r # rest"
    by (auto simp: rbind_Inr_iff split: if_splits)
  note a = impl_importFile_appends [OF Cons.prems(2,3) im, simplified]
  have "db_ok db1" "s \<in> set (sessions db1)" using a(1) Cons.prems(3) by (simp_all add: appends_def)
  from Cons.IH [OF rest this] a show ?case by auto
qed simp

theorem importFiles_appends:
  assumes "db_ok db" and "importFiles J files prepared sessionKey db = (Inr rs, db')"
  obtains sources where "prepared = Inr sources" "1 \<le> length files" "length files \<le> 256"
    "appends_all db (zip rs (map (ps_bytes \<circ> snd) (zip files sources))) db'"
    "length rs = length (zip files sources)"
    "map r_path rs = map (im_logicalPath \<circ> fst) (zip files sources)" "settled db \<Longrightarrow> settled db'"
proof -
  obtain s sources where n: "files \<noteq> []" "length files \<le> 256" and s: "getSession db sessionKey True = Inr s"
    and p: "prepared = Inr sources" and b: "batch_import J s (zip files sources) db = Inr (rs, db')"
    using assms(2) by (auto simp: importFiles_def transaction_Inr rbind_Inr_iff maximumBatchFiles_def split: if_splits)
  have "s \<in> set (sessions db)" using getSession_Inr [OF s] by blast
  from batch_import_appends [OF b assms(1) this] show thesis
    using that [OF p _ n(2)] n(1) by (simp add: Suc_le_eq)
qed

theorem beginSession_ok:
  assumes "db_ok db" and "beginSession J key now author device description ctx db = (Inr s, db')"
  shows "db_ok db'" "extends db db'" "sessions db' = sessions db @ [s]" "revisions db' = revisions db"
    "objects db' = objects db" "s_key s = ''session-'' @ key" "s_author s = author"
    "\<exists>document. encodeSessionContext J ctx = Inr document \<and> session_context db' (s_key s) = Inr document"
proof -
  obtain document db1 where enc: "encodeSessionContext J ctx = Inr document"
    and s: "s = \<lparr>s_key = ''session-'' @ key, s_author = author, s_device = device,
              s_description = description, s_startedAtNs = now, s_endedAtNs = 0\<rparr>"
    and i1: "insert_session s db = Inr db1" and i2: "insert_work_session (s_key s) document db1 = Inr db'"
    using assms(2) by (auto simp: beginSession_def transaction_Inr Let_def rbind_Inr_iff)
  note a = insert_session_ok [OF assms(1) i1 i2]
  then show "db_ok db'" "extends db db'" by blast+
  from a(3) show "sessions db' = sessions db @ [s]" "revisions db' = revisions db" "objects db' = objects db"
    by auto
  from s show "s_key s = ''session-'' @ key" "s_author s = author" by simp_all
  obtain n where db': "db' = db\<lparr>sessions := sessions db @ [s], work_sessions := work_sessions db @
       [\<lparr>ws_sequence = n, ws_session_key = s_key s, ws_context = document\<rparr>]\<rparr>" using a(3) by blast
  have "find_work_session db (s_key s) = None"
    using i1 i2 by (auto simp: insert_session_def insert_work_session_def rbind_Inr_iff find_work_session_def
        split: if_splits)
  moreover have "length (s_key s) \<le> bind_limit"
    using i1 by (auto simp: insert_session_def rbind_Inr_iff)
  moreover have "4 \<le> schema db" using db_okD(1) [OF assms(1)] by (simp add: sessions_ok_def)
  ultimately have "session_context db' (s_key s) = Inr document"
    by (simp add: session_context_def db' find_work_session_def find_append bind_texts_def not_less)
  with enc show "\<exists>document. encodeSessionContext J ctx = Inr document \<and> session_context db' (s_key s) = Inr document"
    by blast
qed

theorem endSession_ok:
  assumes "db_ok db" and "endSession key now db = (Inr u, db')"
  shows "db_ok db'" "extends db db'" "revisions db' = revisions db" "objects db' = objects db"
    "now \<noteq> 0 \<Longrightarrow> getSession db' key True = Inl (Fail ''object work session is closed'')"
proof -
  obtain s where s: "getSession db key True = Inr s" and up: "update_session_ended key now db = Inr db'"
    using assms(2) by (auto simp: endSession_def transaction_Inr rbind_Inr_iff)
  show "db_ok db'" "extends db db'" using update_session_ok [OF assms(1) up] by blast+
  have db': "db' = db\<lparr>sessions := map (\<lambda>s. if s_key s = key then s\<lparr>s_endedAtNs := now\<rparr> else s) (sessions db)\<rparr>"
    and len: "length key \<le> bind_limit"
    using up by (auto simp: update_session_ended_def rbind_Inr_iff)
  then show "revisions db' = revisions db" "objects db' = objects db" by simp_all
  have "find_session db key = Some s"
    using s by (auto simp: getSession_def rbind_Inr_iff split: option.splits if_splits)
  then have "find_session db' key = Some (s\<lparr>s_endedAtNs := now\<rparr>)"
    using find_map_update [of "sessions db" s_key key "\<lambda>s. s\<lparr>s_endedAtNs := now\<rparr>" key]
    by (simp add: find_session_def db')
  then show "getSession db' key True = Inl (Fail ''object work session is closed'')" if "now \<noteq> 0"
    using that len by (simp add: getSession_def bind_texts_def not_less)
qed

end
