(* ===== verification/Object_Validation.thy ===== *)
theory Object_Validation
  imports Object_Operations
begin

text \<open>
  Reading back: under the invariant every stored revision passes \<open>validate\<close>, \<open>extract\<close>
  returns its payload, and the index projection agrees with the heads.
\<close>

section \<open>The hash chain\<close>

lemma version_exists:
  assumes "db_ok db" and "find_object db key = Some ob" and "1 \<le> v" and "v \<le> ob_head ob"
  obtains q where "q \<in> set (revisions db)" "rv_object_key q = key" "rv_version q = v"
proof -
  have "(key, v) \<in> rev_id ` set (revisions db)"
    using db_okD(3) [OF assms(1)] find_object_Some [OF assms(2)] assms(3,4)
    unfolding versions_ok_def by blast
  then show thesis using that by (auto simp: rev_id_def)
qed

lemma version_object:
  assumes "db_ok db" and "q \<in> set (revisions db)"
  obtains ob where "find_object db (rv_object_key q) = Some ob" "1 \<le> rv_version q" "rv_version q \<le> ob_head ob"
proof -
  have "(rv_object_key q, rv_version q) \<in> rev_id ` set (revisions db)"
    using assms(2) by (metis image_eqI rev_id_def)
  then show thesis
    using db_okD(3) [OF assms(1)] find_object_mem [OF assms(1)] that
    unfolding versions_ok_def by metis
qed

lemma rev_id_unique:
  assumes "db_ok db" and "q \<in> set (revisions db)" and "q' \<in> set (revisions db)" and "rev_id q' = rev_id q"
  shows "q' = q"
  using assms db_okD(3) [OF assms(1)] by (auto simp: versions_ok_def distinct_map dest: inj_onD)

lemma sealed_context:
  assumes "db_ok db" and "q \<in> set (revisions db)"
  obtains ob s ctx where "find_object db (rv_object_key q) = Some ob"
    "find_session db (rv_session_key q) = Some s" "s_key s = rv_session_key q"
    "session_context db (rv_session_key q) = Inr ctx" "rv_record_format q = 2"
    "r_author (record_of ob q s) = s_author s"
    "length (rv_object_key q) \<le> bind_limit" "length (rv_session_key q) \<le> bind_limit"
    "validationKey (record_of ob q s) s (container db) ctx
       (raw_text db (rv_object_key q) (rv_version q)) = Inr (rv_validation_key q)"
proof -
  from db_okD(8) [OF assms] obtain ob s w where mem: "ob \<in> set (objects db)" "s \<in> set (sessions db)"
      "w \<in> set (work_sessions db)" and sb: "sealed_by db q ob s w"
    by (auto simp: revision_ok_def sealed_def)
  have so: "4 \<le> schema db" "distinct (map ws_session_key (work_sessions db))"
    using db_okD(1) [OF assms(1)] by (simp_all add: sessions_ok_def)
  have "find_object db (rv_object_key q) = Some ob" "find_session db (rv_session_key q) = Some s"
    using find_object_mem [OF assms(1) mem(1)] find_session_mem [OF assms(1) mem(2)] sb
    by (simp_all add: sealed_by_def)
  moreover have "session_context db (rv_session_key q) = Inr (ws_context w)"
    using so sb mem(3) find_distinct [OF so(2) mem(3)]
    by (simp add: session_context_def sealed_by_def find_work_session_def bind_texts_def not_less)
  ultimately show thesis
    using that [of ob s "ws_context w"] sb by (simp add: sealed_by_def)
qed

lemma select_record_version:
  assumes "db_ok db" and "q \<in> set (revisions db)" and "find_object db (rv_object_key q) = Some ob"
    and "find_session db (rv_session_key q) = Some s"
  shows "select_record db (rv_object_key q) (rv_version q) = Some (record_of ob q s)"
proof -
  have "rv_version q \<noteq> 0" using version_object [OF assms(1,2)] by (metis not_one_le_zero)
  then show ?thesis
    using assms find_revision_mem [OF assms(1,2)] by (simp add: select_record_def)
qed

lemma validate_chain_step:
  assumes ok: "db_ok db" and q: "q \<in> set (revisions db)" and le: "rv_version q \<le> version"
  shows "validate_chain db (rv_object_key q) version (rv_version q) (rv_parent_key q) =
    validate_chain db (rv_object_key q) version (Suc (rv_version q)) (rv_validation_key q)"
proof -
  obtain ob s ctx where c: "find_object db (rv_object_key q) = Some ob"
    "find_session db (rv_session_key q) = Some s" "s_key s = rv_session_key q"
    "session_context db (rv_session_key q) = Inr ctx" "rv_record_format q = 2"
    "r_author (record_of ob q s) = s_author s"
    "length (rv_object_key q) \<le> bind_limit" "length (rv_session_key q) \<le> bind_limit"
    "validationKey (record_of ob q s) s (container db) ctx
       (raw_text db (rv_object_key q) (rv_version q)) = Inr (rv_validation_key q)"
    by (rule sealed_context [OF ok q])
  have get: "get_record db (rv_object_key q) (rv_version q) = Inr (Some (record_of ob q s))"
    using select_record_version [OF ok q c(1,2)] c(7) by (simp add: get_record_def bind_texts_def not_less)
  have ses: "getSession db (rv_session_key q) False = Inr s"
    using c(2,8) by (simp add: getSession_def bind_texts_def not_less)
  have raw: "rawDocument db (rv_object_key q) (rv_version q) = Inr (raw_text db (rv_object_key q) (rv_version q))"
    using c(7) db_okD(1) [OF ok] by (simp add: rawDocument_Inr sessions_ok_def)
  have rec: "r_sessionKey (record_of ob q s) = rv_session_key q" "r_schemaVersion (record_of ob q s) = 2"
    "r_parentValidationKey (record_of ob q s) = rv_parent_key q"
    using c(5) by (simp_all add: record_of_def)
  show ?thesis
    using le c(3,4,6,9)
    by (subst validate_chain.simps) (simp add: get ses raw rec)
qed

lemma validate_chain_end: "version < v \<Longrightarrow> validate_chain db key version v previous = Inr True"
  by (simp add: validate_chain.simps)

theorem validate_chain_ok:
  assumes ok: "db_ok db" and ob: "find_object db key = Some ob" and le: "version \<le> ob_head ob"
    and q: "q \<in> set (revisions db)" "rv_object_key q = key" "rv_version q \<le> version"
  shows "validate_chain db key version (rv_version q) (rv_parent_key q) = Inr True"
  using q
proof (induction "version - rv_version q" arbitrary: q)
  case 0
  then show ?case
    using validate_chain_step [OF ok 0(2), of version] by (simp add: validate_chain_end)
next
  case (Suc n)
  have v: "1 \<le> Suc (rv_version q)" "Suc (rv_version q) \<le> ob_head ob" using Suc.hyps(2) le by simp_all
  obtain q' where q': "q' \<in> set (revisions db)" "rv_object_key q' = key" "rv_version q' = Suc (rv_version q)"
    by (rule version_exists [OF ok ob v])
  have "rv_version q \<noteq> 0" using version_object [OF ok Suc.prems(1)] by (metis not_one_le_zero)
  moreover have "linked db q'" using db_okD(8) [OF ok q'(1)] by (simp add: revision_ok_def)
  ultimately obtain p where p: "p \<in> set (revisions db)" "rev_id p = (key, rv_version q)"
      "rv_parent_key q' = rv_validation_key p" by (auto simp: linked_def q')
  have "p = q" by (rule rev_id_unique [OF ok Suc.prems(1) p(1)]) (use p(2) Suc.prems(2) in \<open>simp add: rev_id_def\<close>)
  then have "validate_chain db key version (rv_version q) (rv_parent_key q) =
      validate_chain db key version (rv_version q') (rv_parent_key q')"
    using validate_chain_step [OF ok Suc.prems(1,3)] p(3) by (simp add: q' Suc.prems(2))
  also have "\<dots> = Inr True"
    by (rule Suc.hyps(1)) (use Suc.hyps(2) q' in simp_all)
  finally show ?case .
qed

section \<open>The payload\<close>

text \<open>All pieces but the last have the full chunk size.\<close>

fun full_until_last :: "byte list list \<Rightarrow> bool" where
  "full_until_last [] \<longleftrightarrow> True"
| "full_until_last [p] \<longleftrightarrow> p \<noteq> [] \<and> length p \<le> chunkBytes"
| "full_until_last (p # q # ps) \<longleftrightarrow> length p = chunkBytes \<and> full_until_last (q # ps)"

lemma chunkBytes_pos [simp]: "0 < chunkBytes"
  by (simp add: chunkBytes_def)

lemma full_until_last_Cons:
  "full_until_last (p # ps) \<longleftrightarrow> full_until_last ps \<and> p \<noteq> [] \<and> length p \<le> chunkBytes \<and>
     (ps \<noteq> [] \<longrightarrow> length p = chunkBytes)"
  using chunkBytes_pos by (cases ps) (auto simp del: chunkBytes_pos)

lemma pieces_full: "full_until_last (pieces xs)"
proof (induction xs rule: pieces.induct)
  case (1 xs)
  show ?case
  proof (cases "xs = [] \<or> drop chunkBytes xs = []")
    case True
    then show ?thesis by (auto simp: pieces.simps [of xs])
  next
    case False
    then have "pieces (drop chunkBytes xs) = take chunkBytes (drop chunkBytes xs) # pieces (drop chunkBytes (drop chunkBytes xs))"
      by (subst pieces.simps) simp
    with 1 False show ?thesis by (simp add: pieces.simps [of xs])
  qed
qed

lemma length_pieces:
  "length (pieces xs) = length xs div chunkBytes + (if length xs mod chunkBytes \<noteq> 0 then 1 else 0)"
proof (induction xs rule: pieces.induct)
  case (1 xs)
  consider "xs = []" | "xs \<noteq> []" "length xs < chunkBytes" | "xs \<noteq> []" "chunkBytes \<le> length xs" by linarith
  then show ?case
  proof cases
    case 3
    then have "length xs div chunkBytes = Suc ((length xs - chunkBytes) div chunkBytes)"
      "length xs mod chunkBytes = (length xs - chunkBytes) mod chunkBytes"
      by (simp_all add: le_div_geq le_mod_geq)
    with 1 3 show ?thesis by (simp add: pieces.simps [of xs])
  qed (simp_all add: pieces.simps [of xs])
qed

lemma length_parts_of [simp]: "length (parts_of xs) = length (pieces xs)"
  by (simp add: parts_of_def)

lemma validate_parts_ok:
  assumes "full_until_last ps" and "\<forall>p \<in> set ps. chunk_data db (sha256_hash p) = Some p"
    and "ObjectHash_represents h m" and "length m + length (concat ps) \<le> sha_limit"
  shows "\<exists>h'. validate_parts db (map part_of ps) n h = Inr (Some (n + length (concat ps), h')) \<and>
    ObjectHash_represents h' (m @ concat ps)"
  using assms
proof (induction ps arbitrary: n h m)
  case (Cons p ps)
  have fl: "full_until_last ps" "p \<noteq> []" "length p \<le> chunkBytes" "ps \<noteq> [] \<longrightarrow> length p = chunkBytes"
    using Cons.prems(1) unfolding full_until_last_Cons by blast+
  have len: "length m + length p \<le> sha_limit" using Cons.prems(4) by simp
  from object_hash.update_accepts [OF Cons.prems(3) len] obtain h1
    where h1: "ObjectHash_update h p = Inr h1" "ObjectHash_represents h1 (m @ p)" by blast
  have "length (m @ p) + length (concat ps) \<le> sha_limit" using Cons.prems(4) by simp
  from Cons.IH [OF fl(1) _ h1(2) this, of "n + length p"] Cons.prems(2)
  obtain h' where h': "validate_parts db (map part_of ps) (n + length p) h1 =
      Inr (Some (n + length p + length (concat ps), h'))" "ObjectHash_represents h' ((m @ p) @ concat ps)"
    by auto
  have dig: "lift_hash (ObjectHash_digest p) = Inr (sha256_hash p)" using len by (simp add: ObjectHash_digest_Inr)
  have up: "lift_hash (ObjectHash_update h p) = Inr h1" using h1(1) by simp
  have "validate_parts db (map part_of (p # ps)) n h = validate_parts db (map part_of ps) (n + length p) h1"
    using fl Cons.prems(2) by (cases "ps = []") (simp_all add: part_of_def dig up bind_texts_def bind_limit_def)
  with h' show ?case by (auto simp: add.assoc)
qed simp

theorem validate_payload_ok:
  assumes "stores db q payload" and "length (rv_object_key q) \<le> bind_limit" and "\<not> rv_deleted q"
  shows "validate_payload db (record_of ob q s) (rv_object_key q) (rv_version q) = Inr True"
proof -
  have ch: "chunks db (rv_object_key q) (rv_version q) = Inr (parts_of payload)"
    using assms(1,2) by (intro chunks_stored) (simp_all add: stores_def)
  have "\<forall>p \<in> set (pieces payload). chunk_data db (sha256_hash p) = Some p" "length payload \<le> sha_limit"
    using assms(1) by (simp_all add: stores_def holds_def)
  with validate_parts_ok [OF pieces_full, of payload db ObjectHash_init "[]" 0] object_hash.represents_empty
  obtain h' where h': "validate_parts db (parts_of payload) 0 ObjectHash_init = Inr (Some (length payload, h'))"
      "ObjectHash_represents h' payload" by (auto simp: parts_of_def)
  have "ObjectHash_finish h' = sha256_hash payload" by (rule object_hash.finish_hash [OF h'(2)])
  then show ?thesis
    using assms(1,3) by (simp add: validate_payload_def ch h'(1) stores_def length_pieces)
qed

theorem stored_revision_validates:
  assumes ok: "db_ok db" and q: "q \<in> set (revisions db)"
  shows "impl_validate db (rv_object_key q) (rv_version q) payload = Inr True"
proof -
  let ?key = "rv_object_key q" and ?v = "rv_version q"
  obtain ob where ob: "find_object db ?key = Some ob" "1 \<le> ?v" "?v \<le> ob_head ob"
    by (rule version_object [OF ok q])
  have max: "int (ob_head ob) \<le> int64_max"
    using db_okD(4) [OF ok] find_object_Some [OF ob(1)] by (simp add: heads_ok_def)
  obtain q1 where q1: "q1 \<in> set (revisions db)" "rv_object_key q1 = ?key" "rv_version q1 = 1"
    by (rule version_exists [OF ok ob(1), of 1]) (use ob in simp_all)
  have "linked db q1" using db_okD(8) [OF ok q1(1)] by (simp add: revision_ok_def)
  then have "rv_parent_key q1 = []" using q1(3) by (simp add: linked_def)
  with validate_chain_ok [OF ok ob(1,3) q1(1,2)] q1(3) ob(2)
  have chain: "validate_chain db ?key ?v 1 [] = Inr True" by simp
  obtain ob' s ctx where c: "find_object db ?key = Some ob'" "find_session db (rv_session_key q) = Some s"
    and len: "length ?key \<le> bind_limit"
    by (rule sealed_context [OF ok q])
  have get: "get_record db ?key ?v = Inr (Some (record_of ob' q s))"
    using select_record_version [OF ok q c] len by (simp add: get_record_def bind_texts_def not_less)
  have pay: "validate_payload db (record_of ob' q s) ?key ?v = Inr True"
  proof (cases "rv_deleted q")
    case True
    then have "revision_rows db ?key ?v = rows_of ?key ?v 0 []"
      using db_okD(8) [OF ok q] by (simp add: revision_ok_def stored_def)
    from chunks_stored [OF this len] True show ?thesis by (simp add: validate_payload_def)
  next
    case False
    then obtain bytes where "stores db q bytes"
      using db_okD(8) [OF ok q] by (auto simp: revision_ok_def stored_def)
    then show ?thesis by (rule validate_payload_ok [OF _ len False])
  qed
  show ?thesis
    using ob max chain get pay by (simp add: impl_validate_def)
qed

theorem stored_revision_extracts:
  assumes ok: "db_ok db" and q: "q \<in> set (revisions db)" and live: "\<not> rv_deleted q"
  shows "extract_object db (rv_object_key q) (rv_version q) True False True =
    Inr (payload_of db (rv_object_key q) (rv_version q))"
proof -
  let ?key = "rv_object_key q" and ?v = "rv_version q"
  obtain ob s ctx where c: "find_object db ?key = Some ob" "find_session db (rv_session_key q) = Some s"
    and len: "length ?key \<le> bind_limit"
    by (rule sealed_context [OF ok q])
  have get: "get_record db ?key ?v = Inr (Some (record_of ob q s))"
    using select_record_version [OF ok q c] len by (simp add: get_record_def bind_texts_def not_less)
  obtain bytes where st: "stores db q bytes"
    using db_okD(8) [OF ok q] live by (auto simp: revision_ok_def stored_def)
  have ch: "chunks db ?key ?v = Inr (parts_of bytes)"
    using st len by (intro chunks_stored) (simp_all add: stores_def)
  have "chunk_bytes db (parts_of bytes) = Inr bytes"
    using chunk_bytes_stored [of "pieces bytes" db] st by (simp add: parts_of_def stores_def holds_def)
  then show ?thesis
    using stored_revision_validates [OF ok q, of True] get ch live payload_of_stores [OF st]
    by (simp add: extract_object_def)
qed

section \<open>The index projection\<close>

lemma sorted_key_unique:
  fixes f :: "'a \<Rightarrow> 'b :: linorder"
  assumes "sorted_wrt (<) (map f xs)" and "sorted_wrt (<) (map f ys)" and "set xs = set ys"
  shows "xs = ys"
proof -
  have eq: "map f xs = map f ys"
    by (rule strict_sorted_equal) (use assms in simp_all)
  have "inj_on f (set xs \<union> set ys)"
    using assms(1,3) by (simp add: strict_sorted_iff distinct_map)
  from map_inj_on [OF eq this] show ?thesis .
qed

lemma sort_key_strict:
  fixes f :: "'a \<Rightarrow> 'b :: linorder"
  shows "distinct (map f xs) \<Longrightarrow> sorted_wrt (<) (map f (sort_key f xs))"
  by (simp add: strict_sorted_iff distinct_map)

definition index_of_record :: "ObjectRecord \<Rightarrow> ObjectIndexEntry" where
  "index_of_record r =
     \<lparr>ix_key = r_key r, ix_indexKey = r_indexKey r, ix_version = r_version r, ix_path = r_path r,
      ix_sha256 = r_sha256 r, ix_size = r_size r, ix_validationKey = r_validationKey r,
      ix_sessionKey = r_sessionKey r, ix_deleted = r_deleted r,
      ix_authorOrigin = origin (r_author r), ix_authorSubject = subject (r_author r)\<rparr>"

lemma settled_head:
  assumes "package_ok db" and "ob \<in> set (objects db)"
  obtains q s where "q \<in> set (revisions db)" "rev_id q = (ob_object_key ob, ob_head ob)"
    "head_record db ob = Some (record_of ob q s)" "rv_path q = ob_path ob" "rv_deleted q = ob_deleted ob"
proof -
  have ok: "db_ok db" and h: "1 \<le> ob_head ob" using assms by (auto simp: package_ok_def settled_def)
  obtain q where q: "q \<in> set (revisions db)" "rv_object_key q = ob_object_key ob" "rv_version q = ob_head ob"
    by (rule version_exists [OF ok find_object_mem [OF ok assms(2)] h order_refl])
  obtain ob' s where c: "find_object db (rv_object_key q) = Some ob'" "find_session db (rv_session_key q) = Some s"
    by (rule sealed_context [OF ok q(1)])
  have id: "rev_id q = (ob_object_key ob, ob_head ob)" by (simp add: rev_id_def q)
  have "find_revision db (ob_object_key ob) (ob_head ob) = Some q"
    using find_revision_mem [OF ok q(1)] by (simp add: q)
  then have "head_record db ob = Some (record_of ob q s)" using c(2) by (simp add: head_record_def)
  moreover have "rv_path q = ob_path ob" "rv_deleted q = ob_deleted ob"
    using db_okD(4) [OF ok] assms(2) q(1) id by (auto simp: heads_ok_def)
  ultimately show thesis using that q(1) id by blast
qed

lemma head_index:
  assumes "package_ok db" and "ob \<in> set (objects db)" and "head_record db ob = Some r"
  shows "index_of_record r \<in> set (current_index db)" "ix_indexKey (index_of_record r) = ob_index_key ob"
    "ix_deleted (index_of_record r) = ob_deleted ob" "ix_key (index_of_record r) = ob_object_key ob"
proof -
  obtain q s where h: "q \<in> set (revisions db)" "rev_id q = (ob_object_key ob, ob_head ob)"
    "head_record db ob = Some (record_of ob q s)" "rv_path q = ob_path ob" "rv_deleted q = ob_deleted ob"
    by (rule settled_head [OF assms(1,2)])
  have e: "index_of_record r = index_entry ob q"
    using assms(3) h by (auto simp: index_of_record_def index_entry_def record_of_def rev_id_def)
  have "db_ok db" using assms(1) by (simp add: package_ok_def)
  from db_okD(7) [OF this] show "index_of_record r \<in> set (current_index db)"
    using assms(2) h(1,2) unfolding e index_ok_def by blast
  show "ix_indexKey (index_of_record r) = ob_index_key ob" "ix_deleted (index_of_record r) = ob_deleted ob"
    "ix_key (index_of_record r) = ob_object_key ob"
    unfolding e by (simp_all add: index_entry_def)
qed

lemma index_is_heads:
  assumes "package_ok db"
  shows "set (current_index db) = (\<lambda>ob. index_of_record (the (head_record db ob))) ` set (objects db)"
proof (intro equalityI subsetI)
  have ok: "db_ok db" using assms by (simp add: package_ok_def)
  fix e assume "e \<in> set (current_index db)"
  then obtain ob q where ob: "ob \<in> set (objects db)" and q: "q \<in> set (revisions db)"
    "rev_id q = (ob_object_key ob, ob_head ob)" and e: "e = index_entry ob q"
    using db_okD(7) [OF ok] by (auto simp: index_ok_def)
  obtain q' s where h: "q' \<in> set (revisions db)" "rev_id q' = (ob_object_key ob, ob_head ob)"
    "head_record db ob = Some (record_of ob q' s)" "rv_path q' = ob_path ob" "rv_deleted q' = ob_deleted ob"
    by (rule settled_head [OF assms ob])
  have "q' = q" using rev_id_unique [OF ok q(1) h(1)] h(2) q(2) by simp
  then have "e = index_of_record (the (head_record db ob))"
    using h by (simp add: e index_of_record_def index_entry_def record_of_def rev_id_def)
  with ob show "e \<in> (\<lambda>ob. index_of_record (the (head_record db ob))) ` set (objects db)" by blast
next
  fix e assume "e \<in> (\<lambda>ob. index_of_record (the (head_record db ob))) ` set (objects db)"
  then obtain ob where ob: "ob \<in> set (objects db)" and e: "e = index_of_record (the (head_record db ob))" by blast
  obtain q s where "head_record db ob = Some (record_of ob q s)"
    by (rule settled_head [OF assms ob])
  with head_index(1) [OF assms ob this] show "e \<in> set (current_index db)" by (simp add: e)
qed

theorem index_projects_scan:
  assumes "package_ok db"
  shows "index db after limit deleted = map_sum id (map index_of_record) (scan db after limit deleted)"
proof -
  let ?P = "\<lambda>ob. ob_index_key ob > after \<and> (deleted \<or> \<not> ob_deleted ob)"
  let ?Q = "\<lambda>e. ix_indexKey e > after \<and> (deleted \<or> \<not> ix_deleted e)"
  let ?ent = "\<lambda>ob. index_of_record (the (head_record db ob))"
  have ok: "db_ok db" using assms by (simp add: package_ok_def)
  have some: "head_record db ob \<noteq> None" if "ob \<in> set (objects db)" for ob
    using settled_head [OF assms that] by (metis option.distinct(1))
  then have ent: "ix_indexKey (?ent ob) = ob_index_key ob" "ix_deleted (?ent ob) = ob_deleted ob"
    if "ob \<in> set (objects db)" for ob
    using head_index [OF assms that] that by fastforce+
  have srt: "sorted_wrt (<) (map ob_index_key (objects db))"
    using db_okD(2) [OF ok] by (simp add: objects_ok_def)
  then have srt': "sorted_wrt (<) (map ob_index_key (filter ?P (objects db)))"
    by (simp add: sorted_wrt_map sorted_wrt_filter)
  then have id: "sort_key ob_index_key (filter ?P (objects db)) = filter ?P (objects db)"
    by (intro sorted_sort_id sort_key_id_if_sorted strict_sorted_imp_sorted)
  have heads: "List.map_filter (head_record db) obs = map (\<lambda>ob. the (head_record db ob)) obs"
    if "set obs \<subseteq> set (objects db)" for obs
    using that some by (induction obs) (fastforce simp: List.map_filter_simps split: option.splits)+
  have "sort_key ix_indexKey (filter ?Q (current_index db)) = map ?ent (filter ?P (objects db))"
  proof (rule sorted_key_unique [of ix_indexKey])
    show "sorted_wrt (<) (map ix_indexKey (sort_key ix_indexKey (filter ?Q (current_index db))))"
      using db_okD(7) [OF ok] by (intro sort_key_strict distinct_map_filter) (simp add: index_ok_def)
    have "map (ix_indexKey \<circ> ?ent) (filter ?P (objects db)) = map ob_index_key (filter ?P (objects db))"
      using ent(1) by simp
    then show "sorted_wrt (<) (map ix_indexKey (map ?ent (filter ?P (objects db))))"
      using srt' by (simp only: map_map)
    show "set (sort_key ix_indexKey (filter ?Q (current_index db))) = set (map ?ent (filter ?P (objects db)))"
      using ent index_is_heads [OF assms] by auto
  qed
  then show ?thesis
    using heads [of "filter ?P (objects db)"]
    by (simp add: index_def scan_def id take_map page_error_def)
qed

section \<open>Lookup by path\<close>

lemma filter_single: "distinct xs \<Longrightarrow> x \<in> set xs \<Longrightarrow> filter (\<lambda>y. y = x) xs = [x]"
  by (induction xs) (auto simp: filter_empty_conv)

lemma filter_unique:
  assumes "distinct xs" and "x \<in> set xs" and "\<And>y. y \<in> set xs \<Longrightarrow> P y \<longleftrightarrow> y = x"
  shows "filter P xs = [x]"
proof -
  have "filter P xs = filter (\<lambda>y. y = x) xs" by (rule filter_cong [OF refl]) (rule assms(3))
  then show ?thesis using filter_single [OF assms(1,2)] by simp
qed

theorem lookupPath_unique:
  assumes "package_ok db" and "pathValid path = Inr ()" and "length path \<le> bind_limit"
    and "ob \<in> set (objects db)" and "ob_path ob = path" and "\<not> ob_deleted ob"
  shows "\<exists>r. lookupPath db path = Inr (Some r) \<and> r_key r = ob_object_key ob \<and> r_path r = path \<and>
    \<not> r_deleted r \<and> r_version r = ob_head ob"
proof -
  have ok: "db_ok db" using assms(1) by (simp add: package_ok_def)
  have inj: "inj_on ob_path {x \<in> set (objects db). \<not> ob_deleted x}" and d: "distinct (objects db)"
    using db_okD(2) [OF ok] by (auto simp: objects_ok_def distinct_map)
  have one: "filter (\<lambda>x. ob_path x = path \<and> \<not> ob_deleted x) (objects db) = [ob]"
  proof (rule filter_unique [OF d assms(4)])
    fix x assume "x \<in> set (objects db)"
    then show "ob_path x = path \<and> \<not> ob_deleted x \<longleftrightarrow> x = ob"
      using inj_onD [OF inj, of x ob] assms(4-6) by (simp, metis)
  qed
  obtain q s where h: "q \<in> set (revisions db)" "rev_id q = (ob_object_key ob, ob_head ob)"
    "head_record db ob = Some (record_of ob q s)" "rv_path q = ob_path ob" "rv_deleted q = ob_deleted ob"
    by (rule settled_head [OF assms(1,4)])
  show ?thesis
    using h assms(2,3,5,6) by (simp add: lookupPath_def one List.map_filter_simps bind_texts_def not_less rev_id_def)
qed

end
