(* ===== verification/Object_Progress.thy ===== *)
theory Object_Progress
  imports Object_Validation
begin

text \<open>
  When the store's operations succeed.  The conditions are those of the code: an open
  session, a free path, text within the bind limit, a stable source, and chunk data that
  does not collide with a stored digest.
\<close>

section \<open>Hashing and validation keys\<close>

lemma hash_pieces_ok:
  assumes "length (concat pcs) \<le> sha_limit"
  shows "hash_pieces pcs = Inr (sha256_hash (concat pcs))"
proof -
  obtain h where "foldM (\<lambda>piece h. ObjectHash_update h piece) pcs ObjectHash_init = Inr h"
    "ObjectHash_finish h = sha256_hash (concat pcs)"
    using object_hash.split_independent [OF assms]
    by (cases "foldM (\<lambda>piece h. ObjectHash_update h piece) pcs ObjectHash_init") auto
  then show ?thesis by (simp add: hash_pieces_def lift_hash_def)
qed

definition key_text :: "ObjectRecord \<Rightarrow> ObjectSession \<Rightarrow> string \<Rightarrow> string \<Rightarrow> string \<Rightarrow> byte list" where
  "key_text r s box ctx raw = concat (key_pieces (key_fields r s box ctx raw))"

lemma validationKey_ok:
  "length (key_text r s box ctx raw) \<le> sha_limit \<Longrightarrow>
   validationKey r s box ctx raw =
     Inr (record_format_name (r_schemaVersion r) @ '':'' @ sha256_hash (key_text r s box ctx raw))"
  by (simp add: validationKey_def key_text_def hash_pieces_ok)

lemma hash_pieces_Inr:
  assumes "hash_pieces pcs = Inr d"
  shows "length (concat pcs) \<le> sha_limit \<and> d = sha256_hash (concat pcs)"
proof (cases "length (concat pcs) \<le> sha_limit")
  case True
  with assms hash_pieces_ok [of pcs] show ?thesis by simp
next
  case False
  then have "hash_pieces pcs = Inl HashTooLong"
    using object_hash.update_all_refuses [OF object_hash.represents_empty, of pcs]
    by (simp add: hash_pieces_def lift_hash_def)
  with assms show ?thesis by simp
qed

lemma validationKey_Inr:
  assumes "validationKey r s box ctx raw = Inr k"
  shows "k = record_format_name (r_schemaVersion r) @ '':'' @ sha256_hash (key_text r s box ctx raw)"
  using assms by (auto simp: validationKey_def rbind_Inr_iff key_text_def dest: hash_pieces_Inr)

lemma validationKey_length: "validationKey r s box ctx raw = Inr k \<Longrightarrow> length k \<le> 128"
  by (drule validationKey_Inr) (simp add: record_format_name_def)

section \<open>Ingestion\<close>

definition storable :: "object_db \<Rightarrow> byte list \<Rightarrow> bool" where
  "storable db payload \<longleftrightarrow> (\<exists>t. chunk_data db \<subseteq>\<^sub>m t \<and> holds t payload)"

lemma storeChunk_ok:
  assumes "chunk_data db \<subseteq>\<^sub>m t" and "t (sha256_hash p) = Some p" and "length p \<le> chunkBytes"
    and "\<not> query_only db"
  shows "\<exists>db'. storeChunk p db = Inr (part_of p, db') \<and> chunk_data db' \<subseteq>\<^sub>m t \<and> query_only db' = query_only db"
proof -
  have "length p \<le> sha_limit" using assms(3) by (simp add: chunkBytes_def sha_limit_def)
  then have dig: "lift_hash (ObjectHash_digest p) = Inr (sha256_hash p)" by (simp add: ObjectHash_digest_Inr)
  show ?thesis
  proof (cases "chunk_data db (sha256_hash p)")
    case None
    have "(chunk_data db)(sha256_hash p \<mapsto> p) \<subseteq>\<^sub>m t"
      using assms(1,2) by (auto simp: map_le_def dom_def)
    with None assms(3,4) show ?thesis
      by (simp add: storeChunk_def dig bind_texts_def bind_limit_def insert_chunk_def writable_def part_of_def not_less)
  next
    case (Some previous)
    then have "previous = p" using assms(1,2) by (force simp: map_le_def dom_def)
    with Some assms(1) show ?thesis
      by (simp add: storeChunk_def dig bind_texts_def bind_limit_def part_of_def)
  qed
qed

lemma ingest_stream_ok:
  assumes "\<forall>n. \<not> cancelled n" and "chunk_data db \<subseteq>\<^sub>m t" and "holds t rest" and "\<not> query_only db"
    and "ObjectHash_represents (ig_hash g) m" and "length m + length rest \<le> sha_limit"
    and "ig_total g + length rest \<le> expected"
  shows "\<exists>g' db'. ingest_stream cancelled expected rest g db = Inr (g', db')"
  using assms
proof (induction cancelled expected rest g db arbitrary: m rule: ingest_stream.induct)
  case (1 cancelled expected rest g db)
  let ?p = "take chunkBytes rest"
  show ?case
  proof (cases "rest = []")
    case True
    then show ?thesis using "1.prems"(1) by (subst ingest_stream.simps) simp
  next
    case False
    have p: "?p \<noteq> []" using False by simp
    have "t (sha256_hash ?p) = Some ?p"
      using "1.prems"(3) False by (simp add: holds_def pieces.simps [of rest])
    from storeChunk_ok [OF "1.prems"(2) this _ "1.prems"(4)] obtain db1 where
      st: "storeChunk ?p db = Inr (part_of ?p, db1)" "chunk_data db1 \<subseteq>\<^sub>m t" "query_only db1 = query_only db"
      by auto
    have "length m + length ?p \<le> sha_limit" using "1.prems"(6) by (simp add: min_def)
    from object_hash.update_accepts [OF "1.prems"(5) this] obtain h where
      h: "ObjectHash_update (ig_hash g) ?p = Inr h" "ObjectHash_represents h (m @ ?p)" by blast
    have up: "lift_hash (ObjectHash_update (ig_hash g) ?p) = Inr h" using h(1) by simp
    have tot: "\<not> ig_total g + length ?p > expected" using "1.prems"(7) by (simp add: min_def)
    have eq: "ingest_stream cancelled expected rest g db =
        (if length ?p < chunkBytes then Inr (ingest_next g ?p h (part_of ?p), db1)
         else ingest_stream cancelled expected (drop chunkBytes rest) (ingest_next g ?p h (part_of ?p)) db1)"
      using "1.prems"(1) p tot
      by (subst ingest_stream.simps) (simp add: up st(1) Let_def del: length_take take_eq_Nil)
    show ?thesis
    proof (cases "length ?p < chunkBytes")
      case full: False
      have rest: "holds t (drop chunkBytes rest)"
        using "1.prems"(3) False by (simp add: holds_def pieces.simps [of rest])
      have "\<exists>g' db'. ingest_stream cancelled expected (drop chunkBytes rest)
          (ingest_next g ?p h (part_of ?p)) db1 = Inr (g', db')"
        by (rule "1.IH" [OF _ refl p tot full "1.prems"(1) st(2) rest, where m = "m @ ?p"])
          (use "1.prems" h(2) st(3) full in \<open>auto simp: ingest_next_def min_def split: if_splits\<close>)
      then show ?thesis by (simp add: eq del: length_take)
    qed (simp add: eq del: length_take)
  qed
qed

lemma ingest_file_ok:
  assumes "input_stable (FromFile f)" and "\<forall>n. \<not> cancelled n" and "storable db (sf_bytes f)"
    and "\<not> query_only db" and "length (sf_bytes f) \<le> sha_limit"
  shows "\<exists>db'. ingest (FromFile f) cancelled r db = Inr (parts_of (sf_bytes f),
     r\<lparr>r_sha256 := sha256_hash (sf_bytes f), r_size := length (sf_bytes f)\<rparr>, db') \<and>
     chunks_added (sf_bytes f) db db'"
proof -
  obtain t where t: "chunk_data db \<subseteq>\<^sub>m t" "holds t (sf_bytes f)" using assms(3) by (auto simp: storable_def)
  have start: "ObjectHash_represents (ig_hash ingest_start) []" "ig_total ingest_start = 0"
    using object_hash.represents_empty by (simp_all add: ingest_start_def)
  have len: "length (sf_bytes f) = sf_size f" using assms(1) by simp
  obtain g db' where g: "ingest_stream cancelled (sf_size f) (sf_bytes f) ingest_start db = Inr (g, db')"
    using ingest_stream_ok [OF assms(2) t assms(4) start(1), of "sf_size f"] assms(5) start(2) len by auto
  have "ig_total g = sf_size f"
    using ingest_stream_Inr [OF g start(1)] by (simp add: ingested_def start(2) len)
  then obtain parts r' where gi: "ingest (FromFile f) cancelled r db = Inr (parts, r', db')"
    using g assms(1,2) by (auto simp: ingest_def ingest_file_def)
  from ingest_Inr [OF this] show ?thesis using gi by auto
qed

section \<open>Publication\<close>

text \<open>
  Every text of the record, its session, context and RAW document is within the bind
  limit of a statement.  The preimage of the validation key is then far below the length
  limit of the hash.
\<close>

definition record_fits ::
  "ObjectRecord \<Rightarrow> ObjectSession \<Rightarrow> int \<Rightarrow> string \<Rightarrow> string \<Rightarrow> string \<Rightarrow> bool" where
  "record_fits r s now box ctx document \<longleftrightarrow>
     (\<forall>f \<in> set (key_fields (sealed_record r s now []) s box ctx document). length f \<le> bind_limit)"

lemma length_nat_to_string: "length (nat_to_string n) \<le> Suc n"
proof (induction n rule: nat_to_string.induct)
  case (1 n)
  show ?case
  proof (cases "n < 10")
    case False
    then have "length (nat_to_string n) \<le> Suc (Suc (n div 10))" using 1 by (simp add: nat_to_string.simps [of n])
    then show ?thesis using False by linarith
  qed (simp add: nat_to_string.simps [of n])
qed

lemma length_key_pieces:
  "\<forall>f \<in> set fs. length f \<le> bound \<Longrightarrow> length (concat (key_pieces fs)) \<le> length fs * (2 * bound + 2)"
proof (induction fs)
  case (Cons f fs)
  have "length (concat (key_pieces (f # fs))) = length (nat_to_string (length f)) + 1 + length f + length (concat (key_pieces fs))"
    by (simp add: key_pieces_def bytes_of_def)
  moreover have "length (nat_to_string (length f)) \<le> Suc bound"
    using length_nat_to_string [of "length f"] Cons.prems by auto
  ultimately show ?case using Cons by auto
qed (simp add: key_pieces_def)

lemma length_key_fields: "length (key_fields r s box ctx raw) \<le> 28"
  by (simp add: key_fields_def)

lemma fields_fit_key:
  assumes "\<forall>f \<in> set (key_fields r s box ctx document). length f \<le> bind_limit"
  shows "length (key_text r s box ctx document) \<le> sha_limit"
proof -
  let ?fs = "key_fields r s box ctx document"
  have "length (concat (key_pieces ?fs)) \<le> length ?fs * (2 * bind_limit + 2)"
    by (rule length_key_pieces [OF assms])
  also have "\<dots> \<le> 28 * (2 * bind_limit + 2)"
    using length_key_fields mult_le_mono1 by blast
  also have "\<dots> \<le> sha_limit" by (simp add: bind_limit_def sha_limit_def)
  finally show ?thesis by (simp add: key_text_def)
qed

lemma record_fits_key:
  "record_fits r s now box ctx document \<Longrightarrow>
   length (key_text (sealed_record r s now []) s box ctx document) \<le> sha_limit"
  by (rule fields_fit_key) (simp add: record_fits_def)

lemma record_fits_texts:
  assumes "record_fits r s now box ctx document"
  shows "\<forall>t \<in> set [r_key r, r_path r, r_sha256 r, origin (s_author s), subject (s_author s),
      displayName (s_author s), s_key s, r_operation r, r_parentValidationKey r,
      md_format (r_authorship r), md_payload (r_authorship r), r_sourceStamp r, document].
    length t \<le> bind_limit"
  using assms by (cases "document = []") (simp_all add: record_fits_def key_fields_def)

lemma session_context_total:
  assumes "db_ok db" and "s \<in> set (sessions db)" and "length (s_key s) \<le> bind_limit"
  shows "\<exists>ctx. session_context db (s_key s) = Inr ctx"
proof -
  have "s_key s \<in> set (map s_key (sessions db))" using assms(2) by simp
  then have "s_key s \<in> set (map ws_session_key (work_sessions db))"
    using db_okD(1) [OF assms(1)] unfolding sessions_ok_def by metis
  then have "find_work_session db (s_key s) \<noteq> None" by (auto simp: find_work_session_def find_None_iff_ball)
  then show ?thesis using assms(3) by (auto simp: session_context_def bind_texts_def not_less)
qed

lemma insert_parts_ok:
  assumes "\<not> query_only db" and "length key \<le> bind_limit" and "0 \<le> i" and "find_revision db key version \<noteq> None"
    and "\<forall>p \<in> set parts. c_size p \<noteq> 0 \<and> length (c_hash p) \<le> bind_limit \<and> chunk_data db (c_hash p) \<noteq> None"
    and "\<forall>c \<in> set (revision_chunks db). (cr_object_key c, cr_version c) = (key, version) \<longrightarrow> cr_ordinal c < i"
  shows "\<exists>db'. insert_parts key version i parts db = Inr db' \<and>
    db' = db\<lparr>revision_chunks := revision_chunks db @ rows_of key version i parts\<rparr>"
  using assms
proof (induction parts arbitrary: i db)
  case (Cons part parts)
  let ?c = "\<lparr>cr_object_key = key, cr_version = version, cr_ordinal = i, cr_sha256 = c_hash part,
    cr_size = c_size part\<rparr>"
  let ?db = "db\<lparr>revision_chunks := revision_chunks db @ [?c]\<rparr>"
  have "insert_revision_chunk ?c db = Inr ?db"
    using Cons.prems by (auto simp: insert_revision_chunk_def bind_texts_def writable_def not_less)
  moreover have "\<exists>db'. insert_parts key version (i + 1) parts ?db = Inr db' \<and>
      db' = ?db\<lparr>revision_chunks := revision_chunks ?db @ rows_of key version (i + 1) parts\<rparr>"
    by (rule Cons.IH) (use Cons.prems in auto)
  ultimately show ?case by auto
qed simp

lemma next_version_free:
  assumes "db_ok db" and "find_object db key = Some ob"
  shows "find_revision db key (Suc (ob_head ob)) = None" "raw_revisions db (key, Suc (ob_head ob)) = None"
    "\<forall>c \<in> set (revision_chunks db). (cr_object_key c, cr_version c) \<noteq> (key, Suc (ob_head ob))"
proof -
  have new: "(key, Suc (ob_head ob)) \<notin> rev_id ` set (revisions db)"
    using db_okD(3) [OF assms(1)] find_object_Some [OF assms(2)] find_object_mem [OF assms(1)] assms(2)
    unfolding versions_ok_def by (metis Suc_n_not_le_n option.inject)
  then show "find_revision db key (Suc (ob_head ob)) = None"
    by (auto simp: find_revision_def find_None_iff_ball rev_id_def image_iff)
  show "raw_revisions db (key, Suc (ob_head ob)) = None"
    using db_okD(5) [OF assms(1)] new by (meson domIff rows_ok_def subsetD)
  show "\<forall>c \<in> set (revision_chunks db). (cr_object_key c, cr_version c) \<noteq> (key, Suc (ob_head ob))"
    using db_okD(5) [OF assms(1)] new by (metis rows_ok_def)
qed

theorem publish_ok:
  assumes ok: "db_ok db" and w: "\<not> query_only db" and s: "s \<in> set (sessions db)"
    and ob: "find_object db (r_key r) = Some ob" and v: "r_version r = Suc (ob_head ob)"
    and free: "r_deleted r \<or> \<not> live_path_taken db (r_key r) (r_path r)"
    and doc: "document = (case raw of Some d \<Rightarrow> d | None \<Rightarrow> inherited db r)"
    and ctx: "session_context db (s_key s) = Inr ctx" and rf: "record_fits r s now (container db) ctx document"
    and parts: "\<forall>p \<in> set parts. c_size p \<noteq> 0 \<and> length (c_hash p) \<le> bind_limit \<and> chunk_data db (c_hash p) \<noteq> None"
  shows "\<exists>r' db'. publish r s parts raw now db = Inr (r', db')"
proof -
  note fit = record_fits_texts [OF rf] and key = record_fits_key [OF rf]
  have len: "length (r_key r) \<le> bind_limit" "length (r_path r) \<le> bind_limit" and dlen: "length document \<le> bind_limit"
    using fit by simp_all
  have schema: "4 \<le> schema db" using db_okD(1) [OF ok] by (simp add: sessions_ok_def)
  have d: "(case raw of Some d \<Rightarrow> Inr d | None \<Rightarrow>
      if r_version r > 1 then rawDocument db (r_key r) (r_version r - 1) else Inr []) = Inr document"
    using doc len rawDocument_Inr [OF schema] by (simp add: inherited_def split: option.split)
  obtain vkey where vk: "validationKey (sealed_record r s now []) s (container db) ctx document = Inr vkey"
    and vl: "length vkey \<le> bind_limit"
    using validationKey_ok [OF key] by (auto simp: record_format_name_def bind_limit_def)
  have vk': "validationKey (r\<lparr>r_author := s_author s, r_sessionKey := s_key s, r_recordedAtNs := now,
      r_schemaVersion := 2\<rparr>) s (container db) ctx document = Inr vkey"
    using vk by (simp add: sealed_record_def)
  let ?r = "sealed_record r s now vkey"
  note none = next_version_free [OF ok ob, folded v]
  let ?db1 = "journal_append (revision_of ?r) (db\<lparr>revisions := revisions db @ [revision_of ?r]\<rparr>)"
  have "find_session db (s_key s) \<noteq> None" using find_session_mem [OF ok s] by simp
  then have i1: "insert_revision (revision_of ?r) db = Inr ?db1"
    using fit vl none(1) ob v w
    by (simp add: insert_revision_def bind_texts_def not_less writable_def revision_of_def sealed_record_def)
  have fr1: "find_revision ?db1 (r_key r) (r_version r) = Some (revision_of ?r)"
    using find_revision_snoc [of db "revision_of ?r"] none(1) by (simp add: journal_append_def)
  let ?db2 = "if document \<noteq> [] then ?db1\<lparr>raw_revisions := (raw_revisions db)((r_key r, r_version r) \<mapsto> document)\<rparr> else ?db1"
  have i2: "(if document \<noteq> [] then insert_raw (r_key r) (r_version r) document ?db1 else Inr ?db1) = Inr ?db2"
    using fr1 none(2) len dlen w by (simp add: insert_raw_def bind_texts_def not_less writable_def journal_append_def)
  have "\<exists>db3. insert_parts (r_key r) (r_version r) 0 parts ?db2 = Inr db3 \<and>
      db3 = ?db2\<lparr>revision_chunks := revision_chunks ?db2 @ rows_of (r_key r) (r_version r) 0 parts\<rparr>"
  proof (rule insert_parts_ok)
    show "\<not> query_only ?db2" "length (r_key r) \<le> bind_limit" "find_revision ?db2 (r_key r) (r_version r) \<noteq> None"
      "(0 :: int) \<le> 0"
      using w len fr1 by (simp_all add: journal_append_def)
    show "\<forall>p \<in> set parts. c_size p \<noteq> 0 \<and> length (c_hash p) \<le> bind_limit \<and> chunk_data ?db2 (c_hash p) \<noteq> None"
      using parts by (simp add: journal_append_def)
    show "\<forall>c \<in> set (revision_chunks ?db2). (cr_object_key c, cr_version c) = (r_key r, r_version r) \<longrightarrow> cr_ordinal c < 0"
      using none(3) by (auto simp: journal_append_def)
  qed
  then obtain db3 where i3: "insert_parts (r_key r) (r_version r) 0 parts ?db2 = Inr db3"
    and db3: "db3 = ?db2\<lparr>revision_chunks := revision_chunks ?db2 @ rows_of (r_key r) (r_version r) 0 parts\<rparr>" by blast
  have "find_object db3 = find_object db" "live_path_taken db3 = live_path_taken db" "query_only db3 = query_only db"
    by (simp_all add: db3 journal_append_def)
  then have i4: "\<exists>db'. update_object (r_key r) (r_version r) (r_path r) (r_deleted r) db3 = Inr db'"
    using ob free len w by (auto simp: update_object_def bind_texts_def not_less writable_def Let_def)
  then obtain db' where i4: "update_object (r_key r) (r_version r) (r_path r) (r_deleted r) db3 = Inr db'" by blast
  obtain db1 db2 where i1': "insert_revision (revision_of ?r) db = Inr db1"
    and i2': "(if document \<noteq> [] then insert_raw (r_key r) (r_version r) document db1 else Inr db1) = Inr db2"
    and i3': "insert_parts (r_key r) (r_version r) 0 parts db2 = Inr db3"
    using i1 i2 i3 by blast
  show ?thesis
    unfolding publish_def Let_def d rbind.simps ctx vk' i1' [unfolded sealed_record_def]
    using i2' i3' i4 by (cases "document = []") simp_all
qed

section \<open>The required head\<close>

text \<open>\<open>Impl::require\<close> in a sound package: the live head at the expected version, or an error.\<close>

theorem impl_require_spec:
  assumes ok: "package_ok db" and len: "length key \<le> bind_limit"
  shows "impl_require db key expected =
    (case find_object db key of
       None \<Rightarrow> Inl (Fail ''live object not found'')
     | Some ob \<Rightarrow>
         if ob_deleted ob then Inl (Fail ''live object not found'')
         else if expected \<noteq> ob_head ob \<or> int expected \<ge> int64_max
         then Inl (Fail ''object version conflict'') else Inr (the (head_record db ob)))"
proof (cases "find_object db key")
  case None
  then show ?thesis using len by (simp add: impl_require_def get_record_def select_record_def bind_texts_def not_less)
next
  case (Some ob)
  have dok: "db_ok db" using ok by (simp add: package_ok_def)
  note obk = find_object_Some [OF Some]
  have h1: "1 \<le> ob_head ob" using ok obk by (simp add: package_ok_def settled_def)
  obtain q s where h: "q \<in> set (revisions db)" "rev_id q = (ob_object_key ob, ob_head ob)"
    "head_record db ob = Some (record_of ob q s)" "rv_path q = ob_path ob" "rv_deleted q = ob_deleted ob"
    by (rule settled_head [OF ok conjunct1 [OF obk]])
  have q: "rv_object_key q = key" "rv_version q = ob_head ob" using h(2) obk by (simp_all add: rev_id_def)
  have "find_revision db key (ob_head ob) = Some q" using find_revision_mem [OF dok h(1)] by (simp add: q)
  then have "get_record db key 0 = Inr (Some (record_of ob q s))"
    using len Some h(3) obk by (auto simp: get_record_def select_record_def bind_texts_def not_less
        head_record_def split: option.splits)
  moreover have "impl_validate db key (ob_head ob) False = Inr True"
    using stored_revision_validates [OF dok h(1), of False] by (simp add: q)
  ultimately show ?thesis
    using Some h1 h(3,5) q by (simp add: impl_require_def)
qed

lemma appends_conflict:
  assumes "package_ok db'" and "appends db r payload raw db'" and "expected \<noteq> r_version r" and "length (r_key r) \<le> bind_limit"
  shows "\<exists>e. impl_require db' (r_key r) expected = Inl e"
proof -
  have "ob_head ob = r_version r" if "find_object db' (r_key r) = Some ob" for ob
    using assms(2) that by (simp add: appends_def)
  then show ?thesis
    unfolding impl_require_spec [OF assms(1,4)] using assms(3) by (auto split: option.splits)
qed

section \<open>Successful operations\<close>

lemma parts_storable:
  assumes "chunks_added bytes db db'"
  shows "\<forall>p \<in> set (parts_of bytes). c_size p \<noteq> 0 \<and> length (c_hash p) \<le> bind_limit \<and> chunk_data db' (c_hash p) \<noteq> None"
  using assms by (auto simp: parts_of_def part_of_def bind_limit_def chunks_added_def holds_def dest: pieces_bounds)

lemma session_context_chunks [simp]:
  "session_context (db\<lparr>chunk_data := t\<rparr>) key = session_context db key"
  "session_context (db\<lparr>objects := obs\<rparr>) key = session_context db key"
  by (simp_all add: session_context_def find_work_session_def)

theorem impl_importFile_succeeds:
  assumes ok: "db_ok db" and w: "\<not> query_only db" and s: "s \<in> set (sessions db)"
    and opt: "for_option authorshipValid (wo_authorship options) = Inr ()"
      "field (wo_sourceStamp options) 32768 False = Inr ()"
      "for_option (validateDocument J) (wo_authorship options) = Inr ()"
      "\<forall>n. \<not> wo_cancelled options n"
    and path: "pathValid path = Inr ()" "\<not> live_path_taken db key path"
    and new: "find_object db key = None"
    and src: "input_stable (FromFile source)" "storable db (sf_bytes source)" "length (sf_bytes source) \<le> sha_limit"
    and ctx: "session_context db (s_key s) = Inr ctx"
    and fit: "record_fits ((new_record key path (if raw = [] then ''import'' else ''wrap_raw'') options)\<lparr>
        r_indexKey := next_rowid (map ob_index_key (objects db)),
        r_sha256 := sha256_hash (sf_bytes source), r_size := length (sf_bytes source)\<rparr>)
        s now (container db) ctx raw"
  shows "\<exists>r db'. impl_importFile J key now (FromFile source) path s options raw db = Inr (r, db')"
proof -
  let ?i = "next_rowid (map ob_index_key (objects db))"
  let ?r = "new_record key path (if raw = [] then ''import'' else ''wrap_raw'') options"
  let ?ob = "\<lparr>ob_index_key = ?i, ob_object_key = key, ob_head = 0, ob_path = path, ob_deleted = False\<rparr>"
  let ?db1 = "db\<lparr>objects := objects db @ [?ob]\<rparr>"
  have len: "length key \<le> bind_limit" "length path \<le> bind_limit"
    using record_fits_texts [OF fit] by simp_all
  have ins: "insert_object key path db = Inr (?i, ?db1)"
    using len w new path(2) by (simp add: insert_object_def bind_texts_def writable_def not_less Let_def)
  note in_ok = insert_object_ok [OF ok ins]
  have "storable ?db1 (sf_bytes source)" "\<not> query_only ?db1" using src(2) w by (simp_all add: storable_def)
  from ingest_file_ok [OF src(1) opt(4) this src(3), of "?r\<lparr>r_indexKey := ?i\<rparr>"] obtain db2 where
    ing: "ingest (FromFile source) (wo_cancelled options) (?r\<lparr>r_indexKey := ?i\<rparr>) ?db1 = Inr (parts_of (sf_bytes source),
      ?r\<lparr>r_indexKey := ?i, r_sha256 := sha256_hash (sf_bytes source), r_size := length (sf_bytes source)\<rparr>, db2)"
    and add: "chunks_added (sf_bytes source) ?db1 db2" by auto
  obtain t where t: "db2 = ?db1\<lparr>chunk_data := t\<rparr>" using add by (auto simp: chunks_added_def)
  have fo: "find_object ?db1 key = Some ?ob" using new by (simp add: find_object_def find_append)
  have free: "\<not> live_path_taken db2 key path"
    using path(2) by (auto simp: t live_path_taken_def)
  have "\<exists>r' db'. publish (?r\<lparr>r_indexKey := ?i, r_sha256 := sha256_hash (sf_bytes source),
      r_size := length (sf_bytes source)\<rparr>) s (parts_of (sf_bytes source)) (Some raw) now db2 = Inr (r', db')"
  proof (rule publish_ok [where ctx = ctx and ob = ?ob])
    show "db_ok db2" by (rule chunks_added_ok(1) [OF in_ok(1) add])
    show "\<not> query_only db2" "s \<in> set (sessions db2)" "session_context db2 (s_key s) = Inr ctx"
      using w s ctx by (simp_all add: t)
    show "\<forall>p \<in> set (parts_of (sf_bytes source)). c_size p \<noteq> 0 \<and> length (c_hash p) \<le> bind_limit \<and> chunk_data db2 (c_hash p) \<noteq> None"
      by (rule parts_storable [OF add])
  qed (use fo fit free in \<open>simp_all add: t\<close>)
  then show ?thesis
    unfolding impl_importFile_def opt(1-3) path(1) rbind.simps Let_def simp_thms if_True ins prod.case
    by (auto simp: ing)
qed

lemma importFile_from_impl:
  "getSession db sessionKey True = Inr s \<Longrightarrow>
   impl_importFile J (''object-'' @ key) now (FromFile source) path s options [] db = Inr (r, db') \<Longrightarrow>
   importFile J key now source path sessionKey options db = (Inr r, db')"
  by (simp add: importFile_def transaction_def)

text \<open>A revision on top of the live head; \<open>r2\<close> is built from it, \<open>db1\<close> as in \<open>revision_appends\<close>.\<close>

lemma revision_publishes:
  assumes ok: "package_ok db" and w: "\<not> query_only db" and s: "getSession db sessionKey True = Inr s"
    and req: "impl_require db key expected = Inr r" and add: "chunks_added bytes db db1"
    and su: "succeeds_record r r2" and ctx: "session_context db (s_key s) = Inr ctx"
    and doc: "document = (case raw of Some d \<Rightarrow> d | None \<Rightarrow> raw_text db key expected)"
    and fit: "record_fits r2 s now (container db) ctx document"
    and free: "r_deleted r2 \<or> \<not> live_path_taken db key (r_path r2)"
    and parts: "\<forall>p \<in> set parts. c_size p \<noteq> 0 \<and> length (c_hash p) \<le> bind_limit \<and> chunk_data db1 (c_hash p) \<noteq> None"
  shows "\<exists>r' db'. publish r2 s parts raw now db1 = Inr (r', db')"
proof -
  have dok: "db_ok db" using ok by (simp add: package_ok_def)
  from impl_require_Inr [OF dok req] obtain ob q s0 payload where
    h: "find_object db key = Some ob" "ob_head ob = expected" "q \<in> set (revisions db)"
      "rev_id q = (key, expected)" "r = record_of ob q s0" "stores db q payload"
      "\<not> rv_deleted q" "int expected < int64_max" "expected \<noteq> 0" "length key \<le> bind_limit" .
  have q: "rv_object_key q = key" "rv_version q = expected" using h(4) by (simp_all add: rev_id_def)
  have r2: "r_key r2 = key" "r_version r2 = Suc expected"
    using su q by (simp_all add: succeeds_record_def h(5))
  obtain t where t: "db1 = db\<lparr>chunk_data := t\<rparr>" using add by (auto simp: chunks_added_def)
  have doc1: "document = (case raw of Some d \<Rightarrow> d | None \<Rightarrow> inherited db1 r2)"
    using h(9) by (simp add: doc inherited_def r2 t raw_text_def split: option.split)
  show ?thesis
  proof (rule publish_ok [OF chunks_added_ok(1) [OF dok add], where ob = ob and ctx = ctx and document = document])
    show "r_deleted r2 \<or> \<not> live_path_taken db1 (r_key r2) (r_path r2)"
      using free by (simp add: r2 t live_path_taken_def)
  qed (use w h(1,2) r2 ctx fit parts doc1 getSession_Inr [OF s] in \<open>simp_all add: t\<close>)
qed

theorem erase_succeeds:
  assumes "package_ok db" and "\<not> query_only db" and "getSession db sessionKey True = Inr s"
    and "impl_require db key expected = Inr r" and "session_context db (s_key s) = Inr ctx"
    and "record_fits ((next_revision r ''erase'')\<lparr>r_deleted := True\<rparr>) s now (container db) ctx (raw_text db key expected)"
  shows "\<exists>r' db'. erase now key expected sessionKey db = (Inr r', db')"
proof -
  have "db_ok db" using assms(1) by (simp add: package_ok_def)
  have "\<exists>r' db'. publish ((next_revision r ''erase'')\<lparr>r_deleted := True\<rparr>) s [] None now db = Inr (r', db')"
    by (rule revision_publishes [OF assms(1-4) chunks_kept [OF \<open>db_ok db\<close>] _ assms(5) _ assms(6)])
      (simp_all add: succeeds_record_def next_revision_def)
  then show ?thesis using assms(3,4) by (auto simp: erase_def transaction_def)
qed

theorem move_succeeds:
  assumes ok: "package_ok db" and w: "\<not> query_only db" and s: "getSession db sessionKey True = Inr s"
    and req: "impl_require db key expected = Inr r" and ctx: "session_context db (s_key s) = Inr ctx"
    and path: "pathValid path = Inr ()" "\<not> live_path_taken db key path"
    and opt: "field (wo_sourceStamp options) 32768 False = Inr ()" "wo_authorship options = None"
    and fit: "record_fits (next_revision ((if wo_sourceStamp options \<noteq> []
        then r\<lparr>r_sourceStamp := wo_sourceStamp options\<rparr> else r)\<lparr>r_path := path\<rparr>) ''move'')
        s now (container db) ctx (raw_text db key expected)"
  shows "\<exists>r' db'. move now False key path expected sessionKey options db = (Inr r', db')"
proof -
  let ?r2 = "next_revision ((if wo_sourceStamp options \<noteq> []
        then r\<lparr>r_sourceStamp := wo_sourceStamp options\<rparr> else r)\<lparr>r_path := path\<rparr>) ''move''"
  have dok: "db_ok db" using ok by (simp add: package_ok_def)
  from impl_require_Inr [OF dok req] obtain ob q s0 payload where
    h: "q \<in> set (revisions db)" "rev_id q = (key, expected)" "r = record_of ob q s0" "stores db q payload"
      "length key \<le> bind_limit" by metis
  have q: "rv_object_key q = key" "rv_version q = expected" using h(2) by (simp_all add: rev_id_def)
  have ch: "chunks db key expected = Inr (parts_of payload)"
    using h(4,5) by (intro chunks_stored) (simp_all add: stores_def q)
  have "chunks_added payload db db"
    using h(4) by (auto simp: chunks_added_def stores_def intro!: exI [of _ "chunk_data db"])
  note parts = parts_storable [OF this]
  have "\<exists>r' db'. publish ?r2 s (parts_of payload) None now db = Inr (r', db')"
    by (rule revision_publishes [OF ok w s req chunks_kept [OF dok] _ ctx _ fit _ parts])
      (use path in \<open>simp_all add: succeeds_record_def next_revision_def\<close>)
  then show ?thesis
    using s req path opt(2) ch q unfolding move_def transaction_def opt(1) rbind.simps
    by (auto simp: Let_def h(3))
qed

theorem reviseFile_succeeds:
  assumes ok: "package_ok db" and w: "\<not> query_only db" and s: "getSession db sessionKey True = Inr s"
    and req: "impl_require db key expected = Inr r" and ctx: "session_context db (s_key s) = Inr ctx"
    and opt: "wo_authorship options = None" "field (wo_sourceStamp options) 32768 False = Inr ()"
      "\<forall>n. \<not> wo_cancelled options n"
    and raw: "raw_text db key expected = []"
    and src: "input_stable (FromFile source)" "storable db (sf_bytes source)" "length (sf_bytes source) \<le> sha_limit"
    and fit: "record_fits ((next_revision (r\<lparr>r_sourceStamp := wo_sourceStamp options\<rparr>) ''revise'')\<lparr>
        r_sha256 := sha256_hash (sf_bytes source), r_size := length (sf_bytes source)\<rparr>) s now (container db) ctx []"
    and free: "\<not> live_path_taken db key (r_path r)"
  shows "\<exists>r' db'. reviseFile J now key source expected sessionKey options db = (Inr r', db')"
proof -
  let ?r = "next_revision (r\<lparr>r_sourceStamp := wo_sourceStamp options\<rparr>) ''revise''"
  have dok: "db_ok db" using ok by (simp add: package_ok_def)
  from ingest_file_ok [OF src(1) opt(3) src(2) w src(3), of ?r] obtain db1 where
    ing: "ingest (FromFile source) (wo_cancelled options) ?r db = Inr (parts_of (sf_bytes source),
      ?r\<lparr>r_sha256 := sha256_hash (sf_bytes source), r_size := length (sf_bytes source)\<rparr>, db1)"
    and add: "chunks_added (sf_bytes source) db db1" by blast
  obtain r' db' where "publish (?r\<lparr>r_sha256 := sha256_hash (sf_bytes source), r_size := length (sf_bytes source)\<rparr>) s
      (parts_of (sf_bytes source)) None now db1 = Inr (r', db')"
    using revision_publishes [OF ok w s req add _ ctx _ fit _ parts_storable [OF add], of None] raw free
    by (auto simp: succeeds_record_def next_revision_def)
  moreover have "r_version r = expected" "length key \<le> bind_limit"
    using impl_require_Inr [OF dok req] by (metis Pair_inject record_of_simps(2) rev_id_def)+
  moreover have "4 \<le> schema db" using db_okD(1) [OF dok] by (simp add: sessions_ok_def)
  ultimately have "rawDocument db key (r_version r) = Inr []" using raw by (simp add: rawDocument_Inr)
  have same: "r\<lparr>r_authorship := r_authorship r, r_sourceStamp := x\<rparr> = r\<lparr>r_sourceStamp := x\<rparr>" for x by simp
  have "\<exists>r' db'. (rbind (ingest (FromFile source) (wo_cancelled options) ?r db)
       (\<lambda>(parts, r, db). publish r s parts None now db)) = Inr (r', db')"
    by (simp add: ing) (rule exI, rule exI, fact)
  then show ?thesis
    using s req \<open>rawDocument db key (r_version r) = Inr []\<close>
    unfolding reviseFile_def transaction_def for_option_def opt(1,2) option.case rbind.simps Let_def same
    by auto
qed

end
