(* ===== verification/Object_Machine.thy ===== *)
theory Object_Machine
  imports Object_Progress
begin

text \<open>
  The object store as a transition system.  One step is one call of a mutating operation of
  \<open>ObjectStore\<close>, successful or not, with arbitrary arguments and an arbitrary environment.
  The locale \<open>append_only\<close> states what such a system needs for its histories to be
  reliable; it is interpreted on the store's own step relation.
\<close>

section \<open>Append-only systems\<close>

locale append_only =
  fixes step :: "'s \<Rightarrow> 's \<Rightarrow> bool"
    and good :: "'s \<Rightarrow> bool"
    and grows :: "'s \<Rightarrow> 's \<Rightarrow> bool"
  assumes grows_refl: "grows s s"
    and grows_trans: "grows s t \<Longrightarrow> grows t u \<Longrightarrow> grows s u"
    and step_good: "good s \<Longrightarrow> step s t \<Longrightarrow> good t"
    and step_grows: "good s \<Longrightarrow> step s t \<Longrightarrow> grows s t"
begin

lemma reachable_good: "step\<^sup>*\<^sup>* s t \<Longrightarrow> good s \<Longrightarrow> good t"
  by (induction rule: rtranclp_induct) (auto intro: step_good)

lemma reachable_grows: "step\<^sup>*\<^sup>* s t \<Longrightarrow> good s \<Longrightarrow> grows s t"
proof (induction rule: rtranclp_induct)
  case (step t u)
  then show ?case using reachable_good grows_trans step_grows by blast
qed (rule grows_refl)

end

section \<open>Steps of the store\<close>

inductive store_step :: "json_library \<Rightarrow> object_db \<Rightarrow> object_db \<Rightarrow> bool" for J where
  begin_session: "beginSession J key now author device description ctx db = (res, db') \<Longrightarrow> store_step J db db'"
| end_session: "endSession key now db = (res, db') \<Longrightarrow> store_step J db db'"
| import_file: "importFile J key now source path sessionKey options db = (res, db') \<Longrightarrow> store_step J db db'"
| import_files: "importFiles J files prepared sessionKey db = (res, db') \<Longrightarrow> store_step J db db'"
| import_document: "importDocument J key rawKey now now' cancelled late capture path metadata sessionKey options db
    = (res, db') \<Longrightarrow> store_step J db db'"
| wrap_raw: "wrapRaw J key now cancelled capture path metadata sessionKey options db = (res, db')
    \<Longrightarrow> store_step J db db'"
| revise_file: "reviseFile J now key source expected sessionKey options db = (res, db') \<Longrightarrow> store_step J db db'"
| move_object: "move now cancelled key path expected sessionKey options db = (res, db') \<Longrightarrow> store_step J db db'"
| erase_object: "erase now key expected sessionKey db = (res, db') \<Longrightarrow> store_step J db db'"
| revise_metadata: "reviseMetadata J now key metadata expected sessionKey db = (res, db') \<Longrightarrow> store_step J db db'"

inductive_cases store_stepE: "store_step J db db'"

text \<open>
  An operation is safe when it keeps the invariant, only extends the package, and leaves
  the package as it was when it reports an error.
\<close>

definition safe_op :: "(object_db \<Rightarrow> 'a outcome) \<Rightarrow> bool" where
  "safe_op f \<longleftrightarrow> (\<forall>db res db'. package_ok db \<longrightarrow> f db = (res, db') \<longrightarrow>
     package_ok db' \<and> extends db db' \<and> (isl res \<longrightarrow> db' = db))"

lemma safe_opI:
  assumes "f = transaction body"
    and "\<And>db a db'. db_ok db \<Longrightarrow> f db = (Inr a, db') \<Longrightarrow> db_ok db' \<and> (settled db \<longrightarrow> settled db') \<and> extends db db'"
  shows "safe_op f"
  unfolding safe_op_def
proof (intro allI impI)
  fix db res db'
  assume ok: "package_ok db" and op: "f db = (res, db')"
  show "package_ok db' \<and> extends db db' \<and> (isl res \<longrightarrow> db' = db)"
  proof (cases res)
    case (Inl e)
    with op have "db' = db" by (simp add: assms(1) transaction_Inl)
    with ok show ?thesis by simp
  next
    case (Inr a)
    with assms(2) [of db a db'] op ok show ?thesis by (simp add: package_ok_def)
  qed
qed

lemma safe_appendsI:
  assumes "f = transaction body"
    and "\<And>db r db'. db_ok db \<Longrightarrow> f db = (Inr r, db') \<Longrightarrow>
      \<exists>payload raw. appends db r payload raw db' \<and> (settled db \<longrightarrow> settled db')"
  shows "safe_op f"
proof (rule safe_opI [OF assms(1)])
  fix db r db'
  assume "db_ok db" "f db = (Inr r, db')"
  from assms(2) [OF this] show "db_ok db' \<and> (settled db \<longrightarrow> settled db') \<and> extends db db'"
    unfolding appends_def by blast
qed

lemma safe_sessions:
  "safe_op (beginSession J key now author device description ctx)"
  "safe_op (endSession key now)"
proof -
  show "safe_op (beginSession J key now author device description ctx)"
  proof (rule safe_opI [OF beginSession_def])
    fix db s db'
    assume "db_ok db" "beginSession J key now author device description ctx db = (Inr s, db')"
    from beginSession_ok(1,2,5) [OF this] show "db_ok db' \<and> (settled db \<longrightarrow> settled db') \<and> extends db db'"
      by (simp add: settled_def)
  qed
  show "safe_op (endSession key now)"
  proof (rule safe_opI [OF endSession_def])
    fix db u db'
    assume "db_ok db" "endSession key now db = (Inr u, db')"
    from endSession_ok(1,2,4) [OF this] show "db_ok db' \<and> (settled db \<longrightarrow> settled db') \<and> extends db db'"
      by (simp add: settled_def)
  qed
qed

lemma safe_importDocument:
  "safe_op (importDocument J key rawKey now now' cancelled late capture path metadata sessionKey options)"
proof (rule safe_opI [OF importDocument_def])
  fix db a db'
  assume ok: "db_ok db" and
    op: "importDocument J key rawKey now now' cancelled late capture path metadata sessionKey options db = (Inr a, db')"
  obtain w raw where a: "a = (w, raw)" by (cases a)
  from op [unfolded a] show "db_ok db' \<and> (settled db \<longrightarrow> settled db') \<and> extends db db'"
    by (rule importDocument_appends [OF ok]) (use extends_trans in \<open>auto simp: appends_def\<close>)
qed

lemma safe_importFiles: "safe_op (importFiles J files prepared sessionKey)"
proof (rule safe_opI [OF importFiles_def])
  fix db rs db'
  assume ok: "db_ok db" and op: "importFiles J files prepared sessionKey db = (Inr rs, db')"
  from op show "db_ok db' \<and> (settled db \<longrightarrow> settled db') \<and> extends db db'"
    by (rule importFiles_appends [OF ok]) (use appends_all_ok ok in auto)
qed

lemma safe_imports:
  "safe_op (importFile J key now source path sessionKey options)"
  "safe_op (wrapRaw J key now cancelled capture path metadata sessionKey options)"
  by (rule safe_appendsI [OF importFile_def], metis importFile_appends(1,6))
    (rule safe_appendsI [OF wrapRaw_def], metis wrapRaw_appends)

lemma safe_revisions:
  "safe_op (reviseFile J now key source expected sessionKey options)"
  "safe_op (move now cancelled key path expected sessionKey options)"
  "safe_op (erase now key expected sessionKey)"
  by (rule safe_appendsI [OF reviseFile_def], metis reviseFile_appends(1,6))
    (rule safe_appendsI [OF move_def], metis move_appends(1,6),
     rule safe_appendsI [OF erase_def], metis erase_appends(1,6))

lemma safe_reviseMetadata: "safe_op (reviseMetadata J now key metadata expected sessionKey)"
proof (rule safe_opI [OF reviseMetadata_def])
  fix db r db'
  assume ok: "db_ok db" and op: "reviseMetadata J now key metadata expected sessionKey db = (Inr r, db')"
  from op show "db_ok db' \<and> (settled db \<longrightarrow> settled db') \<and> extends db db'"
    by (rule reviseMetadata_appends [OF ok]) (use ok in \<open>auto simp: appends_def\<close>)
qed

lemmas safe_ops = safe_sessions safe_imports safe_importDocument safe_importFiles safe_revisions
  safe_reviseMetadata

lemma safe_opD:
  "safe_op f \<Longrightarrow> f db = (res, db') \<Longrightarrow> package_ok db \<Longrightarrow> package_ok db' \<and> extends db db'"
  unfolding safe_op_def by blast

lemma store_step_safe:
  assumes "store_step J db db'" and "package_ok db"
  shows "package_ok db' \<and> extends db db'"
  using assms(1) by (elim store_stepE) (rule safe_opD [OF _ _ assms(2)], rule safe_ops, assumption)+

interpretation store: append_only "store_step J" package_ok extends
  by unfold_locales (auto intro: extends_trans dest: store_step_safe)

lemma package_ok_empty: "package_ok (empty_db key)"
  using db_ok_empty [of key] by (simp add: package_ok_def settled_def empty_db_def)

section \<open>A small run\<close>

text \<open>
  A session opened in an empty package and one three-byte file imported in it: the
  concrete states at which the properties are exhibited.
\<close>

definition plain_json :: json_library where
  "plain_json = \<lparr>sql_parse = \<lambda>_. None, sql_text = \<lambda>_. [], nl_parse = \<lambda>_. None, nl_dump = \<lambda>_. Some ''j''\<rparr>"

definition sample_author :: ObjectAuthor where
  "sample_author = \<lparr>origin = ''o'', subject = ''s'', displayName = [], profile = no_metadata\<rparr>"

definition sample_options :: ObjectWriteOptions where
  "sample_options = \<lparr>wo_authorship = None, wo_sourceStamp = [], wo_cancelled = \<lambda>_. False\<rparr>"

definition sample_source :: "byte list \<Rightarrow> source_file" where
  "sample_source bytes =
     \<lparr>sf_direct = Some ''/tmp/a'', sf_regular = True, sf_size = length bytes, sf_modified = 0,
      sf_opens = True, sf_bytes = bytes, sf_bad = False, sf_direct_after = Some ''/tmp/a'',
      sf_size_after = length bytes, sf_modified_after = 0\<rparr>"

definition sample_session :: ObjectSession where
  "sample_session = \<lparr>s_key = ''session-k'', s_author = sample_author, s_device = ''pc'',
     s_description = [], s_startedAtNs = 1, s_endedAtNs = 0\<rparr>"

definition sample_open :: object_db where
  "sample_open = snd (beginSession plain_json ''k'' 1 sample_author ''pc'' [] empty_context (empty_db ''box''))"

definition sample_import :: "ObjectRecord outcome" where
  "sample_import = importFile plain_json ''f'' 2 (sample_source [1, 2, 3]) ''a'' ''session-k'' sample_options sample_open"

definition sample_record :: ObjectRecord where
  "sample_record = projr (fst sample_import)"

definition sample_store :: object_db where
  "sample_store = snd sample_import"

lemma nul_char: "nul = CHR 0x00"
  by (simp add: nul_def char_of_def)

lemma sample_open_eq:
  "beginSession plain_json ''k'' 1 sample_author ''pc'' [] empty_context (empty_db ''box'') = (Inr sample_session, sample_open)"
  "sample_open = (empty_db ''box'')\<lparr>sessions := [sample_session],
     work_sessions := [\<lparr>ws_sequence = 1, ws_session_key = ''session-k'', ws_context = []\<rparr>]\<rparr>"
  unfolding sample_open_def
  by (simp_all add: beginSession_def transaction_def authorValid_def sample_author_def field_def nul_char
      metadataValid_def no_metadata_def encodeSessionContext_def empty_context_def codec_text_def dump_json_def
      plain_json_def validateActor_def validateDocument_def validateFields_def Let_def insert_session_def
      bind_texts_def bind_limit_def writable_def empty_db_def find_session_def insert_work_session_def
      find_work_session_def next_rowid_def sample_session_def)

lemma sample_open_ok: "package_ok sample_open"
  using safe_opD [OF safe_ops(1) sample_open_eq(1) package_ok_empty] by blast

lemma sample_storable: "storable sample_open [1, 2, 3]"
proof -
  have "pieces [1, 2, 3 :: byte] = [[1, 2, 3]]" by (simp add: pieces.simps chunkBytes_def)
  then show ?thesis
    by (auto simp: storable_def holds_def sample_open_eq empty_db_def
        intro!: exI [of _ "[sha256_hash [1, 2, 3] \<mapsto> [1, 2, 3]]"])
qed

lemma sample_session_open:
  "getSession sample_open ''session-k'' True = Inr sample_session"
  "session_context sample_open (s_key sample_session) = Inr []"
  by (simp_all add: getSession_def bind_texts_def bind_limit_def sample_open_eq find_session_def
      sample_session_def session_context_def find_work_session_def empty_db_def)

lemmas sample_defs = sample_open_eq(2) empty_db_def sample_session_def sample_author_def no_metadata_def
  sample_options_def sample_source_def new_record_def

lemmas sample_check_simps = for_option_def field_def nul_char pathValid_def path_parts.simps live_path_taken_def
  find_object_def int64_max_def sha_limit_def

lemma sample_impl_import:
  assumes "length raw \<le> 10"
  shows "\<exists>r db'. impl_importFile plain_json ''object-f'' 2 (FromFile (sample_source [1, 2, 3])) ''a''
    sample_session sample_options raw sample_open = Inr (r, db')"
proof (rule impl_importFile_succeeds [OF _ _ _ _ _ _ _ _ _ _ _ _ _ sample_session_open(2)])
  show "db_ok sample_open" using sample_open_ok by (simp add: package_ok_def)
  show "storable sample_open (sf_bytes (sample_source [1, 2, 3]))" using sample_storable by (simp add: sample_source_def)
  show "record_fits ((new_record ''object-f'' ''a'' (if raw = [] then ''import'' else ''wrap_raw'') sample_options)\<lparr>
      r_indexKey := next_rowid (map ob_index_key (objects sample_open)),
      r_sha256 := sha256_hash (sf_bytes (sample_source [1, 2, 3])), r_size := length (sf_bytes (sample_source [1, 2, 3]))\<rparr>)
      sample_session 2 (container sample_open) [] raw"
    using assms by (simp add: record_fits_def key_fields_def sealed_record_def sample_defs bind_limit_def
        record_format_name_def next_rowid_def int_to_string_def nat_to_string.simps)
qed (simp_all add: sample_defs sample_check_simps)

lemma sample_import_eq: "importFile plain_json ''f'' 2 (sample_source [1, 2, 3]) ''a'' ''session-k'' sample_options sample_open
    = (Inr sample_record, sample_store)"
proof -
  obtain r db' where "impl_importFile plain_json ''object-f'' 2 (FromFile (sample_source [1, 2, 3])) ''a''
      sample_session sample_options [] sample_open = Inr (r, db')"
    using sample_impl_import [of "[]"] by auto
  then have "importFile plain_json ''f'' 2 (sample_source [1, 2, 3]) ''a'' ''session-k'' sample_options sample_open = (Inr r, db')"
    by (intro importFile_from_impl [OF sample_session_open(1)]) simp
  then show ?thesis by (simp add: sample_record_def sample_store_def sample_import_def)
qed

text \<open>The same file wrapped as a RAW original.\<close>

definition sample_raw_metadata :: RawMetadata where
  "sample_raw_metadata = \<lparr>rm_originalName = ''a'', rm_mediaType = ''t'', rm_annotations =
     \<lparr>fm_title = [], fm_description = [], fm_keywords = [], fm_rating = 0, fm_color = CNone,
      fm_fields = [], fm_collections = []\<rparr>\<rparr>"

definition sample_capture :: "(store_error, captured_source) result" where
  "sample_capture = Inr \<lparr>cs_file = sample_source [1, 2, 3], cs_stamp = []\<rparr>"

lemma sample_raw_document: "encodeRawMetadata plain_json sample_raw_metadata = Inr ''j''"
  by (simp add: encodeRawMetadata_def sample_raw_metadata_def codec_text_def nul_char dump_json_def plain_json_def
      metadataJson_def codec_strings_def maximumMetadataBytes_def)

lemma sample_wrap:
  "\<exists>r db'. wrapRaw plain_json ''f'' 2 False sample_capture ''a'' sample_raw_metadata ''session-k'' sample_options sample_open
     = (Inr r, db')"
proof -
  obtain r db' where im: "impl_importFile plain_json ''object-f'' 2 (FromFile (sample_source [1, 2, 3])) ''a''
      sample_session sample_options ''j'' sample_open = Inr (r, db')"
    using sample_impl_import [of "''j''"] by auto
  have path: "pathValid ''a'' = Inr ()" by (simp add: sample_check_simps)
  have "requireJournal sample_open = Inr ()" "\<not> query_only sample_open" by (simp_all add: requireJournal_def sample_defs)
  moreover have "captured_options sample_options \<lparr>cs_file = sample_source [1, 2, 3], cs_stamp = []\<rparr> = sample_options"
    by (simp add: captured_options_def sample_options_def)
  ultimately show ?thesis
    using im unfolding wrapRaw_def transaction_def sample_raw_document sample_capture_def path sample_session_open(1) rbind.simps
    by simp
qed

lemma sample_store_ok: "package_ok sample_store"
  using safe_opD [OF safe_ops(3) sample_import_eq sample_open_ok] by blast

lemma sample_reachable: "(store_step plain_json)\<^sup>*\<^sup>* (empty_db ''box'') sample_store"
  using begin_session [OF sample_open_eq(1)] import_file [OF sample_import_eq]
  by (meson converse_rtranclp_into_rtranclp rtranclp.rtrancl_refl)

end
