(* ===== verification/Object_History.thy ===== *)
theory Object_History
  imports Object_Machine
begin

text \<open>
  Histories of the abstract store: entry \<open>v - 1\<close> of \<open>abs_store db key\<close> is version \<open>v\<close>, and a
  RAW original keeps its payload through every later revision.
\<close>

section \<open>Entries and versions\<close>

lemma abs_length: "db_ok db \<Longrightarrow> find_object db key = Some ob \<Longrightarrow> length (abs_store db key) = ob_head ob"
  using head_versions [of db ob] find_object_Some [of db key ob] by (auto simp: abs_store_def versions_of_def)

lemma abs_nth:
  assumes "db_ok db" and "q \<in> set (revisions db)"
  shows "abs_store db (rv_object_key q) ! (rv_version q - 1) = view db q"
    "rv_version q - 1 < length (abs_store db (rv_object_key q))"
proof -
  let ?qs = "filter (\<lambda>r. rv_object_key r = rv_object_key q) (revisions db)"
  have "q \<in> set ?qs" using assms(2) by simp
  then obtain i where i: "i < length ?qs" "?qs ! i = q" by (metis in_set_conv_nth)
  obtain n where n: "versions_of (revisions db) (rv_object_key q) = map Suc [0..<n]"
    using db_okD(3) [OF assms(1)] unfolding versions_ok_def by blast
  then have "n = length ?qs" by (metis length_map length_upt minus_nat.diff_0 versions_of_def)
  with n i(1) have "versions_of (revisions db) (rv_object_key q) ! i = Suc i" by simp
  then have v: "rv_version q = Suc i" using i by (simp add: versions_of_def)
  show "abs_store db (rv_object_key q) ! (rv_version q - 1) = view db q"
    "rv_version q - 1 < length (abs_store db (rv_object_key q))"
    using i by (simp_all add: abs_store_def v)
qed

lemma require_last:
  assumes "db_ok db" and "impl_require db key expected = Inr r"
  shows "abs_store db key \<noteq> []" "length (abs_store db key) = expected"
    "v_raw (last (abs_store db key)) = raw_text db key expected"
    "v_payload (last (abs_store db key)) = Some (payload_of db key expected)"
    "v_path (last (abs_store db key)) = r_path r"
proof -
  from impl_require_Inr [OF assms] obtain ob q s0 payload where
    h: "find_object db key = Some ob" "ob_head ob = expected" "q \<in> set (revisions db)"
      "rev_id q = (key, expected)" "r = record_of ob q s0" "stores db q payload"
      "\<not> rv_deleted q" "int expected < int64_max" "expected \<noteq> 0" "length key \<le> bind_limit" .
  have q: "rv_object_key q = key" "rv_version q = expected" using h(4) by (simp_all add: rev_id_def)
  show len: "length (abs_store db key) = expected" using abs_length [OF assms(1) h(1)] h(2) by simp
  with h(9) show ne: "abs_store db key \<noteq> []" by auto
  have "last (abs_store db key) = view db q"
    using abs_nth(1) [OF assms(1) h(3)] ne len by (simp add: last_conv_nth q)
  then show "v_raw (last (abs_store db key)) = raw_text db key expected"
    "v_payload (last (abs_store db key)) = Some (payload_of db key expected)"
    "v_path (last (abs_store db key)) = r_path r"
    using h(5,7) by (simp_all add: view_def q)
qed

section \<open>RAW originals\<close>

text \<open>A RAW revision is followed only by RAW revisions, with the same payload or none.\<close>

fun raw_frozen :: "revision_view list \<Rightarrow> bool" where
  "raw_frozen (a # b # rest) \<longleftrightarrow>
     (v_raw a \<noteq> [] \<longrightarrow> v_raw b \<noteq> [] \<and> v_payload b \<in> {None, v_payload a}) \<and> raw_frozen (b # rest)"
| "raw_frozen _ \<longleftrightarrow> True"

lemma raw_frozen_snoc:
  "raw_frozen (vs @ [v]) \<longleftrightarrow> raw_frozen vs \<and>
     (vs \<noteq> [] \<longrightarrow> v_raw (last vs) \<noteq> [] \<longrightarrow> v_raw v \<noteq> [] \<and> v_payload v \<in> {None, v_payload (last vs)})"
  by (induction vs rule: raw_frozen.induct) auto

definition raws_frozen :: "object_db \<Rightarrow> bool" where
  "raws_frozen db \<longleftrightarrow> (\<forall>key. raw_frozen (abs_store db key))"

lemma frozen_new:
  assumes "raws_frozen db" and "appends db r payload raw db'" and "abs_store db (r_key r) = []"
  shows "raws_frozen db'"
  using assms by (auto simp: raws_frozen_def appends_def)

lemma frozen_next:
  assumes "raws_frozen db" and "appends db r payload raw db'" and "abs_store db (r_key r) \<noteq> []"
    and "v_raw (last (abs_store db (r_key r))) \<noteq> [] \<Longrightarrow>
      raw \<noteq> [] \<and> payload \<in> {None, v_payload (last (abs_store db (r_key r)))}"
  shows "raws_frozen db'"
  using assms by (auto simp: raws_frozen_def appends_def raw_frozen_snoc)

definition keeps_raw :: "(object_db \<Rightarrow> 'a outcome) \<Rightarrow> bool" where
  "keeps_raw f \<longleftrightarrow> (\<forall>db res db'. package_ok db \<longrightarrow> raws_frozen db \<longrightarrow> f db = (res, db') \<longrightarrow> raws_frozen db')"

lemma keeps_rawI:
  assumes "f = transaction body"
    and "\<And>db a db'. db_ok db \<Longrightarrow> raws_frozen db \<Longrightarrow> f db = (Inr a, db') \<Longrightarrow> raws_frozen db'"
  shows "keeps_raw f"
  unfolding keeps_raw_def
proof (intro allI impI)
  fix db res db'
  assume ok: "package_ok db" "raws_frozen db" and op: "f db = (res, db')"
  show "raws_frozen db'"
  proof (cases res)
    case (Inl e)
    with op ok show ?thesis by (simp add: assms(1) transaction_Inl)
  next
    case (Inr a)
    with assms(2) [of db a db'] op ok show ?thesis by (simp add: package_ok_def)
  qed
qed

lemma keeps_raw_sessions:
  "keeps_raw (beginSession J key now author device description ctx)" "keeps_raw (endSession key now)"
proof -
  have same: "raws_frozen db'" if "db_ok db" "raws_frozen db" "extends db db'" "revisions db' = revisions db" for db db'
    using that(2) unfolding raws_frozen_def abs_store_same [OF that(1,3,4)] .
  show "keeps_raw (beginSession J key now author device description ctx)"
    by (rule keeps_rawI [OF beginSession_def]) (rule same, assumption, assumption, erule (1) beginSession_ok(2), erule (1) beginSession_ok(4))
  show "keeps_raw (endSession key now)"
    by (rule keeps_rawI [OF endSession_def]) (rule same, assumption, assumption, erule (1) endSession_ok(2), erule (1) endSession_ok(3))
qed

lemma keeps_raw_imports:
  "keeps_raw (importFile J key now source path sessionKey options)"
  "keeps_raw (wrapRaw J key now cancelled capture path metadata sessionKey options)"
proof -
  show "keeps_raw (importFile J key now source path sessionKey options)"
    by (rule keeps_rawI [OF importFile_def]) (metis frozen_new importFile_appends(1,5))
  show "keeps_raw (wrapRaw J key now cancelled capture path metadata sessionKey options)"
    by (rule keeps_rawI [OF wrapRaw_def]) (metis frozen_new wrapRaw_appends)
qed

lemma keeps_raw_importDocument:
  "keeps_raw (importDocument J key rawKey now now' cancelled late capture path metadata sessionKey options)"
proof (rule keeps_rawI [OF importDocument_def])
  fix db a db'
  assume ok: "db_ok db" "raws_frozen db" and
    op: "importDocument J key rawKey now now' cancelled late capture path metadata sessionKey options db = (Inr a, db')"
  obtain w raw where a: "a = (w, raw)" by (cases a)
  from op [unfolded a] show "raws_frozen db'"
    by (rule importDocument_appends [OF ok(1)]) (use ok(2) frozen_new in blast)
qed

lemma batch_frozen:
  assumes "batch_import J s items db = Inr (rs, db')" and "db_ok db" and "s \<in> set (sessions db)" and "raws_frozen db"
  shows "raws_frozen db'"
  using assms
proof (induction items arbitrary: db rs)
  case (Cons item items)
  obtain f prepared where item [simp]: "item = (f, prepared)" by (cases item)
  from Cons.prems(1) obtain r db1 rest where
    im: "impl_importFile J (''object-'' @ im_key f) (im_now f) (Prepared prepared)
        (im_logicalPath f) s (im_options f) [] db = Inr (r, db1)"
    and rest: "batch_import J s items db1 = Inr (rest, db')"
    by (auto simp: rbind_Inr_iff split: if_splits)
  note a = impl_importFile_appends [OF Cons.prems(2,3) im]
  have "db_ok db1" "s \<in> set (sessions db1)" using a(1) Cons.prems(3) by (simp_all add: appends_def)
  moreover have "raws_frozen db1" by (rule frozen_new [OF Cons.prems(4) a(1)]) (use a in simp)
  ultimately show ?case by (rule Cons.IH [OF rest])
qed simp

lemma keeps_raw_importFiles: "keeps_raw (importFiles J files prepared sessionKey)"
proof (rule keeps_rawI [OF importFiles_def])
  fix db rs db'
  assume ok: "db_ok db" "raws_frozen db" and op: "importFiles J files prepared sessionKey db = (Inr rs, db')"
  then obtain s sources where s: "getSession db sessionKey True = Inr s"
    and b: "batch_import J s (zip files sources) db = Inr (rs, db')"
    by (auto simp: importFiles_def transaction_Inr rbind_Inr_iff split: if_splits)
  show "raws_frozen db'" by (rule batch_frozen [OF b ok(1) _ ok(2)]) (use getSession_Inr [OF s] in blast)
qed

lemma keeps_raw_revisions:
  "keeps_raw (reviseFile J now key source expected sessionKey options)"
  "keeps_raw (move now cancelled key path expected sessionKey options)"
  "keeps_raw (erase now key expected sessionKey)"
proof -
  show "keeps_raw (reviseFile J now key source expected sessionKey options)"
  proof (rule keeps_rawI [OF reviseFile_def])
    fix db r db'
    assume ok: "db_ok db" "raws_frozen db" and op: "reviseFile J now key source expected sessionKey options db = (Inr r, db')"
    note a = reviseFile_appends [OF ok(1) op]
    then obtain r0 where "impl_require db key expected = Inr r0" by blast
    from require_last [OF ok(1) this] show "raws_frozen db'"
      by (intro frozen_next [OF ok(2) a(1)]) (use a in simp_all)
  qed
  show "keeps_raw (move now cancelled key path expected sessionKey options)"
  proof (rule keeps_rawI [OF move_def])
    fix db r db'
    assume ok: "db_ok db" "raws_frozen db" and op: "move now cancelled key path expected sessionKey options db = (Inr r, db')"
    note a = move_appends [OF ok(1) op]
    then obtain r0 where "impl_require db key expected = Inr r0" by blast
    from require_last [OF ok(1) this] show "raws_frozen db'"
      by (intro frozen_next [OF ok(2) a(1)]) (use a in simp_all)
  qed
  show "keeps_raw (erase now key expected sessionKey)"
  proof (rule keeps_rawI [OF erase_def])
    fix db r db'
    assume ok: "db_ok db" "raws_frozen db" and op: "erase now key expected sessionKey db = (Inr r, db')"
    note a = erase_appends [OF ok(1) op]
    then obtain r0 where "impl_require db key expected = Inr r0" by blast
    from require_last [OF ok(1) this] show "raws_frozen db'"
      by (intro frozen_next [OF ok(2) a(1)]) (use a in simp_all)
  qed
qed

lemma encodeRawMetadata_nonempty:
  assumes "\<And>j. nl_dump J j \<noteq> Some []" and "encodeRawMetadata J raw = Inr document"
  shows "document \<noteq> []"
  using assms by (auto simp: encodeRawMetadata_def rbind_Inr_iff dump_json_def split: if_splits)

lemma keeps_raw_reviseMetadata:
  assumes dump: "\<And>j. nl_dump J j \<noteq> Some []"
  shows "keeps_raw (reviseMetadata J now key metadata expected sessionKey)"
proof (rule keeps_rawI [OF reviseMetadata_def])
  fix db r db'
  assume ok: "db_ok db" "raws_frozen db" and op: "reviseMetadata J now key metadata expected sessionKey db = (Inr r, db')"
  from op obtain r0 where r0: "impl_require db key expected = Inr r0"
    by (auto simp: reviseMetadata_def transaction_Inr rbind_Inr_iff)
  note l = require_last [OF ok(1) r0]
  show "raws_frozen db'"
  proof (rule reviseMetadata_appends [OF ok(1) op])
    assume "db' = db" with ok(2) show ?thesis by simp
  next
    fix raw document
    assume enc: "encodeRawMetadata J (raw\<lparr>rm_annotations := metadata\<rparr>) = Inr document"
      and ap: "appends db r (Some (payload_of db key expected)) document db'" and k: "r_key r = key"
    show "raws_frozen db'"
      by (rule frozen_next [OF ok(2) ap]) (use l k encodeRawMetadata_nonempty [OF dump enc] in simp_all)
  qed
qed

lemma keeps_rawD: "keeps_raw f \<Longrightarrow> f db = (res, db') \<Longrightarrow> package_ok db \<Longrightarrow> raws_frozen db \<Longrightarrow> raws_frozen db'"
  unfolding keeps_raw_def by blast

lemmas keeps_raw_ops = keeps_raw_sessions keeps_raw_imports keeps_raw_importDocument
  keeps_raw_importFiles keeps_raw_revisions

lemma step_frozen:
  assumes dump: "\<And>j. nl_dump J j \<noteq> Some []" and "store_step J db db'" and "package_ok db" and "raws_frozen db"
  shows "raws_frozen db'"
  using assms(2)
  by (elim store_stepE) (rule keeps_rawD [OF _ _ assms(3,4)],
      rule keeps_raw_ops keeps_raw_reviseMetadata [OF dump], assumption)+

end
