(* ===== verification/Object_Sample.thy ===== *)
theory Object_Sample
  imports Object_History
begin

text \<open>
  Facts about the small run of \<open>Object_Machine\<close>: the imported record, its head, the open
  session, and one successful revision, move and erase on top of it.
\<close>

section \<open>The small run\<close>

lemma sample_import_facts:
  "appends sample_open sample_record (Some [1, 2, 3]) [] sample_store"
  "r_key sample_record = ''object-f''" "r_version sample_record = 1" "r_path sample_record = ''a''"
  using importFile_appends(1-4) [OF _ sample_import_eq] sample_open_ok
  by (simp_all add: package_ok_def sample_source_def)

lemma sample_revisions: "revisions sample_store = [revision_of sample_record]"
  using sample_import_facts(1) by (simp add: appends_def sample_open_eq empty_db_def)

lemma sample_record_eq:
  obtains vkey where "sample_record = sealed_record ((new_record ''object-f'' ''a'' ''import'' sample_options)\<lparr>
      r_indexKey := 1, r_sha256 := sha256_hash [1, 2, 3], r_size := Suc (Suc (Suc 0))\<rparr>) sample_session 2 vkey"
  using importFile_appends(8) [OF _ sample_import_eq] sample_open_ok sample_session_open(1)
  by (auto simp: package_ok_def sample_open_eq(2) empty_db_def next_rowid_def sample_source_def)

lemma sample_record_live: "\<not> r_deleted sample_record"
proof -
  obtain vkey where e: "sample_record = sealed_record ((new_record ''object-f'' ''a'' ''import'' sample_options)\<lparr>
      r_indexKey := 1, r_sha256 := sha256_hash [1, 2, 3], r_size := Suc (Suc (Suc 0))\<rparr>) sample_session 2 vkey"
    by (rule sample_record_eq)
  show ?thesis by (simp add: e)
qed

lemma sample_key_length: "length (r_validationKey sample_record) \<le> 128"
proof -
  have ok: "db_ok sample_store" using sample_store_ok by (simp add: package_ok_def)
  have "revision_of sample_record \<in> set (revisions sample_store)" by (simp add: sample_revisions)
  then obtain ob s ctx where "validationKey (record_of ob (revision_of sample_record) s) s (container sample_store) ctx
      (raw_text sample_store ''object-f'' 1) = Inr (r_validationKey sample_record)"
    using sealed_context [OF ok, of "revision_of sample_record"] sample_import_facts(2,3) by (metis revision_of_simps(1,2,6))
  then show ?thesis by (rule validationKey_length)
qed

lemma sample_find_object:
  "\<exists>ob. find_object sample_store ''object-f'' = Some ob \<and> ob_head ob = 1 \<and> head_record sample_store ob = Some sample_record
     \<and> \<not> ob_deleted ob \<and> ob_path ob = ''a''"
proof -
  have ok: "db_ok sample_store" using sample_store_ok by (simp add: package_ok_def)
  have sel: "select_record sample_store ''object-f'' 0 = Some sample_record"
    using sample_import_facts by (simp add: appends_def)
  then obtain ob where ob: "find_object sample_store ''object-f'' = Some ob"
    by (auto simp: select_record_def split: option.splits)
  have head: "ob_head ob = 1" using ob sample_import_facts by (simp add: appends_def)
  have key: "ob_object_key ob = ''object-f''" using find_object_Some [OF ob] by simp
  have hr: "head_record sample_store ob = Some sample_record"
    using sel ob key by (auto simp: select_record_def head_record_def split: option.splits)
  obtain q s where h: "q \<in> set (revisions sample_store)" "rev_id q = (ob_object_key ob, ob_head ob)"
    "head_record sample_store ob = Some (record_of ob q s)" "rv_path q = ob_path ob" "rv_deleted q = ob_deleted ob"
    by (rule settled_head [OF sample_store_ok conjunct1 [OF find_object_Some [OF ob]]])
  then have "ob_path ob = ''a''" "\<not> ob_deleted ob"
    using sample_record_live sample_import_facts(4) by (simp_all add: sample_revisions)
  with ob head hr show ?thesis by blast
qed

lemma sample_require: "impl_require sample_store ''object-f'' 1 = Inr sample_record"
proof -
  obtain ob where "find_object sample_store ''object-f'' = Some ob" "ob_head ob = 1"
    "head_record sample_store ob = Some sample_record" "\<not> ob_deleted ob" using sample_find_object by blast
  then show ?thesis
    using impl_require_spec [OF sample_store_ok, of "''object-f''" 1]
    by (simp add: bind_limit_def int64_max_def)
qed

lemma sample_session_still_open:
  "getSession sample_store ''session-k'' True = Inr sample_session"
  "session_context sample_store (s_key sample_session) = Inr []" "container sample_store = ''box''"
  "\<not> query_only sample_store"
proof -
  have se: "sessions sample_store = [sample_session]"
    using sample_import_facts(1) by (simp add: appends_def sample_open_eq)
  then show "getSession sample_store ''session-k'' True = Inr sample_session"
    by (simp add: getSession_def bind_texts_def bind_limit_def find_session_def sample_session_def)
  have ext: "extends sample_open sample_store" using sample_import_facts(1) by (simp add: appends_def)
  then show "container sample_store = ''box''" by (simp add: extends_def sample_open_eq empty_db_def)
  have ok: "db_ok sample_store" using sample_store_ok by (simp add: package_ok_def)
  have "\<lparr>ws_sequence = 1, ws_session_key = ''session-k'', ws_context = []\<rparr> \<in> set (work_sessions sample_store)"
    using ext by (auto simp: extends_def sample_open_eq)
  moreover have d: "distinct (map ws_session_key (work_sessions sample_store))" "4 \<le> schema sample_store"
    using db_okD(1) [OF ok] by (simp_all add: sessions_ok_def)
  ultimately show "session_context sample_store (s_key sample_session) = Inr []"
    using find_distinct [OF d(1)]
    by (fastforce simp: session_context_def find_work_session_def bind_texts_def bind_limit_def sample_session_def)
  show "\<not> query_only sample_store" using ext by (simp add: extends_def sample_open_eq empty_db_def)
qed

section \<open>One revision on top of the import\<close>

lemmas sample_fits_defs = record_fits_def key_fields_def sealed_record_def next_revision_def new_record_def
  sample_session_def sample_author_def no_metadata_def sample_options_def bind_limit_def
  record_format_name_def int_to_string_def

lemma sample_raw: "raw_text sample_store ''object-f'' 1 = []"
proof -
  have ok: "db_ok sample_store" using sample_store_ok by (simp add: package_ok_def)
  have "abs_store sample_store ''object-f'' = [\<lparr>v_path = ''a'', v_payload = Some [1, 2, 3], v_raw = [], v_operation = r_operation sample_record\<rparr>]"
    using sample_import_facts by (simp add: appends_def abs_store_def sample_open_eq empty_db_def)
  then show ?thesis using require_last(3) [OF ok sample_require] by simp
qed

lemma sample_revision_fits:
  assumes "op \<in> {''move'', ''erase'', ''revise''}" and "length path \<le> 10"
  shows "record_fits (next_revision (sample_record\<lparr>r_path := path\<rparr>) op) sample_session 3 ''box'' [] []"
proof -
  obtain vkey where e: "sample_record = sealed_record ((new_record ''object-f'' ''a'' ''import'' sample_options)\<lparr>
      r_indexKey := 1, r_sha256 := sha256_hash [1, 2, 3], r_size := Suc (Suc (Suc 0))\<rparr>) sample_session 2 vkey"
    by (rule sample_record_eq)
  have "length vkey \<le> 128" using sample_key_length by (simp add: e sealed_record_def)
  then show ?thesis
    using assms unfolding e by (auto simp: sample_fits_defs nat_to_string.simps)
qed

lemma sample_path_free: "\<not> live_path_taken sample_store ''object-f'' path"
proof -
  have ok: "db_ok sample_store" using sample_store_ok by (simp add: package_ok_def)
  have "ob_object_key ob = ''object-f''" if "ob \<in> set (objects sample_store)" for ob
  proof (rule ccontr)
    assume "ob_object_key ob \<noteq> ''object-f''"
    then have "find_object sample_store (ob_object_key ob) = find_object sample_open (ob_object_key ob)"
      using sample_import_facts(1,2) by (simp add: appends_def)
    then show False
      using find_object_mem [OF ok that] by (simp add: sample_open_eq empty_db_def find_object_def)
  qed
  then show ?thesis by (auto simp: live_path_taken_def)
qed

lemmas sample_operation_simps = sample_raw sample_raw [simplified] sample_session_still_open sample_options_def pathValid_def
  path_parts.simps field_def nul_char sample_path_free sample_source_def int64_max_def sha_limit_def

lemma sample_move:
  "\<exists>r db'. move 3 False ''object-f'' ''b'' 1 ''session-k'' sample_options sample_store = (Inr r, db')"
  by (rule move_succeeds [OF sample_store_ok sample_session_still_open(4,1) sample_require sample_session_still_open(2)])
    (use sample_revision_fits [of "''move''" "''b''"] in \<open>simp_all add: sample_operation_simps\<close>)

lemma sample_erase:
  "\<exists>r db'. erase 3 ''object-f'' 1 ''session-k'' sample_store = (Inr r, db')"
proof (rule erase_succeeds [OF sample_store_ok sample_session_still_open(4,1) sample_require sample_session_still_open(2)])
  obtain vkey where e: "sample_record = sealed_record ((new_record ''object-f'' ''a'' ''import'' sample_options)\<lparr>
      r_indexKey := 1, r_sha256 := sha256_hash [1, 2, 3], r_size := Suc (Suc (Suc 0))\<rparr>) sample_session 2 vkey"
    by (rule sample_record_eq)
  have "length vkey \<le> 128" using sample_key_length by (simp add: e sealed_record_def)
  then show "record_fits ((next_revision sample_record ''erase'')\<lparr>r_deleted := True\<rparr>) sample_session 3
      (container sample_store) [] (raw_text sample_store ''object-f'' 1)"
    unfolding sample_raw sample_session_still_open(3) e by (auto simp: sample_fits_defs nat_to_string.simps)
qed

lemma sample_storable_again: "storable sample_store [1, 2, 3]"
proof -
  have "chunk_data sample_store \<subseteq>\<^sub>m chunk_data sample_store" by simp
  moreover have "stores sample_store (revision_of sample_record) [1, 2, 3]"
    using sample_import_facts(1) by (simp add: appends_def)
  ultimately show ?thesis unfolding storable_def stores_def by blast
qed

lemma sample_revise:
  "\<exists>r db'. reviseFile plain_json 3 ''object-f'' (sample_source [1, 2, 3]) 1 ''session-k'' sample_options sample_store
     = (Inr r, db')"
proof (rule reviseFile_succeeds [OF sample_store_ok sample_session_still_open(4,1) sample_require sample_session_still_open(2)])
  obtain vkey where e: "sample_record = sealed_record ((new_record ''object-f'' ''a'' ''import'' sample_options)\<lparr>
      r_indexKey := 1, r_sha256 := sha256_hash [1, 2, 3], r_size := Suc (Suc (Suc 0))\<rparr>) sample_session 2 vkey"
    by (rule sample_record_eq)
  have "length vkey \<le> 128" using sample_key_length by (simp add: e sealed_record_def)
  then show "record_fits ((next_revision (sample_record\<lparr>r_sourceStamp := wo_sourceStamp sample_options\<rparr>) ''revise'')\<lparr>
      r_sha256 := sha256_hash (sf_bytes (sample_source [1, 2, 3])), r_size := length (sf_bytes (sample_source [1, 2, 3]))\<rparr>)
      sample_session 3 (container sample_store) [] []"
    unfolding sample_session_still_open(3) e by (auto simp: sample_fits_defs sample_source_def nat_to_string.simps)
  show "storable sample_store (sf_bytes (sample_source [1, 2, 3]))"
    using sample_storable_again by (simp add: sample_source_def)
qed (simp_all add: sample_operation_simps)

end
