(* ===== verification/Object_Properties.thy ===== *)
theory Object_Properties
  imports Object_Sample
begin

text \<open>
  The properties of the object store, each stated over the operations of the model, with
  the small run of \<open>Object_Machine\<close> as the concrete input of the witnesses.
\<close>

section \<open>Integrity of reachable packages\<close>

text \<open>
  C3: In every package reachable from an empty one by any sequence of calls, each stored
  revision passes \<open>validate\<close>: the validation-key chain recomputes from version 1 up, and with
  \<open>payload\<close> set the chunks are contiguous, of the right sizes and digests, and hash to the
  recorded payload digest.
\<close>
theorem reachable_revisions_validate:
  assumes "(store_step J)\<^sup>*\<^sup>* (empty_db box) db" and "r \<in> set (revisions db)"
  shows "validate db (rv_object_key r) (rv_version r) payload = Inr True"
proof -
  have "package_ok db" by (rule store.reachable_good [OF assms(1) package_ok_empty])
  then show ?thesis
    using stored_revision_validates [OF _ assms(2)] by (simp add: validate_def package_ok_def)
qed

theorem reachable_revisions_validate_witness:
  "revision_of sample_record \<in> set (revisions sample_store) \<and> validate sample_store ''object-f'' 1 True = Inr True"
  using reachable_revisions_validate [OF sample_reachable, of "revision_of sample_record" True]
    sample_import_facts(2,3) by (simp add: sample_revisions)

lemma extract_stable:
  assumes "db_ok db" and "db_ok db'" and "extends db db'" and "r \<in> set (revisions db)" and "\<not> rv_deleted r"
  shows "extract_object db' (rv_object_key r) (rv_version r) True False True =
    extract_object db (rv_object_key r) (rv_version r) True False True"
proof -
  have r': "r \<in> set (revisions db')" using assms(3,4) by (auto simp: extends_def)
  have "view db' r = view db r" by (rule view_extends [OF assms(1,3,4)])
  then have "payload_of db' (rv_object_key r) (rv_version r) = payload_of db (rv_object_key r) (rv_version r)"
    using assms(5) by (simp add: view_def)
  then show ?thesis
    using stored_revision_extracts [OF assms(1,4,5)] stored_revision_extracts [OF assms(2) r' assms(5)] by simp
qed

text \<open>
  C4: History is append-only.  Whatever calls follow, the revision table of a sound
  package stays a prefix of the later one, and extracting an existing live revision
  returns the same bytes as before.
\<close>
theorem history_append_only:
  assumes "(store_step J)\<^sup>*\<^sup>* db db'" and "package_ok db"
  shows "take (length (revisions db)) (revisions db') = revisions db \<and>
    (\<forall>r \<in> set (revisions db). rv_deleted r \<or>
      extract_object db' (rv_object_key r) (rv_version r) True False True =
      extract_object db (rv_object_key r) (rv_version r) True False True)"
proof -
  have ok: "db_ok db" "db_ok db'"
    using assms(2) store.reachable_good [OF assms] by (simp_all add: package_ok_def)
  have ext: "extends db db'" by (rule store.reachable_grows [OF assms])
  then show ?thesis using extract_stable [OF ok ext] by (auto simp: extends_def)
qed

theorem history_append_only_witness:
  "\<exists>r db'. move 3 False ''object-f'' ''b'' 1 ''session-k'' sample_options sample_store = (Inr r, db') \<and>
     take 1 (revisions db') = revisions sample_store \<and>
     extract_object db' ''object-f'' 1 True False True = extract_object sample_store ''object-f'' 1 True False True"
proof -
  obtain r db' where mv: "move 3 False ''object-f'' ''b'' 1 ''session-k'' sample_options sample_store = (Inr r, db')"
    using sample_move by blast
  then have "(store_step plain_json)\<^sup>*\<^sup>* sample_store db'" using move_object by blast
  from history_append_only [OF this sample_store_ok] mv show ?thesis
    using sample_record_live sample_import_facts(2,3) by (auto simp: sample_revisions)
qed

text \<open>
  C5: A file comes back byte for byte.  After a successful import, the key's only
  revision is version 1 at the given path, and extracting it returns exactly the bytes read
  from the source; the recorded digest is their SHA-256.
\<close>
theorem import_extract_roundtrip:
  assumes "package_ok db"
    and "importFile J key now source path sessionKey options db = (Inr r, db')"
  shows "extract_object db' (''object-'' @ key) 1 True False True = Inr (sf_bytes source) \<and>
    lookup db' (''object-'' @ key) = Inr (Some r) \<and> r_path r = path \<and> r_sha256 r = sha256_hash (sf_bytes source)"
proof -
  have ok: "db_ok db" using assms(1) by (simp add: package_ok_def)
  note a = importFile_appends [OF ok assms(2)]
  have ok': "db_ok db'" and st: "stores db' (revision_of r) (sf_bytes source)"
    and mem: "revision_of r \<in> set (revisions db')" and sel: "select_record db' (r_key r) 0 = Some r"
    using a(1) by (simp_all add: appends_def)
  have live: "\<not> r_deleted r" "r_sha256 r = sha256_hash (sf_bytes source)" using a(8) by auto
  have "extract_object db' (''object-'' @ key) 1 True False True = Inr (sf_bytes source)"
    using stored_revision_extracts [OF ok' mem] payload_of_stores [OF st] live a(2,3) by simp
  moreover obtain ob s ctx where "length (rv_object_key (revision_of r)) \<le> bind_limit"
    by (rule sealed_context [OF ok' mem])
  ultimately show ?thesis
    using a(2,4) sel live by (simp add: lookup_def get_record_def bind_texts_def not_less)
qed

theorem import_extract_roundtrip_witness:
  "extract_object sample_store (''object-'' @ ''f'') 1 True False True = Inr [1, 2, 3] \<and>
   lookup sample_store (''object-'' @ ''f'') = Inr (Some sample_record) \<and> r_path sample_record = ''a'' \<and>
   r_sha256 sample_record = sha256_hash [1, 2, 3]"
  using import_extract_roundtrip [OF sample_open_ok sample_import_eq] by (simp add: sample_source_def)

section \<open>Refinement of the abstract store\<close>

text \<open>The abstract operations on one history.\<close>

definition spec_revise :: "byte list \<Rightarrow> revision_view list \<Rightarrow> revision_view list" where
  "spec_revise bytes h = h @ [(last h)\<lparr>v_payload := Some bytes, v_operation := ''revise''\<rparr>]"


definition spec_erase :: "revision_view list \<Rightarrow> revision_view list" where
  "spec_erase h = h @ [(last h)\<lparr>v_payload := None, v_operation := ''erase''\<rparr>]"

lemma view_keep:
  "v_path v = p \<Longrightarrow> v\<lparr>v_path := p, v_payload := x, v_operation := opn\<rparr> = v\<lparr>v_payload := x, v_operation := opn\<rparr>"
  "v_payload v = x \<Longrightarrow> v\<lparr>v_path := p, v_payload := x, v_operation := opn\<rparr> = v\<lparr>v_path := p, v_operation := opn\<rparr>"
  "v_raw v = w \<Longrightarrow> \<lparr>v_path = p, v_payload = x, v_raw = w, v_operation = opn\<rparr> =
     v\<lparr>v_path := p, v_payload := x, v_operation := opn\<rparr>"
  by (cases v; auto)+

lemma history_step:
  assumes "db_ok db" and "impl_require db key expected = Inr r0" and "appends db r payload raw db'" and "r_key r = key"
    and "raw = raw_text db key expected" and "r_path r = path"
  shows "abs_store db' = (abs_store db)(key := abs_store db key @
      [(last (abs_store db key))\<lparr>v_path := path, v_payload := payload, v_operation := r_operation r\<rparr>])"
  using view_keep(3) [OF require_last(3) [OF assms(1,2)]] assms(3-6) by (simp add: appends_def)

text \<open>
  C6: \<open>reviseFile\<close> implements the abstract revision: on success the object's history, which had
  exactly \<open>expected\<close> entries, gains one entry with the source's bytes and the old path, and no
  other object's history changes.
\<close>
theorem reviseFile_refines:
  assumes "db_ok db" and "reviseFile J now key source expected sessionKey options db = (Inr r, db')"
  shows "abs_store db' = (abs_store db)(key := spec_revise (sf_bytes source) (abs_store db key)) \<and>
    length (abs_store db key) = expected"
proof -
  note a = reviseFile_appends [OF assms]
  then obtain r0 where r0: "impl_require db key expected = Inr r0" "r_path r = r_path r0" by blast
  note l = require_last [OF assms(1) r0(1)]
  have "abs_store db' = (abs_store db)(key := abs_store db key @
      [(last (abs_store db key))\<lparr>v_path := r_path r0, v_payload := Some (sf_bytes source), v_operation := r_operation r\<rparr>])"
    by (rule history_step [OF assms(1) r0(1) a(1,2)]) (use a(5) r0 in simp_all)
  then show ?thesis using l(2) view_keep(1) [OF l(5)] a(4) by (simp add: spec_revise_def)
qed

theorem reviseFile_refines_witness:
  "\<exists>r db'. reviseFile plain_json 3 ''object-f'' (sample_source [1, 2, 3]) 1 ''session-k'' sample_options sample_store
     = (Inr r, db') \<and>
   abs_store db' = (abs_store sample_store)(''object-f'' := spec_revise [1, 2, 3] (abs_store sample_store ''object-f'')) \<and>
   length (abs_store sample_store ''object-f'') = 1"
proof -
  obtain r db' where op: "reviseFile plain_json 3 ''object-f'' (sample_source [1, 2, 3]) 1 ''session-k'' sample_options
      sample_store = (Inr r, db')" using sample_revise by blast
  have "db_ok sample_store" using sample_store_ok by (simp add: package_ok_def)
  from reviseFile_refines [OF this op] op show ?thesis by (auto simp: sample_source_def)
qed



text \<open>
  C8: \<open>erase\<close> implements the abstract erase: on success the history gains a tombstone at the old
  path, and every earlier entry of the object stays.
\<close>
theorem erase_refines:
  assumes "db_ok db" and "erase now key expected sessionKey db = (Inr r, db')"
  shows "abs_store db' = (abs_store db)(key := spec_erase (abs_store db key)) \<and> length (abs_store db key) = expected"
proof -
  note a = erase_appends [OF assms]
  then obtain r0 where r0: "impl_require db key expected = Inr r0" "r_path r = r_path r0" by blast
  note l = require_last [OF assms(1) r0(1)]
  have "abs_store db' = (abs_store db)(key := abs_store db key @
      [(last (abs_store db key))\<lparr>v_path := r_path r0, v_payload := None, v_operation := r_operation r\<rparr>])"
    by (rule history_step [OF assms(1) r0(1) a(1,2) refl r0(2)])
  then show ?thesis using l(2) view_keep(1) [OF l(5)] a(5) by (simp add: spec_erase_def)
qed

theorem erase_refines_witness:
  "\<exists>r db'. erase 3 ''object-f'' 1 ''session-k'' sample_store = (Inr r, db') \<and>
   abs_store db' = (abs_store sample_store)(''object-f'' := spec_erase (abs_store sample_store ''object-f''))"
proof -
  obtain r db' where op: "erase 3 ''object-f'' 1 ''session-k'' sample_store = (Inr r, db')" using sample_erase by blast
  have "db_ok sample_store" using sample_store_ok by (simp add: package_ok_def)
  from erase_refines [OF this op] op show ?thesis by auto
qed

section \<open>Concurrency and lifecycle\<close>

lemma stale_require:
  assumes "package_ok db" and "find_object db key = Some ob" and "ob_deleted ob \<or> expected \<noteq> ob_head ob"
  shows "\<exists>e. impl_require db key expected = Inl e"
proof (cases "length key \<le> bind_limit")
  case True
  then show ?thesis unfolding impl_require_spec [OF assms(1) True] using assms(2,3) by auto
next
  case False
  then show ?thesis by (simp add: impl_require_def get_record_def bind_texts_def not_le)
qed

text \<open>
  C9: No lost updates and no revival.  A writer whose expected version is not the current head,
  or whose object has been erased, is refused by every revising operation, and the
  package is unchanged.
\<close>
theorem stale_writer_refused:
  assumes "package_ok db" and "find_object db key = Some ob" and "ob_deleted ob \<or> expected \<noteq> ob_head ob"
  shows "(\<exists>e. reviseFile J now key source expected sessionKey options db = (Inl e, db)) \<and>
    (\<exists>e. move now cancelled key path expected sessionKey options db = (Inl e, db)) \<and>
    (\<exists>e. erase now key expected sessionKey db = (Inl e, db)) \<and>
    (\<exists>e. reviseMetadata J now key metadata expected sessionKey db = (Inl e, db))"
proof -
  obtain e where e: "impl_require db key expected = Inl e" using stale_require [OF assms] by blast
  have sub: "\<exists>e. transaction body db = (Inl e, db)" if "\<And>a db'. body db \<noteq> Inr (a, db')" for body :: "object_db \<Rightarrow> (store_error, 'a \<times> object_db) result"
    using that by (cases "body db") (auto simp: transaction_def)
  show ?thesis
    unfolding reviseFile_def move_def erase_def reviseMetadata_def
    by (intro conjI sub) (auto simp: e rbind_Inr_iff split: if_splits)
qed

theorem stale_writer_refused_witness:
  "\<exists>ob. find_object sample_store ''object-f'' = Some ob \<and> ob_head ob = 1 \<and>
     (\<exists>e. erase 3 ''object-f'' 2 ''session-k'' sample_store = (Inl e, sample_store))"
proof -
  obtain ob where ob: "find_object sample_store ''object-f'' = Some ob" "ob_head ob = 1" using sample_find_object by blast
  from stale_writer_refused [OF sample_store_ok ob(1), of 2] ob show ?thesis by auto
qed



text \<open>
  C11: A RAW original is immutable.  In every reachable package, a revision that carries a RAW
  document is followed only by revisions that carry one too and keep its payload, until
  the object is erased.
\<close>
theorem raw_payload_immutable:
  assumes "(store_step J)\<^sup>*\<^sup>* (empty_db box) db" and "\<And>j. nl_dump J j \<noteq> Some []"
  shows "raw_frozen (abs_store db key)"
proof -
  have "package_ok db \<and> raws_frozen db"
    using assms(1)
  proof (induction rule: rtranclp_induct)
    case base
    then show ?case using package_ok_empty by (simp add: raws_frozen_def abs_store_def empty_db_def)
  next
    case (step db db')
    then show ?case using step_frozen [OF assms(2)] store_step_safe by blast
  qed
  then show ?thesis by (simp add: raws_frozen_def)
qed

theorem raw_payload_immutable_witness:
  "\<exists>r db'. wrapRaw plain_json ''f'' 2 False sample_capture ''a'' sample_raw_metadata ''session-k'' sample_options sample_open
      = (Inr r, db') \<and> v_raw (last (abs_store db' (r_key r))) = ''j'' \<and> raw_frozen (abs_store db' (r_key r))"
proof -
  obtain r db' where op: "wrapRaw plain_json ''f'' 2 False sample_capture ''a'' sample_raw_metadata ''session-k''
      sample_options sample_open = (Inr r, db')" using sample_wrap by blast
  have "(store_step plain_json)\<^sup>*\<^sup>* (empty_db ''box'') db'"
    using begin_session [OF sample_open_eq(1)] wrap_raw [OF op] by (meson rtranclp.rtrancl_into_rtrancl rtranclp.rtrancl_refl)
  from raw_payload_immutable [OF this, of "r_key r"] have "raw_frozen (abs_store db' (r_key r))"
    by (simp add: plain_json_def)
  moreover have "v_raw (last (abs_store db' (r_key r))) = ''j''"
    by (rule wrapRaw_appends [OF _ op]) (use sample_open_ok sample_raw_document in \<open>auto simp: package_ok_def appends_def\<close>)
  ultimately show ?thesis using op by blast
qed

section \<open>Queries\<close>

text \<open>
  C12: The materialised index is a faithful projection: in a sound package, a page of \<open>index\<close>
  is the projection of the same page of \<open>scan\<close>, in the same order, with the same errors.
\<close>
theorem index_page_is_scan_page:
  assumes "package_ok db"
  shows "index db after limit deleted = map_sum id (map index_of_record) (scan db after limit deleted)"
  by (rule index_projects_scan [OF assms])

theorem index_page_is_scan_page_witness:
  "index sample_store 0 5 False = map_sum id (map index_of_record) (scan sample_store 0 5 False)"
  by (rule index_page_is_scan_page [OF sample_store_ok])

text \<open>
  A live path names one object: \<open>lookupPath\<close> of the path of a live object returns that
  object's head record.
\<close>
theorem live_path_names_object:
  assumes "package_ok db" and "pathValid path = Inr ()" and "length path \<le> bind_limit"
    and "ob \<in> set (objects db)" and "ob_path ob = path" and "\<not> ob_deleted ob"
  shows "\<exists>r. lookupPath db path = Inr (Some r) \<and> r_key r = ob_object_key ob \<and> r_path r = path \<and>
    \<not> r_deleted r \<and> r_version r = ob_head ob"
  by (rule lookupPath_unique [OF assms])

theorem live_path_names_object_witness:
  "\<exists>r. lookupPath sample_store ''a'' = Inr (Some r) \<and> r_key r = ''object-f''"
proof -
  obtain ob where ob: "find_object sample_store ''object-f'' = Some ob" "\<not> ob_deleted ob" "ob_path ob = ''a''"
    using sample_find_object by blast
  from live_path_names_object [OF sample_store_ok _ _ conjunct1 [OF find_object_Some [OF ob(1)]] ob(3,2)]
    find_object_Some [OF ob(1)]
  show ?thesis by (auto simp: sample_operation_simps bind_limit_def)
qed

end
