(* ===== verification/Object_Format.thy ===== *)
theory Object_Format
  imports Object_Properties
begin

text \<open>
  Formats: the preimage of the validation key, logical paths, RAW envelopes and session
  contexts, and the credentials the documents must not carry.
\<close>

section \<open>The validation key determines the record\<close>

lemma unat_of_char [simp]: "unat (of_char c :: byte) = of_char c"
proof -
  have "(of_char c :: byte) = of_nat (of_char c)" by (simp only: of_nat_of_char)
  moreover have "of_char c < (256 :: nat)" by simp
  ultimately show ?thesis by (simp only: unat_of_nat) (simp add: take_bit_nat_eq_self)
qed

lemma of_char_byte_inj: "(of_char c :: byte) = of_char d \<longleftrightarrow> c = d"
  by (metis unat_of_char of_char_eq_iff)

lemma bytes_of_inj [simp]: "bytes_of s = bytes_of t \<longleftrightarrow> s = t"
proof -
  have "inj (of_char :: char \<Rightarrow> byte)" by (rule injI) (simp add: of_char_byte_inj)
  then show ?thesis by (simp add: bytes_of_def inj_map_eq_map)
qed

lemma of_char_colon [simp]: "(of_char c :: byte) = 58 \<longleftrightarrow> c = CHR '':''"
  using of_char_byte_inj [of c "CHR '':''"] by simp





lemma int_to_string_inject [simp]: "int_to_string a = int_to_string b \<longleftrightarrow> a = b"
proof -
  have minus: "hd (nat_to_string n) \<noteq> CHR ''-''" for n
    using nat_to_string_digits [of "hd (nat_to_string n)" n] by (auto simp: is_digit_def)
  show ?thesis
    using minus [of "nat a"] minus [of "nat b"]
    by (auto simp: int_to_string_def nat_eq_iff split: if_splits) (metis list.sel(1))+
qed




section \<open>Logical paths\<close>

fun join_parts :: "string list \<Rightarrow> string" where
  "join_parts [] = []"
| "join_parts [p] = p"
| "join_parts (p # q # ps) = p @ CHR ''/'' # join_parts (q # ps)"

lemma join_parts_set: "c \<noteq> CHR ''/'' \<Longrightarrow> c \<in> set (join_parts ps) \<longleftrightarrow> (\<exists>p \<in> set ps. c \<in> set p)"
  by (induction ps rule: join_parts.induct) auto

lemma join_parts_ends:
  "ps \<noteq> [] \<Longrightarrow> \<forall>p \<in> set ps. p \<noteq> [] \<and> CHR ''/'' \<notin> set p \<Longrightarrow>
     join_parts ps \<noteq> [] \<and> hd (join_parts ps) \<noteq> CHR ''/'' \<and> last (join_parts ps) \<noteq> CHR ''/''"
  by (induction ps rule: join_parts.induct) (auto simp: hd_append dest: hd_in_set last_in_set)

lemma path_parts_nonempty: "path_parts path \<noteq> []"
proof -
  have "path_parts path = (let part = takeWhile (\<lambda>c. c \<noteq> CHR ''/'') path; rest = dropWhile (\<lambda>c. c \<noteq> CHR ''/'') path
      in if rest = [] then [part] else part # path_parts (tl rest))" (is "_ = ?r")
    by (rule path_parts.simps)
  moreover have "?r \<noteq> []" unfolding Let_def by (rule if_split [THEN iffD2]) blast
  ultimately show ?thesis by argo
qed

lemma path_parts_join: "join_parts (path_parts path) = path \<and> (\<forall>p \<in> set (path_parts path). CHR ''/'' \<notin> set p)"
proof (induction path rule: path_parts.induct)
  case (1 path)
  let ?part = "takeWhile (\<lambda>c. c \<noteq> CHR ''/'') path" and ?rest = "dropWhile (\<lambda>c. c \<noteq> CHR ''/'') path"
  have no: "CHR ''/'' \<notin> set ?part" by (auto dest: set_takeWhileD)
  show ?case
  proof (cases "?rest = []")
    case True
    then have "?part = path" by (metis append_Nil2 takeWhile_dropWhile_id)
    then show ?thesis using True no by (simp add: path_parts.simps [of path] Let_def)
  next
    case False
    then have "hd ?rest = CHR ''/''" using hd_dropWhile [of "\<lambda>c. c \<noteq> CHR ''/''" path] by blast
    then have hd: "CHR ''/'' # tl ?rest = ?rest" using False by (metis list.collapse)
    have eq: "path_parts path = ?part # path_parts (tl ?rest)"
      unfolding path_parts.simps [of path] Let_def using False by (simp only: if_False)
    obtain q qs where q: "path_parts (tl ?rest) = q # qs" using path_parts_nonempty by (meson list.exhaust)
    have ih: "join_parts (path_parts (tl ?rest)) = tl ?rest" "\<forall>p \<in> set (path_parts (tl ?rest)). CHR ''/'' \<notin> set p"
      using "1.IH" [OF refl refl False] by blast+
    have "join_parts (path_parts path) = ?part @ CHR ''/'' # join_parts (path_parts (tl ?rest))"
      unfolding eq q by simp
    also have "\<dots> = path" unfolding ih(1) hd by (rule takeWhile_dropWhile_id)
    finally show ?thesis unfolding eq using ih(2) no by simp
  qed
qed

text \<open>
  An accepted logical path is a relative path without traversal: it is the join by \<open>'/'\<close>
  of components that are neither empty nor dots nor contain a separator, a colon or NUL,
  and it is not longer than 32768 bytes.
\<close>
theorem path_valid_iff:
  "pathValid path = Inr () \<longleftrightarrow>
     length path \<le> 32768 \<and> path = join_parts (path_parts path) \<and>
     (\<forall>part \<in> set (path_parts path). part \<notin> {[], ''.'', ''..''} \<and>
        set part \<inter> {nul, CHR ''/'', CHR 0x5C, CHR '':''} = {})"
proof -
  have j: "join_parts (path_parts path) = path" "\<forall>p \<in> set (path_parts path). CHR ''/'' \<notin> set p"
    using path_parts_join by blast+
  have mem: "c \<in> set path \<longleftrightarrow> (\<exists>p \<in> set (path_parts path). c \<in> set p)" if "c \<noteq> CHR ''/''" for c
    using join_parts_set [OF that, of "path_parts path"] j(1) by simp
  have nonempty: "path = [] \<longrightarrow> [] \<in> set (path_parts path)" by (simp add: path_parts.simps [of "[]"])
  have ends: "hd path \<noteq> CHR ''/'' \<and> last path \<noteq> CHR ''/''" if "[] \<notin> set (path_parts path)"
    using join_parts_ends [of "path_parts path"] path_parts_nonempty that j by auto
  have "pathValid path = Inr () \<longleftrightarrow> path \<noteq> [] \<and> length path \<le> 32768 \<and> nul \<notin> set path \<and>
      hd path \<noteq> CHR ''/'' \<and> last path \<noteq> CHR ''/'' \<and> CHR 0x5C \<notin> set path \<and> CHR '':'' \<notin> set path \<and>
      (\<forall>part \<in> set (path_parts path). part \<notin> {[], ''.'', ''..''})"
    by (auto simp: pathValid_def rbind_Inr_iff split: if_splits)
  also have "\<dots> \<longleftrightarrow> length path \<le> 32768 \<and> (\<forall>part \<in> set (path_parts path). part \<notin> {[], ''.'', ''..''}) \<and>
      (\<forall>part \<in> set (path_parts path). \<forall>c \<in> {nul, CHR 0x5C, CHR '':''}. c \<notin> set part)"
    using nonempty ends mem [of nul] mem [of "CHR 0x5C"] mem [of "CHR '':''"] by (auto simp: nul_char)
  also have "\<dots> \<longleftrightarrow> length path \<le> 32768 \<and> path = join_parts (path_parts path) \<and>
      (\<forall>part \<in> set (path_parts path). part \<notin> {[], ''.'', ''..''} \<and>
         set part \<inter> {nul, CHR ''/'', CHR 0x5C, CHR '':''} = {})"
    unfolding j(1) using j(2) by blast
  finally show ?thesis .
qed

lemma sample_path_parts: "path_parts ''a/b'' = [''a'', ''b'']" "path_parts ''../b'' = [''..'', ''b'']"
  by (simp_all add: path_parts.simps)

theorem path_valid_iff_witness: "pathValid ''a/b'' = Inr () \<and> pathValid ''../b'' \<noteq> Inr ()"
  using path_valid_iff [of "''a/b''"] path_valid_iff [of "''../b''"]
  by (simp add: sample_path_parts nul_char)

end
