(* ===== verification/Batch_Pool.thy ===== *)
theory Batch_Pool
  imports Complex_Main Prelude
begin

text \<open>
  The worker pool that \<open>readObjectBatch\<close> and \<open>ObjectSnapshotBatch\<close> start: threads that take
  indices from one atomic cursor, work on the slot of their index, and on an exception store it
  under their index and raise a flag.  Threads interleave in steps of one atomic access or one
  system call, and the outside world may change between any two of them.
\<close>

section \<open>Workers\<close>

datatype 'b worker =
    Testing                 \<comment> \<open>about to load \<open>failed\<close>\<close>
  | Taking                  \<comment> \<open>about to call \<open>cursor.fetch_add(1)\<close>\<close>
  | Running nat 'b          \<comment> \<open>inside the \<open>try\<close> block of an index\<close>
  | Failing nat string      \<comment> \<open>about to store the exception\<close>
  | Flagging                \<comment> \<open>about to set \<open>failed\<close>\<close>
  | Stopped

record ('b, 'v) pool =
  pl_cursor :: nat
  pl_failed :: bool
  pl_slots :: "'v option list"
  pl_errors :: "string option list"
  pl_workers :: "'b worker list"

text \<open>
  The body of the \<open>try\<close> block: where it starts, and one step of it in a world, which goes on, throws
  or gives the value of the slot.
\<close>

record ('b, 'v, 'w) task =
  t_start :: "nat \<Rightarrow> 'b"
  t_step :: "nat \<Rightarrow> 'b \<Rightarrow> 'w \<Rightarrow> ('b + (string, 'v) result) \<times> 'w"

definition pool_new :: "nat \<Rightarrow> nat \<Rightarrow> ('b, 'v) pool" where
  "pool_new n threads = \<lparr>pl_cursor = 0, pl_failed = False, pl_slots = replicate n None,
     pl_errors = replicate n None, pl_workers = replicate threads Testing\<rparr>"

definition put_worker :: "nat \<Rightarrow> 'b worker \<Rightarrow> ('b, 'v) pool \<Rightarrow> ('b, 'v) pool" where
  "put_worker k x p = p\<lparr>pl_workers := (pl_workers p)[k := x]\<rparr>"

fun worker_step ::
    "('b, 'v, 'w) task \<Rightarrow> nat \<Rightarrow> nat \<Rightarrow> 'b worker \<Rightarrow> ('b, 'v) pool \<times> 'w \<Rightarrow> ('b, 'v) pool \<times> 'w" where
  "worker_step T n k Testing (p, w) = (put_worker k (if pl_failed p then Stopped else Taking) p, w)"
| "worker_step T n k Taking (p, w) =
     (let i = pl_cursor p
      in (put_worker k (if i < n then Running i (t_start T i) else Stopped) (p\<lparr>pl_cursor := i + 1\<rparr>), w))"
| "worker_step T n k (Running i b) (p, w) =
     (case t_step T i b w of
        (Inl b', w') \<Rightarrow> (put_worker k (Running i b') p, w')
      | (Inr (Inl e), w') \<Rightarrow> (put_worker k (Failing i e) p, w')
      | (Inr (Inr v), w') \<Rightarrow> (put_worker k Testing (p\<lparr>pl_slots := (pl_slots p)[i := Some v]\<rparr>), w'))"
| "worker_step T n k (Failing i e) (p, w) =
     (put_worker k Flagging (p\<lparr>pl_errors := (pl_errors p)[i := Some e]\<rparr>), w)"
| "worker_step T n k Flagging (p, w) = (put_worker k Testing (p\<lparr>pl_failed := True\<rparr>), w)"
| "worker_step T n k Stopped (p, w) = (p, w)"

text \<open>Runs, with the number of steps the workers have made.\<close>

inductive pool_run ::
    "('b, 'v, 'w) task \<Rightarrow> nat \<Rightarrow> ('w \<Rightarrow> 'w \<Rightarrow> bool) \<Rightarrow> ('b, 'v) pool \<times> 'w \<Rightarrow> nat \<Rightarrow> ('b, 'v) pool \<times> 'w \<Rightarrow> bool"
  for T n env s0 where
  start: "pool_run T n env s0 0 s0"
| work: "pool_run T n env s0 m s \<Longrightarrow> k < length (pl_workers (fst s)) \<Longrightarrow> pl_workers (fst s) ! k = x \<Longrightarrow>
    x \<noteq> Stopped \<Longrightarrow> pool_run T n env s0 (Suc m) (worker_step T n k x s)"
| world: "pool_run T n env s0 m (p, w) \<Longrightarrow> env w w' \<Longrightarrow> pool_run T n env s0 m (p, w')"

text \<open>\<open>joined.join()\<close> returns when every thread has returned; then the first stored exception is thrown.\<close>

definition pool_joined :: "('b, 'v) pool \<Rightarrow> bool" where
  "pool_joined p \<longleftrightarrow> list_all (\<lambda>x. case x of Stopped \<Rightarrow> True | _ \<Rightarrow> False) (pl_workers p)"

definition pool_result :: "('b, 'v) pool \<Rightarrow> (string, 'v list) result" where
  "pool_result p = (case List.find (\<lambda>e. e \<noteq> None) (pl_errors p) of
     Some (Some e) \<Rightarrow> Inl e
   | _ \<Rightarrow> Inr (map the (pl_slots p)))"

section \<open>One index, one worker\<close>

fun held :: "'b worker \<Rightarrow> nat option" where
  "held (Running i b) = Some i"
| "held (Failing i e) = Some i"
| "held _ = None"

definition holding :: "('b, 'v) pool \<Rightarrow> nat \<Rightarrow> nat option" where
  "holding p k = (if k < length (pl_workers p) then held (pl_workers p ! k) else None)"

definition settled_index :: "('b, 'v) pool \<Rightarrow> nat \<Rightarrow> bool" where
  "settled_index p i \<longleftrightarrow> pl_slots p ! i \<noteq> None \<or> pl_errors p ! i \<noteq> None"

text \<open>
  An index is ahead of the cursor and untouched, or held by exactly one worker and untouched, or
  settled: over the cursor \<open>c\<close>, the map \<open>h\<close> from threads to the index they hold, the settled indices.
\<close>

definition index_map_ok :: "nat \<Rightarrow> nat \<Rightarrow> (nat \<Rightarrow> nat option) \<Rightarrow> (nat \<Rightarrow> bool) \<Rightarrow> bool" where
  "index_map_ok n c h settled \<longleftrightarrow>
     (\<forall>k k' i. h k = Some i \<longrightarrow> h k' = Some i \<longrightarrow> k = k') \<and>
     (\<forall>i < n. settled i \<or> c \<le> i \<or> (\<exists>k. h k = Some i)) \<and>
     (\<forall>k i. h k = Some i \<longrightarrow> i < n \<and> i < c \<and> \<not> settled i) \<and>
     (\<forall>i < n. c \<le> i \<longrightarrow> \<not> settled i)"

lemma index_map_take:
  assumes ok: "index_map_ok n c h d" and free: "h k = None" and "c < n"
  shows "index_map_ok n (c + 1) (h(k := Some c)) d"
  unfolding index_map_ok_def
proof (intro conjI)
  show "\<forall>ka k' i. (h(k := Some c)) ka = Some i \<longrightarrow> (h(k := Some c)) k' = Some i \<longrightarrow> ka = k'"
    using ok unfolding index_map_ok_def by (simp add: fun_upd_def) (metis less_irrefl)
  show "\<forall>i<n. d i \<or> c + 1 \<le> i \<or> (\<exists>ka. (h(k := Some c)) ka = Some i)"
    using ok free unfolding index_map_ok_def
    by (simp add: fun_upd_def) (metis Suc_leI le_neq_implies_less option.distinct(1))
  show "\<forall>ka i. (h(k := Some c)) ka = Some i \<longrightarrow> i < n \<and> i < c + 1 \<and> \<not> d i"
    using ok \<open>c < n\<close> unfolding index_map_ok_def by (auto simp: less_Suc_eq)
  show "\<forall>i<n. c + 1 \<le> i \<longrightarrow> \<not> d i"
    using ok unfolding index_map_ok_def by auto
qed

lemma index_map_skip:
  "index_map_ok n c h d \<Longrightarrow> n \<le> c \<Longrightarrow> index_map_ok n (c + 1) h d"
  unfolding index_map_ok_def by force

lemma index_map_settle:
  assumes ok: "index_map_ok n c h d" and k: "h k = Some i" and d': "d' i" "\<And>j. j \<noteq> i \<Longrightarrow> d' j = d j"
  shows "index_map_ok n c (h(k := None)) d'"
  unfolding index_map_ok_def
proof (intro conjI)
  show "\<forall>ka k' i. (h(k := None)) ka = Some i \<longrightarrow> (h(k := None)) k' = Some i \<longrightarrow> ka = k'"
    using ok unfolding index_map_ok_def by auto
  show "\<forall>j<n. d' j \<or> c \<le> j \<or> (\<exists>ka. (h(k := None)) ka = Some j)"
    using ok k d' unfolding index_map_ok_def by (simp add: fun_upd_def) (metis option.inject)
  show "\<forall>ka j. (h(k := None)) ka = Some j \<longrightarrow> j < n \<and> j < c \<and> \<not> d' j"
    using ok k d' unfolding index_map_ok_def by (simp add: fun_upd_def) metis
  show "\<forall>j<n. c \<le> j \<longrightarrow> \<not> d' j"
    using ok k d' unfolding index_map_ok_def by (metis not_less)
qed

definition flags_ok :: "nat \<Rightarrow> ('b, 'v) pool \<Rightarrow> bool" where
  "flags_ok n p \<longleftrightarrow>
     (pl_failed p \<or> Flagging \<in> set (pl_workers p) \<longrightarrow> (\<exists>i < n. pl_errors p ! i \<noteq> None)) \<and>
     (Stopped \<in> set (pl_workers p) \<longrightarrow> pl_failed p \<or> n \<le> pl_cursor p)"

definition pool_ok :: "nat \<Rightarrow> ('b, 'v) pool \<Rightarrow> bool" where
  "pool_ok n p \<longleftrightarrow> length (pl_slots p) = n \<and> length (pl_errors p) = n \<and>
     index_map_ok n (pl_cursor p) (holding p) (settled_index p) \<and> flags_ok n p"

lemma pool_ok_new: "pool_ok n (pool_new n threads)"
  by (auto simp: pool_ok_def pool_new_def index_map_ok_def flags_ok_def settled_index_def holding_def)

section \<open>Every step keeps the invariant\<close>

lemma holding_put_worker:
  "k < length (pl_workers p) \<Longrightarrow> holding (put_worker k x p) = (holding p)(k := held x)"
  by (auto simp: holding_def put_worker_def nth_list_update)

lemma put_worker_fields [simp]:
  "pl_cursor (put_worker k x p) = pl_cursor p" "pl_failed (put_worker k x p) = pl_failed p"
  "pl_slots (put_worker k x p) = pl_slots p" "pl_errors (put_worker k x p) = pl_errors p"
  "length (pl_workers (put_worker k x p)) = length (pl_workers p)"
  "settled_index (put_worker k x p) = settled_index p"
  by (simp_all add: put_worker_def settled_index_def fun_eq_iff)

lemma put_worker_member:
  "y \<in> set (pl_workers (put_worker k x p)) \<Longrightarrow> y = x \<or> y \<in> set (pl_workers p)"
  using set_update_subset_insert [of "pl_workers p" k x] by (auto simp: put_worker_def)

text \<open>A worker that keeps its index or its lack of one.\<close>

lemma pool_ok_same:
  assumes "pool_ok n p" "k < length (pl_workers p)" "held x = held (pl_workers p ! k)" "x \<noteq> Flagging"
    and "x = Stopped \<Longrightarrow> pl_failed p \<or> n \<le> pl_cursor p"
  shows "pool_ok n (put_worker k x p)"
proof -
  have "(holding p)(k := held x) = holding p" using assms(2, 3) by (auto simp: holding_def)
  then show ?thesis
    using assms put_worker_member [of _ k x p]
    by (auto simp: pool_ok_def holding_put_worker flags_ok_def)
qed

lemma flags_ok_put:
  assumes "flags_ok n p" and same: "pl_workers q = pl_workers p" "pl_failed q = pl_failed p" "pl_cursor p \<le> pl_cursor q"
    and errors: "\<And>i. i < n \<Longrightarrow> pl_errors p ! i \<noteq> None \<Longrightarrow> pl_errors q ! i \<noteq> None"
    and flag: "x = Flagging \<Longrightarrow> \<exists>i < n. pl_errors q ! i \<noteq> None"
    and stop: "x = Stopped \<Longrightarrow> pl_failed q \<or> n \<le> pl_cursor q"
  shows "flags_ok n (put_worker k x q)"
proof -
  have "\<exists>i < n. pl_errors q ! i \<noteq> None" if "pl_failed q \<or> Flagging \<in> set (pl_workers (put_worker k x q))"
    using that put_worker_member [of Flagging k x q] assms(1) same errors flag unfolding flags_ok_def by metis
  moreover have "pl_failed q \<or> n \<le> pl_cursor q" if "Stopped \<in> set (pl_workers (put_worker k x q))"
    using that put_worker_member [of Stopped k x q] assms(1) same stop unfolding flags_ok_def by (metis order_trans)
  ultimately show ?thesis unfolding flags_ok_def by simp
qed

lemma worker_step_ok:
  assumes ok: "pool_ok n p" and k: "k < length (pl_workers p)" "pl_workers p ! k = x"
  shows "pool_ok n (fst (worker_step T n k x (p, w)))"
proof (cases x)
  case Testing
  with ok k show ?thesis by (auto intro: pool_ok_same)
next
  case Taking
  let ?q = "p\<lparr>pl_cursor := Suc (pl_cursor p)\<rparr>"
  let ?x = "if pl_cursor p < n then Running (pl_cursor p) (t_start T (pl_cursor p)) else Stopped"
  have q: "holding ?q = holding p" "settled_index ?q = settled_index p" "length (pl_workers ?q) = length (pl_workers p)"
    by (simp_all add: holding_def settled_index_def fun_eq_iff)
  have free: "holding p k = None" using k Taking by (simp add: holding_def)
  have "index_map_ok n (pl_cursor p + 1) ((holding p)(k := held ?x)) (settled_index p)"
    using ok free index_map_take index_map_skip [of n "pl_cursor p" "holding p"]
    by (auto simp: pool_ok_def fun_upd_idem)
  moreover have "flags_ok n (put_worker k ?x ?q)"
    by (rule flags_ok_put [of n p]) (use ok in \<open>auto simp: pool_ok_def split: if_splits\<close>)
  ultimately show ?thesis
    using ok k Taking by (simp add: pool_ok_def q holding_put_worker Let_def split: if_splits)
next
  case (Running i b)
  have h: "holding p k = Some i" using k Running by (simp add: holding_def)
  then have i: "i < n" "\<not> settled_index p i" using ok by (auto simp: pool_ok_def index_map_ok_def)
  obtain r w' where step: "t_step T i b w = (r, w')" by fastforce
  show ?thesis
  proof (cases r)
    case (Inl b')
    with ok k Running step show ?thesis by (auto intro: pool_ok_same)
  next
    case (Inr res)
    show ?thesis
    proof (cases res)
      case (Inl e)
      with ok k Running step Inr show ?thesis by (auto intro: pool_ok_same)
    next
      case good: (Inr v)
      let ?q = "p\<lparr>pl_slots := (pl_slots p)[i := Some v]\<rparr>"
      have "index_map_ok n (pl_cursor p) ((holding p)(k := None)) (settled_index ?q)"
        by (rule index_map_settle [of _ _ _ "settled_index p"]) (use ok h i in \<open>auto simp: pool_ok_def settled_index_def\<close>)
      moreover have "holding ?q = holding p" by (simp add: holding_def fun_eq_iff)
      moreover have "flags_ok n (put_worker k Testing ?q)"
        by (rule flags_ok_put [of n p]) (use ok in \<open>auto simp: pool_ok_def\<close>)
      ultimately show ?thesis
        using ok k Running step Inr good by (simp add: pool_ok_def holding_put_worker)
    qed
  qed
next
  case (Failing i e)
  have h: "holding p k = Some i" using k Failing by (simp add: holding_def)
  then have i: "i < n" using ok by (auto simp: pool_ok_def index_map_ok_def)
  let ?q = "p\<lparr>pl_errors := (pl_errors p)[i := Some e]\<rparr>"
  have "index_map_ok n (pl_cursor p) ((holding p)(k := None)) (settled_index ?q)"
    by (rule index_map_settle [of _ _ _ "settled_index p"]) (use ok h i in \<open>auto simp: pool_ok_def settled_index_def\<close>)
  moreover have "holding ?q = holding p" by (simp add: holding_def fun_eq_iff)
  moreover have "flags_ok n (put_worker k Flagging ?q)"
    by (rule flags_ok_put [of n p]) (use ok i in \<open>auto simp: pool_ok_def nth_list_update\<close>)
  ultimately show ?thesis
    using ok k Failing by (simp add: pool_ok_def holding_put_worker)
next
  case Flagging
  have h: "holding p k = None" using k Flagging by (simp add: holding_def)
  let ?q = "p\<lparr>pl_failed := True\<rparr>"
  have "Flagging \<in> set (pl_workers p)" using k(2) [unfolded Flagging] nth_mem [OF k(1)] by simp
  then have "\<exists>i < n. pl_errors p ! i \<noteq> None" using ok by (auto simp: pool_ok_def flags_ok_def)
  then have "flags_ok n (put_worker k Testing ?q)" by (auto simp: flags_ok_def)
  moreover have "holding ?q = holding p" "settled_index ?q = settled_index p"
    by (simp_all add: holding_def settled_index_def fun_eq_iff)
  ultimately show ?thesis
    using ok k Flagging h by (simp add: pool_ok_def holding_put_worker fun_upd_idem)
next
  case Stopped
  with ok show ?thesis by simp
qed

lemma pool_run_ok:
  assumes "pool_run T n env (p0, w0) m s" "pool_ok n p0"
  shows "pool_ok n (fst s)"
  using assms
proof (induction m s rule: pool_run.induct)
  case (work m s k x)
  then show ?case using worker_step_ok [of n "fst s" k x T "snd s"] by simp
qed auto

text \<open>When the threads are joined, every index has its value or its exception.\<close>

lemma joined_settled:
  assumes ok: "pool_ok n p" and joined: "pool_joined p" and some: "pl_workers p \<noteq> []" and "i < n"
    and no_errors: "\<forall>j < n. pl_errors p ! j = None"
  shows "pl_slots p ! i \<noteq> None"
proof -
  have stopped: "x = Stopped" if "x \<in> set (pl_workers p)" for x
    using joined that by (cases x) (force simp: pool_joined_def list_all_iff)+
  then have "held (pl_workers p ! k) = None" if "k < length (pl_workers p)" for k
    using stopped [OF nth_mem [OF that]] by simp
  then have "holding p k = None" for k by (simp add: holding_def)
  moreover have "Stopped \<in> set (pl_workers p)" using some stopped by (cases "pl_workers p") auto
  then have "n \<le> pl_cursor p" using ok no_errors by (auto simp: pool_ok_def flags_ok_def)
  ultimately have "settled_index p i" using ok \<open>i < n\<close> by (auto simp: pool_ok_def index_map_ok_def)
  with no_errors \<open>i < n\<close> show ?thesis by (auto simp: settled_index_def)
qed

text \<open>A pool that is not joined can go on.\<close>

lemma pool_progress:
  assumes "pool_run T n env s0 m (p, w)"
  shows "pool_joined p \<or> (\<exists>s. pool_run T n env s0 (Suc m) s)"
proof (cases "pool_joined p")
  case False
  then obtain k where "k < length (pl_workers p)" "pl_workers p ! k \<noteq> Stopped"
    by (auto simp: pool_joined_def list_all_iff in_set_conv_nth split: worker.splits)
  with pool_run.work [OF assms, of k] have "pool_run T n env s0 (Suc m) (worker_step T n k (pl_workers p ! k) (p, w))"
    by simp
  then show ?thesis by blast
qed simp

end
