(* ===== verification/Batch_Task.thy ===== *)
theory Batch_Task
  imports Batch_Pool
begin

text \<open>
  The contract of the body that a pool runs, whatever the body is: an invariant of its local state
  that the rest of the world respects, and the promise on the value it gives.  Every run of a
  pool then keeps these promises for its slots; with a measure on the body a run is also bounded.
\<close>

locale pool_task =
  fixes T :: "('b, 'v, 'w) task"
    and n :: nat
    and env :: "'w \<Rightarrow> 'w \<Rightarrow> bool"
    and reached :: "'w \<Rightarrow> bool"
    and body_ok :: "nat \<Rightarrow> 'b \<Rightarrow> 'w \<Rightarrow> bool"
    and promised :: "nat \<Rightarrow> 'v \<Rightarrow> bool"
  assumes reached_env: "reached w \<Longrightarrow> env w w' \<Longrightarrow> reached w'"
    and body_env: "body_ok i b w \<Longrightarrow> env w w' \<Longrightarrow> body_ok i b w'"
    and env_refl: "env w w"
    and body_start: "reached w \<Longrightarrow> i < n \<Longrightarrow> body_ok i (t_start T i) w"
    and step_env: "reached w \<Longrightarrow> body_ok i b w \<Longrightarrow> t_step T i b w = (r, w') \<Longrightarrow> env w w'"
    and step_body: "reached w \<Longrightarrow> i < n \<Longrightarrow> body_ok i b w \<Longrightarrow> t_step T i b w = (Inl b', w') \<Longrightarrow> body_ok i b' w'"
    and step_value: "reached w \<Longrightarrow> i < n \<Longrightarrow> body_ok i b w \<Longrightarrow> t_step T i b w = (Inr (Inr v), w') \<Longrightarrow> promised i v"
begin

definition bodies_ok :: "('b, 'v) pool \<times> 'w \<Rightarrow> bool" where
  "bodies_ok s \<longleftrightarrow> reached (snd s) \<and>
     (\<forall>i b. Running i b \<in> set (pl_workers (fst s)) \<longrightarrow> body_ok i b (snd s)) \<and>
     (\<forall>i v. i < length (pl_slots (fst s)) \<longrightarrow> pl_slots (fst s) ! i = Some v \<longrightarrow> promised i v)"

lemma bodies_ok_new: "reached w \<Longrightarrow> bodies_ok (pool_new m threads, w)"
  by (auto simp: bodies_ok_def pool_new_def)

lemma bodies_ok_env: "bodies_ok (p, w) \<Longrightarrow> env w w' \<Longrightarrow> bodies_ok (p, w')"
  unfolding bodies_ok_def by (auto intro: reached_env body_env)

lemma bodies_ok_put:
  assumes "bodies_ok (p, w)" "env w w'" "pl_slots q = pl_slots p" "pl_workers q = pl_workers p"
    and "\<And>i b. x = Running i b \<Longrightarrow> body_ok i b w'"
  shows "bodies_ok (put_worker k x q, w')"
proof -
  have "body_ok i b w'" if "Running i b \<in> set (pl_workers (put_worker k x q))" for i b
    using put_worker_member [OF that] assms(4, 5) bodies_ok_env [OF assms(1, 2)] unfolding bodies_ok_def by auto
  with bodies_ok_env [OF assms(1, 2)] assms(3) show ?thesis unfolding bodies_ok_def by simp
qed

lemma running_member:
  "k < length (pl_workers p) \<Longrightarrow> pl_workers p ! k = x \<Longrightarrow> x \<in> set (pl_workers p)"
  by auto

lemma bodies_ok_step:
  assumes ok: "bodies_ok (p, w)" and pool: "pool_ok n p" and k: "k < length (pl_workers p)" "pl_workers p ! k = x"
  shows "bodies_ok (worker_step T n k x (p, w))"
proof (cases x)
  case (Running i b)
  have body: "body_ok i b w" "reached w"
    using ok running_member [OF k] Running by (auto simp: bodies_ok_def)
  have "holding p k = Some i" using k Running by (simp add: holding_def)
  then have i: "i < n" using pool by (simp add: pool_ok_def index_map_ok_def)
  obtain r w' where step: "t_step T i b w = (r, w')" by fastforce
  note env = step_env [OF body(2, 1) step]
  show ?thesis
  proof (cases r)
    case (Inl b')
    with step have "body_ok i b' w'" using step_body [OF body(2) i body(1)] by simp
    with ok env Running step Inl show ?thesis by (auto intro: bodies_ok_put)
  next
    case (Inr res)
    show ?thesis
    proof (cases res)
      case (Inl e)
      with ok env Running step Inr show ?thesis by (auto intro: bodies_ok_put)
    next
      case good: (Inr v)
      with step Inr have v: "promised i v" using step_value [OF body(2) i body(1)] by simp
      have "bodies_ok (p\<lparr>pl_slots := (pl_slots p)[i := Some v]\<rparr>, w)"
        using ok v unfolding bodies_ok_def
          by (cases "i < length (pl_slots p)") (auto simp: nth_list_update split: if_splits)
      then have "bodies_ok (put_worker k Testing (p\<lparr>pl_slots := (pl_slots p)[i := Some v]\<rparr>), w')"
        by (rule bodies_ok_put [OF _ env]) simp_all
      with Running step Inr good show ?thesis by simp
    qed
  qed
next
  case Taking
  have "reached w" using ok by (simp add: bodies_ok_def)
  with body_start have "body_ok (pl_cursor p) (t_start T (pl_cursor p)) w" if "pl_cursor p < n" using that by blast
  with ok Taking env_refl show ?thesis by (auto simp: Let_def intro: bodies_ok_put)
qed (use ok env_refl in \<open>auto intro: bodies_ok_put\<close>)

text \<open>A run that has been joined without an exception has a promised value in every slot.\<close>

theorem joined_values:
  assumes run: "pool_run T n env (pool_new n threads, w0) m (p, w)" and "reached w0" and threads: "0 < threads"
    and joined: "pool_joined p" and result: "pool_result p = Inr vs"
  shows "length vs = n \<and> (\<forall>i < n. promised i (vs ! i))"
proof -
  have "pool_ok n (fst s) \<and> bodies_ok s \<and> length (pl_workers (fst s)) = threads" if "pool_run T n env (pool_new n threads, w0) m s" for s m
    using that
  proof (induction rule: pool_run.induct)
    case start
    have "length (pl_workers (pool_new n threads)) = threads" by (simp add: pool_new_def)
    with \<open>reached w0\<close> show ?case by (simp add: pool_ok_new bodies_ok_new)
  next
    case (work m s k x)
    obtain p w where s: "s = (p, w)" by fastforce
    have "length (pl_workers (fst (worker_step T n k x (p, w)))) = length (pl_workers p)"
      by (cases x) (auto simp: Let_def split: prod.splits sum.splits)
    with work s bodies_ok_step [of p w k x] worker_step_ok [of n p k x T w] show ?case by simp
  next
    case (world m p w w')
    then show ?case by (auto intro: bodies_ok_env)
  qed
  from this [OF run] have ok: "pool_ok n p" "bodies_ok (p, w)" "length (pl_workers p) = threads" by auto
  have none: "\<forall>j < n. pl_errors p ! j = None"
  proof (rule ccontr)
    assume "\<not> ?thesis"
    then have "List.find (\<lambda>e. e \<noteq> None) (pl_errors p) \<noteq> None"
      using ok(1) by (auto simp: find_None_iff pool_ok_def in_set_conv_nth)
    then obtain e where "List.find (\<lambda>e. e \<noteq> None) (pl_errors p) = Some e" "e \<noteq> None"
      by (auto simp: find_Some_iff)
    with result show False by (auto simp: pool_result_def)
  qed
  then have "List.find (\<lambda>e. e \<noteq> None) (pl_errors p) = None"
    using ok(1) by (auto simp: find_None_iff pool_ok_def in_set_conv_nth)
  with result have vs: "vs = map the (pl_slots p)" by (simp add: pool_result_def)
  have "pl_workers p \<noteq> []" using ok(3) threads by auto
  note settled = joined_settled [OF ok(1) joined this _ none]
  then show ?thesis
    using ok(1, 2) by (auto simp: vs pool_ok_def bodies_ok_def)
qed

end

text \<open>
  A body that is bounded.  A thread in state \<open>x\<close> has \<open>worker_left x\<close> steps to go before it takes its
  next index, and every index not taken yet is worth one round.
\<close>

locale bounded_task =
  fixes T :: "('b, 'v, 'w) task"
    and n :: nat
    and left :: "nat \<Rightarrow> 'b \<Rightarrow> nat"
    and most :: nat
  assumes left_start: "i < n \<Longrightarrow> left i (t_start T i) \<le> most"
    and left_step: "t_step T i b w = (Inl b', w') \<Longrightarrow> left i b' < left i b"
begin

fun worker_left :: "'b worker \<Rightarrow> nat" where
  "worker_left Testing = 3"
| "worker_left Taking = 2"
| "worker_left (Running i b) = left i b + 7"
| "worker_left (Failing i e) = 6"
| "worker_left Flagging = 5"
| "worker_left Stopped = 0"

definition pool_left :: "('b, 'v) pool \<Rightarrow> nat" where
  "pool_left p = (most + 8) * (n - pl_cursor p) + sum_list (map worker_left (pl_workers p))"

lemma pool_left_put:
  assumes "k < length (pl_workers p)" "pl_workers p ! k = x" "pl_workers q = pl_workers p"
  shows "pool_left (put_worker k y q) + worker_left x =
    (most + 8) * (n - pl_cursor q) + sum_list (map worker_left (pl_workers p)) + worker_left y"
proof -
  have "sum_list ((map worker_left (pl_workers p))[k := worker_left y]) + map worker_left (pl_workers p) ! k =
      sum_list (map worker_left (pl_workers p)) + worker_left y"
    using assms(1) elem_le_sum_list [of k "map worker_left (pl_workers p)"] by (simp add: sum_list_update)
  with assms show ?thesis by (simp add: pool_left_def put_worker_def map_update)
qed

lemma pool_left_less:
  assumes "k < length (pl_workers p)" "pl_workers p ! k = x" "pl_workers q = pl_workers p"
    and "pl_cursor q = pl_cursor p" "worker_left y < worker_left x"
  shows "pool_left (put_worker k y q) < pool_left p"
  using pool_left_put [OF assms(1-3), of y] assms(4, 5) by (simp add: pool_left_def)

lemma pool_left_taken:
  assumes k: "k < length (pl_workers p)" "pl_workers p ! k = Taking" and y: "worker_left y \<le> most + 7"
    and "pl_cursor p < n" "pl_workers q = pl_workers p" "pl_cursor q = Suc (pl_cursor p)"
  shows "pool_left (put_worker k y q) < pool_left p"
proof -
  define rest where "rest = (most + 8) * (n - Suc (pl_cursor p))"
  have "n - pl_cursor p = Suc (n - Suc (pl_cursor p))" using assms(4) by simp
  then have "pool_left p = most + 8 + rest + sum_list (map worker_left (pl_workers p))"
    unfolding pool_left_def rest_def by simp
  moreover have "pool_left (put_worker k y q) + 2 = rest + sum_list (map worker_left (pl_workers p)) + worker_left y"
    using pool_left_put [OF k assms(5), of y] assms(6) unfolding rest_def by simp
  ultimately show ?thesis using y by simp
qed

lemma pool_left_step:
  assumes k: "k < length (pl_workers p)" "pl_workers p ! k = x" and "x \<noteq> Stopped"
  shows "pool_left (fst (worker_step T n k x (p, w))) < pool_left p"
proof (cases x)
  case Taking
  show ?thesis
  proof (cases "pl_cursor p < n")
    case True
    with k Taking left_start [OF True] show ?thesis by (simp add: Let_def pool_left_taken)
  next
    case False
    with pool_left_put [of k p Taking "p\<lparr>pl_cursor := Suc (pl_cursor p)\<rparr>" Stopped] k Taking show ?thesis
      by (simp add: Let_def pool_left_def [of p])
  qed
next
  case (Running i b)
  obtain r w' where step: "t_step T i b w = (r, w')" by fastforce
  show ?thesis
  proof (cases r)
    case (Inl b')
    with step have "left i b' < left i b" by (simp add: left_step)
    with step Inl Running k show ?thesis by (simp add: pool_left_less)
  next
    case (Inr res)
    with step Running k show ?thesis by (cases res) (simp_all add: pool_left_less)
  qed
qed (use assms in \<open>simp_all add: pool_left_less\<close>)

lemma run_bounded:
  assumes "pool_run T n env (p0, w0) m s"
  shows "m + pool_left (fst s) \<le> pool_left p0"
  using assms
proof (induction m s rule: pool_run.induct)
  case (work m s k x)
  then show ?case using pool_left_step [of k "fst s" x "snd s"] by simp
qed auto

lemma new_run_bounded:
  "pool_run T n env (pool_new n threads, w0) m s \<Longrightarrow> m \<le> (most + 8) * n + 3 * threads"
  using run_bounded [of env "pool_new n threads" w0 m s]
  by (simp add: pool_left_def pool_new_def sum_list_replicate)

end

end
