(* ===== verification/Batch_Read.thy ===== *)
theory Batch_Read
  imports Batch_Task Object_Types
begin

text \<open>
  \<open>readObjectBatch\<close> of \<open>src/Objects/ObjectBatchRead.cpp\<close>: the sources of a batch are inspected one
  after the other against a common byte budget, then read by a pool of threads that check each
  source again after reading it.  The file system and the stop tokens are functions of the state
  of the world, which changes between any two steps.
\<close>

record source_identity =
  si_stamp :: string
  si_size :: u64

record ('p, 'w) batch_env =
  be_cancelled :: "nat \<Rightarrow> 'w \<Rightarrow> bool"   \<comment> \<open>the stop token of a file of the batch\<close>
  be_normal :: "'p \<Rightarrow> 'p"                \<comment> \<open>\<open>absolute\<close> and \<open>lexically_normal\<close>\<close>
  be_inspect :: "'p \<Rightarrow> 'w \<Rightarrow> (string, source_identity) result"
  be_opens :: "'p \<Rightarrow> 'w \<Rightarrow> bool"
  be_read :: "'p \<Rightarrow> nat \<Rightarrow> nat \<Rightarrow> 'w \<Rightarrow> byte list \<times> bool"  \<comment> \<open>offset, length; bytes got, and \<open>bad()\<close>\<close>

record 'p batch_source =
  bs_source :: 'p
  bs_identity :: source_identity

definition maximum_batch_files :: nat where "maximum_batch_files = 256"

definition maximum_batch_bytes :: u64 where "maximum_batch_bytes = 16 * 1024 * 1024"

definition packaging_cancelled :: string where
  "packaging_cancelled = ''object packaging cancelled''"

section \<open>Inspection\<close>

text \<open>\<open>ws i\<close> is the world when file \<open>i\<close> is looked at.\<close>

fun batch_prepare ::
    "('p, 'w) batch_env \<Rightarrow> (nat \<Rightarrow> 'w) \<Rightarrow> nat \<Rightarrow> u64 \<Rightarrow> 'p list \<Rightarrow> (string, 'p batch_source list) result" where
  "batch_prepare E ws i remaining [] = Inr []"
| "batch_prepare E ws i remaining (f # fs) =
     (if be_cancelled E i (ws i) then Inl packaging_cancelled
      else let source = be_normal E f
        in rbind (be_inspect E source (ws i)) (\<lambda>identity.
           if remaining < si_size identity then Inl ''object batch exceeds 16 MiB''
           else rbind (batch_prepare E ws (Suc i) (remaining - si_size identity) fs) (\<lambda>rest.
             Inr (\<lparr>bs_source = source, bs_identity = identity\<rparr> # rest))))"

definition thread_count :: "nat \<Rightarrow> nat \<Rightarrow> nat \<Rightarrow> nat" where
  "thread_count hardware concurrency files =
     min (min (if concurrency = 0 then max 1 hardware else concurrency) files) 64"

section \<open>Reading one source\<close>

datatype reader =
    Starting
  | Opening
  | Filling "byte list"    \<comment> \<open>the loop condition and the poll in it\<close>
  | Reading "byte list"    \<comment> \<open>one \<open>input.read\<close>\<close>
  | Closing "byte list"    \<comment> \<open>the poll after the loop\<close>
  | Verifying "byte list"

definition throw_at :: "string \<Rightarrow> 'w \<Rightarrow> ('b + (string, 'v) result) \<times> 'w" where
  "throw_at e w = (Inr (Inl e), w)"

fun read_step ::
    "('p, 'w) batch_env \<Rightarrow> 'p batch_source list \<Rightarrow> nat \<Rightarrow> reader \<Rightarrow> 'w \<Rightarrow>
     (reader + (string, byte list) result) \<times> 'w" where
  "read_step E prepared i Starting w =
     (if be_cancelled E i w then throw_at packaging_cancelled w else (Inl Opening, w))"
| "read_step E prepared i Opening w =
     (if be_opens E (bs_source (prepared ! i)) w then (Inl (Filling []), w)
      else throw_at ''cannot read object batch source'' w)"
| "read_step E prepared i (Filling acc) w =
     (if length acc < unat (si_size (bs_identity (prepared ! i)))
      then if be_cancelled E i w then throw_at packaging_cancelled w else (Inl (Reading acc), w)
      else (Inl (Closing acc), w))"
| "read_step E prepared i (Reading acc) w =
     (let len = min chunkBytes (unat (si_size (bs_identity (prepared ! i))) - length acc);
          (bytes, bad) = be_read E (bs_source (prepared ! i)) (length acc) len w
      in if bad \<or> length bytes \<noteq> len then throw_at ''object batch source changed or read failed'' w
         else (Inl (Filling (acc @ bytes)), w))"
| "read_step E prepared i (Closing acc) w =
     (if be_cancelled E i w then throw_at packaging_cancelled w else (Inl (Verifying acc), w))"
| "read_step E prepared i (Verifying acc) w =
     (case be_inspect E (bs_source (prepared ! i)) w of
        Inl e \<Rightarrow> throw_at e w
      | Inr identity \<Rightarrow>
          if identity \<noteq> bs_identity (prepared ! i) then throw_at ''object batch source changed during read'' w
          else (Inr (Inr acc), w))"

definition read_task :: "('p, 'w) batch_env \<Rightarrow> 'p batch_source list \<Rightarrow> (reader, byte list, 'w) task" where
  "read_task E prepared = \<lparr>t_start = (\<lambda>_. Starting), t_step = read_step E prepared\<rparr>"

text \<open>The batch up to the start of its threads.\<close>

definition batch_start ::
    "('p, 'w) batch_env \<Rightarrow> (nat \<Rightarrow> 'w) \<Rightarrow> 'p list \<Rightarrow> nat \<Rightarrow> nat \<Rightarrow>
     (string, 'p batch_source list \<times> (reader, byte list) pool) result" where
  "batch_start E ws files hardware concurrency =
     (if files = [] \<or> maximum_batch_files < length files then Inl ''invalid object batch read count''
      else rbind (batch_prepare E ws 0 maximum_batch_bytes files) (\<lambda>prepared.
        Inr (prepared, pool_new (length files) (thread_count hardware concurrency (length files)))))"

section \<open>What was inspected\<close>

lemma batch_prepare_Inr:
  assumes "batch_prepare E ws i remaining fs = Inr prepared"
  shows "length prepared = length fs \<and>
    (\<forall>j < length fs. bs_source (prepared ! j) = be_normal E (fs ! j) \<and>
       be_inspect E (bs_source (prepared ! j)) (ws (i + j)) = Inr (bs_identity (prepared ! j))) \<and>
    sum_list (map (\<lambda>p. unat (si_size (bs_identity p))) prepared) \<le> unat remaining"
  using assms
proof (induction fs arbitrary: i remaining prepared)
  case (Cons f fs)
  from Cons.prems obtain identity rest where parts:
    "be_inspect E (be_normal E f) (ws i) = Inr identity" "si_size identity \<le> remaining"
    "batch_prepare E ws (Suc i) (remaining - si_size identity) fs = Inr rest"
    "prepared = \<lparr>bs_source = be_normal E f, bs_identity = identity\<rparr> # rest"
    by (auto simp: Let_def rbind_Inr_iff split: if_splits)
  from Cons.IH [OF parts(3)] parts(1, 2, 4) show ?case
    by (auto simp: nth_Cons unat_sub word_le_nat_alt split: nat.splits)
qed simp

lemma thread_count_pos: "0 < files \<Longrightarrow> 0 < thread_count hardware concurrency files \<and> thread_count hardware concurrency files \<le> 64"
  by (auto simp: thread_count_def)

section \<open>The contents\<close>

text \<open>
  What the code relies on of \<open>ObjectSource::inspect\<close>: a source that is reported with the same stamp
  and size before and after did not change in between, so that a complete read in between gives
  bytes of the content it had, and the size is the length of the content.
\<close>

definition batch_laws :: "('p, 'w) batch_env \<Rightarrow> ('p \<Rightarrow> 'w \<Rightarrow> byte list) \<Rightarrow> ('w \<Rightarrow> 'w \<Rightarrow> bool) \<Rightarrow> bool" where
  "batch_laws E content change \<longleftrightarrow>
     (\<forall>p w identity. be_inspect E p w = Inr identity \<longrightarrow> length (content p w) = unat (si_size identity)) \<and>
     (\<forall>p w0 w1 w2 identity off len bytes.
        rtranclp change w0 w1 \<longrightarrow> rtranclp change w1 w2 \<longrightarrow>
        be_inspect E p w0 = Inr identity \<longrightarrow> be_inspect E p w2 = Inr identity \<longrightarrow>
        be_read E p off len w1 = (bytes, False) \<longrightarrow> length bytes = len \<longrightarrow>
        bytes = take len (drop off (content p w0)))"

lemma batch_law_read:
  "batch_laws E content change \<Longrightarrow> rtranclp change w0 w1 \<Longrightarrow> rtranclp change w1 w2 \<Longrightarrow>
   be_inspect E p w0 = Inr identity \<Longrightarrow> be_inspect E p w2 = Inr identity \<Longrightarrow>
   be_read E p off len w1 = (bytes, False) \<Longrightarrow> length bytes = len \<Longrightarrow> bytes = take len (drop off (content p w0))"
  unfolding batch_laws_def by blast

lemma batch_law_size:
  "batch_laws E content change \<Longrightarrow> be_inspect E p w = Inr identity \<Longrightarrow> length (content p w) = unat (si_size identity)"
  unfolding batch_laws_def by blast

text \<open>Worlds after the inspection of every source.\<close>

definition read_reached ::
    "('p, 'w) batch_env \<Rightarrow> ('p \<Rightarrow> 'w \<Rightarrow> byte list) \<Rightarrow> ('w \<Rightarrow> 'w \<Rightarrow> bool) \<Rightarrow> (nat \<Rightarrow> 'w) \<Rightarrow> 'p batch_source list \<Rightarrow> 'w \<Rightarrow> bool" where
  "read_reached E content change ws prepared w \<longleftrightarrow> batch_laws E content change \<and>
     (\<forall>i < length prepared. rtranclp change (ws i) w \<and>
        be_inspect E (bs_source (prepared ! i)) (ws i) = Inr (bs_identity (prepared ! i)))"

text \<open>What has been read is right if the source is still found unchanged at some later time.\<close>

definition read_prefix ::
    "('p, 'w) batch_env \<Rightarrow> ('p \<Rightarrow> 'w \<Rightarrow> byte list) \<Rightarrow> ('w \<Rightarrow> 'w \<Rightarrow> bool) \<Rightarrow> (nat \<Rightarrow> 'w) \<Rightarrow> 'p batch_source list \<Rightarrow>
     nat \<Rightarrow> byte list \<Rightarrow> 'w \<Rightarrow> bool" where
  "read_prefix E content change ws prepared i acc w \<longleftrightarrow>
     length acc \<le> unat (si_size (bs_identity (prepared ! i))) \<and>
     (\<forall>w'. rtranclp change w w' \<longrightarrow> be_inspect E (bs_source (prepared ! i)) w' = Inr (bs_identity (prepared ! i)) \<longrightarrow>
        acc = take (length acc) (content (bs_source (prepared ! i)) (ws i)))"

fun read_body_ok ::
    "('p, 'w) batch_env \<Rightarrow> ('p \<Rightarrow> 'w \<Rightarrow> byte list) \<Rightarrow> ('w \<Rightarrow> 'w \<Rightarrow> bool) \<Rightarrow> (nat \<Rightarrow> 'w) \<Rightarrow> 'p batch_source list \<Rightarrow>
     nat \<Rightarrow> reader \<Rightarrow> 'w \<Rightarrow> bool" where
  "read_body_ok E content change ws prepared i Starting w = True"
| "read_body_ok E content change ws prepared i Opening w = True"
| "read_body_ok E content change ws prepared i (Filling acc) w = read_prefix E content change ws prepared i acc w"
| "read_body_ok E content change ws prepared i (Reading acc) w = read_prefix E content change ws prepared i acc w"
| "read_body_ok E content change ws prepared i (Closing acc) w =
     (read_prefix E content change ws prepared i acc w \<and> length acc = unat (si_size (bs_identity (prepared ! i))))"
| "read_body_ok E content change ws prepared i (Verifying acc) w =
     (read_prefix E content change ws prepared i acc w \<and> length acc = unat (si_size (bs_identity (prepared ! i))))"

definition read_promised ::
    "('p \<Rightarrow> 'w \<Rightarrow> byte list) \<Rightarrow> (nat \<Rightarrow> 'w) \<Rightarrow> 'p batch_source list \<Rightarrow> nat \<Rightarrow> byte list \<Rightarrow> bool" where
  "read_promised content ws prepared i v \<longleftrightarrow> v = content (bs_source (prepared ! i)) (ws i)"

lemma read_prefix_later:
  "read_prefix E content change ws prepared i acc w \<Longrightarrow> rtranclp change w w' \<Longrightarrow> read_prefix E content change ws prepared i acc w'"
  unfolding read_prefix_def using rtranclp_trans [of change w w'] by blast

lemma read_prefix_nil: "read_prefix E content change ws prepared i [] w"
  by (simp add: read_prefix_def)

lemma read_prefix_more:
  assumes "read_reached E content change ws prepared w" "i < length prepared"
    and acc: "read_prefix E content change ws prepared i acc w"
    and read: "be_read E (bs_source (prepared ! i)) (length acc) len w = (bytes, False)"
    and len: "length bytes = len" "len \<le> unat (si_size (bs_identity (prepared ! i))) - length acc"
  shows "read_prefix E content change ws prepared i (acc @ bytes) w"
proof -
  let ?p = "bs_source (prepared ! i)" and ?id = "bs_identity (prepared ! i)"
  from assms(1, 2) have laws: "batch_laws E content change" and first: "rtranclp change (ws i) w" "be_inspect E ?p (ws i) = Inr ?id"
    by (auto simp: read_reached_def)
  have "acc @ bytes = take (length (acc @ bytes)) (content ?p (ws i))"
    if later: "rtranclp change w w'" "be_inspect E ?p w' = Inr ?id" for w'
  proof -
    have "acc = take (length acc) (content ?p (ws i))" using acc later by (auto simp: read_prefix_def)
    moreover have "bytes = take len (drop (length acc) (content ?p (ws i)))"
      by (rule batch_law_read [OF laws first(1) later(1) first(2) later(2) read len(1)])
    ultimately show ?thesis using len(1) by (simp add: take_add)
  qed
  moreover have "length acc \<le> unat (si_size ?id)" using acc by (simp add: read_prefix_def)
  with len have "length (acc @ bytes) \<le> unat (si_size ?id)" by simp
  ultimately show ?thesis unfolding read_prefix_def by blast
qed

lemma read_task_simps [simp]: "t_start (read_task E prepared) i = Starting" "t_step (read_task E prepared) = read_step E prepared"
  by (simp_all add: read_task_def)

lemma read_step_world: "read_step E prepared i b w = (r, w') \<Longrightarrow> w' = w"
  by (cases b) (auto simp: throw_at_def Let_def split: if_splits prod.splits sum.splits)

lemma read_step_body:
  assumes reached: "read_reached E content change ws prepared w" "i < length prepared"
    and body: "read_body_ok E content change ws prepared i b w" and step: "read_step E prepared i b w = (Inl b', w')"
  shows "read_body_ok E content change ws prepared i b' w'"
proof (cases b)
  case (Reading acc)
  let ?len = "min chunkBytes (unat (si_size (bs_identity (prepared ! i))) - length acc)"
  from step Reading obtain bytes where "be_read E (bs_source (prepared ! i)) (length acc) ?len w = (bytes, False)"
      "length bytes = ?len" "b' = Filling (acc @ bytes)" "w' = w"
    by (auto simp: throw_at_def Let_def split: if_splits prod.splits)
  with read_prefix_more [OF reached] body Reading show ?thesis by simp
next
  case Opening
  with step show ?thesis by (auto simp: throw_at_def read_prefix_nil split: if_splits)
next
  case (Filling acc)
  with step body show ?thesis by (auto simp: throw_at_def read_prefix_def split: if_splits)
qed (use step body in \<open>auto simp: throw_at_def split: if_splits sum.splits\<close>)

lemma read_step_value:
  assumes reached: "read_reached E content change ws prepared w" "i < length prepared"
    and body: "read_body_ok E content change ws prepared i b w" and step: "read_step E prepared i b w = (Inr (Inr v), w')"
  shows "read_promised content ws prepared i v"
proof -
  from step have b: "b = Verifying v" and same: "be_inspect E (bs_source (prepared ! i)) w = Inr (bs_identity (prepared ! i))"
    by (cases b; auto simp: throw_at_def Let_def split: if_splits prod.splits sum.splits)+
  from reached have "length (content (bs_source (prepared ! i)) (ws i)) = unat (si_size (bs_identity (prepared ! i)))"
    by (auto simp: read_reached_def intro: batch_law_size)
  moreover from body b same have "v = take (length v) (content (bs_source (prepared ! i)) (ws i))"
      "length v = unat (si_size (bs_identity (prepared ! i)))"
    by (auto simp: read_prefix_def)
  ultimately show ?thesis by (simp add: read_promised_def)
qed

interpretation batch_reader: pool_task "read_task E prepared" "length prepared" "rtranclp change"
  "read_reached E content change ws prepared" "read_body_ok E content change ws prepared" "read_promised content ws prepared"
  for E prepared content change ws
proof
  show "read_reached E content change ws prepared w'"
    if "read_reached E content change ws prepared w" "rtranclp change w w'" for w w'
    using that by (auto simp: read_reached_def)
  show "read_body_ok E content change ws prepared i b w'"
    if "read_body_ok E content change ws prepared i b w" "rtranclp change w w'" for i b w w'
    using that by (cases b) (auto intro: read_prefix_later)
qed (auto dest: read_step_world intro: read_step_body read_step_value)

section \<open>Its end\<close>

definition chunks_left :: "nat \<Rightarrow> nat \<Rightarrow> nat" where
  "chunks_left sz got = (sz - got + chunkBytes - 1) div chunkBytes"

fun read_left :: "'p batch_source list \<Rightarrow> nat \<Rightarrow> reader \<Rightarrow> nat" where
  "read_left prepared i Starting = 2 * chunks_left (unat (si_size (bs_identity (prepared ! i)))) 0 + 5"
| "read_left prepared i Opening = 2 * chunks_left (unat (si_size (bs_identity (prepared ! i)))) 0 + 4"
| "read_left prepared i (Filling acc) = 2 * chunks_left (unat (si_size (bs_identity (prepared ! i)))) (length acc) + 3"
| "read_left prepared i (Reading acc) =
     (if length acc < unat (si_size (bs_identity (prepared ! i)))
      then 2 * chunks_left (unat (si_size (bs_identity (prepared ! i)))) (length acc) + 2 else 4)"
| "read_left prepared i (Closing acc) = 2"
| "read_left prepared i (Verifying acc) = 1"

lemma chunks_left_read:
  assumes "got < sz"
  shows "chunks_left sz got = Suc (chunks_left sz (got + min chunkBytes (sz - got)))"
proof -
  have pos: "0 < chunkBytes" by (simp add: chunkBytes_def)
  show ?thesis
  proof (cases "chunkBytes \<le> sz - got")
    case True
    then have "sz - got + chunkBytes - 1 = (sz - (got + chunkBytes) + chunkBytes - 1) + chunkBytes" using pos by simp
    then have "(sz - got + chunkBytes - 1) div chunkBytes = Suc ((sz - (got + chunkBytes) + chunkBytes - 1) div chunkBytes)"
      using pos by (simp only: div_add_self2)
    then show ?thesis unfolding chunks_left_def min_absorb1 [OF True] .
  next
    case False
    then have "sz - got + chunkBytes - 1 = (sz - got - 1) + chunkBytes" "sz - got - 1 < chunkBytes" using assms by simp_all
    then have "(sz - got + chunkBytes - 1) div chunkBytes = Suc 0"
      using pos by (simp only: div_add_self2 div_less)
    then show ?thesis using False assms by (simp add: chunks_left_def min_absorb2 chunkBytes_def)
  qed
qed

lemma chunks_left_none: "sz \<le> got \<Longrightarrow> chunks_left sz got = 0"
  by (simp add: chunks_left_def chunkBytes_def)

lemma read_step_left:
  assumes "read_step E prepared i b w = (Inl b', w')"
  shows "read_left prepared i b' < read_left prepared i b"
proof (cases b)
  case (Reading acc)
  let ?size = "unat (si_size (bs_identity (prepared ! i)))"
  from assms Reading obtain bytes where "length bytes = min chunkBytes (?size - length acc)" "b' = Filling (acc @ bytes)"
    by (auto simp: throw_at_def Let_def split: if_splits prod.splits)
  with Reading chunks_left_read [of "length acc" ?size] chunks_left_none [of ?size "length acc"] show ?thesis by simp
qed (use assms in \<open>auto simp: throw_at_def split: if_splits sum.splits\<close>)

definition read_most :: "'p batch_source list \<Rightarrow> nat" where
  "read_most prepared = 2 * Max (insert 0 (set (map (\<lambda>p. chunks_left (unat (si_size (bs_identity p))) 0) prepared))) + 5"

interpretation batch_reader_end: bounded_task "read_task E prepared" "length prepared" "read_left prepared" "read_most prepared"
  for E prepared
proof
  show "read_left prepared i (t_start (read_task E prepared) i) \<le> read_most prepared" if "i < length prepared" for i
    using that by (simp add: read_most_def)
qed (use read_step_left in auto)

text \<open>Sources within the budget of a batch have at most 16 chunks each.\<close>

lemma chunks_left_budget:
  assumes "sz \<le> 16 * chunkBytes"
  shows "chunks_left sz 0 \<le> 16"
proof -
  have "sz + chunkBytes - 1 < 17 * chunkBytes" using assms by (simp add: chunkBytes_def)
  then have "(sz + chunkBytes - 1) div chunkBytes < 17" by (rule less_mult_imp_div_less)
  then show ?thesis by (simp add: chunks_left_def)
qed

lemma read_most_budget:
  assumes "\<forall>p \<in> set prepared. unat (si_size (bs_identity p)) \<le> 16 * chunkBytes"
  shows "read_most prepared \<le> 37"
proof -
  have "Max (insert 0 (set (map (\<lambda>p. chunks_left (unat (si_size (bs_identity p))) 0) prepared))) \<le> 16"
    using assms chunks_left_budget by auto
  then show ?thesis by (simp add: read_most_def)
qed

section \<open>The batch\<close>

lemma batch_start_Inr:
  assumes "batch_start E ws files hardware concurrency = Inr (prepared, p0)"
  obtains "length prepared = length files" "length files \<le> 256" "p0 = pool_new (length prepared) (thread_count hardware concurrency (length prepared))"
    "0 < thread_count hardware concurrency (length prepared)" "thread_count hardware concurrency (length prepared) \<le> 64"
    "\<And>i. i < length files \<Longrightarrow> bs_source (prepared ! i) = be_normal E (files ! i) \<and>
       be_inspect E (be_normal E (files ! i)) (ws i) = Inr (bs_identity (prepared ! i))"
    "sum_list (map (\<lambda>p. unat (si_size (bs_identity p))) prepared) \<le> 16 * chunkBytes"
proof -
  from assms have files: "files \<noteq> []" "length files \<le> 256"
    and prepare: "batch_prepare E ws 0 maximum_batch_bytes files = Inr prepared"
    and p0: "p0 = pool_new (length files) (thread_count hardware concurrency (length files))"
    by (auto simp: batch_start_def rbind_Inr_iff maximum_batch_files_def split: if_splits)
  note facts = batch_prepare_Inr [OF prepare]
  then have "\<And>i. i < length files \<Longrightarrow> bs_source (prepared ! i) = be_normal E (files ! i) \<and>
       be_inspect E (be_normal E (files ! i)) (ws i) = Inr (bs_identity (prepared ! i))" by force
  moreover have "unat maximum_batch_bytes = 16 * chunkBytes" by (simp add: maximum_batch_bytes_def chunkBytes_def)
  ultimately show thesis using that files p0 facts thread_count_pos [of "length files" hardware concurrency] by simp
qed

lemma batch_read_joined:
  assumes start: "batch_start E ws files hardware concurrency = Inr (prepared, p0)"
    and laws: "batch_laws E content change" and order: "\<forall>i < length files. rtranclp change (ws i) w0"
    and run: "pool_run (read_task E prepared) (length files) (rtranclp change) (p0, w0) m (p, w)"
    and joined: "pool_joined p" and result: "pool_result p = Inr bytes"
  shows "length bytes = length files \<and> (\<forall>i < length files. bytes ! i = content (be_normal E (files ! i)) (ws i)) \<and>
    sum_list (map length bytes) \<le> 16 * 1024 * 1024"
proof (rule batch_start_Inr [OF start])
  assume b: "length prepared = length files" "p0 = pool_new (length prepared) (thread_count hardware concurrency (length prepared))"
    "0 < thread_count hardware concurrency (length prepared)"
    and inspected: "\<And>i. i < length files \<Longrightarrow> bs_source (prepared ! i) = be_normal E (files ! i) \<and>
       be_inspect E (be_normal E (files ! i)) (ws i) = Inr (bs_identity (prepared ! i))"
    and budget: "sum_list (map (\<lambda>p. unat (si_size (bs_identity p))) prepared) \<le> 16 * chunkBytes"
  have reached: "read_reached E content change ws prepared w0"
    using laws order inspected b(1) by (auto simp: read_reached_def)
  have got: "length bytes = length prepared" "\<And>i. i < length prepared \<Longrightarrow> read_promised content ws prepared i (bytes ! i)"
    using batch_reader.joined_values [OF run [unfolded b(2) b(1) [symmetric]] reached b(3) joined result] by auto
  have content: "bytes ! i = content (be_normal E (files ! i)) (ws i)" if "i < length files" for i
    using got(2) [of i] inspected [OF that] that b(1) by (simp add: read_promised_def)
  have "map length bytes = map (\<lambda>p. unat (si_size (bs_identity p))) prepared"
  proof (rule nth_equalityI)
    fix i assume "i < length (map length bytes)"
    with got(1) b(1) have i: "i < length files" by simp
    with content [OF i] inspected [OF i] batch_law_size [OF laws, of "be_normal E (files ! i)" "ws i"] b(1) got(1)
    show "map length bytes ! i = map (\<lambda>p. unat (si_size (bs_identity p))) prepared ! i" by simp
  qed (simp add: got(1))
  with budget got(1) b(1) content show ?thesis by (simp add: chunkBytes_def)
qed

lemma batch_read_bounded:
  assumes start: "batch_start E ws files hardware concurrency = Inr (prepared, p0)"
    and run: "pool_run (read_task E prepared) (length files) env (p0, w0) m s"
  shows "m \<le> 45 * length files + 3 * 64"
proof (rule batch_start_Inr [OF start])
  assume b: "length prepared = length files" "p0 = pool_new (length prepared) (thread_count hardware concurrency (length prepared))"
    "thread_count hardware concurrency (length prepared) \<le> 64"
    and budget: "sum_list (map (\<lambda>p. unat (si_size (bs_identity p))) prepared) \<le> 16 * chunkBytes"
  have "unat (si_size (bs_identity p)) \<le> 16 * chunkBytes" if "p \<in> set prepared" for p
    using budget member_le_sum_list [of "unat (si_size (bs_identity p))" "map (\<lambda>p. unat (si_size (bs_identity p))) prepared"] that
    by force
  then have most: "read_most prepared \<le> 37" by (intro read_most_budget) simp
  have "m \<le> (read_most prepared + 8) * length prepared + 3 * thread_count hardware concurrency (length prepared)"
    using batch_reader_end.new_run_bounded run b(1, 2) by (metis surj_pair)
  also have "\<dots> \<le> 45 * length prepared + 3 * 64"
    using most b(3) by (intro add_mono mult_mono) auto
  finally show ?thesis by (simp add: b(1))
qed

end
