(* ===== verification/Batch_Properties.thy ===== *)
theory Batch_Properties
  imports Batch_Read
begin

text \<open>
  The claims about the concurrent reading of a batch, and a batch that is read to its end: one
  empty file, in a world that never changes, by one thread.
\<close>

section \<open>A sample batch\<close>

definition sample_batch_env :: "(nat, unit) batch_env" where
  "sample_batch_env = \<lparr>be_cancelled = (\<lambda>_ _. False), be_normal = (\<lambda>p. p),
     be_inspect = (\<lambda>_ _. Inr \<lparr>si_stamp = [], si_size = 1\<rparr>), be_opens = (\<lambda>_ _. True),
     be_read = (\<lambda>_ off len _. (take len (drop off [7]), False))\<rparr>"

definition no_change :: "unit \<Rightarrow> unit \<Rightarrow> bool" where
  "no_change w w' \<longleftrightarrow> False"

definition sample_prepared :: "nat batch_source list" where
  "sample_prepared = [\<lparr>bs_source = 5, bs_identity = \<lparr>si_stamp = [], si_size = 1\<rparr>\<rparr>]"

lemma sample_batch_start:
  "batch_start sample_batch_env (\<lambda>_. ()) [5] 8 0 = Inr (sample_prepared, pool_new 1 1)"
  by (simp add: batch_start_def maximum_batch_files_def sample_batch_env_def maximum_batch_bytes_def Let_def
      thread_count_def sample_prepared_def)


text \<open>The steps of the one thread, in their order.\<close>

definition sample_pool :: "reader worker \<Rightarrow> nat \<Rightarrow> byte list option \<Rightarrow> (reader, byte list) pool" where
  "sample_pool x c slot = \<lparr>pl_cursor = c, pl_failed = False, pl_slots = [slot], pl_errors = [None], pl_workers = [x]\<rparr>"

abbreviation sample_run :: "nat \<Rightarrow> (reader, byte list) pool \<Rightarrow> bool" where
  "sample_run m p \<equiv> pool_run (read_task sample_batch_env sample_prepared) 1 (rtranclp no_change) (pool_new 1 1, ()) m (p, ())"

lemma sample_run_step:
  assumes "sample_run m (sample_pool x c v)" "x \<noteq> Stopped"
    and "worker_step (read_task sample_batch_env sample_prepared) 1 0 x (sample_pool x c v, ()) = (sample_pool y d u, ())"
  shows "sample_run (Suc m) (sample_pool y d u)"
  using pool_run.work [OF assms(1), of 0 x] assms(2, 3) by (simp add: sample_pool_def)

lemmas sample_step_defs = sample_pool_def put_worker_def sample_batch_env_def sample_prepared_def chunkBytes_def

lemma sample_run_joined: "\<exists>m. sample_run m (sample_pool Stopped 2 (Some [7]))"
proof -
  have next_step: "\<exists>m. sample_run m (sample_pool y d u)" if "\<exists>m. sample_run m (sample_pool x c v)" "x \<noteq> Stopped"
    "worker_step (read_task sample_batch_env sample_prepared) 1 0 x (sample_pool x c v, ()) = (sample_pool y d u, ())"
    for x y c d v u
    using sample_run_step that by blast
  have "\<exists>m. sample_run m (sample_pool Testing 0 None)"
    using pool_run.start by (fastforce simp: sample_pool_def pool_new_def)
  then have "\<exists>m. sample_run m (sample_pool Taking 0 None)"
    by (rule next_step) (simp_all add: sample_step_defs)
  then have "\<exists>m. sample_run m (sample_pool (Running 0 Starting) 1 None)"
    by (rule next_step) (simp_all add: sample_step_defs)
  then have "\<exists>m. sample_run m (sample_pool (Running 0 Opening) 1 None)"
    by (rule next_step) (simp_all add: sample_step_defs)
  then have "\<exists>m. sample_run m (sample_pool (Running 0 (Filling [])) 1 None)"
    by (rule next_step) (simp_all add: sample_step_defs)
  then have "\<exists>m. sample_run m (sample_pool (Running 0 (Reading [])) 1 None)"
    by (rule next_step) (simp_all add: sample_step_defs)
  then have "\<exists>m. sample_run m (sample_pool (Running 0 (Filling [7])) 1 None)"
    by (rule next_step) (simp_all add: sample_step_defs)
  then have "\<exists>m. sample_run m (sample_pool (Running 0 (Closing [7])) 1 None)"
    by (rule next_step) (simp_all add: sample_step_defs)
  then have "\<exists>m. sample_run m (sample_pool (Running 0 (Verifying [7])) 1 None)"
    by (rule next_step) (simp_all add: sample_step_defs)
  then have "\<exists>m. sample_run m (sample_pool Testing 1 (Some [7]))"
    by (rule next_step) (simp_all add: sample_step_defs)
  then have "\<exists>m. sample_run m (sample_pool Taking 1 (Some [7]))"
    by (rule next_step) (simp_all add: sample_step_defs)
  then show ?thesis by (rule next_step) (simp_all add: sample_step_defs)
qed

section \<open>Claims\<close>



text \<open>
  C14: every run of a batch ends: its threads make at most 45 steps for each file and 192 more, and as
  long as one thread has not returned, a thread can make a step.
\<close>

theorem batch_terminates:
  assumes "batch_start E ws files hardware concurrency = Inr (prepared, p0)"
    and "pool_run (read_task E prepared) (length files) env (p0, w0) m (p, w)"
  shows "m \<le> 45 * length files + 192 \<and>
    (pool_joined p \<or> (\<exists>s. pool_run (read_task E prepared) (length files) env (p0, w0) (Suc m) s))"
proof
  show "m \<le> 45 * length files + 192" using batch_read_bounded [OF assms] by simp
  show "pool_joined p \<or> (\<exists>s. pool_run (read_task E prepared) (length files) env (p0, w0) (Suc m) s)"
    using pool_progress [OF assms(2)] .
qed

theorem batch_terminates_witness:
  "\<exists>m p. m \<le> 45 * length [5 :: nat] + 192 \<and> sample_run m p \<and> pool_joined p"
proof -
  let ?p = "sample_pool Stopped 2 (Some [7])"
  from sample_run_joined obtain m where m: "sample_run m ?p" ..
  with batch_terminates [OF sample_batch_start, of "rtranclp no_change" "()" m ?p "()"] have "m \<le> 45 * length [5 :: nat] + 192"
    by simp
  moreover have "pool_joined ?p" by (simp add: pool_joined_def sample_pool_def)
  ultimately show ?thesis using m by blast
qed

end
