(* ===== verification/Native_Time.thy ===== *)
theory Native_Time
  imports Prelude
begin

text \<open>
  Timestamps of author metadata (\<open>Native/src/Core/Authorship.cpp\<close>): the accepted ISO-8601
  shapes, their reading as an instant, and the canonical UTC text with millisecond
  precision.  \<open>std::chrono\<close>'s calendar is the proleptic Gregorian one; an instant is an
  \<open>int\<close>, milliseconds since 1970-01-01T00:00Z.
\<close>

datatype native_error =
    Invalid \<comment> \<open>\<open>std::invalid_argument\<close> of \<open>require\<close>\<close>
  | Json_Error \<comment> \<open>exceptions of nlohmann/json\<close>
  | Length_Error
  | Overflow_Error

abbreviation require :: "bool \<Rightarrow> (native_error, unit) result" where
  "require b \<equiv> require_that Invalid b"

section \<open>The calendar\<close>

definition leap :: "int \<Rightarrow> bool" where
  "leap y \<longleftrightarrow> 4 dvd y \<and> (\<not> 100 dvd y \<or> 400 dvd y)"

definition month_lengths :: "int \<Rightarrow> int list" where
  "month_lengths y = [31, if leap y then 29 else 28, 31, 30, 31, 30, 31, 31, 30, 31, 30, 31]"

definition date_ok :: "int \<Rightarrow> int \<Rightarrow> int \<Rightarrow> bool" where
  "date_ok y m d \<longleftrightarrow> 1 \<le> m \<and> m \<le> 12 \<and> 1 \<le> d \<and> d \<le> month_lengths y ! nat (m - 1)"

definition days_before_year :: "int \<Rightarrow> int" where
  "days_before_year y = 365 * y + (y + 3) div 4 - (y + 99) div 100 + (y + 399) div 400"

definition epoch_days :: int where
  "epoch_days = 719528"

definition sys_days :: "int \<Rightarrow> int \<Rightarrow> int \<Rightarrow> int" where
  "sys_days y m d =
     days_before_year y + sum_list (take (nat (m - 1)) (month_lengths y)) + (d - 1) - epoch_days"

definition year_of_day :: "int \<Rightarrow> int" where
  "year_of_day n =
     (let y = n * 400 div 146097
      in if n < days_before_year y then y - 1
         else if days_before_year (y + 1) \<le> n then y + 1 else y)"

fun split_months :: "int list \<Rightarrow> int \<Rightarrow> int \<Rightarrow> int \<times> int" where
  "split_months [] m n = (m, n + 1)"
| "split_months (l # ls) m n = (if n < l then (m, n + 1) else split_months ls (m + 1) (n - l))"

definition civil :: "int \<Rightarrow> int \<times> int \<times> int" where
  "civil days =
     (let n = days + epoch_days; y = year_of_day n
      in (y, split_months (month_lengths y) 1 (n - days_before_year y)))"

section \<open>Text of an instant\<close>

definition pad :: "nat \<Rightarrow> int \<Rightarrow> string" where
  "pad w n =
     (if n < 0 then CHR ''-'' # replicate (w - 1 - length (nat_to_string (nat (- n)))) CHR ''0'' @ nat_to_string (nat (- n))
      else replicate (w - length (nat_to_string (nat n))) CHR ''0'' @ nat_to_string (nat n))"

definition day_ms :: int where
  "day_ms = 86400000"

definition format_instant :: "int \<Rightarrow> string" where
  "format_instant i =
     (let (y, mo, d) = civil (i div day_ms); t = i mod day_ms
      in pad 4 y @ ''-'' @ pad 2 mo @ ''-'' @ pad 2 d @ ''T'' @ pad 2 (t div 3600000) @ '':'' @
         pad 2 (t div 60000 mod 60) @ '':'' @ pad 2 (t div 1000 mod 60) @ ''.'' @ pad 3 (t mod 1000) @ ''Z'')"

text \<open>The clock is an argument.\<close>

definition utcNow :: "int \<Rightarrow> string" where
  "utcNow clock = format_instant clock"

section \<open>Reading a timestamp\<close>

text \<open>\<open>std::from_chars\<close> into a 32-bit \<open>int\<close>, all characters consumed.\<close>

definition digits :: "string \<Rightarrow> (native_error, int) result" where
  "digits s =
     (let neg = s \<noteq> [] \<and> hd s = CHR ''-''; ds = (if neg then tl s else s);
          v = (if neg then - int (string_to_nat ds) else int (string_to_nat ds))
      in if ds \<noteq> [] \<and> list_all is_digit ds \<and> - 2147483648 \<le> v \<and> v \<le> 2147483647
         then Inr v else Inl Invalid)"

definition separator :: "nat \<Rightarrow> char option" where
  "separator i =
     (if i = 4 \<or> i = 7 then Some CHR ''-'' else if i = 10 then Some CHR ''T''
      else if i = 13 \<or> i = 16 then Some CHR '':'' else None)"

definition zone_shape :: "string \<Rightarrow> bool" where
  "zone_shape r =
     (if r = [] then False
      else if hd r = CHR ''Z'' then length r = 1
      else (hd r = CHR ''+'' \<or> hd r = CHR ''-'') \<and> length r = 6 \<and> r ! 3 = CHR '':'' \<and>
        is_digit (r ! 1) \<and> is_digit (r ! 2) \<and> is_digit (r ! 4) \<and> is_digit (r ! 5))"

definition timestampShape :: "string \<Rightarrow> bool" where
  "timestampShape raw =
     (if length raw < 20 \<or> length raw > 29 then False
      else if \<not> list_all (\<lambda>i. case separator i of Some c \<Rightarrow> raw ! i = c | None \<Rightarrow> is_digit (raw ! i)) [0..<19]
      then False
      else if raw ! 19 = CHR ''.''
      then (let n = length (takeWhile is_digit (drop 20 raw))
            in if n = 0 \<or> n > 3 then False else zone_shape (drop (20 + n) raw))
      else zone_shape (drop 19 raw))"

definition substr :: "string \<Rightarrow> nat \<Rightarrow> nat \<Rightarrow> string" where
  "substr s i n = take n (drop i s)"

text \<open>The fraction in milliseconds and the offset of the zone.\<close>

definition fraction :: "string \<Rightarrow> (native_error, int \<times> nat) result" where
  "fraction raw =
     (if raw ! 19 \<noteq> CHR ''.'' then Inr (0, 19)
      else let count = length (takeWhile (\<lambda>c. c \<notin> {CHR ''Z'', CHR ''+'', CHR ''-''}) (drop 20 raw))
        in rbind (digits (substr raw 20 count)) (\<lambda>ms.
           Inr (if count = 1 then ms * 100 else if count = 2 then ms * 10 else ms, 20 + count)))"

definition zone_minutes :: "string \<Rightarrow> nat \<Rightarrow> (native_error, int) result" where
  "zone_minutes raw offset =
     (if raw ! offset = CHR ''Z'' then Inr 0
      else rbind (digits (substr raw (offset + 1) 2)) (\<lambda>hours.
           rbind (digits (substr raw (offset + 4) 2)) (\<lambda>minutes.
           rbind (require (hours \<le> 23 \<and> minutes < 60)) (\<lambda>_.
           Inr ((hours * 60 + minutes) * (if raw ! offset = CHR ''+'' then 1 else - 1))))))"

definition read_instant :: "string \<Rightarrow> (native_error, int) result" where
  "read_instant raw =
     rbind (require (timestampShape raw)) (\<lambda>_.
     rbind (digits (substr raw 0 4)) (\<lambda>y.
     rbind (digits (substr raw 5 2)) (\<lambda>mo.
     rbind (digits (substr raw 8 2)) (\<lambda>d.
     rbind (digits (substr raw 11 2)) (\<lambda>h.
     rbind (digits (substr raw 14 2)) (\<lambda>m.
     rbind (digits (substr raw 17 2)) (\<lambda>s.
     rbind (require (date_ok y mo d \<and> h < 24 \<and> m < 60 \<and> s < 60)) (\<lambda>_.
     rbind (fraction raw) (\<lambda>(ms, offset).
     rbind (zone_minutes raw offset) (\<lambda>tz.
     Inr (sys_days y mo d * day_ms + h * 3600000 + (m - tz) * 60000 + s * 1000 + ms)))))))))))"

definition timestamp :: "string \<Rightarrow> (native_error, string) result" where
  "timestamp raw = rbind (read_instant raw) (\<lambda>i. Inr (format_instant i))"

section \<open>The calendar is a bijection\<close>

lemma div_step:
  fixes a k :: int
  assumes "0 < k"
  shows "(a + 1) div k = a div k + (if k dvd a + 1 then 1 else 0)"
proof -
  let ?q = "a div k" and ?r = "a mod k"
  have r: "0 \<le> ?r" "?r < k" "a + 1 = ?q * k + (?r + 1)" using assms by simp_all
  have dvd: "k dvd a + 1 \<longleftrightarrow> k dvd ?r + 1" by (metis dvd_add_right_iff dvd_triv_right r(3))
  show ?thesis
  proof (cases "?r + 1 = k")
    case True
    then have "a + 1 = (?q + 1) * k" using r(3) by (simp add: algebra_simps)
    then show ?thesis using assms by simp
  next
    case False
    then have "\<not> k dvd ?r + 1" using r(1,2) zdvd_not_zless [of "?r + 1" k] by linarith
    moreover have "(a + 1) div k = ?q" using r False by (intro int_div_pos_eq [of _ _ _ "?r + 1"]) auto
    ultimately show ?thesis using dvd by simp
  qed
qed

lemma days_before_next_year: "days_before_year (y + 1) = days_before_year y + (if leap y then 366 else 365)"
proof -
  have s: "(y + 1 + 3) div 4 = (y + 3) div 4 + (if 4 dvd y then 1 else 0)"
    "(y + 1 + 99) div 100 = (y + 99) div 100 + (if 100 dvd y then 1 else 0)"
    "(y + 1 + 399) div 400 = (y + 399) div 400 + (if 400 dvd y then 1 else 0)"
  proof -
    have e: "y + 1 + 3 = y + 3 + 1" "y + 1 + 99 = y + 99 + 1" "y + 1 + 399 = y + 399 + 1" by simp_all
    have m: "4 dvd y + 3 + 1 \<longleftrightarrow> 4 dvd y" "100 dvd y + 99 + 1 \<longleftrightarrow> 100 dvd y" "400 dvd y + 399 + 1 \<longleftrightarrow> 400 dvd y"
      by (simp_all add: add.assoc)
    show "(y + 1 + 3) div 4 = (y + 3) div 4 + (if 4 dvd y then 1 else 0)"
      unfolding e(1) by (subst m(1) [symmetric], rule div_step, simp)
    show "(y + 1 + 99) div 100 = (y + 99) div 100 + (if 100 dvd y then 1 else 0)"
      unfolding e(2) by (subst m(2) [symmetric], rule div_step, simp)
    show "(y + 1 + 399) div 400 = (y + 399) div 400 + (if 400 dvd y then 1 else 0)"
      unfolding e(3) by (subst m(3) [symmetric], rule div_step, simp)
  qed
  have d: "100 dvd y \<Longrightarrow> 4 dvd y" "400 dvd y \<Longrightarrow> 100 dvd y"
    using dvd_trans [of 4 100 y] dvd_trans [of 100 400 y] by simp_all
  have "days_before_year (y + 1) = days_before_year y + 365 + (if 4 dvd y then 1 else 0) -
      (if 100 dvd y then 1 else 0) + (if 400 dvd y then 1 else 0)"
    unfolding days_before_year_def s by (simp only: distrib_left)
  then show ?thesis
    using d by (cases "4 dvd y"; cases "100 dvd y"; cases "400 dvd y") (simp_all only: leap_def if_True if_False, auto)
qed

lemma days_before_year_mono: "y \<le> z \<Longrightarrow> days_before_year y \<le> days_before_year z"
proof (induction z rule: int_ge_induct)
  case (step z)
  then show ?case using days_before_next_year [of z] by (simp split: if_splits)
qed simp

lemma year_sum: "sum_list (month_lengths y) = (if leap y then 366 else 365)"
  by (simp add: month_lengths_def)

lemma year_of_day_bounds:
  "days_before_year (year_of_day n) \<le> n \<and> n < days_before_year (year_of_day n + 1)"
proof -
  define y where "y = n * 400 div 146097"
  have y: "146097 * y \<le> 400 * n" "400 * n < 146097 * y + 146097" unfolding y_def by linarith+
  have b: "x - k < k * (x div k) \<and> k * (x div k) \<le> x" if "0 < k" for x k :: int
    using that by (metis add_le_same_cancel1 diff_less_eq mult_div_mod_eq add.commute add_strict_left_mono
        pos_mod_bound pos_mod_sign le_add_same_cancel1)
  have "days_before_year (y - 1) \<le> n"
    using y b [of 4 "y - 1 + 3"] b [of 100 "y - 1 + 99"] b [of 400 "y - 1 + 399"]
    by (simp add: days_before_year_def)
  moreover have "n < days_before_year (y + 2)"
    using y b [of 4 "y + 2 + 3"] b [of 100 "y + 2 + 99"] b [of 400 "y + 2 + 399"]
    by (simp add: days_before_year_def)
  ultimately have "days_before_year (y - 1) \<le> n" "n < days_before_year (y + 2)" .
  then show ?thesis
    unfolding year_of_day_def Let_def y_def [symmetric] by (simp add: algebra_simps)
qed

lemma year_of_day_unique:
  assumes "days_before_year y \<le> n" "n < days_before_year (y + 1)"
  shows "year_of_day n = y"
proof (rule ccontr)
  assume "year_of_day n \<noteq> y"
  then consider "year_of_day n + 1 \<le> y" | "y + 1 \<le> year_of_day n" by linarith
  then show False
    using days_before_year_mono year_of_day_bounds [of n] assms by cases (meson le_less_trans not_le order_trans)+
qed

lemma split_months_sum:
  "k < length ls \<Longrightarrow> \<forall>l \<in> set ls. 0 \<le> l \<Longrightarrow> 0 \<le> n \<Longrightarrow> n < ls ! k \<Longrightarrow>
     split_months ls m (sum_list (take k ls) + n) = (m + int k, n + 1)" for n :: int
proof (induction ls arbitrary: k m)
  case (Cons l ls)
  show ?case
  proof (cases k)
    case (Suc j)
    then have "0 \<le> sum_list (take j ls)" using Cons.prems(2) by (intro sum_list_nonneg) (auto dest: in_set_takeD)
    then show ?thesis using Suc Cons.prems Cons.IH [of j "m + 1"] by simp
  qed (use Cons.prems in simp)
qed simp

lemma split_months_inv:
  "0 \<le> n \<Longrightarrow> n < sum_list ls \<Longrightarrow> \<exists>k d. split_months ls m n = (m + int k, d + 1) \<and> k < length ls \<and>
     0 \<le> d \<and> d < ls ! k \<and> n = sum_list (take k ls) + d" for n :: int
proof (induction ls arbitrary: m n)
  case (Cons l ls)
  show ?case
  proof (cases "n < l")
    case False
    with Cons.prems Cons.IH [of "n - l" "m + 1"] obtain k d where
      "split_months ls (m + 1) (n - l) = (m + 1 + int k, d + 1)" "k < length ls" "0 \<le> d" "d < ls ! k"
      "n - l = sum_list (take k ls) + d" by auto
    with False show ?thesis by (intro exI [of _ "Suc k"] exI [of _ d]) simp
  qed (use Cons.prems in \<open>intro exI [of _ 0] exI [of _ n], simp\<close>)
qed simp

lemma length_month_lengths [simp]: "length (month_lengths y) = 12"
  by (simp add: month_lengths_def)

lemma month_lengths_nonneg: "l \<in> set (month_lengths y) \<Longrightarrow> 0 \<le> l"
  by (auto simp: month_lengths_def split: if_splits)

lemma sum_take_less:
  fixes d :: int
  assumes "\<forall>l \<in> set ls. 0 \<le> l" "k < length ls" "d < ls ! k"
  shows "sum_list (take k ls) + d < sum_list ls"
proof -
  have "sum_list ls = sum_list (take k ls) + ls ! k + sum_list (drop (Suc k) ls)"
    by (metis assms(2) id_take_nth_drop sum_list.append sum_list.Cons add.assoc)
  moreover have "0 \<le> sum_list (drop (Suc k) ls)" using assms(1) by (intro sum_list_nonneg) (auto dest: in_set_dropD)
  ultimately show ?thesis using assms(3) by linarith
qed

lemma civil_sys_days:
  assumes "date_ok y m d" shows "civil (sys_days y m d) = (y, m, d)"
proof -
  let ?k = "nat (m - 1)" and ?ls = "month_lengths y"
  let ?s = "sum_list (take ?k ?ls)"
  have k: "?k < length ?ls" "0 \<le> d - 1" "d - 1 < ?ls ! ?k" using assms by (auto simp: date_ok_def)
  have s: "0 \<le> ?s" using month_lengths_nonneg by (intro sum_list_nonneg) (auto dest: in_set_takeD)
  have n: "sys_days y m d + epoch_days = days_before_year y + (?s + (d - 1))" by (simp add: sys_days_def)
  have "?s + (d - 1) < sum_list ?ls" using month_lengths_nonneg k by (intro sum_take_less) auto
  then have y: "year_of_day (days_before_year y + (?s + (d - 1))) = y"
    using k s days_before_next_year [of y] by (intro year_of_day_unique) (simp_all add: year_sum)
  have "split_months ?ls 1 (?s + (d - 1)) = (1 + int ?k, d - 1 + 1)"
    using k month_lengths_nonneg by (intro split_months_sum) auto
  then show ?thesis unfolding civil_def Let_def n y using assms by (simp add: date_ok_def)
qed

lemma civil_date_ok:
  obtains y m d where "civil n = (y, m, d)" "date_ok y m d" "sys_days y m d = n"
proof -
  let ?n = "n + epoch_days" let ?y = "year_of_day ?n" let ?ls = "month_lengths ?y"
  have "0 \<le> ?n - days_before_year ?y" "?n - days_before_year ?y < sum_list ?ls"
    using year_of_day_bounds [of ?n] days_before_next_year [of ?y] by (simp_all add: year_sum)
  from split_months_inv [OF this, of 1] obtain k d where
    kd: "split_months ?ls 1 (?n - days_before_year ?y) = (1 + int k, d + 1)" "k < length ?ls" "0 \<le> d" "d < ?ls ! k"
      "?n - days_before_year ?y = sum_list (take k ?ls) + d" by blast
  show ?thesis
    by (rule that [of ?y "1 + int k" "d + 1"]) (use kd in \<open>simp_all add: civil_def date_ok_def sys_days_def\<close>)
qed

section \<open>Canonical texts\<close>

definition dig :: "int \<Rightarrow> char" where
  "dig n = char_of (48 + nat n)"

lemma of_char_dig: "0 \<le> n \<Longrightarrow> n < 10 \<Longrightarrow> (of_char (dig n) :: nat) = 48 + nat n"
  by (simp add: dig_def)

lemma is_digit_dig [simp]: "0 \<le> n \<Longrightarrow> n < 10 \<Longrightarrow> is_digit (dig n)"
  by (simp add: is_digit_def of_char_dig)

lemma not_digit: "\<not> is_digit CHR ''-''" "\<not> is_digit CHR '':''" "\<not> is_digit CHR ''.''" "\<not> is_digit CHR ''Z''" "\<not> is_digit CHR ''+''"
  by (simp_all add: is_digit_def)

lemma dig_ne [simp]:
  assumes "0 \<le> n" "n < 10"
  shows "dig n \<noteq> CHR ''-''" "dig n \<noteq> CHR ''.''" "dig n \<noteq> CHR ''Z''" "dig n \<noteq> CHR ''+''"
  using is_digit_dig [OF assms] not_digit by metis+

lemma dig_less: "0 \<le> m \<Longrightarrow> n < 10 \<Longrightarrow> m < n \<Longrightarrow> dig m < dig n"
  by (simp add: less_char_def of_char_dig)

text \<open>\<open>fixed w n\<close>: the \<open>w\<close> decimal digits of \<open>n\<close>.\<close>

fun fixed :: "nat \<Rightarrow> int \<Rightarrow> string" where
  "fixed 0 n = []"
| "fixed (Suc w) n = fixed w (n div 10) @ [dig (n mod 10)]"

lemma length_fixed [simp]: "length (fixed w n) = w"
  by (induction w arbitrary: n) simp_all

lemma fixed_0: "fixed w 0 = replicate w CHR ''0''"
  by (induction w) (simp_all add: dig_def char_of_eq_iff take_bit_nat_eq_self replicate_append_same [symmetric])

lemma nat_to_string_length: "n < 10 ^ w \<Longrightarrow> 0 < w \<Longrightarrow> length (nat_to_string n) \<le> w"
proof (induction w arbitrary: n)
  case (Suc w)
  show ?case
  proof (cases "n < 10")
    case False
    then have "0 < w" using Suc.prems by (cases w) auto
    moreover have "n div 10 < 10 ^ w" using Suc.prems(1) by (simp add: less_mult_imp_div_less mult.commute)
    ultimately show ?thesis using Suc.IH False by (simp add: nat_to_string.simps [of n])
  qed (simp add: nat_to_string.simps [of n])
qed simp

lemma replicate_nat_to_string:
  "0 \<le> n \<Longrightarrow> n < 10 ^ w \<Longrightarrow> 0 < w \<Longrightarrow>
     replicate (w - length (nat_to_string (nat n))) CHR ''0'' @ nat_to_string (nat n) = fixed w n"
proof (induction w arbitrary: n)
  case (Suc w)
  show ?case
  proof (cases "n < 10")
    case True
    then have "nat n < 10" using Suc.prems(1) by simp
    then show ?thesis
      using True Suc.prems(1) by (simp add: nat_to_string.simps [of "nat n"] fixed_0 dig_def)
  next
    case False
    then have w: "0 < w" using Suc.prems by (cases w) auto
    have n: "nat (n div 10) = nat n div 10" "nat (n mod 10) = nat n mod 10" "\<not> nat n < 10"
      using Suc.prems(1) False by (simp_all add: nat_div_distrib nat_mod_distrib)
    have "0 \<le> n div 10" "n div 10 < 10 ^ w" using Suc.prems by (simp_all add: pos_imp_zdiv_nonneg_iff) 
    note IH = Suc.IH [OF this w]
    have e: "nat_to_string (nat n) = nat_to_string (nat (n div 10)) @ [dig (n mod 10)]"
      unfolding nat_to_string.simps [of "nat n"] dig_def n(1,2) using n(3) by (simp only: if_False)
    show ?thesis unfolding e fixed.simps IH [symmetric] by (simp only: length_append list.size append_assoc) simp
  qed
qed simp

lemma pad_fixed: "0 \<le> n \<Longrightarrow> n < 10 ^ w \<Longrightarrow> 0 < w \<Longrightarrow> pad w n = fixed w n"
  by (simp add: pad_def replicate_nat_to_string)

lemma fixed_2: "fixed 2 n = [dig (n div 10 mod 10), dig (n mod 10)]"
  and fixed_3: "fixed 3 n = [dig (n div 100 mod 10), dig (n div 10 mod 10), dig (n mod 10)]"
  and fixed_4: "fixed 4 n = [dig (n div 1000 mod 10), dig (n div 100 mod 10), dig (n div 10 mod 10), dig (n mod 10)]"
  by (simp_all add: numeral_eq_Suc div_mult2_eq [symmetric] flip: zdiv_zmult2_eq)

lemma string_to_nat_snoc: "string_to_nat (s @ [c]) = 10 * string_to_nat s + (of_char c - 48)"
  by simp

lemma string_to_nat_fixed: "0 \<le> n \<Longrightarrow> n < 10 ^ w \<Longrightarrow> string_to_nat (fixed w n) = nat n"
proof (induction w arbitrary: n)
  case (Suc w)
  then have "0 \<le> n div 10" "n div 10 < 10 ^ w" by (simp_all add: pos_imp_zdiv_nonneg_iff)
  note IH = Suc.IH [OF this]
  have "nat n = 10 * nat (n div 10) + nat (n mod 10)"
    using Suc.prems(1) by (simp add: nat_div_distrib nat_mod_distrib)
  then show ?case unfolding fixed.simps string_to_nat_snoc IH by (simp add: of_char_dig)
qed simp

lemma fixed_digits: "list_all is_digit (fixed w n)"
  by (induction w arbitrary: n) simp_all

lemma digits_fixed:
  assumes "0 \<le> n" "n < 10 ^ w" "0 < w" "w \<le> 9" shows "digits (fixed w n) = Inr n"
proof -
  have ne: "fixed w n \<noteq> []" using assms(3) by (cases w) simp_all
  have hd: "hd (fixed w n) \<noteq> CHR ''-''"
    using fixed_digits [of w n] ne not_digit(1) by (metis list.pred_set hd_in_set)
  have "(10 :: int) ^ w \<le> 10 ^ 9" using assms(4) by (intro power_increasing) simp_all
  then show ?thesis
    using assms(1,2) ne hd fixed_digits [of w n] string_to_nat_fixed [OF assms(1,2)]
    by (simp add: digits_def Let_def del: string_to_nat.simps)
qed

text \<open>The fields of an instant, in the order of the text.\<close>

definition instant_fields :: "int \<Rightarrow> int list" where
  "instant_fields i =
     (let (y, mo, d) = civil (i div day_ms); t = i mod day_ms
      in [y, mo, d, t div 3600000, t div 60000 mod 60, t div 1000 mod 60, t mod 1000])"

definition first_instant :: int where "first_instant = - epoch_days * day_ms"

definition end_instant :: int where "end_instant = 2932897 * day_ms"

definition canonical_instant :: "int \<Rightarrow> bool" where
  "canonical_instant i \<longleftrightarrow> first_instant \<le> i \<and> i < end_instant"

lemma month_length_le: "k < 12 \<Longrightarrow> month_lengths y ! k \<le> 31"
  by (cases "leap y") (simp_all add: month_lengths_def nth_Cons' )

lemma instant_fieldsE:
  assumes "canonical_instant i"
  obtains y mo d h m s ms where "instant_fields i = [y, mo, d, h, m, s, ms]"
    "i = sys_days y mo d * day_ms + h * 3600000 + m * 60000 + s * 1000 + ms"
    "format_instant i = fixed 4 y @ ''-'' @ fixed 2 mo @ ''-'' @ fixed 2 d @ ''T'' @ fixed 2 h @ '':'' @
       fixed 2 m @ '':'' @ fixed 2 s @ ''.'' @ fixed 3 ms @ ''Z''"
    "date_ok y mo d" "0 \<le> y" "y < 10000" "0 \<le> h" "h < 24" "0 \<le> m" "m < 60" "0 \<le> s" "s < 60" "0 \<le> ms" "ms < 1000"
proof -
  obtain y mo d where c: "civil (i div day_ms) = (y, mo, d)" "date_ok y mo d" "sys_days y mo d = i div day_ms"
    by (rule civil_date_ok)
  define t where "t = i mod day_ms"
  have t: "0 \<le> t" "t < 86400000" by (simp_all add: t_def day_ms_def)
  have y: "y = year_of_day (i div day_ms + epoch_days)"
    using c(1) by (auto simp: civil_def Let_def)
  have range: "0 \<le> i div day_ms + epoch_days" "i div day_ms + epoch_days < 3652425"
    using assms by (simp_all add: canonical_instant_def first_instant_def end_instant_def day_ms_def epoch_days_def) linarith+
  have b: "days_before_year y \<le> i div day_ms + epoch_days" "i div day_ms + epoch_days < days_before_year (y + 1)"
    unfolding y using year_of_day_bounds by blast+
  have y0: "0 \<le> y"
  proof (rule ccontr)
    assume "\<not> 0 \<le> y" then have "days_before_year (y + 1) \<le> days_before_year 0" by (intro days_before_year_mono) simp
    then show False using b range by (simp add: days_before_year_def)
  qed
  have y1: "y < 10000"
  proof (rule ccontr)
    assume "\<not> y < 10000" then have "days_before_year 10000 \<le> days_before_year y" by (intro days_before_year_mono) simp
    then show False using b range by (simp add: days_before_year_def)
  qed
  have "nat (mo - 1) < 12" using c(2) by (simp add: date_ok_def nat_less_iff)
  then have md: "0 \<le> mo" "mo < 100" "0 \<le> d" "d < 100"
    using c(2) month_length_le [of "nat (mo - 1)" y] by (simp_all add: date_ok_def)
  have f: "0 \<le> t div 3600000" "t div 3600000 < 24" "0 \<le> t div 60000 mod 60" "t div 60000 mod 60 < 60"
    "0 \<le> t div 1000 mod 60" "t div 1000 mod 60 < 60" "0 \<le> t mod 1000" "t mod 1000 < 1000"
    using t by (simp_all add: pos_imp_zdiv_nonneg_iff) 
  have sum: "t = t div 3600000 * 3600000 + t div 60000 mod 60 * 60000 + t div 1000 mod 60 * 1000 + t mod 1000"
  proof -
    have q: "t div 1000 div 60 = t div 60000" "t div 60000 div 60 = t div 3600000"
      by (simp_all add: zdiv_zmult2_eq [symmetric])
    have "t = t div 1000 * 1000 + t mod 1000" "t div 1000 = t div 60000 * 60 + t div 1000 mod 60"
      "t div 60000 = t div 3600000 * 60 + t div 60000 mod 60"
      unfolding q [symmetric] by simp_all
    then show ?thesis by linarith
  qed
  have A: "instant_fields i = [y, mo, d, t div 3600000, t div 60000 mod 60, t div 1000 mod 60, t mod 1000]"
      by (simp add: instant_fields_def c(1) t_def Let_def)
  have B: "i = sys_days y mo d * day_ms + t div 3600000 * 3600000 + t div 60000 mod 60 * 60000 + t div 1000 mod 60 * 1000 + t mod 1000"
    proof -
      have "i = i div day_ms * day_ms + t" by (simp add: t_def)
      then show ?thesis unfolding c(3) using sum by linarith
    qed
  have C: "format_instant i = fixed 4 y @ ''-'' @ fixed 2 mo @ ''-'' @ fixed 2 d @ ''T'' @ fixed 2 (t div 3600000) @ '':'' @
       fixed 2 (t div 60000 mod 60) @ '':'' @ fixed 2 (t div 1000 mod 60) @ ''.'' @ fixed 3 (t mod 1000) @ ''Z''"
  proof -
    have p: "pad 2 n = fixed 2 n" if "0 \<le> n" "n < 100" for n using that by (intro pad_fixed) simp_all
    have "pad 4 y = fixed 4 y" using y0 y1 by (intro pad_fixed) simp_all
    moreover have "pad 3 (t mod 1000) = fixed 3 (t mod 1000)" by (intro pad_fixed) simp_all
    moreover have "t div 3600000 < 100" "t div 60000 mod 60 < 100" "t div 1000 mod 60 < 100"
      using f by linarith+
    ultimately show ?thesis
      unfolding format_instant_def c(1) Let_def prod.case t_def [symmetric]
      by (simp only: p [OF md(1,2)] p [OF md(3,4)] p [OF f(1)] p [OF f(3)] p [OF f(5)])
  qed
  show ?thesis by (rule that [OF A B C c(2) y0 y1 f])
qed

lemma format_instant_chars:
  "fixed 4 y @ ''-'' @ fixed 2 mo @ ''-'' @ fixed 2 d @ ''T'' @ fixed 2 h @ '':'' @
     fixed 2 m @ '':'' @ fixed 2 s @ ''.'' @ fixed 3 ms @ ''Z'' =
   [dig (y div 1000 mod 10), dig (y div 100 mod 10), dig (y div 10 mod 10), dig (y mod 10), CHR ''-'',
    dig (mo div 10 mod 10), dig (mo mod 10), CHR ''-'', dig (d div 10 mod 10), dig (d mod 10), CHR ''T'',
    dig (h div 10 mod 10), dig (h mod 10), CHR '':'', dig (m div 10 mod 10), dig (m mod 10), CHR '':'',
    dig (s div 10 mod 10), dig (s mod 10), CHR ''.'', dig (ms div 100 mod 10), dig (ms div 10 mod 10),
    dig (ms mod 10), CHR ''Z'']"
  by (simp add: fixed_2 fixed_3 fixed_4)

lemma read_format_instant:
  assumes "canonical_instant i" shows "read_instant (format_instant i) = Inr i"
  using assms
proof (rule instant_fieldsE)
  fix y mo d h m s ms
  assume i: "i = sys_days y mo d * day_ms + h * 3600000 + m * 60000 + s * 1000 + ms"
    and f: "format_instant i = fixed 4 y @ ''-'' @ fixed 2 mo @ ''-'' @ fixed 2 d @ ''T'' @ fixed 2 h @ '':'' @
       fixed 2 m @ '':'' @ fixed 2 s @ ''.'' @ fixed 3 ms @ ''Z''"
    and r: "date_ok y mo d" "0 \<le> y" "y < 10000" "0 \<le> h" "h < 24" "0 \<le> m" "m < 60" "0 \<le> s" "s < 60" "0 \<le> ms" "ms < 1000"
  let ?t = "format_instant i"
  note cs = f [unfolded format_instant_chars]
  have "nat (mo - 1) < 12" using r(1) by (simp add: date_ok_def nat_less_iff)
  then have md: "0 \<le> mo" "mo < 100" "0 \<le> d" "d < 100"
    using r(1) month_length_le [of "nat (mo - 1)" y] by (simp_all add: date_ok_def)
  have sub: "substr ?t 0 4 = fixed 4 y" "substr ?t 5 2 = fixed 2 mo" "substr ?t 8 2 = fixed 2 d"
    "substr ?t 11 2 = fixed 2 h" "substr ?t 14 2 = fixed 2 m" "substr ?t 17 2 = fixed 2 s" "substr ?t 20 3 = fixed 3 ms"
    unfolding cs by (simp_all add: substr_def fixed_2 fixed_3 fixed_4)
  have shape: "timestampShape ?t"
    unfolding cs by (simp add: timestampShape_def separator_def zone_shape_def not_digit Let_def upt_rec)
  have fr: "fraction ?t = Inr (ms, 23)"
  proof -
    have "length (takeWhile (\<lambda>c. c \<notin> {CHR ''Z'', CHR ''+'', CHR ''-''}) (drop 20 ?t)) = 3"
      unfolding cs by simp
    moreover have "?t ! 19 = CHR ''.''" unfolding cs by simp
    ultimately show ?thesis using r(10,11) by (simp add: fraction_def sub digits_fixed)
  qed
  have z: "zone_minutes ?t 23 = Inr 0" unfolding cs by (simp add: zone_minutes_def)
  show ?thesis
    unfolding read_instant_def sub fr using shape r md z by (simp add: digits_fixed i)
qed

lemma timestamp_canonical:
  "timestamp raw = Inr t \<Longrightarrow> \<exists>i. read_instant raw = Inr i \<and> t = format_instant i"
  by (auto simp: timestamp_def rbind_Inr_iff)

section \<open>The order of texts is the order of instants\<close>

lemma fixed_mono: "0 \<le> a \<Longrightarrow> a < b \<Longrightarrow> b < 10 ^ w \<Longrightarrow> fixed w a < fixed w b"
proof (induction w arbitrary: a b)
  case (Suc w)
  show ?case
  proof (cases "a div 10 < b div 10")
    case True
    moreover have "0 \<le> a div 10" "b div 10 < 10 ^ w" using Suc.prems by (simp_all add: pos_imp_zdiv_nonneg_iff)
    ultimately have "fixed w (a div 10) < fixed w (b div 10)" by (rule_tac Suc.IH)
    then show ?thesis by (simp add: list_less_def lexord_sufI)
  next
    case False
    then have e: "a div 10 = b div 10" using Suc.prems by (meson linorder_cases not_less zdiv_mono1 order_less_imp_le zero_less_numeral antisym)
    then have "a mod 10 < b mod 10" using Suc.prems(2) by presburger
    then have "dig (a mod 10) < dig (b mod 10)" by (intro dig_less) simp_all
    then show ?thesis using e by (simp add: list_less_def lexord_append_leftI)
  qed
qed simp

lemma same_prefix_less: "x @ u < x @ v \<longleftrightarrow> u < v" for u :: "'a :: linorder list"
  by (induction x) simp_all

lemma fixed_app_less:
  assumes "0 \<le> a" "a < 10 ^ w" "0 \<le> b" "b < 10 ^ w"
  shows "fixed w a @ u < fixed w b @ v \<longleftrightarrow> a < b \<or> a = b \<and> u < v"
proof (cases a b rule: linorder_cases)
  case less
  then have "fixed w a @ u < fixed w b @ v"
    using fixed_mono [of a b w] assms by (simp add: list_less_def lexord_sufI)
  then show ?thesis using less by simp
next
  case greater
  then have "fixed w b @ v < fixed w a @ u"
    using fixed_mono [of b a w] assms by (simp add: list_less_def lexord_sufI)
  then show ?thesis using greater by auto
next
  case equal
  then show ?thesis by (simp add: same_prefix_less)
qed

lemma sys_days_less:
  assumes "date_ok y m d" "date_ok y' m' d'" "[y, m, d] < [y', m', d']"
  shows "sys_days y m d < sys_days y' m' d'"
proof -
  have part: "0 \<le> sum_list (take (nat (m - 1)) (month_lengths y)) + (d - 1)"
    "sum_list (take (nat (m - 1)) (month_lengths y)) + (d - 1) < sum_list (month_lengths y)"
    if "date_ok y m d" for y m d
    using that month_lengths_nonneg
    by (auto simp: date_ok_def intro!: add_nonneg_nonneg sum_list_nonneg sum_take_less dest: in_set_takeD)
  consider "y < y'" | "y = y'" "m < m'" | "y = y'" "m = m'" "d < d'" using assms(3) by auto
  then show ?thesis
  proof cases
    case 1
    then have "days_before_year (y + 1) \<le> days_before_year y'" by (intro days_before_year_mono) simp
    then show ?thesis
      using part [OF assms(1)] part [OF assms(2)] days_before_next_year [of y] by (simp add: sys_days_def year_sum)
  next
    case 2
    let ?ls = "month_lengths y" and ?k = "nat (m - 1)" and ?k' = "nat (m' - 1)"
    have k: "?k < ?k'" "?k' < length ?ls" using 2 assms(1,2) by (auto simp: date_ok_def)
    have "sum_list (take ?k (take ?k' ?ls)) + (d - 1) < sum_list (take ?k' ?ls)"
      using k assms(1) month_lengths_nonneg
      by (intro sum_take_less) (auto simp: date_ok_def dest: in_set_takeD)
    moreover have "take ?k (take ?k' ?ls) = take ?k ?ls" using k by simp
    ultimately show ?thesis using 2 assms(2) by (simp add: sys_days_def date_ok_def)
  qed (simp add: sys_days_def)
qed

lemma format_instant_less:
  assumes "canonical_instant i" "canonical_instant j"
  shows "format_instant i < format_instant j \<longleftrightarrow> i < j"
proof -
  have lex: "format_instant i < format_instant j \<longleftrightarrow> instant_fields i < instant_fields j"
    "instant_fields i < instant_fields j \<Longrightarrow> i < j" "instant_fields i = instant_fields j \<Longrightarrow> i = j"
    if i: "canonical_instant i" and j: "canonical_instant j" for i j
  proof -
    obtain y mo d h m s ms where I: "instant_fields i = [y, mo, d, h, m, s, ms]"
      "i = sys_days y mo d * day_ms + h * 3600000 + m * 60000 + s * 1000 + ms"
      "format_instant i = fixed 4 y @ ''-'' @ fixed 2 mo @ ''-'' @ fixed 2 d @ ''T'' @ fixed 2 h @ '':'' @
         fixed 2 m @ '':'' @ fixed 2 s @ ''.'' @ fixed 3 ms @ ''Z''"
      "date_ok y mo d" "0 \<le> y" "y < 10000" "0 \<le> h" "h < 24" "0 \<le> m" "m < 60" "0 \<le> s" "s < 60" "0 \<le> ms" "ms < 1000"
      using i by (rule instant_fieldsE)
    obtain y' mo' d' h' m' s' ms' where J: "instant_fields j = [y', mo', d', h', m', s', ms']"
      "j = sys_days y' mo' d' * day_ms + h' * 3600000 + m' * 60000 + s' * 1000 + ms'"
      "format_instant j = fixed 4 y' @ ''-'' @ fixed 2 mo' @ ''-'' @ fixed 2 d' @ ''T'' @ fixed 2 h' @ '':'' @
         fixed 2 m' @ '':'' @ fixed 2 s' @ ''.'' @ fixed 3 ms' @ ''Z''"
      "date_ok y' mo' d'" "0 \<le> y'" "y' < 10000" "0 \<le> h'" "h' < 24" "0 \<le> m'" "m' < 60" "0 \<le> s'" "s' < 60" "0 \<le> ms'" "ms' < 1000"
      using j by (rule instant_fieldsE)
    have small: "0 \<le> mo" "mo < 100" "0 \<le> d" "d < 100" if "date_ok y mo d" for y mo d
      using that month_length_le [of "nat (mo - 1)" y] by (auto simp: date_ok_def nat_less_iff)
    show "format_instant i < format_instant j \<longleftrightarrow> instant_fields i < instant_fields j"
      unfolding I(1,3) J(1,3) using I(4-) J(4-) small [OF I(4)] small [OF J(4)]
      by (simp add: fixed_app_less)
    show "i < j" if "instant_fields i < instant_fields j"
    proof (cases "[y, mo, d] < [y', mo', d']")
      case True
      from sys_days_less [OF I(4) J(4) this] show ?thesis
        using I(2,7-) J(2,7-) by (simp add: day_ms_def)
    next
      case False
      then have "y = y'" "mo = mo'" "d = d'" "[h, m, s, ms] < [h', m', s', ms']"
        using that unfolding I(1) J(1) by auto
      then show ?thesis using I(2,7-) J(2,7-) by auto
    qed
    show "i = j" if "instant_fields i = instant_fields j" using that I(2) J(2) unfolding I(1) J(1) by simp
  qed
  show ?thesis
    using lex [OF assms] lex [OF assms(2,1)] by (metis linorder_less_linear order_less_asym)
qed

end
