(* ===== verification/Native_Text.thy ===== *)
theory Native_Text
  imports Native_Time Json
begin

text \<open>
  Text of author metadata (\<open>Native/src/Core/Authorship.cpp\<close>): Unicode normalisation and
  trimming, the text members of JSON objects, URIs, time zones and service origins.  A
  \<open>std::string\<close> is its bytes, a \<open>string\<close>.  utf8proc, the numbers of nlohmann/json and the
  time zone database are the fields of \<open>native_library\<close>.
\<close>

datatype uc_category = Cat_CC | Cat_ZS | Cat_ZL | Cat_ZP | Cat_Other

record native_library = json_library +
  u_iterate :: "string \<Rightarrow> int \<times> nat" \<comment> \<open>\<open>utf8proc_iterate\<close>: length or error, code point\<close>
  u_map :: "bool \<Rightarrow> string \<Rightarrow> string option" \<comment> \<open>\<open>utf8proc_map\<close>, with \<open>UTF8PROC_COMPAT\<close>\<close>
  u_category :: "nat \<Rightarrow> uc_category"
  u_tolower :: "nat \<Rightarrow> nat"
  u_encode :: "nat \<Rightarrow> string"
  nl_real_is :: "string \<Rightarrow> int \<Rightarrow> bool" \<comment> \<open>a floating-point member compared with an integer\<close>
  zone_database :: "string \<Rightarrow> bool" \<comment> \<open>\<open>std::chrono::locate_zone\<close>\<close>
  zone_file :: "string \<Rightarrow> bool" \<comment> \<open>a regular file below a zoneinfo root\<close>

section \<open>Searching strings\<close>

definition index_of :: "('a \<Rightarrow> bool) \<Rightarrow> 'a list \<Rightarrow> nat option" where
  "index_of P s =
     (let n = length (takeWhile (\<lambda>c. \<not> P c) s) in if n < length s then Some n else None)"

definition last_index_of :: "('a \<Rightarrow> bool) \<Rightarrow> 'a list \<Rightarrow> nat option" where
  "last_index_of P s = map_option (\<lambda>n. length s - 1 - n) (index_of P (rev s))"

definition starts_with :: "'a list \<Rightarrow> 'a list \<Rightarrow> bool" where
  "starts_with p s \<longleftrightarrow> take (length p) s = p"

definition ends_with :: "'a list \<Rightarrow> 'a list \<Rightarrow> bool" where
  "ends_with p s \<longleftrightarrow> length p \<le> length s \<and> drop (length s - length p) s = p"

definition char_between :: "char \<Rightarrow> char \<Rightarrow> char \<Rightarrow> bool" where
  "char_between a b c \<longleftrightarrow> a \<le> c \<and> c \<le> b"

definition is_upper :: "char \<Rightarrow> bool" where
  "is_upper = char_between CHR ''A'' CHR ''Z''"

definition is_lower :: "char \<Rightarrow> bool" where
  "is_lower = char_between CHR ''a'' CHR ''z''"

definition is_alpha :: "char \<Rightarrow> bool" where
  "is_alpha c \<longleftrightarrow> is_upper c \<or> is_lower c"

definition is_alnum :: "char \<Rightarrow> bool" where
  "is_alnum c \<longleftrightarrow> is_alpha c \<or> is_digit c"

definition is_lower_hex :: "char \<Rightarrow> bool" where
  "is_lower_hex c \<longleftrightarrow> is_digit c \<or> char_between CHR ''a'' CHR ''f'' c"

definition is_xdigit :: "char \<Rightarrow> bool" where
  "is_xdigit c \<longleftrightarrow> is_lower_hex c \<or> char_between CHR ''A'' CHR ''F'' c"

definition is_space :: "char \<Rightarrow> bool" where
  "is_space c \<longleftrightarrow> c = CHR '' '' \<or> 9 \<le> (of_char c :: nat) \<and> (of_char c :: nat) \<le> 13"

section \<open>Unicode\<close>

function scalars :: "('b) native_library_scheme \<Rightarrow> string \<Rightarrow> (native_error, nat list) result" where
  "scalars L s =
     (if s = [] then Inr []
      else let (n, code) = u_iterate L s
        in if n \<le> 0 then Inl Invalid
           else rbind (scalars L (drop (nat n) s)) (\<lambda>cs. Inr (code # cs)))"
  by pat_completeness auto
termination
  by (relation "measure (\<lambda>(L, s). length s)") auto

declare scalars.simps [simp del]

definition normalize :: "('b) native_library_scheme \<Rightarrow> string \<Rightarrow> bool \<Rightarrow> bool \<Rightarrow> (native_error, string) result" where
  "normalize L input compatibility fold_case =
     rbind (of_option Invalid (u_map L compatibility input)) (\<lambda>output.
     if fold_case
     then rbind (scalars L output) (\<lambda>points. Inr (concat (map (\<lambda>point.
            if point = 0x130 then [CHR ''i'', CHR 0xCC, CHR 0x87]
            else u_encode L (u_tolower L point)) points)))
     else Inr output)"

definition whitespace :: "('b) native_library_scheme \<Rightarrow> nat \<Rightarrow> bool" where
  "whitespace L c \<longleftrightarrow>
     9 \<le> c \<and> c \<le> 13 \<or> c = 0x85 \<or> u_category L c = Cat_ZS \<or> c = 0x2028 \<or> c = 0x2029"

definition trim :: "('a \<Rightarrow> bool) \<Rightarrow> 'a list \<Rightarrow> 'a list" where
  "trim P xs = rev (dropWhile P (rev (dropWhile P xs)))"

definition point_ok :: "('b) native_library_scheme \<Rightarrow> bool \<Rightarrow> nat \<Rightarrow> bool" where
  "point_ok L multiline point \<longleftrightarrow>
     multiline \<and> point = 10 \<or> u_category L point \<notin> {Cat_CC, Cat_ZL, Cat_ZP}"

definition clean :: "('b) native_library_scheme \<Rightarrow> string \<Rightarrow> nat \<Rightarrow> bool \<Rightarrow> bool \<Rightarrow> (native_error, string) result" where
  "clean L s maximum required multiline =
     rbind (normalize L s False False) (\<lambda>value.
     rbind (scalars L value) (\<lambda>all.
     let points = trim (whitespace L) all
     in rbind (require (length points \<le> maximum \<and> (\<not> required \<or> points \<noteq> []))) (\<lambda>_.
        rbind (require (list_all (point_ok L multiline) points)) (\<lambda>_.
        Inr (concat (map (u_encode L) points))))))"

section \<open>Members of JSON objects\<close>

definition jat :: "json \<Rightarrow> string \<Rightarrow> (native_error, json) result" where
  "jat j k = of_option Json_Error (member j k)"

fun put :: "string \<Rightarrow> 'v \<Rightarrow> (string \<times> 'v) list \<Rightarrow> (string \<times> 'v) list" where
  "put k v [] = [(k, v)]"
| "put k v ((k', v') # kvs) =
     (if k = k' then (k, v) # kvs else if k < k' then (k, v) # (k', v') # kvs else (k', v') # put k v kvs)"

lemma map_of_put: "map_of (put k v kvs) k' = (if k = k' then Some v else map_of kvs k')"
  by (induction k v kvs rule: put.induct) auto

fun set_member :: "string \<Rightarrow> json \<Rightarrow> json \<Rightarrow> json" where
  "set_member k v (JObject kvs) = JObject (put k v kvs)"
| "set_member k v j = j"

fun json_string :: "json \<Rightarrow> (native_error, string) result" where
  "json_string (JString s) = Inr s"
| "json_string _ = Inl Json_Error"

text \<open>\<open>value(key, default)\<close>\<close>

fun value_or :: "json \<Rightarrow> string \<Rightarrow> json \<Rightarrow> (native_error, json) result" where
  "value_or (JObject kvs) k d = Inr (case map_of kvs k of None \<Rightarrow> d | Some v \<Rightarrow> v)"
| "value_or _ k d = Inl Json_Error"

fun is_string :: "json \<Rightarrow> bool" where
  "is_string (JString _) = True"
| "is_string _ = False"

fun number_is :: "('b) native_library_scheme \<Rightarrow> json \<Rightarrow> int \<Rightarrow> bool" where
  "number_is L (JInt m) n = (m = n)"
| "number_is L (JReal r) n = nl_real_is L r n"
| "number_is L _ n = False"

fun keys :: "json \<Rightarrow> string list \<Rightarrow> (native_error, unit) result" where
  "keys (JObject kvs) allowed = require (list_all (\<lambda>(k, v). k \<in> set allowed) kvs)"
| "keys _ allowed = Inl Invalid"

definition dump :: "('b) native_library_scheme \<Rightarrow> json \<Rightarrow> (native_error, string) result" where
  "dump L j = of_option Json_Error (nl_dump L j)"

definition text_member ::
  "('b) native_library_scheme \<Rightarrow> json \<Rightarrow> string \<Rightarrow> nat \<Rightarrow> bool \<Rightarrow> bool \<Rightarrow> (native_error, string) result" where
  "text_member L value name maximum required multiline =
     (case member value name of
        None \<Rightarrow> rbind (require (\<not> required)) (\<lambda>_. Inr [])
      | Some v \<Rightarrow>
          rbind (require (is_string v)) (\<lambda>_.
          rbind (json_string v) (\<lambda>s. clean L s maximum required multiline)))"

definition dateValue :: "string \<Rightarrow> json" where
  "dateValue value = (if value = [] then JNull else JString value)"

definition optionalDate :: "json \<Rightarrow> string \<Rightarrow> bool \<Rightarrow> (native_error, string) result" where
  "optionalDate value name required =
     (case member value name of
        None \<Rightarrow> rbind (require (\<not> required)) (\<lambda>_. Inr [])
      | Some JNull \<Rightarrow> rbind (require (\<not> required)) (\<lambda>_. Inr [])
      | Some v \<Rightarrow> rbind (require (is_string v)) (\<lambda>_. rbind (json_string v) timestamp))"

section \<open>URIs\<close>

definition percent_point :: "nat \<Rightarrow> nat" where
  "percent_point c = (if c \<ge> 0x80 then if c < 0x800 then 6 else if c < 0x10000 then 9 else 12 else 1)"

definition uri_points :: "('b) native_library_scheme \<Rightarrow> string \<Rightarrow> bool" where
  "uri_points L value =
     (case scalars L value of
        Inl _ \<Rightarrow> False
      | Inr points \<Rightarrow>
          list_all (\<lambda>c. \<not> (c \<le> 32 \<or> u_category L c = Cat_CC \<or> c = 0x2028 \<or> c = 0x2029)) points \<and>
          sum_list (map percent_point points) \<le> 8192)"

definition in_chars :: "string \<Rightarrow> char \<Rightarrow> bool" where
  "in_chars cs c \<longleftrightarrow> c \<in> set cs"

text \<open>The position of the colon, when the text before it is a scheme.\<close>

definition scheme_colon :: "string \<Rightarrow> nat option" where
  "scheme_colon value =
     (case index_of (\<lambda>c. c = CHR '':'') value of
        None \<Rightarrow> None
      | Some colon \<Rightarrow>
          (case index_of (in_chars ''/?#'') value of
             None \<Rightarrow> Some colon
           | Some path \<Rightarrow> if colon < path then Some colon else None))"

definition scheme_ok :: "string \<Rightarrow> nat \<Rightarrow> bool" where
  "scheme_ok value colon \<longleftrightarrow>
     colon \<noteq> 0 \<and> is_alpha (hd value) \<and>
     list_all (\<lambda>c. is_alnum c \<or> in_chars ''+-.'' c) (substr value 1 (colon - 1))"

fun percent_ok :: "string \<Rightarrow> bool" where
  "percent_ok [] = True"
| "percent_ok (c # cs) =
     (if c = CHR ''%''
      then (case cs of a # b # r \<Rightarrow> is_xdigit a \<and> is_xdigit b \<and> percent_ok r | _ \<Rightarrow> False)
      else percent_ok cs)"

definition port_ok :: "string \<Rightarrow> bool" where
  "port_ok port \<longleftrightarrow>
     port = [] \<or> list_all is_digit port \<and> string_to_nat port \<le> 65535"

definition host_ok :: "string \<Rightarrow> bool" where
  "host_ok host \<longleftrightarrow>
     host \<noteq> [] \<and>
     (if hd host = CHR ''[''
      then (case index_of (\<lambda>c. c = CHR '']'') host of
              None \<Rightarrow> False
            | Some e \<Rightarrow>
                e \<noteq> 1 \<and> CHR '':'' \<in> set (substr host 1 (e - 1)) \<and>
                (e + 1 < length host \<longrightarrow> host ! (e + 1) = CHR '':'' \<and> port_ok (drop (e + 2) host)))
      else if list_ex (in_chars [CHR ''['', CHR '']'', CHR 0x5C]) host then False
      else (case index_of (\<lambda>c. c = CHR '':'') host of
              None \<Rightarrow> True
            | Some sep \<Rightarrow> sep \<noteq> 0 \<and> port_ok (drop (sep + 1) host)))"

definition authority_of :: "string \<Rightarrow> string" where
  "authority_of rest = takeWhile (\<lambda>c. \<not> in_chars ''/?#'' c) rest"

definition authority_ok :: "string \<Rightarrow> nat option \<Rightarrow> bool" where
  "authority_ok value colon =
     (let rest = (case colon of None \<Rightarrow> value | Some c \<Rightarrow> drop (c + 1) value)
      in if \<not> starts_with ''//'' rest then True
         else let authority = authority_of (drop 2 rest)
           in if authority = [] then (case colon of None \<Rightarrow> False | Some c \<Rightarrow> take c value = ''file'')
              else host_ok (case last_index_of (\<lambda>c. c = CHR ''@'') authority of
                              None \<Rightarrow> authority | Some i \<Rightarrow> drop (i + 1) authority))"

definition validUri :: "('b) native_library_scheme \<Rightarrow> string \<Rightarrow> bool \<Rightarrow> bool" where
  "validUri L value absolute =
     (if value = [] \<or> length value > 8192 then False
      else if \<not> uri_points L value then False
      else let colon = scheme_colon value
        in if absolute \<and> colon = None then False
           else if (case colon of None \<Rightarrow> False | Some c \<Rightarrow> \<not> scheme_ok value c) then False
           else if \<not> percent_ok value then False
           else authority_ok value colon)"

fun find_text :: "string \<Rightarrow> string \<Rightarrow> nat option" where
  "find_text p [] = (if p = [] then Some 0 else None)"
| "find_text p (c # cs) =
     (if starts_with p (c # cs) then Some 0 else map_option Suc (find_text p cs))"

definition withoutUserInfo :: "string \<Rightarrow> bool" where
  "withoutUserInfo url =
     (case find_text ''://'' url of
        None \<Rightarrow> False
      | Some marker \<Rightarrow>
          let authority = authority_of (drop (marker + 3) url)
          in authority \<noteq> [] \<and> CHR ''@'' \<notin> set authority)"

fun split_on :: "char \<Rightarrow> string \<Rightarrow> string list" where
  "split_on d [] = [[]]"
| "split_on d (c # cs) =
     (if c = d then [] # split_on d cs
      else (case split_on d cs of [] \<Rightarrow> [[c]] | p # ps \<Rightarrow> (c # p) # ps))"

definition validTimeZone :: "('b) native_library_scheme \<Rightarrow> string \<Rightarrow> bool" where
  "validTimeZone L value =
     (if value = [] then True
      else if zone_database L value then True
      else if hd value \<noteq> CHR ''/'' \<and>
        list_all (\<lambda>part. part \<noteq> ''..'' \<and> part \<noteq> ''.'') (split_on CHR ''/'' value) \<and> zone_file L value
      then True
      else if value = ''UTC'' \<or> value = ''GMT'' then True
      else if length value = 9 \<and> take 3 value = ''UTC'' \<and> in_chars ''+-'' (value ! 3) \<and>
        is_digit (value ! 4) \<and> is_digit (value ! 5) \<and> value ! 6 = CHR '':'' \<and> is_digit (value ! 7) \<and> is_digit (value ! 8)
      then string_to_nat (substr value 4 2) \<le> 14 \<and> string_to_nat (substr value 7 2) < 60
      else False)"

text \<open>The canonical origin of the account service.\<close>

definition origin :: "('b) native_library_scheme \<Rightarrow> string \<Rightarrow> (native_error, string) result" where
  "origin L value =
     rbind (require (validUri L value True \<and> starts_with ''https://'' value \<and>
       \<not> list_ex (in_chars ''@?#'') (drop 8 value))) (\<lambda>_.
     let slash = index_of (\<lambda>c. c = CHR ''/'') (drop 8 value)
     in rbind (require (case slash of None \<Rightarrow> True | Some i \<Rightarrow> i + 8 = length value - 1)) (\<lambda>_.
        let value = (if slash = None then value else butlast value)
        in rbind (require (length value > 8 \<and> length value \<le> 2048)) (\<lambda>_.
           let value = take 8 value @ map ascii_lower (drop 8 value)
           in Inr (if ends_with '':443'' value then take (length value - 4) value else value))))"

end
