(* ===== verification/Native_Author.thy ===== *)
theory Native_Author
  imports Native_Text Native_Sha256
begin

text \<open>
  Author profiles and file links (\<open>Native/src/Core/Authorship.cpp\<close>): the validation of a
  profile snapshot, which rewrites every accepted member to its normal form, and the
  links that a document carries.
\<close>

section \<open>Patterns\<close>

definition subjectPattern :: "string \<Rightarrow> bool" where
  "subjectPattern s \<longleftrightarrow>
     1 \<le> length s \<and> length s \<le> 128 \<and> list_all (\<lambda>c. is_alnum c \<or> in_chars ''_-'' c) s"

definition email_char :: "char \<Rightarrow> bool" where
  "email_char c \<longleftrightarrow> \<not> is_space c \<and> c \<noteq> CHR ''@''"

definition emailPattern :: "string \<Rightarrow> bool" where
  "emailPattern s =
     (case index_of (\<lambda>c. c = CHR ''@'') s of
        None \<Rightarrow> False
      | Some i \<Rightarrow>
          let domain = drop (i + 1) s
          in i \<noteq> 0 \<and> list_all email_char (take i s) \<and> list_all email_char domain \<and>
             CHR ''.'' \<in> set (butlast (tl domain)))"

definition userPattern :: "string \<Rightarrow> bool" where
  "userPattern s \<longleftrightarrow>
     starts_with ''@'' s \<and> 4 \<le> length s \<and> length s \<le> 31 \<and>
     list_all (\<lambda>c. is_lower c \<or> is_digit c \<or> c = CHR ''_'') (tl s)"

definition avatarPattern :: "string \<Rightarrow> bool" where
  "avatarPattern s \<longleftrightarrow>
     length s = 84 \<and> starts_with ''/media/avatars/'' s \<and> list_all is_lower_hex (substr s 15 64) \<and>
     drop 79 s = ''.webp''"

definition countryPattern :: "string \<Rightarrow> bool" where
  "countryPattern s \<longleftrightarrow> length s = 2 \<and> list_all is_upper s"

definition localePattern :: "string \<Rightarrow> bool" where
  "localePattern s =
     (let parts = split_on CHR ''-'' s
      in 2 \<le> length (hd parts) \<and> length (hd parts) \<le> 8 \<and> list_all is_alpha (hd parts) \<and>
         list_all (\<lambda>p. 1 \<le> length p \<and> length p \<le> 8 \<and> list_all is_alnum p) (tl parts))"

definition devicePattern :: "string \<Rightarrow> bool" where
  "devicePattern s \<longleftrightarrow> length s = 64 \<and> list_all is_lower_hex s"

section \<open>The account\<close>

record IisaccAccount =
  acc_sub :: string
  acc_email :: string
  acc_displayName :: string
  acc_userId :: string
  acc_societyCloudMembership :: string
  acc_avatarUrl :: string

record AuthorMetadata =
  am_account :: IisaccAccount
  am_serviceOrigin :: string
  am_capturedAt :: string

record FileAuthor =
  fa_metadata :: AuthorMetadata
  fa_profile :: string

definition memberships :: "string list" where
  "memberships = [''Free'', ''Plus'', ''Pro'', ''Enterprise'']"

definition account_avatar :: "string \<Rightarrow> json \<Rightarrow> (native_error, json) result" where
  "account_avatar service avatar =
     (if avatar = JNull then Inr JNull
      else rbind (require (is_string avatar)) (\<lambda>_.
           rbind (json_string avatar) (\<lambda>url.
           let url = (if starts_with ''/'' url then service @ url else url)
           in rbind (require (starts_with (service @ ''/media/avatars/'') url)) (\<lambda>_.
              rbind (require (avatarPattern (drop (length service) url))) (\<lambda>_.
              Inr (JString url))))))"

definition account_profile ::
  "('b) native_library_scheme \<Rightarrow> string \<Rightarrow> json \<Rightarrow> (native_error, json) result" where
  "account_profile L service account =
     rbind (keys account [''sub'', ''email'', ''displayName'', ''userId'', ''societyCloudMembership'', ''avatarUrl'']) (\<lambda>_.
     rbind (text_member L account ''sub'' 128 True False) (\<lambda>sub.
     rbind (require (subjectPattern sub)) (\<lambda>_.
     rbind (text_member L account ''email'' 254 True False) (\<lambda>mail.
     rbind (normalize L mail True True) (\<lambda>mail.
     rbind (require (emailPattern mail \<and> (case index_of (\<lambda>c. c = CHR ''@'') mail of None \<Rightarrow> False | Some i \<Rightarrow> i \<le> 64))) (\<lambda>_.
     rbind (text_member L account ''userId'' 31 False False) (\<lambda>user.
     rbind (require (user = [] \<or> userPattern user)) (\<lambda>_.
     rbind (value_or account ''societyCloudMembership'' (JString ''Free'')) (\<lambda>membership.
     rbind (json_string membership) (\<lambda>membership.
     rbind (require (membership \<in> set memberships)) (\<lambda>_.
     rbind (value_or account ''avatarUrl'' JNull) (\<lambda>avatar.
     rbind (account_avatar service avatar) (\<lambda>avatar.
     rbind (text_member L account ''displayName'' 80 False False) (\<lambda>name.
     Inr (JObject [(''avatarUrl'', avatar), (''displayName'', JString name), (''email'', JString mail),
       (''societyCloudMembership'', JString membership), (''sub'', JString sub), (''userId'', JString user)])))))))))))))))"

section \<open>Details\<close>

definition detailLimits :: "(string \<times> nat) list" where
  "detailLimits =
     [(''additionalName'', 80), (''biography'', 4096), (''city'', 160), (''contactEmail'', 254),
      (''countryCode'', 2), (''department'', 160), (''familyName'', 80), (''fullName'', 160),
      (''givenName'', 80), (''jobTitle'', 160), (''locale'', 64), (''organization'', 160),
      (''organizationId'', 128), (''phoneNumber'', 64), (''pseudonym'', 80), (''region'', 160),
      (''team'', 160), (''timeZone'', 128)]"

definition text_into ::
  "('b) native_library_scheme \<Rightarrow> bool \<Rightarrow> (string \<Rightarrow> bool) \<Rightarrow> string \<times> nat \<Rightarrow> json \<Rightarrow> (native_error, json) result" where
  "text_into L required multiline = (\<lambda>(key, maximum) j.
     rbind (text_member L j key maximum required (multiline key)) (\<lambda>s.
     Inr (set_member key (JString s) j)))"

definition string_at :: "json \<Rightarrow> string \<Rightarrow> (native_error, string) result" where
  "string_at j k = rbind (jat j k) json_string"

definition link_entry :: "('b) native_library_scheme \<Rightarrow> json \<Rightarrow> (native_error, json) result" where
  "link_entry L entry =
     rbind (keys entry [''relation'', ''label'', ''url'']) (\<lambda>_.
     rbind (text_into L True (\<lambda>_. False) (''relation'', 40) entry) (\<lambda>entry.
     rbind (text_into L False (\<lambda>_. False) (''label'', 160) entry) (\<lambda>entry.
     rbind (text_member L entry ''url'' 2048 True False) (\<lambda>url.
     rbind (require (validUri L url True \<and> starts_with ''https://'' url \<and> withoutUserInfo url)) (\<lambda>_.
     Inr (set_member ''url'' (JString url) entry))))))"

definition identifier_entry :: "('b) native_library_scheme \<Rightarrow> json \<Rightarrow> (native_error, json) result" where
  "identifier_entry L entry =
     rbind (keys entry [''scheme'', ''value'']) (\<lambda>_.
     rbind (text_into L True (\<lambda>_. False) (''scheme'', 40) entry)
       (text_into L True (\<lambda>_. False) (''value'', 256)))"

fun get_array :: "json \<Rightarrow> (native_error, json list) result" where
  "get_array (JArray xs) = Inr xs"
| "get_array _ = Inl Invalid"

definition detail_entries ::
  "(json \<Rightarrow> (native_error, json) result) \<Rightarrow> string \<Rightarrow> json \<Rightarrow> (native_error, json) result" where
  "detail_entries entry name details =
     rbind (value_or details name (JArray [])) (\<lambda>entries.
     rbind (get_array entries) (\<lambda>xs.
     rbind (require (length xs \<le> 32)) (\<lambda>_.
     rbind (mapM entry xs) (\<lambda>ys. Inr (set_member name (JArray ys) details)))))"

definition details_email :: "('b) native_library_scheme \<Rightarrow> json \<Rightarrow> (native_error, json) result" where
  "details_email L details =
     rbind (string_at details ''contactEmail'') (\<lambda>email.
     if email = [] then Inr details
     else rbind (normalize L email True True) (\<lambda>email.
          rbind (require (emailPattern email)) (\<lambda>_.
          Inr (set_member ''contactEmail'' (JString email) details))))"

definition details_profile :: "('b) native_library_scheme \<Rightarrow> json \<Rightarrow> (native_error, json) result" where
  "details_profile L details =
     rbind (require (is_object details)) (\<lambda>_.
     rbind (dump L details) (\<lambda>s.
     rbind (require (length s \<le> 65536)) (\<lambda>_.
     rbind (keys details (map fst detailLimits @ [''links'', ''identifiers''])) (\<lambda>_.
     rbind (foldM (text_into L False (\<lambda>key. key = ''biography'')) detailLimits details) (\<lambda>details.
     rbind (string_at details ''countryCode'') (\<lambda>country.
     rbind (require (country = [] \<or> countryPattern country)) (\<lambda>_.
     rbind (string_at details ''locale'') (\<lambda>language.
     rbind (require (language = [] \<or> localePattern language)) (\<lambda>_.
     rbind (string_at details ''timeZone'') (\<lambda>zone.
     rbind (require (validTimeZone L zone)) (\<lambda>_.
     rbind (details_email L details) (\<lambda>details.
     rbind (detail_entries (link_entry L) ''links'' details)
       (detail_entries (identifier_entry L) ''identifiers'')))))))))))))"

section \<open>Attribution and device\<close>

fun role_names :: "('b) native_library_scheme \<Rightarrow> json list \<Rightarrow> string list \<Rightarrow> (native_error, string list) result" where
  "role_names L [] seen = Inr []"
| "role_names L (role # roles) seen =
     rbind (require (is_string role)) (\<lambda>_.
     rbind (json_string role) (\<lambda>s.
     rbind (clean L s 40 True False) (\<lambda>name.
     rbind (require (name \<notin> set seen)) (\<lambda>_.
     rbind (role_names L roles (name # seen)) (\<lambda>names. Inr (name # names))))))"

definition attributionLimits :: "(string \<times> nat) list" where
  "attributionLimits =
     [(''credit'', 1024), (''copyrightNotice'', 1024), (''licenseIdentifier'', 128), (''licenseUrl'', 2048),
      (''documentId'', 128), (''projectId'', 128), (''workspaceId'', 128)]"

definition attribution_profile :: "('b) native_library_scheme \<Rightarrow> json \<Rightarrow> (native_error, json) result" where
  "attribution_profile L attribution =
     rbind (keys attribution [''roles'', ''credit'', ''copyrightNotice'', ''licenseIdentifier'', ''licenseUrl'',
       ''documentId'', ''projectId'', ''workspaceId'', ''createdAt'', ''modifiedAt'']) (\<lambda>_.
     rbind (value_or attribution ''roles'' (JArray [])) (\<lambda>roles.
     rbind (get_array roles) (\<lambda>roles.
     rbind (require (length roles \<le> 16)) (\<lambda>_.
     rbind (role_names L roles []) (\<lambda>names.
     rbind (foldM (text_into L False (\<lambda>_. False)) attributionLimits
       (set_member ''roles'' (JArray (map JString names)) attribution)) (\<lambda>attribution.
     rbind (string_at attribution ''licenseUrl'') (\<lambda>license.
     rbind (require (license = [] \<or>
       validUri L license True \<and> starts_with ''https://'' license \<and> withoutUserInfo license)) (\<lambda>_.
     rbind (optionalDate attribution ''createdAt'' False) (\<lambda>created.
     rbind (optionalDate attribution ''modifiedAt'' False) (\<lambda>modified.
     rbind (require (created = [] \<or> modified = [] \<or> created \<le> modified)) (\<lambda>_.
     Inr (set_member ''modifiedAt'' (dateValue modified)
       (set_member ''createdAt'' (dateValue created) attribution)))))))))))))"

definition deviceLimits :: "(string \<times> nat) list" where
  "deviceLimits =
     [(''appId'', 128), (''appVersion'', 40), (''id'', 64), (''name'', 80), (''osVersion'', 80),
      (''platform'', 40), (''type'', 6)]"

definition device_profile :: "('b) native_library_scheme \<Rightarrow> json \<Rightarrow> (native_error, json) result" where
  "device_profile L device =
     (if device = JNull then Inr JNull
      else rbind (keys device [''id'', ''type'', ''name'', ''platform'', ''osVersion'', ''appId'', ''appVersion'']) (\<lambda>_.
           rbind (foldM (text_into L True (\<lambda>_. False)) deviceLimits device) (\<lambda>device.
           rbind (string_at device ''id'') (\<lambda>i.
           rbind (string_at device ''type'') (\<lambda>kind.
           rbind (require (devicePattern i \<and> (kind = ''pc'' \<or> kind = ''tablet''))) (\<lambda>_. Inr device))))))"

section \<open>The profile\<close>

definition profile_size_ok :: "('b) native_library_scheme \<Rightarrow> json \<Rightarrow> (native_error, unit) result" where
  "profile_size_ok L value = rbind (dump L value) (\<lambda>s. require (length s \<le> 131072))"

definition author_profile :: "('b) native_library_scheme \<Rightarrow> json \<Rightarrow> (native_error, json) result" where
  "author_profile L value =
     rbind (profile_size_ok L value) (\<lambda>_.
     rbind (keys value [''schemaVersion'', ''account'', ''details'', ''attribution'', ''serviceOrigin'',
       ''capturedAt'', ''device'']) (\<lambda>_.
     rbind (jat value ''schemaVersion'') (\<lambda>schema.
     rbind (require (number_is L schema 1)) (\<lambda>_.
     rbind (text_member L value ''serviceOrigin'' 2048 True False) (\<lambda>service.
     rbind (origin L service) (\<lambda>service.
     let value = set_member ''serviceOrigin'' (JString service) value
     in rbind (optionalDate value ''capturedAt'' True) (\<lambda>captured.
        let value = set_member ''capturedAt'' (JString captured) value
        in rbind (jat value ''account'') (\<lambda>account.
           rbind (account_profile L service account) (\<lambda>account.
           let value = set_member ''account'' account value
           in rbind (value_or value ''details'' (JObject [])) (\<lambda>details.
              rbind (details_profile L details) (\<lambda>details.
              let value = set_member ''details'' details value
              in rbind (value_or value ''attribution'' (JObject [])) (\<lambda>attribution.
                 rbind (attribution_profile L attribution) (\<lambda>attribution.
                 let value = set_member ''attribution'' attribution value
                 in rbind (value_or value ''device'' JNull) (\<lambda>device.
                    rbind (device_profile L device) (\<lambda>device.
                    let value = set_member ''device'' device value
                    in rbind (profile_size_ok L value) (\<lambda>_. Inr value))))))))))))))))"

definition author_of :: "('b) native_library_scheme \<Rightarrow> json \<Rightarrow> (native_error, FileAuthor) result" where
  "author_of L data =
     rbind (dump L data) (\<lambda>text.
     rbind (jat data ''account'') (\<lambda>a.
     rbind (string_at a ''sub'') (\<lambda>sub.
     rbind (string_at a ''email'') (\<lambda>email.
     rbind (string_at a ''displayName'') (\<lambda>name.
     rbind (string_at a ''userId'') (\<lambda>user.
     rbind (string_at a ''societyCloudMembership'') (\<lambda>membership.
     rbind (jat a ''avatarUrl'') (\<lambda>avatar.
     rbind (if avatar = JNull then Inr [] else json_string avatar) (\<lambda>avatar.
     rbind (string_at data ''serviceOrigin'') (\<lambda>service.
     rbind (string_at data ''capturedAt'') (\<lambda>captured.
     Inr \<lparr>fa_metadata = \<lparr>am_account = \<lparr>acc_sub = sub, acc_email = email, acc_displayName = name,
            acc_userId = user, acc_societyCloudMembership = membership, acc_avatarUrl = avatar\<rparr>,
            am_serviceOrigin = service, am_capturedAt = captured\<rparr>,
          fa_profile = text\<rparr>)))))))))))"

fun caught :: "('e, 'a) result \<Rightarrow> 'a option" where
  "caught (Inl e) = None"
| "caught (Inr v) = Some v"

definition author_fromJsonText :: "('b) native_library_scheme \<Rightarrow> string \<Rightarrow> FileAuthor option" where
  "author_fromJsonText L snapshot =
     caught (rbind (require (length snapshot \<le> 131072)) (\<lambda>_.
       rbind (of_option Json_Error (nl_parse L snapshot)) (\<lambda>j.
       rbind (author_profile L j) (author_of L))))"

text \<open>The account is a \<open>std::map\<close>: an association list in key order.\<close>

definition fromIisaccAccount ::
  "('b) native_library_scheme \<Rightarrow> (string \<times> string) list \<Rightarrow> string \<Rightarrow> string \<Rightarrow> (native_error, FileAuthor option) result" where
  "fromIisaccAccount L account service capturedAt =
     rbind (dump L (JObject [(''account'', JObject (map (\<lambda>(k, v). (k, JString v)) account)),
       (''capturedAt'', JString capturedAt), (''schemaVersion'', JInt 1), (''serviceOrigin'', JString service)]))
     (\<lambda>text. Inr (author_fromJsonText L text))"

definition displayLabel :: "FileAuthor \<Rightarrow> string" where
  "displayLabel author =
     (let account = am_account (fa_metadata author)
      in if acc_displayName account = [] then acc_email account else acc_displayName account)"

definition text_sha256 :: "string \<Rightarrow> (native_error, string) result" where
  "text_sha256 s = (case sha256 (bytes_of s) of Inl _ \<Rightarrow> Inl Length_Error | Inr h \<Rightarrow> Inr h)"

definition keyFor :: "FileAuthor \<Rightarrow> (native_error, string) result" where
  "keyFor author =
     text_sha256 ((am_serviceOrigin (fa_metadata author) @ CHR 0x0A # acc_sub (am_account (fa_metadata author))))"

section \<open>Links\<close>

record FileLink =
  link_name :: string
  link_url :: string

definition link_create :: "('b) native_library_scheme \<Rightarrow> string \<Rightarrow> string \<Rightarrow> FileLink option" where
  "link_create L name url =
     caught (rbind (clean L name 160 True False) (\<lambda>name.
       rbind (require (CHR ''|'' \<notin> set name \<and> validUri L url False)) (\<lambda>_.
       Inr \<lparr>link_name = name, link_url = url\<rparr>)))"

definition link_fromString :: "('b) native_library_scheme \<Rightarrow> string \<Rightarrow> FileLink option" where
  "link_fromString L entry =
     (case index_of (\<lambda>c. c = CHR ''|'') entry of
        None \<Rightarrow> None
      | Some sep \<Rightarrow>
          if \<not> starts_with ''['' entry \<or> \<not> ends_with '']'' entry \<or> sep \<le> 1 \<or> int sep \<ge> int (length entry) - 2 then None
          else link_create L (substr entry 1 (sep - 1)) (substr entry (sep + 1) (length entry - sep - 2)))"

definition maximumLinks :: nat where
  "maximumLinks = 64"

fun validated_links_from ::
  "('b) native_library_scheme \<Rightarrow> FileLink list \<Rightarrow> FileLink list \<Rightarrow> (native_error, FileLink list) result" where
  "validated_links_from L [] result = Inr result"
| "validated_links_from L (link # links) result =
     rbind (of_option Invalid (link_create L (link_name link) (link_url link))) (\<lambda>parsed.
     rbind (require (parsed \<notin> set result)) (\<lambda>_.
     validated_links_from L links (result @ [parsed])))"

definition validatedLinks :: "('b) native_library_scheme \<Rightarrow> FileLink list \<Rightarrow> (native_error, FileLink list) result" where
  "validatedLinks L links =
     rbind (require (length links \<le> maximumLinks)) (\<lambda>_. validated_links_from L links [])"

end
