(* ===== verification/Native_Authorship.thy ===== *)
theory Native_Authorship
  imports Native_Author
begin

text \<open>
  The authorship document of a file (\<open>Native/src/Core/Authorship.cpp\<close>, class
  \<open>Authorship\<close>): who changed it, when first and last, the links it carries, a 64-bit revision
  counter and the cached JSON text.  A method that changes the object works on a copy
  and assigns it at the end, so a method here maps the object to the new object, or
  to the exception that leaves the old one in place.
\<close>

record Author_Record =
  rec_key :: string
  rec_profile :: string
  rec_firstChangedAt :: string
  rec_lastChangedAt :: string

record Authorship =
  as_revision :: u64
  as_modifiedAt :: string
  as_lastAuthor :: string
  as_activeAuthor :: string
  as_dump :: string
  as_authors :: "Author_Record list"
  as_links :: "FileLink list"

definition maximumBytes :: nat where
  "maximumBytes = 2 * 1024 * 1024"

section \<open>The JSON text\<close>

definition lower_hex :: string where
  "lower_hex = ''0123456789abcdef''"

definition quote_char :: "char \<Rightarrow> string" where
  "quote_char c =
     (let n = (of_char c :: nat)
      in if c = CHR 0x22 then [CHR 0x5C, CHR 0x22]
         else if c = CHR 0x5C then [CHR 0x5C, CHR 0x5C]
         else if n = 8 then [CHR 0x5C, CHR ''b'']
         else if n = 12 then [CHR 0x5C, CHR ''f'']
         else if n = 10 then [CHR 0x5C, CHR ''n'']
         else if n = 13 then [CHR 0x5C, CHR ''r'']
         else if n = 9 then [CHR 0x5C, CHR ''t'']
         else if n < 32 then [CHR 0x5C, CHR ''u'', CHR ''0'', CHR ''0'', lower_hex ! (n div 16), lower_hex ! (n mod 16)]
         else [c])"

definition quote :: "string \<Rightarrow> string" where
  "quote s = CHR 0x22 # concat (map quote_char s) @ [CHR 0x22]"

definition nullable :: "string \<Rightarrow> string" where
  "nullable s = (if s = [] then ''null'' else quote s)"

fun comma_separated :: "string list \<Rightarrow> string" where
  "comma_separated [] = []"
| "comma_separated [s] = s"
| "comma_separated (s # t # ss) = s @ CHR '','' # comma_separated (t # ss)"

definition qkey :: "string \<Rightarrow> string" where
  "qkey k = CHR 0x22 # k @ [CHR 0x22, CHR '':'']"

definition record_text :: "Author_Record \<Rightarrow> string" where
  "record_text r =
     ''{'' @ qkey ''author'' @ rec_profile r @ '','' @ qkey ''firstChangedAt'' @ quote (rec_firstChangedAt r) @ '','' @
     qkey ''key'' @ quote (rec_key r) @ '','' @ qkey ''lastChangedAt'' @ quote (rec_lastChangedAt r) @ ''}''"

definition link_text :: "FileLink \<Rightarrow> string" where
  "link_text l = ''{'' @ qkey ''name'' @ quote (link_name l) @ '','' @ qkey ''url'' @ quote (link_url l) @ ''}''"

definition authorship_text :: "Authorship \<Rightarrow> string" where
  "authorship_text a =
     ''{'' @ qkey ''authors'' @ ''['' @ comma_separated (map record_text (as_authors a)) @ ''],'' @
     qkey ''firstEditor'' @ nullable (if as_authors a = [] then [] else rec_key (hd (as_authors a))) @ '','' @
     qkey ''lastAuthor'' @ nullable (as_lastAuthor a) @ '','' @
     qkey ''links'' @ ''['' @ comma_separated (map link_text (as_links a)) @ ''],'' @
     qkey ''modifiedAt'' @ nullable (as_modifiedAt a) @ '','' @
     qkey ''participants'' @ ''['' @ comma_separated (map (\<lambda>r. quote (rec_key r)) (tl (as_authors a))) @ ''],'' @
     qkey ''revision'' @ quote (nat_to_string (unat (as_revision a))) @ '','' @ qkey ''schemaVersion'' @ ''3}''"

definition rebuildDump :: "Authorship \<Rightarrow> (native_error, Authorship) result" where
  "rebuildDump a =
     (let text = authorship_text a
      in if length text > maximumBytes then Inl Length_Error else Inr (a\<lparr>as_dump := text\<rparr>))"

definition blank_authorship :: Authorship where
  "blank_authorship = \<lparr>as_revision = 0, as_modifiedAt = [], as_lastAuthor = [], as_activeAuthor = [],
     as_dump = [], as_authors = [], as_links = []\<rparr>"

definition new_authorship :: "(native_error, Authorship) result" where
  "new_authorship = rebuildDump blank_authorship"

section \<open>Queries\<close>

definition isEmpty :: "Authorship \<Rightarrow> bool" where
  "isEmpty a \<longleftrightarrow> as_revision a = 0 \<and> as_authors a = []"

definition clearActiveAuthor :: "Authorship \<Rightarrow> Authorship" where
  "clearActiveAuthor a = a\<lparr>as_activeAuthor := []\<rparr>"

definition hasActiveAuthor :: "Authorship \<Rightarrow> bool" where
  "hasActiveAuthor a \<longleftrightarrow> as_activeAuthor a \<noteq> []"

definition firstEditor :: "('b) native_library_scheme \<Rightarrow> Authorship \<Rightarrow> FileAuthor option" where
  "firstEditor L a =
     (if as_authors a = [] then None else author_fromJsonText L (rec_profile (hd (as_authors a))))"

text \<open>\<open>None\<close>: an empty optional is dereferenced.\<close>

fun all_some :: "'a option list \<Rightarrow> 'a list option" where
  "all_some [] = Some []"
| "all_some (None # xs) = None"
| "all_some (Some x # xs) = map_option (\<lambda>ys. x # ys) (all_some xs)"

definition participants :: "('b) native_library_scheme \<Rightarrow> Authorship \<Rightarrow> FileAuthor list option" where
  "participants L a = all_some (map (\<lambda>r. author_fromJsonText L (rec_profile r)) (tl (as_authors a)))"

section \<open>Changes\<close>

definition touch :: "string \<Rightarrow> Author_Record \<Rightarrow> Author_Record" where
  "touch at r =
     (if rec_firstChangedAt r = [] then r\<lparr>rec_firstChangedAt := at, rec_lastChangedAt := at\<rparr>
      else r\<lparr>rec_lastChangedAt := at\<rparr>)"

fun update_first :: "('a \<Rightarrow> bool) \<Rightarrow> ('a \<Rightarrow> 'a) \<Rightarrow> 'a list \<Rightarrow> 'a list" where
  "update_first P f [] = []"
| "update_first P f (x # xs) = (if P x then f x # xs else x # update_first P f xs)"

definition recordChange :: "string \<Rightarrow> Authorship \<Rightarrow> (native_error, Authorship) result" where
  "recordChange raw a =
     rbind (timestamp raw) (\<lambda>at.
     if as_revision a = - 1 then Inl Overflow_Error
     else let modified = (if as_modifiedAt a = [] \<or> as_modifiedAt a < at then at else as_modifiedAt a)
       in rebuildDump (a\<lparr>as_revision := as_revision a + 1, as_modifiedAt := modified,
            as_lastAuthor := as_activeAuthor a,
            as_authors := update_first (\<lambda>r. rec_key r = as_activeAuthor a) (touch modified) (as_authors a)\<rparr>))"

definition setAuthor ::
  "('b) native_library_scheme \<Rightarrow> FileAuthor \<Rightarrow> FileLink list \<Rightarrow> string \<Rightarrow> Authorship \<Rightarrow> (native_error, Authorship \<times> bool) result" where
  "setAuthor L author links raw a =
     rbind (validatedLinks L links) (\<lambda>parsed.
     rbind (keyFor author) (\<lambda>key.
     let next = a\<lparr>as_links := parsed, as_activeAuthor := key\<rparr>
     in case List.find (\<lambda>r. rec_key r = key) (as_authors a) of
          Some r \<Rightarrow>
            if rec_profile r = fa_profile author \<and> parsed = as_links a
            then Inr (a\<lparr>as_activeAuthor := key\<rparr>, False)
            else rbind (recordChange raw (next\<lparr>as_authors :=
                   update_first (\<lambda>r. rec_key r = key) (\<lambda>r. r\<lparr>rec_profile := fa_profile author\<rparr>) (as_authors a)\<rparr>))
                 (\<lambda>n. Inr (n, True))
        | None \<Rightarrow>
            rbind (require (length (as_authors a) < 256)) (\<lambda>_.
            rbind (recordChange raw (next\<lparr>as_authors := as_authors a @ [\<lparr>rec_key = key,
                   rec_profile = fa_profile author, rec_firstChangedAt = [], rec_lastChangedAt = []\<rparr>]\<rparr>))
              (\<lambda>n. Inr (n, True)))))"

definition setAuthor_only ::
  "('b) native_library_scheme \<Rightarrow> FileAuthor \<Rightarrow> string \<Rightarrow> Authorship \<Rightarrow> (native_error, Authorship \<times> bool) result" where
  "setAuthor_only L author raw a = setAuthor L author (as_links a) raw a"

definition setLinks ::
  "('b) native_library_scheme \<Rightarrow> FileLink list \<Rightarrow> string \<Rightarrow> Authorship \<Rightarrow> (native_error, Authorship \<times> bool) result" where
  "setLinks L links raw a =
     rbind (validatedLinks L links) (\<lambda>parsed.
     if parsed = as_links a then Inr (a, False)
     else rbind (recordChange raw (a\<lparr>as_links := parsed\<rparr>)) (\<lambda>n. Inr (n, True)))"

definition setLinksFromStrings ::
  "('b) native_library_scheme \<Rightarrow> string list \<Rightarrow> string \<Rightarrow> Authorship \<Rightarrow> (native_error, Authorship \<times> bool) result" where
  "setLinksFromStrings L entries raw a =
     rbind (mapM (\<lambda>entry. of_option Invalid (link_fromString L entry)) entries) (\<lambda>links.
     setLinks L links raw a)"

section \<open>Restoring a document\<close>

definition revisionPattern :: "string \<Rightarrow> bool" where
  "revisionPattern s \<longleftrightarrow> s = ''0'' \<or> s \<noteq> [] \<and> list_all is_digit s \<and> hd s \<noteq> CHR ''0''"

definition parse_revision :: "string \<Rightarrow> (native_error, u64) result" where
  "parse_revision raw =
     rbind (require (revisionPattern raw)) (\<lambda>_.
     rbind (require (string_to_nat raw < 2 ^ 64)) (\<lambda>_. Inr (of_nat (string_to_nat raw))))"

definition schema_of :: "('b) native_library_scheme \<Rightarrow> json \<Rightarrow> (native_error, nat) result" where
  "schema_of L j =
     (if number_is L j 1 then Inr 1 else if number_is L j 2 then Inr 2 else if number_is L j 3 then Inr 3
      else Inl Invalid)"

definition schema_checks :: "('b) native_library_scheme \<Rightarrow> nat \<Rightarrow> json \<Rightarrow> (native_error, unit) result" where
  "schema_checks L schema value =
     (let base = [''schemaVersion'', ''revision'', ''modifiedAt'', ''authors'', ''lastAuthor'']
      in if schema = 1
         then rbind (dump L value) (\<lambda>s. rbind (require (length s \<le> 1024 * 1024)) (\<lambda>_. keys value base))
         else if schema = 2
         then rbind (dump L value) (\<lambda>s. rbind (require (length s \<le> 1024 * 1024 + 32 * 1024)) (\<lambda>_.
                keys value (base @ [''firstEditor'', ''participants''])))
         else keys value (base @ [''firstEditor'', ''participants'', ''links'']))"

definition read_record :: "('b) native_library_scheme \<Rightarrow> string \<Rightarrow> string list \<Rightarrow> json \<Rightarrow> (native_error, Author_Record) result" where
  "read_record L modified seen item =
     rbind (keys item [''key'', ''author'', ''firstChangedAt'', ''lastChangedAt'']) (\<lambda>_.
     rbind (jat item ''author'') (\<lambda>profile.
     rbind (dump L profile) (\<lambda>snapshot.
     rbind (of_option Invalid (author_fromJsonText L snapshot)) (\<lambda>author.
     rbind (text_member L item ''key'' 64 True False) (\<lambda>key.
     rbind (keyFor author) (\<lambda>expected.
     rbind (require (key = expected \<and> key \<notin> set seen)) (\<lambda>_.
     rbind (optionalDate item ''firstChangedAt'' True) (\<lambda>first.
     rbind (optionalDate item ''lastChangedAt'' True) (\<lambda>last.
     rbind (require (first \<le> last \<and> last \<le> modified)) (\<lambda>_.
     Inr \<lparr>rec_key = key, rec_profile = fa_profile author, rec_firstChangedAt = first, rec_lastChangedAt = last\<rparr>))))))))))"

fun read_records ::
  "('b) native_library_scheme \<Rightarrow> string \<Rightarrow> json list \<Rightarrow> Author_Record list \<Rightarrow> (native_error, Author_Record list) result" where
  "read_records L modified [] prior = Inr prior"
| "read_records L modified (item # items) prior =
     rbind (read_record L modified (map rec_key prior) item) (\<lambda>r. read_records L modified items (prior @ [r]))"

definition read_link :: "('b) native_library_scheme \<Rightarrow> json \<Rightarrow> (native_error, FileLink) result" where
  "read_link L item =
     rbind (keys item [''name'', ''url'']) (\<lambda>_.
     rbind (string_at item ''name'') (\<lambda>name.
     rbind (string_at item ''url'') (\<lambda>url.
     of_option Invalid (link_create L name url))))"

definition read_links :: "('b) native_library_scheme \<Rightarrow> nat \<Rightarrow> json \<Rightarrow> (native_error, FileLink list) result" where
  "read_links L schema value =
     (if schema \<noteq> 3 then Inr []
      else rbind (jat value ''links'') (\<lambda>links.
           rbind (get_array links) (\<lambda>items.
           rbind (require (length items \<le> maximumLinks)) (\<lambda>_.
           rbind (mapM (read_link L) items) (validatedLinks L)))))"

definition last_author :: "Author_Record list \<Rightarrow> json \<Rightarrow> (native_error, string) result" where
  "last_author authors j =
     (if j = JNull then Inr []
      else rbind (require (is_string j)) (\<lambda>_.
           rbind (json_string j) (\<lambda>key.
           rbind (require (key \<in> set (map rec_key authors))) (\<lambda>_. Inr key))))"

definition check_canonical :: "('b) native_library_scheme \<Rightarrow> nat \<Rightarrow> json \<Rightarrow> Authorship \<Rightarrow> (native_error, unit) result" where
  "check_canonical L schema value a =
     (if schema < 2 then Inr ()
      else rbind (of_option Json_Error (nl_parse L (as_dump a))) (\<lambda>canonical.
           rbind (jat value ''firstEditor'') (\<lambda>first.
           rbind (require (Some first = member canonical ''firstEditor'')) (\<lambda>_.
           rbind (jat value ''participants'') (\<lambda>others.
           require (Some others = member canonical ''participants''))))))"

definition restore :: "('b) native_library_scheme \<Rightarrow> json \<Rightarrow> (native_error, Authorship) result" where
  "restore L value =
     rbind (jat value ''schemaVersion'') (\<lambda>version.
     rbind (schema_of L version) (\<lambda>schema.
     rbind (schema_checks L schema value) (\<lambda>_.
     rbind (text_member L value ''revision'' 20 True False) (\<lambda>raw.
     rbind (parse_revision raw) (\<lambda>revision.
     rbind (optionalDate value ''modifiedAt'' (revision \<noteq> 0)) (\<lambda>modified.
     rbind (jat value ''authors'') (\<lambda>authors.
     rbind (get_array authors) (\<lambda>items.
     rbind (require (length items \<le> 256)) (\<lambda>_.
     rbind (read_records L modified items []) (\<lambda>records.
     rbind (jat value ''lastAuthor'') (\<lambda>last.
     rbind (last_author records last) (\<lambda>last.
     rbind (read_links L schema value) (\<lambda>links.
     rbind (require (revision \<noteq> 0 \<or> records = [] \<and> links = [] \<and> modified = [])) (\<lambda>_.
     rbind (rebuildDump \<lparr>as_revision = revision, as_modifiedAt = modified, as_lastAuthor = last,
       as_activeAuthor = [], as_dump = [], as_authors = records, as_links = links\<rparr>) (\<lambda>a.
     rbind (check_canonical L schema value a) (\<lambda>_. Inr a))))))))))))))))"

definition authorship_fromDump :: "('b) native_library_scheme \<Rightarrow> string \<Rightarrow> Authorship option" where
  "authorship_fromDump L bytes =
     caught (rbind (require (length bytes \<le> maximumBytes)) (\<lambda>_.
       rbind (of_option Json_Error (nl_parse L bytes)) (restore L)))"

end
