(* ===== verification/Native_Identity.thy ===== *)
theory Native_Identity
  imports Native_Authorship
begin

text \<open>
  The authorship document as a state machine: what a well-formed document is, that every
  method keeps it, and that history only grows.
\<close>

section \<open>Well-formed documents\<close>

definition record_ok :: "string \<Rightarrow> Author_Record \<Rightarrow> bool" where
  "record_ok modified r \<longleftrightarrow>
     rec_firstChangedAt r \<noteq> [] \<and> rec_firstChangedAt r \<le> rec_lastChangedAt r \<and> rec_lastChangedAt r \<le> modified"

definition author_keys :: "Authorship \<Rightarrow> string list" where
  "author_keys a = map rec_key (as_authors a)"

text \<open>Between the assignment of an author and \<open>recordChange\<close> its record may have no dates yet.\<close>

definition draft_ok :: "Authorship \<Rightarrow> bool" where
  "draft_ok a \<longleftrightarrow>
     length (as_authors a) \<le> 256 \<and> distinct (author_keys a) \<and>
     (\<forall>r \<in> set (as_authors a). record_ok (as_modifiedAt a) r \<or>
        rec_key r = as_activeAuthor a \<and> rec_firstChangedAt r = []) \<and>
     (as_activeAuthor a = [] \<or> as_activeAuthor a \<in> set (author_keys a)) \<and>
     length (as_links a) \<le> maximumLinks \<and> distinct (as_links a)"

definition authorship_ok :: "Authorship \<Rightarrow> bool" where
  "authorship_ok a \<longleftrightarrow>
     draft_ok a \<and> (\<forall>r \<in> set (as_authors a). record_ok (as_modifiedAt a) r) \<and>
     (as_lastAuthor a = [] \<or> as_lastAuthor a \<in> set (author_keys a)) \<and>
     (as_revision a = 0 \<longleftrightarrow> as_modifiedAt a = []) \<and>
     (as_revision a = 0 \<longrightarrow> as_authors a = [] \<and> as_links a = []) \<and>
     as_dump a = authorship_text a \<and> length (as_dump a) \<le> maximumBytes"

lemmas authorship_ok_defs = authorship_ok_def draft_ok_def author_keys_def

lemma authorship_text_cong [simp]:
  "authorship_text (a\<lparr>as_activeAuthor := k\<rparr>) = authorship_text a"
  "authorship_text (a\<lparr>as_dump := d\<rparr>) = authorship_text a"
  by (simp_all add: authorship_text_def)

lemma rebuildDump_Inr [result_dest]:
  "rebuildDump a = Inr a' \<longleftrightarrow> a' = a\<lparr>as_dump := authorship_text a\<rparr> \<and> length (authorship_text a) \<le> maximumBytes"
  by (auto simp: rebuildDump_def Let_def)

lemma format_instant_nonempty [simp]: "format_instant i \<noteq> []"
  by (simp add: format_instant_def split_def Let_def)

lemma timestamp_nonempty [simp]: "timestamp raw \<noteq> Inr []"
  using timestamp_canonical [of raw "[]"] format_instant_nonempty by metis

section \<open>List updates\<close>

lemma update_first_none: "\<forall>x \<in> set xs. \<not> P x \<Longrightarrow> update_first P f xs = xs"
  by (induction xs) auto

lemma length_update_first [simp]: "length (update_first P f xs) = length xs"
  by (induction xs) auto

lemma map_update_first: "(\<And>x. g (f x) = g x) \<Longrightarrow> map g (update_first P f xs) = map g xs"
  by (induction xs) auto

lemma set_update_first:
  "y \<in> set (update_first P f xs) \<Longrightarrow> y \<in> set xs \<or> (\<exists>x \<in> set xs. P x \<and> y = f x)"
  by (induction xs) (auto split: if_splits)

lemma update_first_key:
  assumes "distinct (map rec_key xs)" "\<And>r. rec_key (f r) = rec_key r"
    "y \<in> set (update_first (\<lambda>r. rec_key r = k) f xs)"
  shows "\<exists>x \<in> set xs. y = (if rec_key x = k then f x else x)"
  using assms(1,3)
proof (induction xs)
  case (Cons a xs)
  have dist: "distinct (map rec_key xs)" using Cons.prems(1) by simp
  show ?case
  proof (cases "rec_key a = k")
    case True
    then have "y = f a \<or> y \<in> set xs" using Cons.prems by simp
    moreover have "k \<notin> rec_key ` set xs" using Cons.prems(1) True by auto
    then have "rec_key y \<noteq> k" if "y \<in> set xs" using that by blast
    ultimately show ?thesis using True by auto
  next
    case False
    then have "y = a \<or> y \<in> set (update_first (\<lambda>r. rec_key r = k) f xs)" using Cons.prems(2) by simp
    then show ?thesis using False Cons.IH [OF dist] by (metis list.set_intros)
  qed
qed simp

lemma list_all2_update_first:
  assumes "\<And>x. R x x" "\<And>x. x \<in> set xs \<Longrightarrow> P x \<Longrightarrow> R x (f x)"
  shows "list_all2 R xs (update_first P f xs)"
  using assms(2) by (induction xs) (auto simp: assms(1) list_all2_same)

lemma rec_key_touch [simp]: "rec_key (touch at r) = rec_key r"
  by (simp add: touch_def)

section \<open>Links\<close>

lemma validated_links_from_Inr:
  "validated_links_from L links acc = Inr ls \<Longrightarrow> distinct acc \<Longrightarrow>
     distinct ls \<and> length ls = length acc + length links"
proof (induction links arbitrary: acc)
  case (Cons l links)
  from Cons.prems(1) obtain p where p: "p \<notin> set acc" "validated_links_from L links (acc @ [p]) = Inr ls"
    by (auto simp: rbind_Inr_iff)
  from Cons.IH [OF p(2)] Cons.prems(2) p(1) show ?case by simp
qed simp

lemma validatedLinks_Inr:
  "validatedLinks L links = Inr ls \<Longrightarrow> distinct ls \<and> length ls = length links \<and> length ls \<le> maximumLinks"
  using validated_links_from_Inr [of L links "[]" ls] by (auto simp: validatedLinks_def rbind_Inr_iff)

section \<open>Changes keep documents well-formed\<close>

lemma recordChangeE:
  assumes "recordChange raw a = Inr a'"
  obtains at modified where "timestamp raw = Inr at" "at \<noteq> []" "as_revision a \<noteq> - 1"
    "modified = (if as_modifiedAt a = [] \<or> as_modifiedAt a < at then at else as_modifiedAt a)"
    "modified \<noteq> []" "as_modifiedAt a \<le> modified"
    "as_revision a' = as_revision a + 1" "as_modifiedAt a' = modified" "as_lastAuthor a' = as_activeAuthor a"
    "as_activeAuthor a' = as_activeAuthor a" "as_links a' = as_links a"
    "as_authors a' = update_first (\<lambda>r. rec_key r = as_activeAuthor a) (touch modified) (as_authors a)"
    "as_dump a' = authorship_text a'" "length (as_dump a') \<le> maximumBytes"
proof -
  from assms obtain at where at: "timestamp raw = Inr at" "at \<noteq> []"
    by (cases "timestamp raw") (auto simp: recordChange_def dest: timestamp_canonical)
  define modified where "modified = (if as_modifiedAt a = [] \<or> as_modifiedAt a < at then at else as_modifiedAt a)"
  have ne: "as_revision a \<noteq> - 1" using assms at by (auto simp: recordChange_def)
  have "modified \<noteq> []" "as_modifiedAt a \<le> modified" using at by (auto simp: modified_def)
  then show ?thesis
    using assms at ne
    by (intro that [of at modified]) (auto simp: recordChange_def modified_def rebuildDump_Inr Let_def)
qed

lemma rec_touch:
  assumes "record_ok m r \<or> rec_firstChangedAt r = []" "m \<le> m'" "m' \<noteq> []"
  shows "record_ok m' (touch m' r)"
  using assms by (auto simp: record_ok_def touch_def intro: order_trans)

lemma record_ok_mono: "record_ok m r \<Longrightarrow> m \<le> m' \<Longrightarrow> record_ok m' r"
  by (auto simp: record_ok_def)

lemma next_revision_nonzero: "(r :: u64) \<noteq> - 1 \<Longrightarrow> r + 1 \<noteq> 0"
  by (metis add.commute add_eq_0_iff)

lemma recordChange_ok:
  assumes "draft_ok a" "recordChange raw a = Inr a'"
  shows "authorship_ok a'"
proof (rule recordChangeE [OF assms(2)])
  fix at m assume m: "m \<noteq> []" "as_modifiedAt a \<le> m" "as_revision a \<noteq> - 1"
    and a': "as_revision a' = as_revision a + 1" "as_modifiedAt a' = m" "as_lastAuthor a' = as_activeAuthor a"
      "as_activeAuthor a' = as_activeAuthor a" "as_links a' = as_links a"
      "as_authors a' = update_first (\<lambda>r. rec_key r = as_activeAuthor a) (touch m) (as_authors a)"
      "as_dump a' = authorship_text a'" "length (as_dump a') \<le> maximumBytes"
  have keys: "author_keys a' = author_keys a" unfolding author_keys_def a'(6) by (rule map_update_first) simp
  have recs: "\<forall>r \<in> set (as_authors a'). record_ok m r"
  proof
    fix y assume "y \<in> set (as_authors a')"
    moreover have "distinct (map rec_key (as_authors a))" using assms(1) by (simp add: draft_ok_def author_keys_def)
    ultimately obtain x where x: "x \<in> set (as_authors a)" "y = (if rec_key x = as_activeAuthor a then touch m x else x)"
      unfolding a'(6) by (metis update_first_key rec_key_touch)
    with assms(1) have "record_ok (as_modifiedAt a) x \<or> rec_key x = as_activeAuthor a \<and> rec_firstChangedAt x = []"
      by (auto simp: draft_ok_def)
    then show "record_ok m y" using x(2) m rec_touch record_ok_mono by (cases "rec_key x = as_activeAuthor a") auto
  qed
  have "length (as_authors a') = length (as_authors a)" unfolding a'(6) by simp
  then show "authorship_ok a'"
    using assms(1) recs keys a' m next_revision_nonzero by (auto simp: authorship_ok_def draft_ok_def)
qed

lemma new_authorship_ok: "new_authorship = Inr a \<Longrightarrow> authorship_ok a"
  by (auto simp: new_authorship_def rebuildDump_Inr authorship_ok_defs blank_authorship_def maximumLinks_def
      authorship_text_def)

lemma clearActiveAuthor_ok: "authorship_ok a \<Longrightarrow> authorship_ok (clearActiveAuthor a)"
  by (auto simp: clearActiveAuthor_def authorship_ok_defs)

lemma setLinksE:
  assumes "setLinks L links raw a = Inr (a', b)"
  obtains (same) "validatedLinks L links = Inr (as_links a)" "a' = a" "\<not> b"
  | (changed) parsed where "validatedLinks L links = Inr parsed" "parsed \<noteq> as_links a"
      "recordChange raw (a\<lparr>as_links := parsed\<rparr>) = Inr a'" "b"
proof -
  from assms obtain parsed where "validatedLinks L links = Inr parsed" by (auto simp: setLinks_def rbind_Inr_iff)
  with assms show ?thesis
    by (cases "parsed = as_links a") (auto simp: setLinks_def rbind_Inr_iff intro: same changed)
qed

lemma draft_links: "authorship_ok a \<Longrightarrow> distinct ls \<Longrightarrow> length ls \<le> maximumLinks \<Longrightarrow> draft_ok (a\<lparr>as_links := ls\<rparr>)"
  by (simp add: authorship_ok_defs)

lemma authorship_ok_draft: "authorship_ok a \<Longrightarrow> draft_ok a"
  by (simp add: authorship_ok_def)

lemma setLinks_ok: "authorship_ok a \<Longrightarrow> setLinks L links raw a = Inr (a', b) \<Longrightarrow> authorship_ok a'"
  by (erule setLinksE) (auto intro!: recordChange_ok draft_links dest!: validatedLinks_Inr)

lemma find_key: "List.find (\<lambda>r. rec_key r = key) xs = Some r \<Longrightarrow> rec_key r = key \<and> r \<in> set xs"
  by (auto simp: find_Some_iff)

lemma find_no_key: "List.find (\<lambda>r. rec_key r = key) xs = None \<Longrightarrow> key \<notin> rec_key ` set xs"
  by (auto simp: find_None_iff)

lemma setAuthorE:
  assumes "setAuthor L author links raw a = Inr (a', b)"
  obtains (same) key r where "keyFor author = Inr key" "validatedLinks L links = Inr (as_links a)"
      "r \<in> set (as_authors a)" "rec_key r = key" "rec_profile r = fa_profile author"
      "a' = a\<lparr>as_activeAuthor := key\<rparr>" "\<not> b"
  | (known) key parsed d where "keyFor author = Inr key" "validatedLinks L links = Inr parsed"
      "key \<in> set (author_keys a)"
      "d = a\<lparr>as_links := parsed, as_activeAuthor := key, as_authors :=
         update_first (\<lambda>r. rec_key r = key) (\<lambda>r. r\<lparr>rec_profile := fa_profile author\<rparr>) (as_authors a)\<rparr>"
      "recordChange raw d = Inr a'" "b"
  | (fresh) key parsed d where "keyFor author = Inr key" "validatedLinks L links = Inr parsed"
      "key \<notin> set (author_keys a)" "length (as_authors a) < 256"
      "d = a\<lparr>as_links := parsed, as_activeAuthor := key, as_authors := as_authors a @ [\<lparr>rec_key = key,
         rec_profile = fa_profile author, rec_firstChangedAt = [], rec_lastChangedAt = []\<rparr>]\<rparr>"
      "recordChange raw d = Inr a'" "b"
proof -
  from assms obtain parsed key where p: "validatedLinks L links = Inr parsed" "keyFor author = Inr key"
    by (auto simp: setAuthor_def rbind_Inr_iff)
  show ?thesis
  proof (cases "List.find (\<lambda>r. rec_key r = key) (as_authors a)")
    case None
    show ?thesis
      by (rule fresh [OF p(2,1)]) (use assms p None find_no_key [OF None] in
          \<open>auto simp: setAuthor_def Let_def rbind_Inr_iff author_keys_def\<close>)
  next
    case (Some r)
    note r = find_key [OF Some]
    show ?thesis
    proof (cases "rec_profile r = fa_profile author \<and> parsed = as_links a")
      case True
      show ?thesis
        by (rule same [OF p(2) _ r [THEN conjunct2] r [THEN conjunct1]])
          (use assms p Some True in \<open>auto simp: setAuthor_def Let_def\<close>)
    next
      case False
      show ?thesis
        by (rule known [OF p(2,1)]) (use assms p Some False r in
            \<open>auto simp: setAuthor_def Let_def rbind_Inr_iff author_keys_def simp del: de_Morgan_conj\<close>)
    qed
  qed
qed

lemma setAuthor_ok:
  assumes "authorship_ok a" "setAuthor L author links raw a = Inr (a', b)"
  shows "authorship_ok a'"
  using assms(2)
proof (cases rule: setAuthorE)
  case (same key r)
  then show ?thesis using assms(1) by (auto simp: authorship_ok_defs)
next
  case (known key parsed d)
  have k: "author_keys d = author_keys a"
    unfolding known(4) author_keys_def by (simp add: map_update_first)
  have "\<forall>r \<in> set (as_authors d). record_ok (as_modifiedAt d) r"
    using assms(1) unfolding known(4)
    by (auto simp: authorship_ok_def record_ok_def dest!: set_update_first)
  then have "draft_ok d"
    using assms(1) known(3) k validatedLinks_Inr [OF known(2)] by (auto simp: known(4) authorship_ok_def draft_ok_def)
  then show ?thesis using known(5) by (rule recordChange_ok)
next
  case (fresh key parsed d)
  have "draft_ok d"
    using assms(1) fresh(3,4) validatedLinks_Inr [OF fresh(2)] by (auto simp: fresh(5) authorship_ok_defs)
  then show ?thesis using fresh(6) by (rule recordChange_ok)
qed

section \<open>Restored documents\<close>

lemma text_date_nonempty: "optionalDate j name required = Inr s \<Longrightarrow> required \<Longrightarrow> s \<noteq> []"
  by (auto simp: optionalDate_def rbind_Inr_iff split: option.splits json.splits)

lemma read_record_Inr:
  assumes "read_record L modified seen item = Inr r"
  shows "record_ok modified r \<and> rec_key r \<notin> set seen"
  using assms text_date_nonempty by (auto simp: read_record_def rbind_Inr_iff record_ok_def)

lemma read_records_Inr:
  "read_records L modified items prior = Inr rs \<Longrightarrow> distinct (map rec_key prior) \<Longrightarrow>
     \<forall>r \<in> set prior. record_ok modified r \<Longrightarrow>
     distinct (map rec_key rs) \<and> (\<forall>r \<in> set rs. record_ok modified r) \<and> length rs = length prior + length items"
proof (induction items arbitrary: prior)
  case (Cons item items)
  from Cons.prems(1) obtain r where r: "read_record L modified (map rec_key prior) item = Inr r"
    "read_records L modified items (prior @ [r]) = Inr rs" by (auto simp: rbind_Inr_iff)
  from Cons.IH [OF r(2)] read_record_Inr [OF r(1)] Cons.prems(2,3) show ?case by auto
qed simp

lemma last_author_Inr: "last_author rs j = Inr k \<Longrightarrow> k = [] \<or> k \<in> set (map rec_key rs)"
  by (auto simp: last_author_def rbind_Inr_iff split: if_splits)

lemma read_links_Inr: "read_links L schema j = Inr ls \<Longrightarrow> distinct ls \<and> length ls \<le> maximumLinks"
  by (auto simp: read_links_def rbind_Inr_iff split: if_splits dest: validatedLinks_Inr)

lemma restoreE:
  assumes "restore L value = Inr a"
  obtains version schema raw revision modified authors items records last_json last links u where
    "jat value ''schemaVersion'' = Inr version" "schema_of L version = Inr schema"
    "text_member L value ''revision'' 20 True False = Inr raw" "parse_revision raw = Inr revision"
    "optionalDate value ''modifiedAt'' (revision \<noteq> 0) = Inr modified"
    "jat value ''authors'' = Inr authors" "get_array authors = Inr items" "length items \<le> 256"
    "read_records L modified items [] = Inr records" "jat value ''lastAuthor'' = Inr last_json"
    "last_author records last_json = Inr last" "read_links L schema value = Inr links"
    "revision \<noteq> 0 \<or> records = [] \<and> links = [] \<and> modified = []"
    "rebuildDump \<lparr>as_revision = revision, as_modifiedAt = modified, as_lastAuthor = last,
       as_activeAuthor = [], as_dump = [], as_authors = records, as_links = links\<rparr> = Inr a"
    "check_canonical L schema value a = Inr u"
  using assms unfolding restore_def
  by (elim rbind_InrE) (simp only: require_that_Inr sum.inject)

lemma restore_ok:
  assumes "restore L value = Inr a" shows "authorship_ok a"
  using assms
proof (rule restoreE)
  fix version schema raw revision modified authors items records last_json last links u
  assume e: "optionalDate value ''modifiedAt'' (revision \<noteq> 0) = Inr modified" "length items \<le> 256"
    "read_records L modified items [] = Inr records" "last_author records last_json = Inr last"
    "read_links L schema value = Inr links" "revision \<noteq> 0 \<or> records = [] \<and> links = [] \<and> modified = []"
    "rebuildDump \<lparr>as_revision = revision, as_modifiedAt = modified, as_lastAuthor = last,
       as_activeAuthor = [], as_dump = [], as_authors = records, as_links = links\<rparr> = Inr a"
  have "revision = 0 \<longleftrightarrow> modified = []" using e(6) text_date_nonempty [OF e(1)] by auto
  then show ?thesis
    using e(2,6,7) read_records_Inr [OF e(3)] last_author_Inr [OF e(4)] read_links_Inr [OF e(5)]
    by (auto simp: rebuildDump_Inr authorship_ok_defs authorship_text_def)
qed

lemma caught_Some [simp]: "caught m = Some v \<longleftrightarrow> m = Inr v"
  by (cases m) auto

lemma fromDump_ok: "authorship_fromDump L s = Some a \<Longrightarrow> authorship_ok a"
  by (auto simp: authorship_fromDump_def rbind_Inr_iff dest: restore_ok)

section \<open>Reachable documents\<close>

inductive authorship_step :: "('b) native_library_scheme \<Rightarrow> Authorship \<Rightarrow> Authorship \<Rightarrow> bool" for L where
  author: "setAuthor L author links raw a = Inr (a', b) \<Longrightarrow> authorship_step L a a'"
| author_only: "setAuthor_only L author raw a = Inr (a', b) \<Longrightarrow> authorship_step L a a'"
| links: "setLinks L links raw a = Inr (a', b) \<Longrightarrow> authorship_step L a a'"
| link_strings: "setLinksFromStrings L entries raw a = Inr (a', b) \<Longrightarrow> authorship_step L a a'"
| change: "recordChange raw a = Inr a' \<Longrightarrow> authorship_step L a a'"
| clear: "authorship_step L a (clearActiveAuthor a)"

inductive authorship_reachable :: "('b) native_library_scheme \<Rightarrow> Authorship \<Rightarrow> bool" for L where
  created: "new_authorship = Inr a \<Longrightarrow> authorship_reachable L a"
| restored: "authorship_fromDump L s = Some a \<Longrightarrow> authorship_reachable L a"
| stepped: "authorship_reachable L a \<Longrightarrow> authorship_step L a a' \<Longrightarrow> authorship_reachable L a'"

text \<open>Every step is a step by an author, by links, a bare change, or touches the active author only.\<close>

lemma authorship_stepE:
  assumes "authorship_step L a a'"
  obtains (author) author links raw b where "setAuthor L author links raw a = Inr (a', b)"
  | (links) links raw b where "setLinks L links raw a = Inr (a', b)"
  | (change) raw where "recordChange raw a = Inr a'"
  | (clear) "a' = clearActiveAuthor a"
  using assms
proof (cases rule: authorship_step.cases)
  case (author author links raw b)
  then show ?thesis by (rule that(1))
next
  case (author_only author raw b)
  then show ?thesis unfolding setAuthor_only_def by (rule that(1))
next
  case (links links raw b)
  then show ?thesis by (rule that(2))
next
  case (link_strings entries raw b)
  then show ?thesis unfolding setLinksFromStrings_def by (elim rbind_InrE) (rule that(2))
next
  case (change raw)
  then show ?thesis by (rule that(3))
next
  case clear
  then show ?thesis by (rule that(4))
qed

lemma authorship_step_ok: "authorship_step L a a' \<Longrightarrow> authorship_ok a \<Longrightarrow> authorship_ok a'"
proof (elim authorship_stepE)
  fix raw assume "authorship_ok a" "recordChange raw a = Inr a'"
  then show ?thesis by (rule recordChange_ok [OF authorship_ok_draft])
next
  fix author links raw b assume "authorship_ok a" "setAuthor L author links raw a = Inr (a', b)"
  then show ?thesis by (rule setAuthor_ok)
next
  fix links raw b assume "authorship_ok a" "setLinks L links raw a = Inr (a', b)"
  then show ?thesis by (rule setLinks_ok)
next
  assume "authorship_ok a" "a' = clearActiveAuthor a"
  then show ?thesis by (simp add: clearActiveAuthor_ok)
qed

lemma authorship_reachable_ok: "authorship_reachable L a \<Longrightarrow> authorship_ok a"
  by (induction rule: authorship_reachable.induct) (auto intro: new_authorship_ok fromDump_ok authorship_step_ok)

section \<open>History grows\<close>

text \<open>
  \<open>later a a'\<close>: the authors of \<open>a\<close> are still there, in order and with their first dates; the
  modification date did not move back; and either only the active author changed, or
  the revision is the next one and the change is ascribed to the active author.
\<close>

definition record_later :: "Author_Record \<Rightarrow> Author_Record \<Rightarrow> bool" where
  "record_later r r' \<longleftrightarrow>
     rec_key r' = rec_key r \<and> rec_firstChangedAt r' = rec_firstChangedAt r \<and> rec_lastChangedAt r \<le> rec_lastChangedAt r'"

definition later :: "Authorship \<Rightarrow> Authorship \<Rightarrow> bool" where
  "later a a' \<longleftrightarrow>
     list_all2 record_later (as_authors a) (take (length (as_authors a)) (as_authors a')) \<and>
     as_modifiedAt a \<le> as_modifiedAt a' \<and>
     (a' = a\<lparr>as_activeAuthor := as_activeAuthor a'\<rparr> \<or>
      unat (as_revision a') = unat (as_revision a) + 1 \<and> as_lastAuthor a' = as_activeAuthor a')"

lemma record_later_refl: "record_later r r"
  by (simp add: record_later_def)

lemma record_later_trans: "record_later r s \<Longrightarrow> record_later s t \<Longrightarrow> record_later r t"
  by (auto simp: record_later_def)

lemma touch_later: "record_ok m r \<Longrightarrow> m \<le> m' \<Longrightarrow> record_later r (touch m' r)"
  by (auto simp: record_ok_def record_later_def touch_def)

lemma touched_later:
  "\<forall>r \<in> set rs. record_ok m r \<Longrightarrow> m \<le> m' \<Longrightarrow> list_all2 record_later rs (update_first P (touch m') rs)"
  by (rule list_all2_update_first) (auto simp: record_later_refl touch_later)

lemma reprofiled_later:
  "list_all2 record_later rs (update_first P (\<lambda>r. r\<lparr>rec_profile := p\<rparr>) rs)"
  by (rule list_all2_update_first) (auto simp: record_later_def)

lemma list_all2_record_later_trans:
  "list_all2 record_later rs ss \<Longrightarrow> list_all2 record_later ss ts \<Longrightarrow> list_all2 record_later rs ts"
  by (rule list_all2_trans [of record_later record_later record_later, OF record_later_trans])

lemma next_unat: "(r :: u64) \<noteq> - 1 \<Longrightarrow> unat (r + 1) = unat r + 1"
proof -
  assume "r \<noteq> - 1"
  then have "1 + r \<noteq> 0" using next_revision_nonzero [of r] by (simp only: add.commute [of 1 r]) simp
  then have "unat (1 + r) = Suc (unat r)" by (rule unatSuc)
  then show ?thesis by (simp only: add.commute [of r 1] Suc_eq_plus1)
qed

lemma update_first_append:
  "\<forall>x \<in> set xs. \<not> P x \<Longrightarrow> update_first P f (xs @ ys) = xs @ update_first P f ys"
  by (induction xs) auto

lemma recordChange_later:
  assumes "recordChange raw d = Inr a'" "\<forall>r \<in> set rs. record_ok (as_modifiedAt d) r"
    "list_all2 record_later rs0 rs" "length rs = n" "as_authors d = rs \<or>
       as_authors d = rs @ [r] \<and> rec_key r = as_activeAuthor d \<and> rec_key r \<notin> rec_key ` set rs"
  shows "list_all2 record_later rs0 (take n (as_authors a')) \<and> as_modifiedAt d \<le> as_modifiedAt a' \<and>
    unat (as_revision a') = unat (as_revision d) + 1 \<and> as_lastAuthor a' = as_activeAuthor a'"
proof (rule recordChangeE [OF assms(1)])
  fix at m assume m: "as_revision d \<noteq> - 1" "as_modifiedAt d \<le> m" "as_revision a' = as_revision d + 1" "as_modifiedAt a' = m"
    "as_lastAuthor a' = as_activeAuthor d" "as_activeAuthor a' = as_activeAuthor d"
    "as_authors a' = update_first (\<lambda>r. rec_key r = as_activeAuthor d) (touch m) (as_authors d)"
  have "take n (as_authors a') = rs \<or> take n (as_authors a') = update_first (\<lambda>r. rec_key r = as_activeAuthor d) (touch m) rs"
    using assms(5)
  proof
    assume e: "as_authors d = rs @ [r] \<and> rec_key r = as_activeAuthor d \<and> rec_key r \<notin> rec_key ` set rs"
    then have "as_authors a' = rs @ [touch m r]" 
      unfolding m(7) conjunct1 [OF e] by (subst update_first_append) (metis image_eqI, simp)
    then show ?thesis using assms(4) by simp
  qed (use m(7) assms(4) in simp)
  then have "list_all2 record_later rs (take n (as_authors a'))"
    using touched_later [OF assms(2) m(2)] by (auto simp: list_all2_same record_later_refl)
  then show ?thesis using assms(3) m next_unat list_all2_record_later_trans by auto
qed

lemma authorship_step_later:
  assumes "authorship_ok a" "authorship_step L a a'" shows "later a a'"
proof -
  have ok: "\<forall>r \<in> set (as_authors a). record_ok (as_modifiedAt a) r" using assms(1) by (simp add: authorship_ok_def)
  have same: "list_all2 record_later (as_authors a) (as_authors a)" by (simp add: list_all2_same record_later_refl)
  show ?thesis using assms(2)
  proof (cases rule: authorship_stepE)
    case (author author links raw b)
    then show ?thesis
    proof (cases rule: setAuthorE)
      case (known key parsed d)
      have "\<forall>r \<in> set (as_authors d). record_ok (as_modifiedAt d) r"
        using ok unfolding known(4) by (auto simp: record_ok_def dest!: set_update_first)
      moreover have "list_all2 record_later (as_authors a) (as_authors d)" unfolding known(4) by (simp add: reprofiled_later)
      moreover have "length (as_authors d) = length (as_authors a)" unfolding known(4) by simp
      ultimately show ?thesis
        using recordChange_later [OF known(5), of "as_authors d" "as_authors a" "length (as_authors a)"] 
        by (simp add: later_def) (simp add: known(4))
    next
      case (fresh key parsed d)
      show ?thesis
        using recordChange_later [OF fresh(6), of "as_authors a" "as_authors a" "length (as_authors a)"] ok same fresh(3)
        by (simp add: later_def author_keys_def fresh(5))
    qed (use same in \<open>auto simp: later_def\<close>)
  next
    case (links links raw b)
    then show ?thesis
    proof (cases rule: setLinksE)
      case (changed parsed)
      show ?thesis
        using recordChange_later [OF changed(3), of "as_authors a" "as_authors a" "length (as_authors a)"] ok same
        by (simp add: later_def)
    qed (use same in \<open>auto simp: later_def\<close>)
  next
    case (change raw)
    show ?thesis
      using recordChange_later [OF change, of "as_authors a" "as_authors a" "length (as_authors a)"] ok same
      by (simp add: later_def)
  qed (use same in \<open>auto simp: later_def clearActiveAuthor_def\<close>)
qed

end
