(* ===== verification/Native_Document.thy ===== *)
theory Native_Document
  imports Native_Identity
begin

text \<open>
  The dump of an authorship document: it is the compact JSON text of the document, and
  \<open>fromDump\<close> reads back what \<open>rebuildDump\<close> wrote.  What is assumed of utf8proc and nlohmann/json
  is named here.
\<close>

section \<open>The hand-written serializer agrees with the compact form\<close>

fun compact :: "json \<Rightarrow> string" where
  "compact JNull = ''null''"
| "compact (JBool b) = (if b then ''true'' else ''false'')"
| "compact (JInt i) = int_to_string i"
| "compact (JReal r) = r"
| "compact (JString s) = quote s"
| "compact (JArray xs) = ''['' @ comma_separated (map compact xs) @ '']''"
| "compact (JObject kvs) = ''{'' @ comma_separated (map (\<lambda>(k, v). quote k @ '':'' @ compact v) kvs) @ ''}''"

definition record_json :: "Author_Record \<Rightarrow> json \<Rightarrow> json" where
  "record_json r profile = JObject [(''author'', profile), (''firstChangedAt'', JString (rec_firstChangedAt r)),
     (''key'', JString (rec_key r)), (''lastChangedAt'', JString (rec_lastChangedAt r))]"

definition link_json :: "FileLink \<Rightarrow> json" where
  "link_json l = JObject [(''name'', JString (link_name l)), (''url'', JString (link_url l))]"

definition null_or_string :: "string \<Rightarrow> json" where
  "null_or_string s = (if s = [] then JNull else JString s)"

definition authorship_json :: "Authorship \<Rightarrow> json list \<Rightarrow> json" where
  "authorship_json a profiles = JObject
     [(''authors'', JArray (map2 record_json (as_authors a) profiles)),
      (''firstEditor'', null_or_string (if as_authors a = [] then [] else rec_key (hd (as_authors a)))),
      (''lastAuthor'', null_or_string (as_lastAuthor a)),
      (''links'', JArray (map link_json (as_links a))),
      (''modifiedAt'', null_or_string (as_modifiedAt a)),
      (''participants'', JArray (map (\<lambda>r. JString (rec_key r)) (tl (as_authors a)))),
      (''revision'', JString (nat_to_string (unat (as_revision a)))),
      (''schemaVersion'', JInt 3)]"

lemma length_quote: "length (quote s) \<le> 6 * length s + 2"
proof -
  have "length (quote_char c) \<le> 6" for c by (simp add: quote_char_def Let_def)
  then have "length (concat (map quote_char s)) \<le> 6 * length s"
    by (induction s) (auto simp: add_mono)
  then show ?thesis by (simp add: quote_def)
qed

lemma quote_plain: "list_all (\<lambda>c. quote_char c = [c]) s \<Longrightarrow> quote s = CHR 0x22 # s @ [CHR 0x22]"
  by (simp add: quote_def concat_map_singleton list_all_iff cong: map_cong)

lemma qkey_quote: "list_all (\<lambda>c. quote_char c = [c]) s \<Longrightarrow> quote s @ CHR '':'' # t = qkey s @ t"
  by (simp add: quote_plain qkey_def)

lemmas quote_char_simps = quote_char_def Let_def

lemma keys_plain:
  "quote ''author'' @ CHR '':'' # t = qkey ''author'' @ t" "quote ''firstChangedAt'' @ CHR '':'' # t = qkey ''firstChangedAt'' @ t"
  "quote ''key'' @ CHR '':'' # t = qkey ''key'' @ t" "quote ''lastChangedAt'' @ CHR '':'' # t = qkey ''lastChangedAt'' @ t"
  "quote ''name'' @ CHR '':'' # t = qkey ''name'' @ t" "quote ''url'' @ CHR '':'' # t = qkey ''url'' @ t"
  "quote ''authors'' @ CHR '':'' # t = qkey ''authors'' @ t" "quote ''firstEditor'' @ CHR '':'' # t = qkey ''firstEditor'' @ t"
  "quote ''lastAuthor'' @ CHR '':'' # t = qkey ''lastAuthor'' @ t" "quote ''links'' @ CHR '':'' # t = qkey ''links'' @ t"
  "quote ''modifiedAt'' @ CHR '':'' # t = qkey ''modifiedAt'' @ t" "quote ''participants'' @ CHR '':'' # t = qkey ''participants'' @ t"
  "quote ''revision'' @ CHR '':'' # t = qkey ''revision'' @ t" "quote ''schemaVersion'' @ CHR '':'' # t = qkey ''schemaVersion'' @ t"
  by (rule qkey_quote, simp add: quote_char_simps)+

lemma compact_record:
  "compact p = rec_profile r \<Longrightarrow> compact (record_json r p) = record_text r"
  by (simp only: record_json_def record_text_def compact.simps list.map prod.case comma_separated.simps
      keys_plain append_assoc append_Cons append_Nil)

lemma compact_link: "compact (link_json l) = link_text l"
  by (simp only: link_json_def link_text_def compact.simps list.map prod.case comma_separated.simps
      keys_plain append_assoc append_Cons append_Nil)

lemma compact_null_or_string: "compact (null_or_string s) = nullable s"
  by (simp add: null_or_string_def nullable_def)

lemma compact_records:
  "list_all2 (\<lambda>r p. compact p = rec_profile r) rs ps \<Longrightarrow> map compact (map2 record_json rs ps) = map record_text rs"
  by (induction rule: list_all2_induct) (simp_all add: compact_record)

lemma compact_three: "compact (JInt 3) = ''3''"
  by (simp add: int_to_string_def nat_to_string.simps char_of_eq_iff take_bit_nat_eq_self)

lemma compact_authorship:
  assumes "list_all2 (\<lambda>r p. compact p = rec_profile r) (as_authors a) profiles"
  shows "compact (authorship_json a profiles) = authorship_text a"
proof -
  have keys: "map compact (map (\<lambda>r. JString (rec_key r)) (tl (as_authors a))) = map (\<lambda>r. quote (rec_key r)) (tl (as_authors a))"
    by simp
  have links: "map compact (map link_json (as_links a)) = map link_text (as_links a)"
    by (simp add: compact_link)
  show ?thesis
    by (simp only: authorship_json_def authorship_text_def compact.simps(5,6,7) list.map prod.case comma_separated.simps
        keys_plain append_assoc append_Cons append_Nil compact_null_or_string
        compact_records [OF assms] keys links compact_three)
qed

section \<open>Plain text passes unchanged\<close>

definition plain_char :: "char \<Rightarrow> bool" where
  "plain_char c \<longleftrightarrow> 33 \<le> (of_char c :: nat) \<and> (of_char c :: nat) \<le> 126"

text \<open>utf8proc on visible ASCII characters, as its documentation has it.\<close>

definition ascii_laws :: "('b) native_library_scheme \<Rightarrow> bool" where
  "ascii_laws L \<longleftrightarrow>
     (\<forall>s. list_all plain_char s \<longrightarrow> u_map L False s = Some s) \<and>
     (\<forall>c s. plain_char c \<longrightarrow> u_iterate L (c # s) = (1, of_char c)) \<and>
     (\<forall>c. plain_char c \<longrightarrow> u_category L (of_char c) = Cat_Other \<and> u_encode L (of_char c) = [c])"

lemma scalars_plain: "ascii_laws L \<Longrightarrow> list_all plain_char s \<Longrightarrow> scalars L s = Inr (map of_char s)"
proof (induction s)
  case (Cons c s)
  then show ?case by (simp add: scalars.simps [of L "c # s"] ascii_laws_def)
qed (simp add: scalars.simps)

lemma trim_none: "\<forall>x \<in> set xs. \<not> P x \<Longrightarrow> trim P xs = xs"
proof -
  assume none: "\<forall>x \<in> set xs. \<not> P x"
  have "dropWhile P ys = ys" if "set ys = set xs" for ys using none that by (cases ys) auto
  then show ?thesis by (simp add: trim_def)
qed

lemma clean_plain:
  assumes "ascii_laws L" "list_all plain_char s" "length s \<le> n" "required \<longrightarrow> s \<noteq> []"
  shows "clean L s n required multiline = Inr s"
proof -
  have "\<forall>x \<in> set (map of_char s). \<not> whitespace L x"
    using assms(1,2) by (auto simp: whitespace_def ascii_laws_def list_all_iff plain_char_def)
  then have t: "trim (whitespace L) (map of_char s) = map of_char s" by (rule trim_none)
  have ok: "list_all (point_ok L multiline) (map of_char s)"
    using assms(1,2) by (auto simp: point_ok_def ascii_laws_def list_all_iff)
  have enc: "concat (map (u_encode L) (map of_char s)) = s"
    using assms(1,2) by (induction s) (simp_all add: ascii_laws_def)
  have n: "normalize L s False False = Inr s" using assms(1,2) by (simp add: normalize_def ascii_laws_def)
  show ?thesis using assms(3,4) ok enc by (simp add: clean_def n scalars_plain [OF assms(1,2)] t Let_def)
qed

lemma digits_plain: "is_digit c \<Longrightarrow> plain_char c"
  by (auto simp: is_digit_def plain_char_def)

lemma nat_to_string_plain: "list_all plain_char (nat_to_string n)"
  using nat_to_string_digits digits_plain by (auto simp: list_all_iff)

lemma hex_digit_plain: "k < 16 \<Longrightarrow> plain_char (hex_digits ! k)"
  by (auto simp: hex_digits_def plain_char_def nth_Cons' )

lemma hexDigest_shape: "length (sha256_hexDigest h) = 64 \<and> list_all plain_char (sha256_hexDigest h)"
proof -
  have nib: "unat (drop_bit 4 v) < 16" "unat (v AND 15) < 16" for v :: byte
  proof -
    have "unat v < 256" using unsigned_less [of v, where 'a = nat] by simp
    then show "unat (drop_bit 4 v) < 16" 

      by (simp add: drop_bit_eq_div unat_div less_mult_imp_div_less)
    have "unat (v AND 15) = unat v AND 15" by (simp add: unsigned_and_eq)
    also have "\<dots> \<le> 15" by (simp add: and_nat_def) (metis AND_upper2 nat_le_iff of_nat_numeral zero_le_numeral)
    finally show "unat (v AND 15) < 16" by simp
  qed
  have two: "length (concat (map (\<lambda>v. [f v, g v]) xs)) = 2 * length xs" for f g :: "byte \<Rightarrow> char" and xs
    by (induction xs) auto
  have "length (sha256_digest h) = 32" by (simp add: sha256_digest_def upt_rec)
  then show ?thesis
    using nib hex_digit_plain by (auto simp: sha256_hexDigest_def two list_all_iff)
qed

lemma keyFor_shape: "keyFor fa = Inr k \<Longrightarrow> length k = 64 \<and> list_all plain_char k"
  using hexDigest_shape
  by (auto simp: keyFor_def text_sha256_def sha256_def rbind_Inr_iff split: sum.splits)

section \<open>Revisions and dates read back\<close>

lemma nat_to_string_hd: "0 < n \<Longrightarrow> hd (nat_to_string n) \<noteq> CHR ''0''"
proof (induction n rule: nat_to_string.induct)
  case (1 n)
  show ?case
  proof (cases "n < 10")
    case True
    have "(of_char (char_of (48 + n)) :: nat) = 48 + n" using True by (simp add: take_bit_nat_eq_self)
    then have "char_of (48 + n) \<noteq> CHR ''0''" using \<open>0 < n\<close> by force
    then show ?thesis using True by (simp add: nat_to_string.simps [of n])
  next
    case False
    then show ?thesis using 1 by (simp add: nat_to_string.simps [of n])
  qed
qed

lemma parse_revision_text: "parse_revision (nat_to_string (unat r)) = Inr r"
proof -
  have pat: "revisionPattern (nat_to_string n)" for n
  proof (cases "n = 0")
    case True
    then show ?thesis
      by (simp add: revisionPattern_def nat_to_string.simps char_of_eq_iff take_bit_nat_eq_self)
  next
    case False
    then show ?thesis using nat_to_string_hd [of n] nat_to_string_digits [of _ n]
      by (simp add: revisionPattern_def list_all_iff)
  qed
  have "unat r < 2 ^ 64" using unsigned_less [of r, where 'a = nat] by simp
  then show ?thesis by (simp add: parse_revision_def pat del: string_to_nat.simps)
qed

definition canonical_date :: "string \<Rightarrow> bool" where
  "canonical_date s \<longleftrightarrow> (\<exists>i. canonical_instant i \<and> s = format_instant i)"

lemma timestamp_canonical_date: "canonical_date s \<Longrightarrow> timestamp s = Inr s"
  by (auto simp: canonical_date_def timestamp_def read_format_instant)

lemma optionalDate_canonical:
  "member j name = Some (JString s) \<Longrightarrow> canonical_date s \<Longrightarrow> optionalDate j name required = Inr s"
  by (simp add: optionalDate_def timestamp_canonical_date)

section \<open>Reading back a dump\<close>

text \<open>
  The profile of a record is accepted again unchanged: the JSON value \<open>p\<close> that its text
  stands for is dumped and read to an author with the same profile and key.
\<close>

definition profile_stable :: "('b) native_library_scheme \<Rightarrow> Author_Record \<Rightarrow> json \<Rightarrow> bool" where
  "profile_stable L r p \<longleftrightarrow>
     compact p = rec_profile r \<and>
     (\<exists>s fa. nl_dump L p = Some s \<and> author_fromJsonText L s = Some fa \<and>
        fa_profile fa = rec_profile r \<and> keyFor fa = Inr (rec_key r))"

definition dates_ok :: "Authorship \<Rightarrow> bool" where
  "dates_ok a \<longleftrightarrow>
     (as_modifiedAt a = [] \<or> canonical_date (as_modifiedAt a)) \<and>
     (\<forall>r \<in> set (as_authors a). canonical_date (rec_firstChangedAt r) \<and> canonical_date (rec_lastChangedAt r))"

definition links_stable :: "('b) native_library_scheme \<Rightarrow> FileLink list \<Rightarrow> bool" where
  "links_stable L ls \<longleftrightarrow> (\<forall>l \<in> set ls. link_create L (link_name l) (link_url l) = Some l)"

lemma read_record_json:
  assumes "ascii_laws L" "profile_stable L r p" "record_ok modified r" "rec_key r \<notin> set seen"
    "canonical_date (rec_firstChangedAt r)" "canonical_date (rec_lastChangedAt r)"
  shows "read_record L modified seen (record_json r p) = Inr r"
proof -
  from assms(2) obtain s fa where fa: "nl_dump L p = Some s" "author_fromJsonText L s = Some fa"
    "fa_profile fa = rec_profile r" "keyFor fa = Inr (rec_key r)" by (auto simp: profile_stable_def)
  have "rec_key r \<noteq> []" using keyFor_shape [OF fa(4)] by auto
  then have key: "clean L (rec_key r) 64 True False = Inr (rec_key r)"
    using keyFor_shape [OF fa(4)] by (intro clean_plain [OF assms(1)]) simp_all
  have dates: "optionalDate (record_json r p) ''firstChangedAt'' True = Inr (rec_firstChangedAt r)"
    "optionalDate (record_json r p) ''lastChangedAt'' True = Inr (rec_lastChangedAt r)"
    using assms(5,6) by (auto intro!: optionalDate_canonical simp: record_json_def)
  have mem: "text_member L (record_json r p) ''key'' 64 True False = Inr (rec_key r)"
    "jat (record_json r p) ''author'' = Inr p"
    "keys (record_json r p) [''key'', ''author'', ''firstChangedAt'', ''lastChangedAt''] = Inr ()"
    using key by (simp_all add: text_member_def jat_def record_json_def)
  show ?thesis
    using assms(3,4) fa by (simp add: read_record_def mem dates dump_def record_ok_def)
qed

lemma read_records_json:
  assumes "ascii_laws L" "list_all2 (profile_stable L) rs ps"
    "\<forall>r \<in> set rs. record_ok modified r \<and> canonical_date (rec_firstChangedAt r) \<and> canonical_date (rec_lastChangedAt r)"
    "distinct (map rec_key (prior @ rs))"
  shows "read_records L modified (map2 record_json rs ps) prior = Inr (prior @ rs)"
  using assms(2,3,4)
proof (induction arbitrary: prior rule: list_all2_induct)
  case (Cons r rs p ps)
  have "read_record L modified (map rec_key prior) (record_json r p) = Inr r"
    using Cons.hyps Cons.prems assms(1) by (intro read_record_json) auto
  then show ?case using Cons.IH [of "prior @ [r]"] Cons.prems by simp
qed simp

lemma validated_links_stable:
  "links_stable L ls \<Longrightarrow> distinct (acc @ ls) \<Longrightarrow> validated_links_from L ls acc = Inr (acc @ ls)"
proof (induction ls arbitrary: acc)
  case (Cons l ls)
  then show ?case using Cons.IH [of "acc @ [l]"] by (simp add: links_stable_def)
qed simp

lemma read_links_json:
  assumes "links_stable L ls" "distinct ls" "length ls \<le> maximumLinks" "jat value ''links'' = Inr (JArray (map link_json ls))"
  shows "read_links L 3 value = Inr ls"
proof -
  have one: "read_link L (link_json l) = Inr l" if "l \<in> set ls" for l
    using assms(1) that by (simp add: read_link_def link_json_def string_at_def jat_def links_stable_def)
  have "mapM (read_link L) (map link_json ls) = Inr ls" using one by (induction ls) simp_all
  then show ?thesis
    using assms validated_links_stable [of L ls "[]"] by (simp add: read_links_def validatedLinks_def)
qed

lemma restore_json:
  assumes L: "ascii_laws L" and ok: "authorship_ok a"
    and dates: "dates_ok a" and links: "links_stable L (as_links a)"
    and profiles: "list_all2 (profile_stable L) (as_authors a) ps"
    and parse: "nl_parse L (as_dump a) = Some (authorship_json a ps)"
  shows "restore L (authorship_json a ps) = Inr (clearActiveAuthor a)"
proof -
  let ?j = "authorship_json a ps"
  note defs = authorship_json_def jat_def
  have at: "jat ?j ''schemaVersion'' = Inr (JInt 3)" "jat ?j ''authors'' = Inr (JArray (map2 record_json (as_authors a) ps))"
    "jat ?j ''lastAuthor'' = Inr (null_or_string (as_lastAuthor a))" "jat ?j ''links'' = Inr (JArray (map link_json (as_links a)))"
    "schema_of L (JInt 3) = Inr 3" "schema_checks L 3 ?j = Inr ()"
    by (simp_all add: defs schema_of_def schema_checks_def)
  have rev: "text_member L ?j ''revision'' 20 True False = Inr (nat_to_string (unat (as_revision a)))"
  proof -
    have "unat (as_revision a) < 10 ^ 20" using unsigned_less [of "as_revision a", where 'a = nat] by simp
    then have "length (nat_to_string (unat (as_revision a))) \<le> 20" by (rule nat_to_string_length) simp
    then have "clean L (nat_to_string (unat (as_revision a))) 20 True False = Inr (nat_to_string (unat (as_revision a)))"
      using nat_to_string_plain by (intro clean_plain [OF L]) simp_all
    then show ?thesis by (simp add: text_member_def authorship_json_def)
  qed
  have modified: "optionalDate ?j ''modifiedAt'' (as_revision a \<noteq> 0) = Inr (as_modifiedAt a)"
  proof (cases "as_modifiedAt a = []")
    case True
    then show ?thesis using ok by (simp add: optionalDate_def authorship_json_def null_or_string_def authorship_ok_def)
  next
    case False
    then have "canonical_date (as_modifiedAt a)" using dates by (simp add: dates_ok_def)
    with False show ?thesis by (intro optionalDate_canonical) (simp_all add: authorship_json_def null_or_string_def)
  qed
  have records: "read_records L (as_modifiedAt a) (map2 record_json (as_authors a) ps) [] = Inr (as_authors a)"
    using read_records_json [OF L profiles, of "as_modifiedAt a" "[]"] ok dates
    by (simp add: authorship_ok_def draft_ok_def author_keys_def dates_ok_def)
  have len: "length (map2 record_json (as_authors a) ps) \<le> 256"
    using ok list_all2_lengthD [OF profiles] by (simp add: authorship_ok_def draft_ok_def)
  have last: "last_author (as_authors a) (null_or_string (as_lastAuthor a)) = Inr (as_lastAuthor a)"
    using ok by (auto simp: last_author_def null_or_string_def authorship_ok_def author_keys_def)
  have ls: "read_links L 3 ?j = Inr (as_links a)"
    using ok links at(4) by (intro read_links_json) (simp_all add: authorship_ok_def draft_ok_def)
  have zero: "as_revision a = 0 \<longrightarrow> as_authors a = [] \<and> as_links a = [] \<and> as_modifiedAt a = []"
    using ok by (auto simp: authorship_ok_def)
  have built: "rebuildDump \<lparr>as_revision = as_revision a, as_modifiedAt = as_modifiedAt a, as_lastAuthor = as_lastAuthor a,
       as_activeAuthor = [], as_dump = [], as_authors = as_authors a, as_links = as_links a\<rparr> = Inr (clearActiveAuthor a)"
  proof -
    have "authorship_text \<lparr>as_revision = as_revision a, as_modifiedAt = as_modifiedAt a, as_lastAuthor = as_lastAuthor a,
       as_activeAuthor = [], as_dump = [], as_authors = as_authors a, as_links = as_links a\<rparr> = authorship_text a"
      by (simp add: authorship_text_def)
    moreover have "as_dump a = authorship_text a" "length (authorship_text a) \<le> maximumBytes"
      using ok unfolding authorship_ok_def by metis+
    ultimately show ?thesis by (simp add: rebuildDump_Inr clearActiveAuthor_def)
  qed
  have canon: "check_canonical L 3 ?j (clearActiveAuthor a) = Inr ()"
    using parse by (simp add: check_canonical_def clearActiveAuthor_def defs)
  show ?thesis
    unfolding restore_def
    by (simp add: at rev parse_revision_text modified records len [simplified] last ls zero built canon)
qed

end
