(* ===== verification/Native_Profile.thy ===== *)
theory Native_Profile
  imports Native_Identity
begin

text \<open>
  What an accepted author profile guarantees: the members the rest of the provider relies
  on are present, of the right type and in their normal form.
\<close>

lemma member_set_member: "is_object j \<Longrightarrow> member (set_member k v j) k' = (if k = k' then Some v else member j k')"
  by (cases j) (simp_all add: map_of_put)

lemma is_object_set_member [simp]: "is_object (set_member k v j) = is_object j"
  by (cases j) simp_all

lemma keys_object: "keys j allowed = Inr u \<Longrightarrow> is_object j"
  by (cases j) simp_all

lemma get_string_Inr [simp]: "json_string j = Inr s \<longleftrightarrow> j = JString s"
  by (cases j) auto

lemma jat_Inr [simp]: "jat j k = Inr v \<longleftrightarrow> member j k = Some v"
  by (simp add: jat_def)

lemma string_at_Inr [simp]: "string_at j k = Inr s \<longleftrightarrow> member j k = Some (JString s)"
  by (auto simp: string_at_def rbind_Inr_iff)

text \<open>\<open>account_typed\<close>: the accepted forms of an account's members.\<close>

definition account_typed :: "string \<Rightarrow> IisaccAccount \<Rightarrow> bool" where
  "account_typed service a \<longleftrightarrow>
     subjectPattern (acc_sub a) \<and> emailPattern (acc_email a) \<and>
     (acc_userId a = [] \<or> userPattern (acc_userId a)) \<and>
     acc_societyCloudMembership a \<in> set memberships \<and>
     (acc_avatarUrl a = [] \<or> (\<exists>path. acc_avatarUrl a = service @ path \<and> avatarPattern path))"

lemma starts_with_append: "starts_with (a @ b) s \<Longrightarrow> \<exists>r. s = a @ r"
  unfolding starts_with_def by (metis append.assoc append_take_drop_id)

lemma account_avatar_Inr:
  assumes "account_avatar service j = Inr avatar"
  shows "avatar = JNull \<or> (\<exists>path. avatar = JString (service @ path) \<and> avatarPattern path)"
proof (cases "j = JNull")
  case False
  with assms obtain url where "starts_with (service @ ''/media/avatars/'') url" "avatarPattern (drop (length service) url)"
    "avatar = JString url"
    by (auto simp: account_avatar_def rbind_Inr_iff Let_def split: if_splits)
  then show ?thesis using starts_with_append by fastforce
qed (use assms in \<open>simp add: account_avatar_def\<close>)

lemma account_profile_Inr:
  assumes "account_profile L service j = Inr acc"
  obtains sub mail user membership avatar name where
    "acc = JObject [(''avatarUrl'', avatar), (''displayName'', JString name), (''email'', JString mail),
       (''societyCloudMembership'', JString membership), (''sub'', JString sub), (''userId'', JString user)]"
    "subjectPattern sub" "emailPattern mail" "user = [] \<or> userPattern user" "membership \<in> set memberships"
    "avatar = JNull \<or> (\<exists>path. avatar = JString (service @ path) \<and> avatarPattern path)"
  using assms unfolding account_profile_def
  by (elim rbind_InrE) (simp only: require_that_Inr sum.inject, elim conjE, drule account_avatar_Inr, rule that, erule sym, assumption+)

lemma author_profile_Inr:
  assumes "author_profile L j = Inr p"
  obtains raw service captured account0 account where
    "text_member L j ''serviceOrigin'' 2048 True False = Inr raw" "origin L raw = Inr service"
    "account_profile L service account0 = Inr account"
    "member p ''serviceOrigin'' = Some (JString service)" "member p ''capturedAt'' = Some (JString captured)"
    "member p ''account'' = Some account" "\<exists>i. captured = format_instant i"
    "\<exists>s. nl_dump L p = Some s \<and> length s \<le> 131072"
proof -
  have date: "\<exists>i. s = format_instant i" if "optionalDate v k True = Inr s" for v k s
    using that timestamp_canonical
    by (auto simp: optionalDate_def rbind_Inr_iff split: option.splits json.splits)
  show ?thesis
    using assms unfolding author_profile_def Let_def
  proof (elim rbind_InrE)
    fix u1 u2 schema u3 raw service captured account0 account details0 details attribution0 attribution device0 device u4
    assume k: "keys j [''schemaVersion'', ''account'', ''details'', ''attribution'', ''serviceOrigin'', ''capturedAt'', ''device''] = Inr u2"
      and raw: "text_member L j ''serviceOrigin'' 2048 True False = Inr raw" "origin L raw = Inr service"
      and cap: "optionalDate (set_member ''serviceOrigin'' (JString service) j) ''capturedAt'' True = Inr captured"
      and acc: "account_profile L service account0 = Inr account"
      and size: "profile_size_ok L (set_member ''device'' device (set_member ''attribution'' attribution
        (set_member ''details'' details (set_member ''account'' account (set_member ''capturedAt'' (JString captured)
        (set_member ''serviceOrigin'' (JString service) j)))))) = Inr u4"
      and p: "Inr (set_member ''device'' device (set_member ''attribution'' attribution
        (set_member ''details'' details (set_member ''account'' account (set_member ''capturedAt'' (JString captured)
        (set_member ''serviceOrigin'' (JString service) j)))))) = (Inr p :: (native_error, json) result)"
    have o: "is_object j" using k by (rule keys_object)
    show ?thesis
      by (rule that [OF raw acc]) (use p o size date [OF cap] in
          \<open>auto simp: member_set_member profile_size_ok_def dump_def rbind_Inr_iff\<close>)
  qed
qed

lemma author_fromJsonText_typed:
  assumes "author_fromJsonText L s = Some fa"
  shows "length s \<le> 131072 \<and> length (fa_profile fa) \<le> 131072 \<and>
    account_typed (am_serviceOrigin (fa_metadata fa)) (am_account (fa_metadata fa)) \<and>
    (\<exists>raw. origin L raw = Inr (am_serviceOrigin (fa_metadata fa))) \<and>
    (\<exists>i. am_capturedAt (fa_metadata fa) = format_instant i)"
proof -
  from assms obtain j p where p: "length s \<le> 131072" "author_profile L j = Inr p" "author_of L p = Inr fa"
    by (auto simp: author_fromJsonText_def rbind_Inr_iff)
  show ?thesis
    using p(2)
  proof (rule author_profile_Inr)
    fix raw service captured account0 account
    assume a: "origin L raw = Inr service" "account_profile L service account0 = Inr account"
      "member p ''serviceOrigin'' = Some (JString service)" "member p ''capturedAt'' = Some (JString captured)"
      "member p ''account'' = Some account" "\<exists>i. captured = format_instant i"
      "\<exists>s. nl_dump L p = Some s \<and> length s \<le> 131072"
    from a(2) show ?thesis
    proof (rule account_profile_Inr)
      fix sub mail user membership avatar name
      assume acc: "account = JObject [(''avatarUrl'', avatar), (''displayName'', JString name), (''email'', JString mail),
         (''societyCloudMembership'', JString membership), (''sub'', JString sub), (''userId'', JString user)]"
        and ok: "subjectPattern sub" "emailPattern mail" "user = [] \<or> userPattern user" "membership \<in> set memberships"
          "avatar = JNull \<or> (\<exists>path. avatar = JString (service @ path) \<and> avatarPattern path)"
      obtain url doc where fa: "fa = \<lparr>fa_metadata = \<lparr>am_account = \<lparr>acc_sub = sub, acc_email = mail, acc_displayName = name,
            acc_userId = user, acc_societyCloudMembership = membership, acc_avatarUrl = url\<rparr>,
            am_serviceOrigin = service, am_capturedAt = captured\<rparr>, fa_profile = doc\<rparr>"
        and url: "avatar = JNull \<and> url = [] \<or> avatar = JString url" and doc: "nl_dump L p = Some doc"
        using p(3) a(3,4,5) by (auto simp: author_of_def rbind_Inr_iff acc dump_def split: if_splits)
      have "url = [] \<or> (\<exists>path. url = service @ path \<and> avatarPattern path)" using url ok(5) by auto
      then show ?thesis
        using p(1) ok(1-4) a(1,6,7) doc by (auto simp: fa account_typed_def)
    qed
  qed
qed

end
