(* ===== verification/Native_Sample.thy ===== *)
theory Native_Sample
  imports Native_Document Native_Profile
begin

text \<open>
  A concrete document and profile, and a library that handles ASCII text: the inputs at
  which the properties of the native identity component are applied.
\<close>

section \<open>An ASCII library\<close>

definition ascii_library :: "json list \<Rightarrow> native_library" where
  "ascii_library known = \<lparr>sql_parse = (\<lambda>_. None), sql_text = compact,
     nl_parse = (\<lambda>s. List.find (\<lambda>j. compact j = s) known), nl_dump = (\<lambda>j. Some (compact j)),
     u_iterate = (\<lambda>s. (1, of_char (hd s))), u_map = (\<lambda>_ s. Some s),
     u_category = (\<lambda>n. if n < 32 \<or> n = 127 then Cat_CC else if n = 32 then Cat_ZS else Cat_Other),
     u_tolower = id, u_encode = (\<lambda>n. [char_of n]), nl_real_is = (\<lambda>_ _. False),
     zone_database = (\<lambda>_. False), zone_file = (\<lambda>_. False)\<rparr>"

lemma ascii_library_laws: "ascii_laws (ascii_library known)"
  by (auto simp: ascii_laws_def ascii_library_def plain_char_def)

lemma ascii_scalars: "scalars (ascii_library known) s = Inr (map of_char s)"
  by (induction s) (simp_all add: scalars.simps ascii_library_def)

lemma ascii_category:
  "u_category (ascii_library known) n =
     (if n < 32 \<or> n = 127 then Cat_CC else if n = 32 then Cat_ZS else Cat_Other)"
  by (simp add: ascii_library_def)

lemma ascii_encode:
  "u_encode (ascii_library known) n = [char_of n]" "u_tolower (ascii_library known) n = n"
  "u_map (ascii_library known) b s = Some s"
  by (simp_all add: ascii_library_def)

lemmas ascii_clean = clean_plain [OF ascii_library_laws]

lemma ascii_parse: "nl_parse (ascii_library (j # known)) (compact j) = Some j"
  by (simp add: ascii_library_def)

lemma ascii_dump: "nl_dump (ascii_library known) j = Some (compact j)"
  by (simp add: ascii_library_def)

section \<open>Dates\<close>

lemma dig_values: "dig 0 = CHR ''0''" "dig 1 = CHR ''1''" "dig 2 = CHR ''2''" "dig 3 = CHR ''3''" "dig 4 = CHR ''4''"
  "dig 5 = CHR ''5''" "dig 6 = CHR ''6''" "dig 7 = CHR ''7''" "dig 8 = CHR ''8''" "dig 9 = CHR ''9''"
  by (simp_all add: dig_def char_of_eq_iff take_bit_nat_eq_self)

lemma sample_civil: "civil 19782 = (2024, 2, 29)"
  by (simp add: civil_def year_of_day_def days_before_year_def epoch_days_def month_lengths_def leap_def)

lemma sample_format: "format_instant 1709245800000 = ''2024-02-29T22:30:00.000Z''"
proof -
  have "1709245800000 div day_ms = 19782" "1709245800000 mod day_ms = 81000000" by (simp_all add: day_ms_def)
  then show ?thesis by (simp add: format_instant_def sample_civil pad_fixed fixed_2 fixed_3 fixed_4 dig_values)
qed

lemma sample_read: "read_instant ''2024-02-29T23:30:00+01:00'' = Inr 1709245800000"
  by (simp add: read_instant_def digits_def is_digit_def substr_def timestampShape_def separator_def zone_shape_def
      upt_rec Let_def date_ok_def month_lengths_def leap_def sys_days_def day_ms_def fraction_def zone_minutes_def
      days_before_year_def epoch_days_def)

lemma sample_canonical: "canonical_instant 1709245800000"
  by (simp add: canonical_instant_def first_instant_def end_instant_def epoch_days_def day_ms_def)

lemma sample_timestamp: "timestamp ''2024-02-29T23:30:00+01:00'' = Inr ''2024-02-29T22:30:00.000Z''"
  by (simp add: timestamp_def sample_read sample_format)

lemma sample_date: "canonical_date ''2024-02-29T22:30:00.000Z''"
  using sample_format sample_canonical by (metis canonical_date_def)

section \<open>A document with one link\<close>

definition sample_link :: FileLink where
  "sample_link = \<lparr>link_name = ''doc'', link_url = ''a/b''\<rparr>"

definition sample_blank :: Authorship where
  "sample_blank = blank_authorship\<lparr>as_dump := authorship_text blank_authorship\<rparr>"

definition sample_doc :: Authorship where
  "sample_doc = (let a = sample_blank\<lparr>as_revision := 1, as_modifiedAt := ''2024-02-29T22:30:00.000Z'',
     as_links := [sample_link]\<rparr> in a\<lparr>as_dump := authorship_text a\<rparr>)"

definition sample_library :: native_library where
  "sample_library = ascii_library [authorship_json sample_doc []]"

lemma sample_link_create: "link_create (ascii_library known) ''doc'' ''a/b'' = Some sample_link"
proof -
  have "clean (ascii_library known) ''doc'' 160 True False = Inr ''doc''"
    by (rule ascii_clean) (simp_all add: plain_char_def)
  moreover have "validUri (ascii_library known) ''a/b'' False"
    by (simp add: validUri_def uri_points_def ascii_scalars scheme_colon_def index_of_def in_chars_def percent_ok.simps
        authority_ok_def starts_with_def percent_point_def ascii_category)
  ultimately show ?thesis by (simp add: link_create_def sample_link_def)
qed

lemma sample_links_valid: "validatedLinks (ascii_library known) [sample_link] = Inr [sample_link]"
  by (simp add: validatedLinks_def maximumLinks_def sample_link_create [unfolded sample_link_def] sample_link_def)

lemma small_text:
  "length (authorship_text blank_authorship) \<le> maximumBytes"
  "length (authorship_text sample_doc) \<le> maximumBytes"
  by (simp_all add: authorship_text_def blank_authorship_def sample_doc_def sample_blank_def sample_link_def Let_def
      maximumBytes_def qkey_def nullable_def quote_def quote_char_def link_text_def nat_to_string.simps)

lemma sample_created: "new_authorship = Inr sample_blank"
  using small_text(1) by (simp add: new_authorship_def rebuildDump_Inr sample_blank_def)

lemma sample_setLinks:
  "setLinks (ascii_library known) [sample_link] ''2024-02-29T23:30:00+01:00'' sample_blank = Inr (sample_doc, True)"
  using small_text(2)
  by (simp add: setLinks_def sample_links_valid recordChange_def sample_timestamp rebuildDump_def sample_doc_def
      sample_blank_def blank_authorship_def Let_def authorship_text_def)

lemma sample_doc_reachable: "authorship_reachable (ascii_library known) sample_doc"
  using authorship_reachable.stepped [OF authorship_reachable.created [OF sample_created]
      authorship_step.links [OF sample_setLinks]] .

section \<open>A profile\<close>

definition sample_account :: json where
  "sample_account = JObject [(''email'', JString ''a@b.c''), (''sub'', JString ''u1'')]"

definition sample_snapshot :: json where
  "sample_snapshot = JObject [(''account'', sample_account), (''capturedAt'', JString ''2024-02-29T23:30:00+01:00''),
     (''schemaVersion'', JInt 1), (''serviceOrigin'', JString ''https://x.y'')]"

lemma ascii_text:
  "member j k = Some (JString s) \<Longrightarrow> list_all plain_char s \<Longrightarrow> length s \<le> n \<Longrightarrow> s \<noteq> [] \<Longrightarrow>
     text_member (ascii_library known) j k n required multiline = Inr s"
  by (simp add: text_member_def ascii_clean)

lemma absent_text: "member j k = None \<Longrightarrow> text_member L j k n False multiline = Inr []"
  by (simp add: text_member_def)

lemma empty_text: "member j k = Some (JString []) \<Longrightarrow> text_member (ascii_library known) j k n False multiline = Inr []"
  by (simp add: text_member_def ascii_clean)

lemma ascii_fold: "normalize (ascii_library known) s True True = Inr s" if "list_all plain_char s"
proof -
  have "concat (map (\<lambda>point. if point = (0x130 :: nat) then [CHR ''i'', CHR 0xCC, CHR 0x87] else [char_of point]) (map of_char s)) = s"
    using that by (induction s) (auto simp: plain_char_def)
  then show ?thesis by (simp add: normalize_def ascii_scalars ascii_encode cong: if_cong)
qed

lemma sample_origin: "origin (ascii_library known) ''https://x.y'' = Inr ''https://x.y''"
  by (simp add: origin_def validUri_def uri_points_def ascii_scalars scheme_colon_def index_of_def in_chars_def
      authority_ok_def starts_with_def percent_point_def ascii_category scheme_ok_def is_alpha_def is_upper_def is_lower_def
      char_between_def is_alnum_def substr_def host_ok_def authority_of_def last_index_of_def ends_with_def ascii_lower_def
      less_eq_char_def Let_def)

lemma sample_account_profile:
  "account_profile (ascii_library known) ''https://x.y'' sample_account =
     Inr (JObject [(''avatarUrl'', JNull), (''displayName'', JString []), (''email'', JString ''a@b.c''),
       (''societyCloudMembership'', JString ''Free''), (''sub'', JString ''u1''), (''userId'', JString [])])"
proof -
  have t: "text_member (ascii_library known) sample_account ''sub'' 128 True False = Inr ''u1''"
    "text_member (ascii_library known) sample_account ''email'' 254 True False = Inr ''a@b.c''"
    "text_member (ascii_library known) sample_account ''userId'' 31 False False = Inr []"
    "text_member (ascii_library known) sample_account ''displayName'' 80 False False = Inr []"
    by (rule ascii_text absent_text; simp add: sample_account_def plain_char_def)+
  have n: "normalize (ascii_library known) ''a@b.c'' True True = Inr ''a@b.c''"
    by (rule ascii_fold) (simp add: plain_char_def)
  have p: "subjectPattern ''u1''" "emailPattern ''a@b.c''"
    by (simp_all add: subjectPattern_def emailPattern_def is_alnum_def is_alpha_def is_lower_def is_upper_def char_between_def
        is_digit_def index_of_def email_char_def is_space_def less_eq_char_def)
  show ?thesis
    by (simp add: account_profile_def t n p account_avatar_def memberships_def index_of_def)
      (simp add: sample_account_def account_avatar_def memberships_def)
qed

definition blank_details :: json where
  "blank_details = JObject [(''additionalName'', JString []), (''biography'', JString []), (''city'', JString []),
     (''contactEmail'', JString []), (''countryCode'', JString []), (''department'', JString []), (''familyName'', JString []),
     (''fullName'', JString []), (''givenName'', JString []), (''identifiers'', JArray []), (''jobTitle'', JString []),
     (''links'', JArray []), (''locale'', JString []), (''organization'', JString []), (''organizationId'', JString []),
     (''phoneNumber'', JString []), (''pseudonym'', JString []), (''region'', JString []), (''team'', JString []),
     (''timeZone'', JString [])]"

lemma sample_details: "details_profile (ascii_library known) (JObject []) = Inr blank_details"
  by (simp add: details_profile_def dump_def ascii_dump detailLimits_def text_into_def absent_text string_at_def jat_def
      details_email_def detail_entries_def validTimeZone_def blank_details_def)

definition blank_attribution :: json where
  "blank_attribution = JObject [(''copyrightNotice'', JString []), (''createdAt'', JNull), (''credit'', JString []),
     (''documentId'', JString []), (''licenseIdentifier'', JString []), (''licenseUrl'', JString []), (''modifiedAt'', JNull),
     (''projectId'', JString []), (''roles'', JArray []), (''workspaceId'', JString [])]"

lemma sample_attribution: "attribution_profile (ascii_library known) (JObject []) = Inr blank_attribution"
  by (simp add: attribution_profile_def attributionLimits_def text_into_def absent_text string_at_def jat_def
      optionalDate_def dateValue_def blank_attribution_def)

definition sample_profile :: json where
  "sample_profile = JObject [(''account'', JObject [(''avatarUrl'', JNull), (''displayName'', JString []),
       (''email'', JString ''a@b.c''), (''societyCloudMembership'', JString ''Free''), (''sub'', JString ''u1''),
       (''userId'', JString [])]),
     (''attribution'', blank_attribution), (''capturedAt'', JString ''2024-02-29T22:30:00.000Z''),
     (''details'', blank_details), (''device'', JNull), (''schemaVersion'', JInt 1), (''serviceOrigin'', JString ''https://x.y'')]"

definition sample_file_author :: FileAuthor where
  "sample_file_author = \<lparr>fa_metadata = \<lparr>am_account = \<lparr>acc_sub = ''u1'', acc_email = ''a@b.c'', acc_displayName = [],
       acc_userId = [], acc_societyCloudMembership = ''Free'', acc_avatarUrl = []\<rparr>,
       am_serviceOrigin = ''https://x.y'', am_capturedAt = ''2024-02-29T22:30:00.000Z''\<rparr>,
     fa_profile = compact sample_profile\<rparr>"

lemma sample_sizes: "length (compact sample_snapshot) \<le> 131072" "length (compact sample_profile) \<le> 131072"
  by (simp_all add: sample_snapshot_def sample_account_def sample_profile_def blank_details_def blank_attribution_def
      quote_def quote_char_def int_to_string_def nat_to_string.simps)

lemma sample_author_profile: "author_profile (ascii_library known) sample_snapshot = Inr sample_profile"
proof -
  have s: "text_member (ascii_library known) sample_snapshot ''serviceOrigin'' 2048 True False = Inr ''https://x.y''"
    by (rule ascii_text) (simp_all add: sample_snapshot_def plain_char_def)
  have sizes: "profile_size_ok (ascii_library known) sample_snapshot = Inr ()"
    "profile_size_ok (ascii_library known) sample_profile = Inr ()"
    using sample_sizes by (simp_all add: profile_size_ok_def dump_def ascii_dump)
  show ?thesis
    unfolding author_profile_def sizes s sample_origin
    by (simp add: sample_snapshot_def jat_def optionalDate_def sample_timestamp sample_origin sample_account_profile sample_details
        sample_attribution device_profile_def Let_def sizes(2) [unfolded sample_profile_def] sample_profile_def)
qed

lemma sample_author_read:
  "author_fromJsonText (ascii_library (sample_snapshot # known)) (compact sample_snapshot) = Some sample_file_author"
  using sample_sizes(1)
  by (simp add: author_fromJsonText_def ascii_parse sample_author_profile)
    (simp add: author_of_def dump_def ascii_dump sample_profile_def string_at_def jat_def sample_file_author_def)

section \<open>The profile is stable, and a document with an author\<close>

definition profile_account :: json where
  "profile_account = JObject [(''avatarUrl'', JNull), (''displayName'', JString []),
       (''email'', JString ''a@b.c''), (''societyCloudMembership'', JString ''Free''), (''sub'', JString ''u1''),
       (''userId'', JString [])]"

lemma stable_account: "account_profile (ascii_library known) ''https://x.y'' profile_account = Inr profile_account"
proof -
  have t: "text_member (ascii_library known) profile_account ''sub'' 128 True False = Inr ''u1''"
    "text_member (ascii_library known) profile_account ''email'' 254 True False = Inr ''a@b.c''"
    "text_member (ascii_library known) profile_account ''userId'' 31 False False = Inr []"
    "text_member (ascii_library known) profile_account ''displayName'' 80 False False = Inr []"
    by (rule ascii_text empty_text; simp add: profile_account_def plain_char_def)+
  have n: "normalize (ascii_library known) ''a@b.c'' True True = Inr ''a@b.c''"
    by (rule ascii_fold) (simp add: plain_char_def)
  have p: "subjectPattern ''u1''" "emailPattern ''a@b.c''"
    by (simp_all add: subjectPattern_def emailPattern_def is_alnum_def is_alpha_def is_lower_def is_upper_def char_between_def
        is_digit_def index_of_def email_char_def is_space_def less_eq_char_def)
  show ?thesis
    by (simp add: account_profile_def t n p account_avatar_def memberships_def index_of_def)
      (simp add: profile_account_def account_avatar_def memberships_def)
qed

lemma stable_details: "details_profile (ascii_library known) blank_details = Inr blank_details"
proof -
  have "length (compact blank_details) \<le> 65536"
    by (simp add: blank_details_def quote_def quote_char_def)
  then show ?thesis
    by (simp add: details_profile_def dump_def ascii_dump)
      (simp add: detailLimits_def text_into_def empty_text string_at_def jat_def
        details_email_def detail_entries_def validTimeZone_def blank_details_def)
qed

lemma stable_attribution: "attribution_profile (ascii_library known) blank_attribution = Inr blank_attribution"
  by (simp add: attribution_profile_def attributionLimits_def text_into_def empty_text string_at_def jat_def
      optionalDate_def dateValue_def blank_attribution_def)

lemma stable_author_profile: "author_profile (ascii_library known) sample_profile = Inr sample_profile"
proof -
  have s: "text_member (ascii_library known) sample_profile ''serviceOrigin'' 2048 True False = Inr ''https://x.y''"
    by (rule ascii_text) (simp_all add: sample_profile_def plain_char_def)
  have size: "profile_size_ok (ascii_library known) sample_profile = Inr ()"
    using sample_sizes by (simp_all add: profile_size_ok_def dump_def ascii_dump)
  note date = timestamp_canonical_date [OF sample_date]
  note account = stable_account [unfolded profile_account_def]
  show ?thesis
    unfolding author_profile_def size s sample_origin
    by (simp add: sample_profile_def jat_def optionalDate_def date sample_origin account stable_details
        stable_attribution device_profile_def Let_def size [unfolded sample_profile_def])
qed

lemma stable_author_read:
  "nl_parse (ascii_library known) (compact sample_profile) = Some sample_profile \<Longrightarrow>
     author_fromJsonText (ascii_library known) (compact sample_profile) = Some sample_file_author"
  using sample_sizes(2)
  by (simp add: author_fromJsonText_def stable_author_profile)
    (simp add: author_of_def dump_def ascii_dump sample_profile_def string_at_def jat_def sample_file_author_def)

definition sample_key :: string where
  "sample_key = sha256_hexDigest (case sha256_update sha256_init (bytes_of (''https://x.y'' @ CHR 0x0A # ''u1'')) of
     Inr h \<Rightarrow> h | Inl e \<Rightarrow> sha256_init)"

lemma sample_keyFor: "keyFor sample_file_author = Inr sample_key"
proof -
  have "length (bytes_of (''https://x.y'' @ CHR 0x0A # ''u1'')) \<le> sha_limit" by (simp add: bytes_of_def sha_limit_def)
  then obtain h where "sha256_update sha256_init (bytes_of (''https://x.y'' @ CHR 0x0A # ''u1'')) = Inr h"
    using sha256_update_accepts [OF sha256_represents_init] by fastforce
  then show ?thesis by (simp add: keyFor_def sample_file_author_def text_sha256_def sha256_def sample_key_def)
qed

lemma author_key_length: "length sample_key = 64"
  using keyFor_shape [OF sample_keyFor] by blast

definition sample_authored :: Authorship where
  "sample_authored = (let a = sample_blank\<lparr>as_revision := 1, as_modifiedAt := ''2024-02-29T22:30:00.000Z'',
     as_lastAuthor := sample_key, as_activeAuthor := sample_key,
     as_authors := [\<lparr>rec_key = sample_key, rec_profile = compact sample_profile,
       rec_firstChangedAt = ''2024-02-29T22:30:00.000Z'', rec_lastChangedAt = ''2024-02-29T22:30:00.000Z''\<rparr>],
     as_links := [sample_link]\<rparr> in a\<lparr>as_dump := authorship_text a\<rparr>)"

end
