(* ===== verification/Native_Properties.thy ===== *)
theory Native_Properties
  imports Native_Sample
begin

text \<open>
  The properties of the native identity component: canonical dates, typed profiles, the
  authorship document, its JSON text and its history.
\<close>

section \<open>Dates\<close>

lemma digits_bounds:
  assumes "digits s = Inr v" "list_all is_digit s"
  shows "0 \<le> v \<and> v < 10 ^ length s"
proof -
  have neg: "\<not> (s \<noteq> [] \<and> hd s = CHR ''-'')"
    using assms(2) not_digit(1) by (cases s) auto
  then have v: "v = int (string_to_nat s)"
    using assms(1) by (auto simp: digits_def Let_def simp del: string_to_nat.simps split: if_splits)
  have "string_to_nat s < 10 ^ length s" using assms(2)
  proof (induction s rule: rev_induct)
    case (snoc c s)
    then have "of_char c - 48 < (10 :: nat)" by (auto simp: is_digit_def)
    then show ?case using snoc unfolding string_to_nat_snoc by (simp del: string_to_nat.simps)
  qed simp
  then show ?thesis using v by (simp del: string_to_nat.simps)
qed

lemma shape_digits:
  assumes "timestampShape raw" "i + n \<le> 19" "\<forall>k < n. separator (i + k) = None"
  shows "list_all is_digit (substr raw i n) \<and> length (substr raw i n) = n"
proof -
  have l: "20 \<le> length raw"
    and all: "list_all (\<lambda>i. case separator i of Some c \<Rightarrow> raw ! i = c | None \<Rightarrow> is_digit (raw ! i)) [0..<19]"
    using assms(1) by (auto simp: timestampShape_def split: if_splits)
  have a: "\<forall>j < 19. separator j = None \<longrightarrow> is_digit (raw ! j)"
  proof (intro allI impI)
    fix j :: nat assume j: "j < 19" "separator j = None"
    then have "case separator j of Some c \<Rightarrow> raw ! j = c | None \<Rightarrow> is_digit (raw ! j)"
      using all j(1) unfolding list_all_iff by (metis atLeastLessThan_iff le0 set_upt)
    with j(2) show "is_digit (raw ! j)" by simp
  qed
  have "substr raw i n ! k = raw ! (i + k)" if "k < n" for k using that l assms(2) by (simp add: substr_def)
  moreover have "length (substr raw i n) = n" using l assms(2) by (simp add: substr_def)
  ultimately show ?thesis using a assms(2,3) by (auto simp: list_all_length)
qed

lemma shape_part_bounds:
  assumes "timestampShape raw" "i + n \<le> 19" "\<forall>k < n. separator (i + k) = None" "digits (substr raw i n) = Inr v"
  shows "0 \<le> v \<and> v < 10 ^ n"
  using digits_bounds [OF assms(4)] shape_digits [OF assms(1-3)] by simp

lemma fraction_bounds:
  assumes "timestampShape raw" "fraction raw = Inr (ms, off)"
  shows "0 \<le> ms \<and> ms < 1000 \<and> zone_shape (drop off raw)"
proof (cases "raw ! 19 = CHR ''.''")
  case False
  then show ?thesis using assms by (auto simp: fraction_def timestampShape_def split: if_splits)
next
  case True
  let ?t = "drop 20 raw" and ?P = "\<lambda>c. c \<notin> {CHR ''Z'', CHR ''+'', CHR ''-''}"
  define n where "n = length (takeWhile is_digit ?t)"
  have n: "0 < n" "n \<le> 3" "zone_shape (drop n ?t)"
    using assms(1) True by (auto simp: timestampShape_def n_def Let_def add.commute split: if_splits)
  have split: "?t = takeWhile is_digit ?t @ drop n ?t" unfolding n_def by (metis takeWhile_eq_take append_take_drop_id)
  have "\<forall>c \<in> set (takeWhile is_digit ?t). ?P c" using not_digit by (auto dest!: set_takeWhileD)
  moreover have "drop n ?t \<noteq> [] \<and> \<not> ?P (hd (drop n ?t))" using n(3) by (auto simp: zone_shape_def split: if_splits)
  ultimately have count: "length (takeWhile ?P ?t) = n"
  proof -
    assume d: "\<forall>c \<in> set (takeWhile is_digit ?t). ?P c" and h: "drop n ?t \<noteq> [] \<and> \<not> ?P (hd (drop n ?t))"
    have "takeWhile ?P ?t = takeWhile ?P (takeWhile is_digit ?t @ drop n ?t)" using split by simp
    also have "\<dots> = takeWhile is_digit ?t @ takeWhile ?P (drop n ?t)" using d by (intro takeWhile_append2) blast
    also have "takeWhile ?P (drop n ?t) = []" using h by (cases "drop n ?t") auto
    finally show ?thesis by (simp add: n_def)
  qed
  have sub: "substr raw 20 n = takeWhile is_digit ?t"
    unfolding substr_def n_def by (metis takeWhile_eq_take)
  from assms(2) True obtain v where v: "digits (substr raw 20 n) = Inr v"
    "ms = (if n = 1 then v * 100 else if n = 2 then v * 10 else v)" "off = 20 + n"
    unfolding fraction_def count Let_def by (auto simp: rbind_Inr_iff)
  have dig: "list_all is_digit (substr raw 20 n)" unfolding sub by (auto simp: list_all_iff dest: set_takeWhileD)
  have len: "length (substr raw 20 n) = n" unfolding sub by (simp add: n_def)
  have "0 \<le> v \<and> v < 10 ^ n" using digits_bounds [OF v(1) dig] unfolding len .
  moreover have "n = 1 \<or> n = 2 \<or> n = 3" using n(1,2) by linarith
  ultimately have "0 \<le> ms \<and> ms < 1000" using v(2) by (elim disjE) simp_all
  then show ?thesis using n(3) v(3) by (simp add: add.commute)
qed

lemma zone_bounds:
  assumes "zone_shape (drop off raw)" "zone_minutes raw off = Inr tz"
  shows "- 1440 < tz \<and> tz < 1440"
proof (cases "raw ! off = CHR ''Z''")
  case False
  have ne: "drop off raw \<noteq> []" and hd: "hd (drop off raw) = raw ! off"
    using assms(1) by (auto simp: zone_shape_def hd_drop_conv_nth split: if_splits)
  then have z: "length (drop off raw) = 6" "is_digit (raw ! (off + 1))" "is_digit (raw ! (off + 2))"
    "is_digit (raw ! (off + 4))" "is_digit (raw ! (off + 5))"
    using assms(1) False by (auto simp: zone_shape_def split: if_splits)
  have two: "list_all is_digit (substr raw k 2)" if "is_digit (raw ! k)" "is_digit (raw ! (k + 1))" "k + 1 < length raw" for k
  proof -
    have "substr raw k 2 = [raw ! k, raw ! (k + 1)]"
      using that(3) by (simp add: substr_def numeral_2_eq_2 take_Suc_conv_app_nth)
    then show ?thesis using that by simp
  qed
  have d: "list_all is_digit (substr raw (off + 1) 2)" "list_all is_digit (substr raw (off + 4) 2)"
    using two [of "off + 1"] two [of "off + 4"] z by (simp_all add: add.commute)
  from assms(2) False obtain h m where hm: "digits (substr raw (off + 1) 2) = Inr h" "digits (substr raw (off + 4) 2) = Inr m"
    "h \<le> 23" "m < 60" "tz = (h * 60 + m) * (if raw ! off = CHR ''+'' then 1 else - 1)"
    by (auto simp: zone_minutes_def rbind_Inr_iff)
  have "0 \<le> h" "0 \<le> m" using digits_bounds [OF hm(1) d(1)] digits_bounds [OF hm(2) d(2)] by simp_all
  then show ?thesis using hm(3-5) by auto
qed (use assms(2) in \<open>simp add: zone_minutes_def\<close>)

lemma date_instants:
  assumes "date_ok y mo d" "0 \<le> y" "y < 10000"
  shows "- epoch_days \<le> sys_days y mo d \<and> sys_days y mo d < 2932897"
proof -
  have ends: "date_ok 0 1 1" "sys_days 0 1 1 = - epoch_days" "date_ok 10000 1 1" "sys_days 10000 1 1 = 2932897"
    by (simp_all add: date_ok_def month_lengths_def sys_days_def days_before_year_def epoch_days_def)
  have "[y, mo, d] < [10000, 1, 1]" using assms by simp
  moreover have "[0, 1, 1] = [y, mo, d] \<or> [0, 1, 1] < [y, mo, d]" using assms by (auto simp: date_ok_def)
  ultimately have "sys_days y mo d < sys_days 10000 1 1" "sys_days 0 1 1 \<le> sys_days y mo d"
    using sys_days_less [OF assms(1) ends(3)] sys_days_less [OF ends(1) assms(1)] by auto
  then show ?thesis unfolding ends(2,4) by simp
qed

text \<open>
  Further, an accepted timestamp denotes an instant within a day of the years 0 to 9999: no field
  of the text can take the clock further out.
\<close>
lemma timestamp_bounds:
  assumes "read_instant raw = Inr i"
  shows "first_instant - day_ms < i \<and> i < end_instant + day_ms"
proof -
  from assms obtain y mo d h m s ms off tz where
    shape: "timestampShape raw" and p: "digits (substr raw 0 4) = Inr y" "digits (substr raw 5 2) = Inr mo"
      "digits (substr raw 8 2) = Inr d" "digits (substr raw 11 2) = Inr h" "digits (substr raw 14 2) = Inr m"
      "digits (substr raw 17 2) = Inr s"
    and ok: "date_ok y mo d" "h < 24" "m < 60" "s < 60" and f: "fraction raw = Inr (ms, off)"
    and z: "zone_minutes raw off = Inr tz"
    and i: "i = sys_days y mo d * day_ms + h * 3600000 + (m - tz) * 60000 + s * 1000 + ms"
    by (auto simp: read_instant_def rbind_Inr_iff)
  have sep: "\<forall>k < 4. separator (0 + k) = None" "\<forall>k < 2. separator (11 + k) = None"
    "\<forall>k < 2. separator (14 + k) = None" "\<forall>k < 2. separator (17 + k) = None"
    by (auto simp: separator_def)
  have "0 \<le> y \<and> y < 10 ^ 4" "0 \<le> h" "0 \<le> m" "0 \<le> s"
    using shape_part_bounds [OF shape _ sep(1) p(1)] shape_part_bounds [OF shape _ sep(2) p(4)]
      shape_part_bounds [OF shape _ sep(3) p(5)] shape_part_bounds [OF shape _ sep(4) p(6)] by simp_all
  moreover have "0 \<le> ms \<and> ms < 1000" "- 1440 < tz \<and> tz < 1440"
    using fraction_bounds [OF shape f] zone_bounds [OF _ z] by blast+
  moreover have "- epoch_days \<le> sys_days y mo d \<and> sys_days y mo d < 2932897"
    using calculation by (intro date_instants [OF ok(1)]) simp_all
  ultimately show ?thesis
    using ok(2-4) unfolding i first_instant_def end_instant_def day_ms_def by auto
qed

lemma timestamp_bounds_sample:
  "first_instant - day_ms < 1709245800000 \<and> 1709245800000 < end_instant + day_ms"
  by (rule timestamp_bounds [OF sample_read])

text \<open>
  Canonical dates are a fixed point and keep their instant: when an accepted timestamp
  lies in the years 0 to 9999, the text stored for it is read back as the same instant
  and as itself.
\<close>
theorem timestamp_roundtrip:
  assumes "read_instant raw = Inr i" "canonical_instant i" "timestamp raw = Inr t"
  shows "read_instant t = Inr i \<and> timestamp t = Inr t"
proof -
  have "t = format_instant i" using assms(1,3) by (simp add: timestamp_def)
  then show ?thesis using read_format_instant [OF assms(2)] by (simp add: timestamp_def)
qed

theorem timestamp_roundtrip_witness:
  "read_instant ''2024-02-29T22:30:00.000Z'' = Inr 1709245800000 \<and>
     timestamp ''2024-02-29T22:30:00.000Z'' = Inr ''2024-02-29T22:30:00.000Z''"
  by (rule timestamp_roundtrip [OF sample_read sample_canonical sample_timestamp])


text \<open>
  Comparing stored dates as strings compares instants: for accepted timestamps in the
  years 0 to 9999 the canonical texts are ordered like the instants they denote.
\<close>
theorem timestamp_order:
  assumes "read_instant raw = Inr i" "canonical_instant i" "timestamp raw = Inr t"
    and "read_instant raw' = Inr i'" "canonical_instant i'" "timestamp raw' = Inr t'"
  shows "(t < t' \<longleftrightarrow> i < i') \<and> (t = t' \<longleftrightarrow> i = i')"
proof -
  have t: "t = format_instant i" "t' = format_instant i'" using assms by (simp_all add: timestamp_def)
  have "format_instant i = format_instant i' \<longleftrightarrow> i = i'"
    using read_format_instant [OF assms(2)] read_format_instant [OF assms(5)] by (metis sum.inject(2))
  then show ?thesis unfolding t using format_instant_less [OF assms(2,5)] by blast
qed

theorem timestamp_order_witness:
  "\<not> ''2024-02-29T22:30:00.000Z'' < ''2024-02-29T22:30:00.000Z''"
  using timestamp_order [OF sample_read sample_canonical sample_timestamp sample_read sample_canonical sample_timestamp]
  by blast

section \<open>Profiles\<close>



lemma subject_no_newline: "subjectPattern s \<Longrightarrow> CHR 0x0A \<notin> set s"
  by (auto simp: subjectPattern_def list_all_iff is_alnum_def is_alpha_def is_upper_def is_lower_def char_between_def
      is_digit_def in_chars_def less_eq_char_def)

lemma split_last_newline:
  "a @ CHR 0x0A # b = c @ CHR 0x0A # d \<Longrightarrow> CHR 0x0A \<notin> set b \<Longrightarrow> CHR 0x0A \<notin> set d \<Longrightarrow> a = c \<and> b = d"
  by (induction a arbitrary: c) (auto simp: Cons_eq_append_conv append_eq_Cons_conv)

text \<open>
  C26: The author key commits to the identity: two accepted authors with the same key
  have the same service origin and subject, or the texts hashed for them collide.
\<close>
theorem author_key_commits:
  assumes "author_fromJsonText L s = Some fa" "author_fromJsonText L' s' = Some fb"
    and "keyFor fa = Inr k" "keyFor fb = Inr k"
  shows "(am_serviceOrigin (fa_metadata fa) = am_serviceOrigin (fa_metadata fb) \<and>
      acc_sub (am_account (fa_metadata fa)) = acc_sub (am_account (fa_metadata fb))) \<or>
    (\<exists>a b. a = am_serviceOrigin (fa_metadata fa) @ CHR 0x0A # acc_sub (am_account (fa_metadata fa)) \<and>
      b = am_serviceOrigin (fa_metadata fb) @ CHR 0x0A # acc_sub (am_account (fa_metadata fb)) \<and>
      a \<noteq> b \<and> text_sha256 a = text_sha256 b)"
proof -
  have "CHR 0x0A \<notin> set (acc_sub (am_account (fa_metadata fa)))" "CHR 0x0A \<notin> set (acc_sub (am_account (fa_metadata fb)))"
    using author_fromJsonText_typed [OF assms(1)] author_fromJsonText_typed [OF assms(2)] subject_no_newline
    by (auto simp: account_typed_def)
  then show ?thesis using split_last_newline assms(3,4) unfolding keyFor_def by metis
qed

theorem author_key_commits_witness:
  "am_serviceOrigin (fa_metadata sample_file_author) = ''https://x.y'' \<and>
   ((am_serviceOrigin (fa_metadata sample_file_author) = am_serviceOrigin (fa_metadata sample_file_author) \<and>
      acc_sub (am_account (fa_metadata sample_file_author)) = acc_sub (am_account (fa_metadata sample_file_author))) \<or>
    (\<exists>a b. a \<noteq> b \<and> text_sha256 a = text_sha256 b))"
  using author_key_commits [OF sample_author_read [of "[]"] sample_author_read [of "[]"] sample_keyFor sample_keyFor]
  by (auto simp: sample_file_author_def)

section \<open>The document\<close>







lemma unat_all_ones: "unat (- 1 :: u64) = 2 ^ 64 - 1"
  by (simp add: unsigned_minus_1_eq_mask mask_eq_exp_minus_1)










text \<open>
  The revision counter does not wrap: at its 64-bit maximum every change is refused with
  an overflow error, below it a change with an accepted date succeeds whenever the new
  text fits, and its number is the next one.
\<close>
theorem recordChange_counts:
  assumes "timestamp raw = Inr at"
  shows "(unat (as_revision a) = 2 ^ 64 - 1 \<longrightarrow> recordChange raw a = Inl Overflow_Error) \<and>
    (\<forall>a'. recordChange raw a = Inr a' \<longrightarrow> unat (as_revision a') = unat (as_revision a) + 1) \<and>
    (unat (as_revision a) < 2 ^ 64 - 1 \<longrightarrow> recordChange raw a = Inl Length_Error \<or> (\<exists>a'. recordChange raw a = Inr a'))"
proof -
  have max: "unat (as_revision a) = 2 ^ 64 - 1 \<longleftrightarrow> as_revision a = - 1"
  proof -
    have "unat (as_revision a) = unat (- 1 :: u64) \<longleftrightarrow> as_revision a = - 1" by (rule word_unat_eq_iff [symmetric])
    then show ?thesis unfolding unat_all_ones .
  qed
  have "recordChange raw a = Inl Overflow_Error" if "as_revision a = - 1"
    using that assms by (simp add: recordChange_def)
  moreover have "unat (as_revision a') = unat (as_revision a) + 1" if "recordChange raw a = Inr a'" for a'
    using that by (rule recordChangeE) (simp add: next_unat)
  moreover have "recordChange raw a = Inl Length_Error \<or> (\<exists>a'. recordChange raw a = Inr a')" if "as_revision a \<noteq> - 1"
    using that assms by (auto simp: recordChange_def rebuildDump_def Let_def)
  ultimately show ?thesis using max by (metis less_irrefl_nat)
qed

theorem recordChange_counts_witness:
  "recordChange ''2024-02-29T23:30:00+01:00'' (sample_blank\<lparr>as_revision := - 1\<rparr>) = Inl Overflow_Error"
  using recordChange_counts [OF sample_timestamp, of "sample_blank\<lparr>as_revision := - 1\<rparr>"] unat_all_ones by simp

end
