(* ===== verification/Action.thy ===== *)
theory Action
  imports Prelude
begin

text \<open>
  Code that may fail and that works on a state: an action takes the state, returns a value or
  an error, and the new state, which the error case keeps.  The operations on SQLite
  connections and on the file system are written with these combinators.
\<close>

type_synonym ('s, 'e, 'a) act = "'s \<Rightarrow> ('e + 'a) \<times> 's"

definition areturn :: "'a \<Rightarrow> ('s, 'e, 'a) act" where
  "areturn v = (\<lambda>s. (Inr v, s))"

definition afail :: "'e \<Rightarrow> ('s, 'e, 'a) act" where
  "afail e = (\<lambda>s. (Inl e, s))"

definition abind :: "('s, 'e, 'a) act \<Rightarrow> ('a \<Rightarrow> ('s, 'e, 'b) act) \<Rightarrow> ('s, 'e, 'b) act" where
  "abind m k = (\<lambda>s. case m s of (Inl e, s') \<Rightarrow> (Inl e, s') | (Inr v, s') \<Rightarrow> k v s')"

definition acall :: "('s \<Rightarrow> 'a \<times> 's) \<Rightarrow> ('s, 'e, 'a) act" where
  "acall f = (\<lambda>s. let (v, s') = f s in (Inr v, s'))"

definition aget :: "('s \<Rightarrow> 'a) \<Rightarrow> ('s, 'e, 'a) act" where
  "aget f = (\<lambda>s. (Inr (f s), s))"

definition acheck :: "bool \<Rightarrow> 'e \<Rightarrow> ('s, 'e, unit) act" where
  "acheck b e = (if b then areturn () else afail e)"

definition alift :: "('e, 'a) result \<Rightarrow> ('s, 'e, 'a) act" where
  "alift r = (\<lambda>s. (r, s))"

text \<open>A destructor: it runs on both ways out and its own outcome is ignored.\<close>

definition afinally :: "('s, 'e, 'a) act \<Rightarrow> ('s \<Rightarrow> 's) \<Rightarrow> ('s, 'e, 'a) act" where
  "afinally m cleanup = (\<lambda>s. let (r, s') = m s in (r, cleanup s'))"

section \<open>Composition of actions\<close>

lemma abind_InrE:
  assumes "abind m k s = (Inr v, s')"
  obtains u s1 where "m s = (Inr u, s1)" "k u s1 = (Inr v, s')"
  using assms by (auto simp: abind_def split: prod.splits sum.splits)

lemma abind_InlE:
  assumes "abind m k s = (Inl e, s')"
  obtains (first) "m s = (Inl e, s')"
    | (second) u s1 where "m s = (Inr u, s1)" "k u s1 = (Inl e, s')"
  using assms by (auto simp: abind_def split: prod.splits sum.splits)

lemma abind_Inr [simp]: "m s = (Inr v, s1) \<Longrightarrow> abind m k s = k v s1"
  by (simp add: abind_def)

lemma abind_Inl [simp]: "m s = (Inl e, s1) \<Longrightarrow> abind m k s = (Inl e, s1)"
  by (simp add: abind_def)

lemma action_Inr [simp]:
  "areturn v s = (Inr w, s') \<longleftrightarrow> w = v \<and> s' = s"
  "afail e s \<noteq> (Inr w, s')"
  "aget f s = (Inr w, s') \<longleftrightarrow> w = f s \<and> s' = s"
  "acheck b e s = (Inr u, s') \<longleftrightarrow> b \<and> s' = s"
  "alift r s = (Inr w, s') \<longleftrightarrow> r = Inr w \<and> s' = s"
  "acall g s = (Inr x, s') \<longleftrightarrow> g s = (x, s')"
  by (auto simp: areturn_def afail_def aget_def acheck_def alift_def acall_def split: prod.splits)

lemma action_Inl [simp]:
  "areturn v s \<noteq> (Inl x, s')"
  "afail e s = (Inl x, s') \<longleftrightarrow> x = e \<and> s' = s"
  "aget f s \<noteq> (Inl x, s')"
  "acheck b e s = (Inl x, s') \<longleftrightarrow> \<not> b \<and> x = e \<and> s' = s"
  "alift r s = (Inl x, s') \<longleftrightarrow> r = Inl x \<and> s' = s"
  "acall g s \<noteq> (Inl x, s')"
  by (auto simp: areturn_def afail_def aget_def acheck_def alift_def acall_def split: prod.splits)

lemma afinally_eq: "m s = (r, s') \<Longrightarrow> afinally m cleanup s = (r, cleanup s')"
  by (simp add: afinally_def)

section \<open>Actions that keep a view of the state\<close>

text \<open>An action that changes nothing of what \<open>f\<close> shows of the state.\<close>

definition quiet :: "('s \<Rightarrow> 'v) \<Rightarrow> ('s, 'e, 'a) act \<Rightarrow> bool" where
  "quiet f m \<longleftrightarrow> (\<forall>s. f (snd (m s)) = f s)"

named_theorems quiet_intro \<open>actions that leave what a view shows of the state unchanged\<close>

lemma quietD: "quiet f m \<Longrightarrow> m s = (r, s') \<Longrightarrow> f s' = f s"
  unfolding quiet_def by (metis snd_conv)

lemma quiet_abind [quiet_intro]:
  assumes "quiet f m" and "\<And>v. quiet f (k v)"
  shows "quiet f (abind m k)"
  using assms by (auto simp: quiet_def abind_def split: prod.splits sum.splits) (metis snd_conv)+

lemma quiet_basic [quiet_intro]:
  "quiet f (areturn v)" "quiet f (afail e)" "quiet f (aget g)" "quiet f (acheck b e)"
  "quiet f (alift r)"
  by (simp_all add: quiet_def areturn_def afail_def aget_def acheck_def alift_def)

lemma quiet_acall: "(\<And>s v s'. g s = (v, s') \<Longrightarrow> f s' = f s) \<Longrightarrow> quiet f (acall g)"
  by (auto simp: quiet_def acall_def split: prod.splits)

lemma quiet_if [quiet_intro]: "quiet f m \<Longrightarrow> quiet f m' \<Longrightarrow> quiet f (if b then m else m')"
  by simp

lemma quiet_prod [quiet_intro]:
  "(\<And>a b. quiet f (k a b)) \<Longrightarrow> quiet f (case x of (a, b) \<Rightarrow> k a b)"
  by (cases x) simp

section \<open>Outcomes of actions\<close>

text \<open>The result and the final state of an action satisfy a predicate.\<close>

definition ends_in :: "('s, 'e, 'a) act \<Rightarrow> ('e + 'a \<Rightarrow> 's \<Rightarrow> bool) \<Rightarrow> 's \<Rightarrow> bool" where
  "ends_in m Q s = (case m s of (r, s') \<Rightarrow> Q r s')"

lemma ends_inD: "ends_in m Q s \<Longrightarrow> m s = (r, s') \<Longrightarrow> Q r s'"
  by (simp add: ends_in_def)

lemma ends_in_abind:
  assumes "ends_in m (\<lambda>r s1. case r of Inl e \<Rightarrow> Q (Inl e) s1 | Inr v \<Rightarrow> ends_in (k v) Q s1) s"
  shows "ends_in (abind m k) Q s"
  using assms by (auto simp: ends_in_def abind_def split: prod.splits sum.splits)

lemma ends_in_areturn [simp]: "ends_in (areturn v) Q s = Q (Inr v) s"
  by (simp add: ends_in_def areturn_def)

lemma ends_in_afail [simp]: "ends_in (afail e) Q s = Q (Inl e) s"
  by (simp add: ends_in_def afail_def)

lemma ends_in_acall [simp]: "ends_in (acall g) Q s = (case g s of (v, s') \<Rightarrow> Q (Inr v) s')"
  by (simp add: ends_in_def acall_def split: prod.splits)

lemma ends_in_acheck [simp]: "ends_in (acheck b e) Q s = (if b then Q (Inr ()) s else Q (Inl e) s)"
  by (simp add: acheck_def)

lemma ends_in_if:
  "(b \<Longrightarrow> ends_in m Q s) \<Longrightarrow> (\<not> b \<Longrightarrow> ends_in m' Q s) \<Longrightarrow> ends_in (if b then m else m') Q s"
  by simp

text \<open>A step that keeps the view, in front of the rest.\<close>

lemma ends_in_quiet:
  assumes "quiet f m" and "f s = c"
    and "\<And>e s1. f s1 = c \<Longrightarrow> Q (Inl e) s1" and "\<And>v s1. f s1 = c \<Longrightarrow> ends_in (k v) Q s1"
  shows "ends_in (abind m k) Q s"
  by (rule ends_in_abind) (use assms quietD [OF assms(1)] in \<open>auto simp: ends_in_def split: prod.splits sum.splits\<close>)

end
