(* ===== verification/Native_Database.thy ===== *)
theory Native_Database
  imports Native_Sha256 Action
begin

text \<open>
  The SQLite wrapper (\<open>Native/src/Database/Database.cpp\<close>): connections, statements,
  transactions, and the incremental BLOB operations.  SQLite itself is the record \<open>sqlite\<close>
  of its calls on a connection state \<open>'s\<close>; each call gives its result code and the
  new state.  A method of the wrapper is an action on that state which returns a value
  or an \<open>sql_error\<close>.
\<close>

section \<open>Errors and values\<close>

datatype sql_code = Invalid_Input | Closed | Busy | Constraint | Read_Only | Limit_Exceeded | Failure | Conflict

record sql_error =
  err_code :: sql_code
  err_native :: int
  err_message :: string

datatype sql_value = VNull | VInt int | VReal "64 word" | VText string | VBlob "byte list"

datatype open_mode = Mode_read_only | Mode_read_write | Mode_create

record sql_options =
  opt_mode :: open_mode
  opt_busy_timeout_ms :: int
  opt_maximum_value_bytes :: int

datatype sql_step = Row | Done

datatype column_type = Col_Null | Col_Integer | Col_Float | Col_Text | Col_Blob | Col_Unknown

datatype blob_location = Blob_At (at_table: string) (at_column: string) (at_row: int)

record 's sqlite =
  q_open :: "string \<Rightarrow> int \<Rightarrow> int \<times> 's"
  q_configure :: "int \<Rightarrow> int \<Rightarrow> 's \<Rightarrow> 's"
  q_errcode :: "'s \<Rightarrow> int"
  q_errmsg :: "'s \<Rightarrow> string"
  q_errstr :: "int \<Rightarrow> string"
  q_autocommit :: "'s \<Rightarrow> bool"
  q_readonly :: "'s \<Rightarrow> bool"
  q_limit :: "'s \<Rightarrow> nat"
  q_changes :: "'s \<Rightarrow> int"
  q_exec :: "string \<Rightarrow> 's \<Rightarrow> int \<times> 's"
  q_db_config :: "'s \<Rightarrow> int \<times> 's"
  q_has_moved :: "'s \<Rightarrow> int \<times> int"
  q_prepare :: "string \<Rightarrow> 's \<Rightarrow> (int \<times> nat option \<times> nat) \<times> 's"
  q_finalize :: "nat \<Rightarrow> 's \<Rightarrow> 's"
  q_bind :: "nat \<Rightarrow> int \<Rightarrow> sql_value \<Rightarrow> 's \<Rightarrow> int \<times> 's"
  q_step :: "nat \<Rightarrow> 's \<Rightarrow> int \<times> 's"
  q_reset :: "nat \<Rightarrow> 's \<Rightarrow> 's"
  q_clear_bindings :: "nat \<Rightarrow> 's \<Rightarrow> int \<times> 's"
  q_column_count :: "nat \<Rightarrow> 's \<Rightarrow> int"
  q_column_name :: "nat \<Rightarrow> int \<Rightarrow> 's \<Rightarrow> string option"
  q_column :: "nat \<Rightarrow> int \<Rightarrow> 's \<Rightarrow> column_type \<times> sql_value option"
  q_blob_open :: "blob_location \<Rightarrow> bool \<Rightarrow> 's \<Rightarrow> int \<times> 's"
  q_blob_bytes :: "blob_location \<Rightarrow> 's \<Rightarrow> nat"
  q_blob_read :: "blob_location \<Rightarrow> nat \<Rightarrow> nat \<Rightarrow> 's \<Rightarrow> (int \<times> byte list) \<times> 's"
  q_blob_write :: "blob_location \<Rightarrow> nat \<Rightarrow> byte list \<Rightarrow> 's \<Rightarrow> int \<times> 's"
  q_blob_close :: "blob_location \<Rightarrow> 's \<Rightarrow> int \<times> 's"
  q_backup_init :: "'s \<Rightarrow> 's \<Rightarrow> bool \<times> 's"
  q_backup_step :: "'s \<Rightarrow> 's \<Rightarrow> (int \<times> int) \<times> 's"
  q_backup_finish :: "'s \<Rightarrow> int \<times> 's"

definition sqlite_ok :: int where "sqlite_ok = 0"

definition int_max :: nat where "int_max = 2147483647"

definition failure_code :: "int \<Rightarrow> sql_code" where
  "failure_code rc =
     (let c = rc mod 256
      in if c = 5 \<or> c = 6 then Busy else if c = 19 then Constraint else if c = 8 then Read_Only
         else if c = 18 \<or> c = 7 then Limit_Exceeded else if c = 25 then Invalid_Input else Failure)"

definition failure :: "'s sqlite \<Rightarrow> 's \<Rightarrow> int \<Rightarrow> sql_error" where
  "failure Q s rc = \<lparr>err_code = failure_code rc, err_native = rc,
     err_message = (if q_errcode Q s mod 256 = rc mod 256 then q_errmsg Q s else q_errstr Q rc)\<rparr>"

definition invalid_as :: "string \<Rightarrow> sql_code \<Rightarrow> sql_error" where
  "invalid_as message code = \<lparr>err_code = code, err_native = 0, err_message = message\<rparr>"

abbreviation invalid :: "string \<Rightarrow> sql_error" where
  "invalid message \<equiv> invalid_as message Invalid_Input"

section \<open>Actions on a connection\<close>

type_synonym ('s, 'a) action = "('s, sql_error, 'a) act"

text \<open>\<open>if(rc!=SQLITE_OK) return failure(db,rc)\<close>\<close>

definition arc :: "'s sqlite \<Rightarrow> int \<Rightarrow> ('s, unit) action" where
  "arc Q rc = (\<lambda>s. if rc = sqlite_ok then (Inr (), s) else (Inl (failure Q s rc), s))"

section \<open>The shared connection state\<close>

text \<open>
  \<open>Database::State\<close>: the connection, the serial number of the last transaction started
  and the one that is active (0 for none).  A connection that was closed or invalidated
  has no handle.
\<close>

record 's database =
  db_handle :: "'s option"
  db_serial :: "64 word"
  db_transaction :: "64 word"

definition with_handle :: "('s, 'a) action \<Rightarrow> ('s database, 'a) action" where
  "with_handle m = (\<lambda>d. case db_handle d of
     None \<Rightarrow> (Inl (invalid_as ''Database is closed'' Closed), d)
   | Some s \<Rightarrow> (let (r, s') = m s in (r, d\<lparr>db_handle := Some s'\<rparr>)))"

definition invalidate :: "'s database \<Rightarrow> 's database" where
  "invalidate d = d\<lparr>db_handle := None, db_transaction := 0\<rparr>"

section \<open>BLOB handles\<close>

definition validBlobNames :: "string \<Rightarrow> string \<Rightarrow> bool" where
  "validBlobNames table column \<longleftrightarrow>
     table \<noteq> [] \<and> column \<noteq> [] \<and> CHR 0x00 \<notin> set table \<and> CHR 0x00 \<notin> set column \<and>
     length table \<le> int_max \<and> length column \<le> int_max"

definition openBlob :: "'s sqlite \<Rightarrow> blob_location \<Rightarrow> bool \<Rightarrow> ('s, unit) action" where
  "openBlob Q loc writing = abind (acall (q_blob_open Q loc writing)) (arc Q)"

text \<open>
  The body runs with the handle open; the handle is closed on every way out, and its closing
  is checked when the body succeeded.
\<close>

definition with_blob :: "'s sqlite \<Rightarrow> blob_location \<Rightarrow> bool \<Rightarrow> ('s, 'a) action \<Rightarrow> ('s, 'a) action" where
  "with_blob Q loc writing body = abind (openBlob Q loc writing) (\<lambda>_ s.
     case body s of
       (Inl e, s1) \<Rightarrow> (Inl e, snd (q_blob_close Q loc s1))
     | (Inr v, s1) \<Rightarrow> abind (acall (q_blob_close Q loc)) (\<lambda>rc. abind (arc Q rc) (\<lambda>_. areturn v)) s1)"

definition read_blob :: "'s sqlite \<Rightarrow> blob_location \<Rightarrow> nat \<Rightarrow> nat \<Rightarrow> ('s, byte list) action" where
  "read_blob Q loc offset count = abind (acall (q_blob_read Q loc offset count)) (\<lambda>(rc, bytes).
     abind (arc Q rc) (\<lambda>_. areturn bytes))"

definition write_blob :: "'s sqlite \<Rightarrow> blob_location \<Rightarrow> nat \<Rightarrow> byte list \<Rightarrow> ('s, unit) action" where
  "write_blob Q loc offset bytes = abind (acall (q_blob_write Q loc offset bytes)) (arc Q)"

text \<open>The pieces of at most \<open>n\<close> elements in which a buffer is processed, with their offsets.\<close>

function cut :: "nat \<Rightarrow> nat \<Rightarrow> 'a list \<Rightarrow> (nat \<times> 'a list) list" where
  "cut n p xs = (if n = 0 \<or> xs = [] then [] else (p, take n xs) # cut n (p + n) (drop n xs))"
  by pat_completeness auto
termination by (relation "measure (\<lambda>(n, p, xs). length xs)") auto

declare cut.simps [simp del]

text \<open>The maximal runs of positions where two buffers of equal length differ.\<close>

function diff_runs :: "nat \<Rightarrow> 'a list \<Rightarrow> 'a list \<Rightarrow> (nat \<times> 'a list) list" where
  "diff_runs p before after =
     (if before = [] \<or> after = [] then []
      else if hd before = hd after then diff_runs (p + 1) (tl before) (tl after)
      else let n = length (takeWhile (\<lambda>(x, y). x \<noteq> y) (zip before after))
        in (p, take n after) # diff_runs (p + n) (drop n before) (drop n after))"
  by pat_completeness auto
termination
  by (relation "measure (\<lambda>(p, before, after). length before)") (auto simp: neq_Nil_conv)

declare diff_runs.simps [simp del]

fun write_runs :: "'s sqlite \<Rightarrow> blob_location \<Rightarrow> nat \<Rightarrow> (nat \<times> byte list) list \<Rightarrow> ('s, nat) action" where
  "write_runs Q loc base [] = areturn 0"
| "write_runs Q loc base ((p, bytes) # runs) =
     abind (write_blob Q loc (base + p) bytes) (\<lambda>_.
     abind (write_runs Q loc base runs) (\<lambda>n. areturn (length bytes + n)))"

fun patch_chunks :: "'s sqlite \<Rightarrow> blob_location \<Rightarrow> (nat \<times> byte list) list \<Rightarrow> ('s, nat) action" where
  "patch_chunks Q loc [] = areturn 0"
| "patch_chunks Q loc ((offset, piece) # chunks) =
     abind (read_blob Q loc offset (length piece)) (\<lambda>previous.
     abind (write_runs Q loc offset (diff_runs 0 previous piece)) (\<lambda>n.
     abind (patch_chunks Q loc chunks) (\<lambda>m. areturn (n + m))))"

definition in_transaction :: "'s sqlite \<Rightarrow> 's \<Rightarrow> bool" where
  "in_transaction Q s \<longleftrightarrow> \<not> q_autocommit Q s"

definition patch_blob :: "'s sqlite \<Rightarrow> string \<Rightarrow> string \<Rightarrow> int \<Rightarrow> byte list \<Rightarrow> ('s database, nat) action" where
  "patch_blob Q table column row_id replacement =
     (let loc = Blob_At table column row_id
      in with_handle (
         abind (aget (in_transaction Q)) (\<lambda>inside.
         abind (acheck inside (invalid ''BLOB patches require an explicit transaction'')) (\<lambda>_.
         abind (acheck (table \<noteq> [] \<and> column \<noteq> [] \<and> CHR 0x00 \<notin> set table \<and> CHR 0x00 \<notin> set column \<and>
           length replacement \<le> int_max) (invalid ''Invalid BLOB patch'')) (\<lambda>_.
         with_blob Q loc True
          (abind (aget (q_blob_bytes Q loc)) (\<lambda>size.
           abind (acheck (length replacement = size) (invalid ''BLOB patch must preserve storage size'')) (\<lambda>_.
           patch_chunks Q loc (cut 4096 0 replacement)))))))))"

definition read_blob_range :: "'s sqlite \<Rightarrow> string \<Rightarrow> string \<Rightarrow> int \<Rightarrow> nat \<Rightarrow> nat \<Rightarrow> ('s database, byte list) action" where
  "read_blob_range Q table column row_id offset count =
     (let loc = Blob_At table column row_id
      in with_handle (
         abind (acheck (validBlobNames table column) (invalid ''Invalid BLOB identifier'')) (\<lambda>_.
         abind (aget (q_limit Q)) (\<lambda>limit.
         abind (acheck (count \<le> limit) (invalid_as ''BLOB range exceeds value limit'' Limit_Exceeded)) (\<lambda>_.
         with_blob Q loc False
          (abind (aget (q_blob_bytes Q loc)) (\<lambda>size.
           abind (acheck (offset \<le> size \<and> count \<le> size - offset) (invalid ''BLOB range is outside value'')) (\<lambda>_.
           if count = 0 then areturn [] else read_blob Q loc offset count))))))))"

fun hash_chunks :: "'s sqlite \<Rightarrow> blob_location \<Rightarrow> (nat \<times> unit list) list \<Rightarrow> sha256_state \<Rightarrow> ('s, sha256_state) action" where
  "hash_chunks Q loc [] h = areturn h"
| "hash_chunks Q loc ((offset, piece) # chunks) h =
     abind (read_blob Q loc offset (length piece)) (\<lambda>bytes.
     case sha256_update h bytes of
       Inl _ \<Rightarrow> afail (invalid_as ''SHA-256 input is too long'' Limit_Exceeded)
     | Inr h' \<Rightarrow> hash_chunks Q loc chunks h')"

definition blob_sha256 :: "'s sqlite \<Rightarrow> string \<Rightarrow> string \<Rightarrow> int \<Rightarrow> nat \<Rightarrow> ('s database, byte list) action" where
  "blob_sha256 Q table column row_id maximum_bytes =
     (let loc = Blob_At table column row_id
      in with_handle (
         abind (acheck (validBlobNames table column) (invalid ''Invalid BLOB identifier'')) (\<lambda>_.
         abind (with_blob Q loc False
          (abind (aget (q_blob_bytes Q loc)) (\<lambda>size.
           abind (acheck (size \<le> maximum_bytes) (invalid_as ''BLOB exceeds hash limit'' Limit_Exceeded)) (\<lambda>_.
           hash_chunks Q loc (cut 32768 0 (replicate size ())) sha256_init)))) (\<lambda>h.
         areturn (sha256_digest h)))))"

section \<open>Compare and exchange of BLOB ranges\<close>

record blob_range_patch =
  range_offset :: nat
  range_before :: "byte list"
  range_after :: "byte list"

record blob_statistics =
  bytes_compared :: nat
  bytes_written :: nat

text \<open>\<open>sizeof(BlobRangePatch)\<close>: one 64-bit offset and two spans of pointer and size.\<close>

definition sizeof_range :: nat where "sizeof_range = 40"

fun admit_ranges :: "nat \<Rightarrow> nat \<Rightarrow> blob_range_patch list \<Rightarrow> (sql_error, nat) result" where
  "admit_ranges limit compared [] = Inr compared"
| "admit_ranges limit compared (r # rs) =
     (if length (range_before r) \<noteq> length (range_after r)
      then Inl (invalid ''BLOB expected/replacement sizes differ'')
      else if length (range_after r) > limit - compared
      then Inl (invalid_as ''BLOB compared bytes exceed limit'' Limit_Exceeded)
      else admit_ranges limit (compared + length (range_after r)) rs)"

fun place_ranges :: "nat \<Rightarrow> nat \<Rightarrow> bool \<Rightarrow> blob_range_patch list \<Rightarrow> (sql_error, bool) result" where
  "place_ranges extent prior changes [] = Inr changes"
| "place_ranges extent prior changes (r # rs) =
     (if range_offset r > extent \<or> length (range_after r) > extent - range_offset r
      then Inl (invalid ''BLOB range is outside value'')
      else if range_after r = [] then place_ranges extent prior changes rs
      else if range_offset r < prior then Inl (invalid ''BLOB ranges overlap'')
      else place_ranges extent (range_offset r + length (range_after r))
             (changes \<or> range_before r \<noteq> range_after r) rs)"

fun compare_chunks :: "'s sqlite \<Rightarrow> blob_location \<Rightarrow> (nat \<times> byte list) list \<Rightarrow> ('s, unit) action" where
  "compare_chunks Q loc [] = areturn ()"
| "compare_chunks Q loc ((offset, piece) # chunks) =
     abind (read_blob Q loc offset (length piece)) (\<lambda>bytes.
     abind (acheck (bytes = piece) (invalid_as ''BLOB source conflict'' Conflict)) (\<lambda>_.
     compare_chunks Q loc chunks))"

definition compare_ranges :: "'s sqlite \<Rightarrow> blob_location \<Rightarrow> blob_range_patch list \<Rightarrow> ('s, unit) action" where
  "compare_ranges Q loc rs =
     compare_chunks Q loc (concat (map (\<lambda>r. cut 4096 (range_offset r) (range_before r)) rs))"

fun write_ranges :: "'s sqlite \<Rightarrow> blob_location \<Rightarrow> blob_range_patch list \<Rightarrow> ('s, nat) action" where
  "write_ranges Q loc [] = areturn 0"
| "write_ranges Q loc (r # rs) =
     abind (write_runs Q loc (range_offset r) (diff_runs 0 (range_before r) (range_after r))) (\<lambda>n.
     abind (write_ranges Q loc rs) (\<lambda>m. areturn (n + m)))"

text \<open>\<open>BlobSavepoint\<close>: its \<open>rollback\<close> runs only while the savepoint is active.\<close>

definition savepoint_begin :: "'s sqlite \<Rightarrow> 's \<Rightarrow> int \<times> 's" where
  "savepoint_begin Q = q_exec Q ''SAVEPOINT ii_fp_blob_ranges''"

definition savepoint_release :: "'s sqlite \<Rightarrow> 's \<Rightarrow> int \<times> 's" where
  "savepoint_release Q = q_exec Q ''RELEASE ii_fp_blob_ranges''"

definition savepoint_rollback :: "'s sqlite \<Rightarrow> 's database \<Rightarrow> bool \<times> 's database" where
  "savepoint_rollback Q d = (case db_handle d of None \<Rightarrow> (True, d) | Some s \<Rightarrow>
     if q_autocommit Q s then (True, d\<lparr>db_transaction := 0\<rparr>)
     else let (r1, s1) = q_exec Q ''ROLLBACK TO ii_fp_blob_ranges'' s;
              (r2, s2) = (if r1 = sqlite_ok then savepoint_release Q s1 else (r1, s1))
          in if r2 = sqlite_ok then (True, d\<lparr>db_handle := Some s2\<rparr>)
             else let (r3, s3) = q_exec Q ''ROLLBACK'' s2
                  in if r3 = sqlite_ok \<or> q_autocommit Q s3
                     then (True, d\<lparr>db_handle := Some s3, db_transaction := 0\<rparr>)
                     else (False, invalidate d))"

definition check_ranges :: "'s sqlite \<Rightarrow> blob_location \<Rightarrow> blob_range_patch list \<Rightarrow> ('s, nat \<times> bool) action" where
  "check_ranges Q loc rs =
     abind (acheck (validBlobNames (at_table loc) (at_column loc)) (invalid ''Invalid BLOB identifier'')) (\<lambda>_.
     abind (aget (q_readonly Q)) (\<lambda>readonly.
     abind (acheck (\<not> readonly) (invalid_as ''Database is read only'' Read_Only)) (\<lambda>_.
     abind (aget (in_transaction Q)) (\<lambda>inside.
     abind (acheck inside (invalid ''BLOB ranges require a transaction'')) (\<lambda>_.
     abind (aget (q_limit Q)) (\<lambda>limit.
     abind (acheck (length rs \<le> 65536 \<and> length rs \<le> limit div sizeof_range)
       (invalid_as ''BLOB range metadata exceeds limit'' Limit_Exceeded)) (\<lambda>_.
     abind (alift (admit_ranges limit 0 rs)) (\<lambda>compared.
     let ordered = sort_key range_offset rs
     in with_blob Q loc False
          (abind (aget (q_blob_bytes Q loc)) (\<lambda>size.
           abind (alift (place_ranges size 0 False ordered)) (\<lambda>changes.
           abind (compare_ranges Q loc ordered) (\<lambda>_. areturn (compared, changes)))))))))))))"

definition exchange_ranges :: "'s sqlite \<Rightarrow> blob_location \<Rightarrow> blob_range_patch list \<Rightarrow> ('s database, nat) action" where
  "exchange_ranges Q loc ordered =
     abind (with_handle (abind (acall (savepoint_begin Q)) (arc Q))) (\<lambda>_ d.
       case with_handle (with_blob Q loc True (write_ranges Q loc ordered)) d of
         (Inl e, d1) \<Rightarrow>
           (let (restored, d2) = savepoint_rollback Q d1
            in (Inl (if restored then e else invalid_as ''BLOB rollback failed'' Failure), d2))
       | (Inr written, d1) \<Rightarrow>
           (case with_handle (abind (acall (savepoint_release Q)) (arc Q)) d1 of
              (Inl e, d2) \<Rightarrow> (Inl e, snd (savepoint_rollback Q d2))
            | (Inr _, d2) \<Rightarrow> (Inr written, d2)))"

definition compare_exchange_blob_ranges ::
    "'s sqlite \<Rightarrow> string \<Rightarrow> string \<Rightarrow> int \<Rightarrow> blob_range_patch list \<Rightarrow> ('s database, blob_statistics) action" where
  "compare_exchange_blob_ranges Q table column row_id rs =
     (let loc = Blob_At table column row_id
      in abind (with_handle (check_ranges Q loc rs)) (\<lambda>(compared, changes).
         if \<not> changes then areturn \<lparr>bytes_compared = compared, bytes_written = 0\<rparr>
         else abind (exchange_ranges Q loc (sort_key range_offset rs)) (\<lambda>written.
              areturn \<lparr>bytes_compared = compared, bytes_written = written\<rparr>)))"

end
