(* ===== verification/Native_Connection.thy ===== *)
theory Native_Connection
  imports Native_Database
begin

text \<open>
  Connections, statements and transactions of \<open>Native/src/Database/Database.cpp\<close>, over the
  connection state of theory \<open>Native_Database\<close>.  A statement is its SQLite handle and its
  position; a loop that ends only when SQLite says so is a \<open>partial_function\<close>, with
  \<open>None\<close> for a run that does not return.
\<close>

section \<open>Opening\<close>

definition limits_ok :: "sql_options \<Rightarrow> bool" where
  "limits_ok options \<longleftrightarrow> 0 \<le> opt_busy_timeout_ms options \<and> 1024 \<le> opt_maximum_value_bytes options"

text \<open>\<open>SQLITE_OPEN_READONLY\<close>, \<open>READWRITE\<close>, \<open>CREATE\<close> and \<open>FULLMUTEX\<close>.\<close>

definition mode_flags :: "open_mode \<Rightarrow> int" where
  "mode_flags mode = (case mode of Mode_read_only \<Rightarrow> 1 | Mode_read_write \<Rightarrow> 2 | Mode_create \<Rightarrow> 6)"

definition full_mutex :: int where "full_mutex = 65536"

definition connect :: "'s sqlite \<Rightarrow> string \<Rightarrow> int \<Rightarrow> sql_options \<Rightarrow> (sql_error, 's database) result" where
  "connect Q path flags options =
     (let (rc, s) = q_open Q path (flags + full_mutex)
      in if rc \<noteq> sqlite_ok then Inl (failure Q s rc)
         else Inr \<lparr>db_handle = Some (q_configure Q (opt_busy_timeout_ms options) (opt_maximum_value_bytes options) s),
                   db_serial = 0, db_transaction = 0\<rparr>)"

definition database_open :: "'s sqlite \<Rightarrow> string \<Rightarrow> sql_options \<Rightarrow> (sql_error, 's database) result" where
  "database_open Q path options =
     (if path = [] \<or> CHR 0x00 \<in> set path \<or> path = '':memory:''
      then Inl (invalid ''A nonempty database file path is required'')
      else if \<not> limits_ok options then Inl (invalid ''Invalid database limits'')
      else connect Q path (mode_flags (opt_mode options)) options)"

definition database_memory :: "'s sqlite \<Rightarrow> sql_options \<Rightarrow> (sql_error, 's database) result" where
  "database_memory Q options =
     (if \<not> limits_ok options then Inl (invalid ''Invalid database limits'')
      else connect Q '':memory:'' (mode_flags Mode_create) options)"

definition database_in_transaction :: "'s sqlite \<Rightarrow> 's database \<Rightarrow> bool" where
  "database_in_transaction Q d = (case db_handle d of None \<Rightarrow> False | Some s \<Rightarrow> in_transaction Q s)"

definition database_changes :: "'s sqlite \<Rightarrow> 's database \<Rightarrow> int" where
  "database_changes Q d = (case db_handle d of None \<Rightarrow> 0 | Some s \<Rightarrow> q_changes Q s)"

section \<open>Statements\<close>

datatype position = Initial | At_Row | At_Done | Failed

record statement =
  st_handle :: nat
  st_position :: position

definition prepare :: "'s sqlite \<Rightarrow> string \<Rightarrow> ('s database, statement) action" where
  "prepare Q sql = with_handle (
     abind (acheck (sql \<noteq> [] \<and> length sql \<le> int_max \<and> CHR 0x00 \<notin> set sql)
       (invalid ''Expected one SQL statement without NUL'')) (\<lambda>_.
     abind (acall (q_prepare Q sql)) (\<lambda>(rc, handle, tail).
     abind (arc Q rc) (\<lambda>_.
     case handle of None \<Rightarrow> afail (invalid ''SQL contains no statement'')
     | Some q \<Rightarrow>
       abind (acall (q_prepare Q (drop tail sql))) (\<lambda>(rc, extra, _).
       abind (acall (\<lambda>s. ((), case extra of None \<Rightarrow> s | Some e \<Rightarrow> q_finalize Q e s))) (\<lambda>_.
       if rc \<noteq> sqlite_ok \<or> extra \<noteq> None
       then abind (acall (\<lambda>s. ((), q_finalize Q q s))) (\<lambda>_. afail (invalid ''Only one SQL statement is admitted''))
       else areturn \<lparr>st_handle = q, st_position = Initial\<rparr>))))))"

text \<open>The destructor of a statement finalizes it.\<close>

definition release_statement :: "'s sqlite \<Rightarrow> statement \<Rightarrow> 's database \<Rightarrow> 's database" where
  "release_statement Q q d = (case db_handle d of None \<Rightarrow> d
     | Some s \<Rightarrow> d\<lparr>db_handle := Some (q_finalize Q (st_handle q) s)\<rparr>)"

text \<open>\<open>std::isfinite\<close> on the bits of an IEEE double: the exponent is not all ones.\<close>

definition isfinite :: "64 word \<Rightarrow> bool" where
  "isfinite x \<longleftrightarrow> take_bit 11 (drop_bit 52 x) \<noteq> mask 11"

definition sqlite_range :: int where "sqlite_range = 25"
definition sqlite_toobig :: int where "sqlite_toobig = 18"
definition sqlite_row :: int where "sqlite_row = 100"
definition sqlite_done :: int where "sqlite_done = 101"

definition bind_code :: "'s sqlite \<Rightarrow> nat \<Rightarrow> int \<Rightarrow> sql_value \<Rightarrow> 's \<Rightarrow> int \<times> 's" where
  "bind_code Q q index v s = (case v of
     VReal x \<Rightarrow> if isfinite x then q_bind Q q index v s else (sqlite_range, s)
   | VText x \<Rightarrow> if length x > q_limit Q s then (sqlite_toobig, s) else q_bind Q q index v s
   | VBlob x \<Rightarrow> if length x > q_limit Q s then (sqlite_toobig, s) else q_bind Q q index v s
   | _ \<Rightarrow> q_bind Q q index v s)"

definition statement_bind :: "'s sqlite \<Rightarrow> statement \<Rightarrow> int \<Rightarrow> sql_value \<Rightarrow> ('s database, unit) action" where
  "statement_bind Q q index v = with_handle (
     abind (acheck (st_position q = Initial) (invalid ''Reset the statement before binding'')) (\<lambda>_.
     abind (acall (bind_code Q (st_handle q) index v)) (arc Q)))"

text \<open>
  A step that ends the transaction, whatever SQL it runs, also forgets the active
  transaction.
\<close>

definition statement_step ::
    "'s sqlite \<Rightarrow> statement \<Rightarrow> 's database \<Rightarrow> (sql_error, sql_step) result \<times> statement \<times> 's database" where
  "statement_step Q q d = (case db_handle d of
     None \<Rightarrow> (Inl (invalid_as ''Statement is closed'' Closed), q, d)
   | Some s \<Rightarrow>
     if st_position q = At_Done then (Inr Done, q, d)
     else if st_position q = Failed then (Inl (invalid ''Reset the failed statement before stepping''), q, d)
     else let (rc, s') = q_step Q (st_handle q) s;
              d' = d\<lparr>db_handle := Some s', db_transaction := (if q_autocommit Q s' then 0 else db_transaction d)\<rparr>
          in if rc = sqlite_row then (Inr Row, q\<lparr>st_position := At_Row\<rparr>, d')
             else if rc = sqlite_done then (Inr Done, q\<lparr>st_position := At_Done\<rparr>, d')
             else (Inl (failure Q s' rc), q\<lparr>st_position := Failed\<rparr>, d'))"

definition statement_reset ::
    "'s sqlite \<Rightarrow> bool \<Rightarrow> statement \<Rightarrow> 's database \<Rightarrow> (sql_error, unit) result \<times> statement \<times> 's database" where
  "statement_reset Q clear q d = (case db_handle d of
     None \<Rightarrow> (Inl (invalid_as ''Statement is closed'' Closed), q, d)
   | Some s \<Rightarrow>
     let s1 = q_reset Q (st_handle q) s;
         (rc, s2) = (if clear then q_clear_bindings Q (st_handle q) s1 else (sqlite_ok, s1))
     in (if rc \<noteq> sqlite_ok then Inl (failure Q s2 rc) else Inr (),
         q\<lparr>st_position := Initial\<rparr>, d\<lparr>db_handle := Some s2\<rparr>))"

definition columns :: "'s sqlite \<Rightarrow> statement \<Rightarrow> 's database \<Rightarrow> int" where
  "columns Q q d = (case db_handle d of None \<Rightarrow> 0 | Some s \<Rightarrow> q_column_count Q (st_handle q) s)"

definition sqlite_nomem :: int where "sqlite_nomem = 7"

definition column_name :: "'s sqlite \<Rightarrow> statement \<Rightarrow> int \<Rightarrow> 's database \<Rightarrow> (sql_error, string) result" where
  "column_name Q q column d =
     (if column < 0 \<or> column \<ge> columns Q q d then Inl (invalid ''Column index is out of range'')
      else case q_column_name Q (st_handle q) column (the (db_handle d)) of
        None \<Rightarrow> Inl (failure Q (the (db_handle d)) sqlite_nomem)
      | Some name \<Rightarrow> Inr name)"

text \<open>
  \<open>q_column\<close> gives the storage class of a column and its value, \<open>None\<close> where the pointer is
  null although the length is not zero.
\<close>

definition column_value :: "'s sqlite \<Rightarrow> statement \<Rightarrow> int \<Rightarrow> 's database \<Rightarrow> (sql_error, sql_value) result" where
  "column_value Q q column d =
     (if st_position q \<noteq> At_Row \<or> column < 0 \<or> column \<ge> columns Q q d
      then Inl (invalid ''No current value at this column'')
      else let s = the (db_handle d); (kind, v) = q_column Q (st_handle q) column s
           in case kind of
                Col_Null \<Rightarrow> Inr VNull
              | Col_Unknown \<Rightarrow> Inl (invalid ''Unknown SQLite column type'')
              | _ \<Rightarrow> (case v of None \<Rightarrow> Inl (failure Q s sqlite_nomem) | Some x \<Rightarrow> Inr x))"

section \<open>Running a statement to its end\<close>

partial_function (option) step_all ::
    "'s sqlite \<Rightarrow> statement \<Rightarrow> 's database \<Rightarrow> ((sql_error, unit) result \<times> 's database) option" where
  [code]: "step_all Q q d =
     (let (r, q', d') = statement_step Q q d
      in case r of
           Inl e \<Rightarrow> Some (Inl e, release_statement Q q' d')
         | Inr Done \<Rightarrow> Some (Inr (), release_statement Q q' d')
         | Inr Row \<Rightarrow> step_all Q q' d')"

definition execute ::
    "'s sqlite \<Rightarrow> string \<Rightarrow> 's database \<Rightarrow> ((sql_error, unit) result \<times> 's database) option" where
  "execute Q sql d = (case prepare Q sql d of
     (Inl e, d') \<Rightarrow> Some (Inl e, d')
   | (Inr q, d') \<Rightarrow> step_all Q q d')"

fun execute_all ::
    "'s sqlite \<Rightarrow> string list \<Rightarrow> 's database \<Rightarrow> ((sql_error, unit) result \<times> 's database) option" where
  "execute_all Q [] d = Some (Inr (), d)"
| "execute_all Q (sql # rest) d = (case execute Q sql d of
     None \<Rightarrow> None
   | Some (Inl e, d') \<Rightarrow> Some (Inl e, d')
   | Some (Inr _, d') \<Rightarrow> execute_all Q rest d')"

text \<open>The first column of the first row of a query, as \<open>configure_durable\<close> and \<open>backup_to\<close> read it.\<close>

definition first_value :: "'s sqlite \<Rightarrow> string \<Rightarrow> ('s database, sql_value) action" where
  "first_value Q sql = abind (prepare Q sql) (\<lambda>q d.
     let (r, q', d') = statement_step Q q d
     in (case r of Inl e \<Rightarrow> Inl e | Inr _ \<Rightarrow> column_value Q q' 0 d', release_statement Q q' d'))"

definition durable_pragmas :: "string list" where
  "durable_pragmas = [''PRAGMA trusted_schema=OFF'', ''PRAGMA journal_mode=DELETE'',
     ''PRAGMA synchronous=EXTRA'', ''PRAGMA fullfsync=ON'']"

definition configure_durable ::
    "'s sqlite \<Rightarrow> 's database \<Rightarrow> ((sql_error, unit) result \<times> 's database) option" where
  "configure_durable Q d = (case with_handle (abind (acall (q_db_config Q)) (arc Q)) d of
     (Inl e, d1) \<Rightarrow> Some (Inl e, d1)
   | (Inr _, d1) \<Rightarrow> (case execute_all Q durable_pragmas d1 of
        None \<Rightarrow> None
      | Some (Inl e, d2) \<Rightarrow> Some (Inl e, d2)
      | Some (Inr _, d2) \<Rightarrow> Some (abind (first_value Q ''PRAGMA journal_mode'') (\<lambda>mode.
          acheck (mode = VText ''delete'')
            (invalid_as ''Durable authoring requires DELETE journaling'' Failure)) d2)))"

definition sqlite_notfound :: int where "sqlite_notfound = 12"

definition has_moved :: "'s sqlite \<Rightarrow> 's database \<Rightarrow> (sql_error, bool) result" where
  "has_moved Q d = (case db_handle d of
     None \<Rightarrow> Inl (invalid_as ''Database is closed'' Closed)
   | Some s \<Rightarrow> let (rc, moved) = q_has_moved Q s
       in if rc \<noteq> sqlite_ok \<and> rc \<noteq> sqlite_notfound then Inl (failure Q s rc) else Inr (moved \<noteq> 0))"

section \<open>Snapshots\<close>

text \<open>
  The loop of \<open>backup_to\<close>; \<open>now i\<close> is the steady clock at its \<open>i\<close>-th reading and \<open>bound\<close> the
  number of pages allowed.
\<close>

partial_function (option) backup_loop ::
    "'s sqlite \<Rightarrow> (nat \<Rightarrow> int) \<Rightarrow> int \<Rightarrow> int \<Rightarrow> nat \<Rightarrow> 's \<Rightarrow> 's \<Rightarrow> ((sql_error, unit) result \<times> 's) option" where
  [code]: "backup_loop Q now deadline bound i src dst =
     (if now i \<ge> deadline then Some (Inl (invalid_as ''Database snapshot timed out'' Busy), dst)
      else let ((rc, pages), dst') = q_backup_step Q src dst
           in if pages < 0 \<or> pages > bound
              then Some (Inl (invalid_as ''Database snapshot grew beyond byte limit'' Limit_Exceeded), dst')
              else if rc = sqlite_done then Some (Inr (), dst')
              else if rc = 5 \<or> rc = 6 \<or> rc = sqlite_ok
              then backup_loop Q now deadline bound (i + 1) src dst'
              else Some (Inl (failure Q dst' rc), dst'))"

definition size_value :: "'s sqlite \<Rightarrow> string \<Rightarrow> ('s database, int) action" where
  "size_value Q sql = abind (first_value Q sql) (\<lambda>v. case v of
     VInt n \<Rightarrow> areturn n
   | _ \<Rightarrow> afail (invalid_as ''Invalid database size metadata'' Failure))"

definition backup_to ::
    "'s sqlite \<Rightarrow> (nat \<Rightarrow> int) \<Rightarrow> 's database \<Rightarrow> 's database \<Rightarrow> nat \<Rightarrow> int \<Rightarrow>
     ((sql_error, unit) result \<times> 's database \<times> 's database) option" where
  "backup_to Q now source destination maximum_bytes timeout_ms =
     (case (db_handle source, db_handle destination) of
       (Some _, Some dst) \<Rightarrow>
         if in_transaction Q dst \<or> timeout_ms \<le> 0 \<or> maximum_bytes = 0
         then Some (Inl (invalid ''Invalid snapshot destination or bounds''), source, destination)
         else let (size, source1) = size_value Q ''PRAGMA page_size'' source;
                  (pages, source2) = size_value Q ''PRAGMA page_count'' source1
              in (case (size, pages) of
                    (Inl e, _) \<Rightarrow> Some (Inl e, source2, destination)
                  | (_, Inl e) \<Rightarrow> Some (Inl e, source2, destination)
                  | (Inr n, Inr count) \<Rightarrow>
                    if n \<le> 0 \<or> count < 0 \<or> n > int maximum_bytes \<or> count > int maximum_bytes div n
                    then Some (Inl (invalid_as ''Database snapshot exceeds byte limit'' Limit_Exceeded), source2, destination)
                    else (case db_handle source2 of
                      None \<Rightarrow> Some (Inl (invalid_as ''Database is closed'' Closed), source2, destination)
                    | Some src \<Rightarrow>
                      let (started, dst1) = q_backup_init Q src dst
                      in if \<not> started
                         then Some (Inl (failure Q dst1 (q_errcode Q dst1)), source2, destination\<lparr>db_handle := Some dst1\<rparr>)
                         else (case backup_loop Q now (now 0 + timeout_ms) (int maximum_bytes div n) 1 src dst1 of
                           None \<Rightarrow> None
                         | Some (r, dst2) \<Rightarrow>
                           let (rc, dst3) = q_backup_finish Q dst2
                           in Some (case r of Inl e \<Rightarrow> Inl e
                                    | Inr _ \<Rightarrow> if rc \<noteq> sqlite_ok then Inl (failure Q dst3 rc) else Inr (),
                                source2, destination\<lparr>db_handle := Some dst3\<rparr>))))
     | _ \<Rightarrow> Some (Inl (invalid_as ''Database is closed'' Closed), source, destination))"

section \<open>Transactions\<close>

text \<open>
  A \<open>Transaction\<close> holds the identifier it was started with; \<open>None\<close> stands for one that was
  ended or moved from.
\<close>

type_synonym tx_handle = "64 word option"

definition transaction_begin ::
    "'s sqlite \<Rightarrow> bool \<Rightarrow> 's database \<Rightarrow> ((sql_error, tx_handle) result \<times> 's database) option" where
  "transaction_begin Q writing d =
     (case execute Q (if writing then ''BEGIN IMMEDIATE'' else ''BEGIN'') d of
       None \<Rightarrow> None
     | Some (Inl e, d1) \<Rightarrow> Some (Inl e, d1)
     | Some (Inr _, d1) \<Rightarrow>
         let id = db_serial d1 + 1
         in Some (Inr (Some id), d1\<lparr>db_serial := id, db_transaction := id\<rparr>))"

definition sqlite_misuse :: int where "sqlite_misuse = 21"

text \<open>\<open>sqlite3_exec\<close> on the handle of the connection, which refuses a null handle.\<close>

definition exec_handle :: "'s sqlite \<Rightarrow> string \<Rightarrow> 's database \<Rightarrow> (sql_error, unit) result \<times> 's database" where
  "exec_handle Q sql d = (case db_handle d of
     None \<Rightarrow> (Inl \<lparr>err_code = failure_code sqlite_misuse, err_native = sqlite_misuse,
                     err_message = q_errstr Q sqlite_misuse\<rparr>, d)
   | Some s \<Rightarrow> with_handle (abind (acall (q_exec Q sql)) (arc Q)) d)"

definition transaction_end ::
    "'s sqlite \<Rightarrow> string \<Rightarrow> tx_handle \<Rightarrow> 's database \<Rightarrow> (sql_error, unit) result \<times> tx_handle \<times> 's database" where
  "transaction_end Q sql t d =
     (if t \<noteq> Some (db_transaction d) then (Inl (invalid ''Transaction is no longer active''), t, d)
      else case exec_handle Q sql d of
        (Inl e, d1) \<Rightarrow> (Inl e, t, d1)
      | (Inr _, d1) \<Rightarrow> (Inr (), None, d1\<lparr>db_transaction := 0\<rparr>))"

definition transaction_commit ::
    "'s sqlite \<Rightarrow> tx_handle \<Rightarrow> 's database \<Rightarrow> (sql_error, unit) result \<times> tx_handle \<times> 's database" where
  "transaction_commit Q = transaction_end Q ''COMMIT''"

definition transaction_rollback ::
    "'s sqlite \<Rightarrow> tx_handle \<Rightarrow> 's database \<Rightarrow> (sql_error, unit) result \<times> tx_handle \<times> 's database" where
  "transaction_rollback Q = transaction_end Q ''ROLLBACK''"

text \<open>The destructor rolls an active transaction back and ignores the outcome.\<close>

definition transaction_destroy :: "'s sqlite \<Rightarrow> tx_handle \<Rightarrow> 's database \<Rightarrow> 's database" where
  "transaction_destroy Q t d =
     (if t = Some (db_transaction d) then snd (snd (transaction_rollback Q t d)) else d)"

end
