(* ===== verification/Native_Blob.thy ===== *)
theory Native_Blob
  imports Native_Connection
begin

text \<open>
  What the BLOB operations do to the stored value.  The laws of SQLite's incremental BLOB
  interface and of savepoints are the predicate \<open>blob_laws\<close> over a view of the stored
  values; from them each operation gets its effect on that view.
\<close>

lemma arc_result [simp]:
  "arc Q rc s = (Inr u, s') \<longleftrightarrow> rc = sqlite_ok \<and> s' = s"
  "arc Q rc s = (Inl x, s') \<longleftrightarrow> rc \<noteq> sqlite_ok \<and> x = failure Q s rc \<and> s' = s"
  by (auto simp: arc_def)

section \<open>The interface of SQLite\<close>

type_synonym blob_view = "blob_location \<Rightarrow> byte list option"

text \<open>
  \<open>view s\<close> gives the BLOB values the connection sees and \<open>saved s\<close> those at the last
  savepoint.  The BLOB calls that read keep everything; a successful write overwrites the bytes,
  and a failed write leaves the savepoint in place unless SQLite ended the transaction.
\<close>

definition read_laws :: "'s sqlite \<Rightarrow> ('s \<Rightarrow> blob_view) \<Rightarrow> ('s \<Rightarrow> blob_view option) \<Rightarrow> bool" where
  "read_laws Q view saved \<longleftrightarrow>
     (\<forall>loc w s rc s'. q_blob_open Q loc w s = (rc, s') \<longrightarrow>
        view s' = view s \<and> saved s' = saved s \<and> q_autocommit Q s' = q_autocommit Q s \<and>
        (rc = sqlite_ok \<longrightarrow> view s loc \<noteq> None)) \<and>
     (\<forall>loc s c. view s loc = Some c \<longrightarrow> q_blob_bytes Q loc s = length c) \<and>
     (\<forall>loc p n s rc bytes s'. q_blob_read Q loc p n s = ((rc, bytes), s') \<longrightarrow>
        view s' = view s \<and> saved s' = saved s \<and> q_autocommit Q s' = q_autocommit Q s \<and>
        (\<forall>c. rc = sqlite_ok \<and> view s loc = Some c \<and> p + n \<le> length c \<longrightarrow> bytes = take n (drop p c))) \<and>
     (\<forall>loc s rc s'. q_blob_close Q loc s = (rc, s') \<longrightarrow>
        view s' = view s \<and> saved s' = saved s \<and> q_autocommit Q s' = q_autocommit Q s)"

definition write_laws :: "'s sqlite \<Rightarrow> ('s \<Rightarrow> blob_view) \<Rightarrow> ('s \<Rightarrow> blob_view option) \<Rightarrow> bool" where
  "write_laws Q view saved \<longleftrightarrow>
     (\<forall>loc p bytes s rc s'. q_blob_write Q loc p bytes s = (rc, s') \<longrightarrow>
        (rc = sqlite_ok \<longrightarrow> saved s' = saved s \<and> q_autocommit Q s' = q_autocommit Q s \<and>
           (\<forall>c. view s loc = Some c \<and> p + length bytes \<le> length c \<longrightarrow>
             view s' = (view s)(loc \<mapsto> overwrite c p bytes))) \<and>
        (rc \<noteq> sqlite_ok \<longrightarrow> q_autocommit Q s' \<or> saved s' = saved s \<and> \<not> q_autocommit Q s'))"

definition savepoint_laws :: "'s sqlite \<Rightarrow> ('s \<Rightarrow> blob_view) \<Rightarrow> ('s \<Rightarrow> blob_view option) \<Rightarrow> bool" where
  "savepoint_laws Q view saved \<longleftrightarrow>
     (\<forall>s rc s'. q_exec Q ''SAVEPOINT ii_fp_blob_ranges'' s = (rc, s') \<longrightarrow>
        view s' = view s \<and> q_autocommit Q s' = q_autocommit Q s \<and>
        (rc = sqlite_ok \<longrightarrow> saved s' = Some (view s))) \<and>
     (\<forall>s rc s'. q_exec Q ''RELEASE ii_fp_blob_ranges'' s = (rc, s') \<longrightarrow>
        view s' = view s \<and> q_autocommit Q s' = q_autocommit Q s \<and>
        (rc \<noteq> sqlite_ok \<longrightarrow> saved s' = saved s)) \<and>
     (\<forall>s rc s' v. q_exec Q ''ROLLBACK TO ii_fp_blob_ranges'' s = (rc, s') \<longrightarrow>
        q_autocommit Q s' = q_autocommit Q s \<and>
        (rc = sqlite_ok \<and> saved s = Some v \<longrightarrow> view s' = v)) \<and>
     (\<forall>s rc s'. q_exec Q ''ROLLBACK'' s = (rc, s') \<longrightarrow> rc = sqlite_ok \<longrightarrow> q_autocommit Q s')"

section \<open>Replacing a part of a value\<close>

definition slice :: "'a list \<Rightarrow> nat \<Rightarrow> nat \<Rightarrow> 'a list" where
  "slice c p n = take n (drop p c)"

definition count_diff :: "'a list \<Rightarrow> 'a list \<Rightarrow> nat" where
  "count_diff xs ys = length (filter (\<lambda>(x, y). x \<noteq> y) (zip xs ys))"

lemma length_slice [simp]: "p + n \<le> length c \<Longrightarrow> length (slice c p n) = n"
  by (simp add: slice_def)

lemma nth_overwrite:
  "p + length b \<le> length c \<Longrightarrow> i < length c \<Longrightarrow>
   overwrite c p b ! i = (if i < p then c ! i else if i < p + length b then b ! (i - p) else c ! i)"
  by (auto simp: overwrite_def nth_append)

lemma overwrite_slice [simp]: "p + n \<le> length c \<Longrightarrow> overwrite c p (slice c p n) = c"
  by (rule nth_equalityI) (auto simp: nth_overwrite slice_def)

lemma overwrite_append:
  "p + length a + length b \<le> length c \<Longrightarrow>
   overwrite (overwrite c p a) (p + length a) b = overwrite c p (a @ b)"
  by (rule nth_equalityI) (auto simp: nth_overwrite nth_append)

lemma slice_overwrite_after:
  "p + length b \<le> q \<Longrightarrow> q + n \<le> length c \<Longrightarrow> slice (overwrite c p b) q n = slice c q n"
  by (rule nth_equalityI) (auto simp: nth_overwrite slice_def)

lemma slice_overwrite_before:
  "q + n \<le> p \<Longrightarrow> p + length b \<le> length c \<Longrightarrow> slice (overwrite c p b) q n = slice c q n"
  by (rule nth_equalityI) (auto simp: nth_overwrite slice_def)

lemma slice_overwrite_same:
  "p + length b \<le> length c \<Longrightarrow> slice (overwrite c p b) p (length b) = b"
  by (rule nth_equalityI) (auto simp: nth_overwrite slice_def)

lemma slice_split:
  "slice c p (n + m) = slice c p n @ slice c (p + n) m"
  by (simp only: slice_def take_add drop_drop add.commute [of n p])

lemma slice_drop:
  assumes "slice c p n = xs" and "k \<le> n"
  shows "slice c (p + k) (n - k) = drop k xs"
  using assms by (auto simp: slice_def drop_take add.commute)

lemma slice_take:
  assumes "slice c p n = xs" and "k \<le> n"
  shows "slice c p k = take k xs"
  using assms by (auto simp: slice_def min_def)

section \<open>The effect of the loops\<close>

lemma read_laws_open:
  assumes "read_laws Q view saved" and "q_blob_open Q loc w s = (rc, s')"
  shows "view s' = view s \<and> saved s' = saved s \<and> q_autocommit Q s' = q_autocommit Q s \<and>
    (rc = sqlite_ok \<longrightarrow> view s loc \<noteq> None)"
  using conjunct1 [OF assms(1) [unfolded read_laws_def], rule_format, OF assms(2)] .

lemma read_laws_bytes:
  "read_laws Q view saved \<Longrightarrow> view s loc = Some c \<Longrightarrow> q_blob_bytes Q loc s = length c"
  by (simp add: read_laws_def)

lemma read_laws_read:
  assumes "read_laws Q view saved" and "q_blob_read Q loc p n s = ((rc, bytes), s')"
  shows "view s' = view s \<and> saved s' = saved s \<and> q_autocommit Q s' = q_autocommit Q s"
    and "rc = sqlite_ok \<Longrightarrow> view s loc = Some c \<Longrightarrow> p + n \<le> length c \<Longrightarrow> bytes = take n (drop p c)"
  using conjunct1 [OF conjunct2 [OF conjunct2 [OF assms(1) [unfolded read_laws_def]]], rule_format, OF assms(2)]
  by simp_all

lemma read_laws_close:
  assumes "read_laws Q view saved" and "q_blob_close Q loc s = (rc, s')"
  shows "view s' = view s \<and> saved s' = saved s \<and> q_autocommit Q s' = q_autocommit Q s"
  using conjunct2 [OF conjunct2 [OF conjunct2 [OF assms(1) [unfolded read_laws_def]]], rule_format, OF assms(2)] .

lemma write_lawsD:
  assumes "write_laws Q view saved" and "q_blob_write Q loc p bytes s = (rc, s')"
  shows "rc = sqlite_ok \<Longrightarrow> view s loc = Some c \<Longrightarrow> p + length bytes \<le> length c \<Longrightarrow>
      view s' = (view s)(loc \<mapsto> overwrite c p bytes)"
    and "rc = sqlite_ok \<Longrightarrow> saved s' = saved s \<and> q_autocommit Q s' = q_autocommit Q s"
    and "rc \<noteq> sqlite_ok \<Longrightarrow> q_autocommit Q s' \<or> saved s' = saved s \<and> \<not> q_autocommit Q s'"
  using assms(1) [unfolded write_laws_def, rule_format, OF assms(2)] by simp_all

lemma read_blob_Inr:
  assumes "read_laws Q view saved" and "read_blob Q loc p n s = (Inr bytes, s')"
    and "view s loc = Some c" and "p + n \<le> length c"
  shows "bytes = slice c p n" and "view s' = view s" and "saved s' = saved s"
    and "q_autocommit Q s' = q_autocommit Q s"
proof -
  have "q_blob_read Q loc p n s = ((sqlite_ok, bytes), s')"
    using assms(2) by (auto simp: read_blob_def elim!: abind_InrE)
  note read = read_laws_read(1) [OF assms(1) this] read_laws_read(2) [OF assms(1) this refl assms(3,4)]
  from read show "bytes = slice c p n" "view s' = view s" "saved s' = saved s"
    "q_autocommit Q s' = q_autocommit Q s" by (simp_all add: slice_def)
qed

lemma write_blob_Inr:
  assumes "write_laws Q view saved" and "write_blob Q loc p bytes s = (Inr u, s')"
    and "view s loc = Some c" and "p + length bytes \<le> length c"
  shows "view s' = (view s)(loc \<mapsto> overwrite c p bytes)" and "saved s' = saved s"
    and "q_autocommit Q s' = q_autocommit Q s"
proof -
  have "q_blob_write Q loc p bytes s = (sqlite_ok, s')"
    using assms(2) by (auto simp: write_blob_def elim!: abind_InrE)
  note wrote = write_lawsD(1) [OF assms(1) this refl assms(3,4)] write_lawsD(2) [OF assms(1) this refl]
  from wrote show "view s' = (view s)(loc \<mapsto> overwrite c p bytes)" "saved s' = saved s"
    "q_autocommit Q s' = q_autocommit Q s" by simp_all
qed

lemma count_diff_Nil [simp]: "count_diff [] ys = 0" "count_diff xs [] = 0"
  by (simp_all add: count_diff_def)

lemma count_diff_append:
  "length a = length b \<Longrightarrow> count_diff (a @ xs) (b @ ys) = count_diff a b + count_diff xs ys"
  by (simp add: count_diff_def)

lemma count_diff_split:
  "length xs = length ys \<Longrightarrow>
   count_diff xs ys = count_diff (take n xs) (take n ys) + count_diff (drop n xs) (drop n ys)"
  using count_diff_append [of "take n xs" "take n ys" "drop n xs" "drop n ys"] by simp

lemma differing_prefix:
  assumes "length before = length after"
  defines "n \<equiv> length (takeWhile (\<lambda>(x, y). x \<noteq> y) (zip before after))"
  shows "n \<le> length after" and "count_diff (take n before) (take n after) = n"
proof -
  have le: "n \<le> length (zip before after)"
    unfolding n_def by (rule length_takeWhile_le)
  then show "n \<le> length after" by simp
  have "zip (take n before) (take n after) = takeWhile (\<lambda>(x, y). x \<noteq> y) (zip before after)"
    unfolding n_def by (rule trans [OF take_zip [symmetric] takeWhile_eq_take [symmetric]])
  then have "filter (\<lambda>(x, y). x \<noteq> y) (zip (take n before) (take n after)) =
      takeWhile (\<lambda>(x, y). x \<noteq> y) (zip before after)"
    by (simp only: filter_id_conv) (blast dest: set_takeWhileD)
  then show "count_diff (take n before) (take n after) = n"
    by (simp add: count_diff_def n_def)
qed

lemma write_diff_runs:
  assumes "write_laws Q view saved"
    and "write_runs Q loc base (diff_runs p before after) s = (Inr n, s')"
    and "view s loc = Some c" and "length before = length after"
    and "slice c (base + p) (length before) = before" and "base + p + length before \<le> length c"
  shows "view s' = (view s)(loc \<mapsto> overwrite c (base + p) after) \<and> n = count_diff before after \<and>
    saved s' = saved s \<and> q_autocommit Q s' = q_autocommit Q s"
  using assms(2-)
proof (induction p before after arbitrary: s c n rule: diff_runs.induct)
  case (1 p before after)
  consider (empty) "before = []" | (same) "before \<noteq> []" "hd before = hd after"
    | (diff) "before \<noteq> []" "hd before \<noteq> hd after" by blast
  then show ?case
  proof cases
    case empty
    then show ?thesis
      using "1.prems" by (auto simp: diff_runs.simps [of p] overwrite_def)
  next
    case same
    then obtain x xs ys where split: "before = x # xs" "after = x # ys"
      using "1.prems"(3) by (cases before; cases after) auto
    have run: "write_runs Q loc base (diff_runs (p + 1) xs ys) s = (Inr n, s')"
      using "1.prems"(1) by (simp add: split diff_runs.simps [of p])
    have tail: "slice c (base + (p + 1)) (length xs) = xs"
      using slice_drop [OF "1.prems"(4), of 1] by (simp add: split)
    have "c ! (base + p) = x"
      using "1.prems"(4,5) by (auto simp: split slice_def take_Suc hd_drop_conv_nth)
    then have one: "overwrite c (base + p) (x # ys) = overwrite c (base + (p + 1)) ys"
      using "1.prems"(3,5) by (intro nth_equalityI) (auto simp: split nth_overwrite nth_Cons' less_Suc_eq)
    show ?thesis
      using "1.IH"(1) [of s n c] run "1.prems" tail one same by (simp add: split count_diff_def)
  next
    case diff
    define m where "m = length (takeWhile (\<lambda>(x, y). x \<noteq> y) (zip before after))"
    have m: "m \<le> length after" "count_diff (take m before) (take m after) = m"
      unfolding m_def using differing_prefix [OF "1.prems"(3)] by auto
    have ne: "\<not> (before = [] \<or> after = [])" using diff "1.prems"(3) by auto
    have runs: "diff_runs p before after = (p, take m after) # diff_runs (p + m) (drop m before) (drop m after)"
      using ne diff(2) unfolding m_def by (subst diff_runs.simps) (simp add: Let_def)
    obtain s1 k where wrote: "write_blob Q loc (base + p) (take m after) s = (Inr (), s1)"
      and rest: "write_runs Q loc base (diff_runs (p + m) (drop m before) (drop m after)) s1 = (Inr k, s')"
      and n: "n = m + k"
      using "1.prems"(1) m(1) by (auto simp: runs elim!: abind_InrE)
    let ?c = "overwrite c (base + p) (take m after)"
    have fits: "base + p + length (take m after) \<le> length c" using "1.prems"(3,5) m(1) by simp
    note first = write_blob_Inr [OF assms(1) wrote "1.prems"(2) fits]
    have "view s1 loc = Some ?c" by (simp add: first)
    moreover have "slice ?c (base + (p + m)) (length (drop m before)) = drop m before"
      using slice_drop [OF "1.prems"(4), of m] m(1) "1.prems"(3,5)
      by (subst slice_overwrite_after) (auto simp: add.assoc)
    ultimately have "view s' = (view s1)(loc \<mapsto> overwrite ?c (base + (p + m)) (drop m after)) \<and>
        k = count_diff (drop m before) (drop m after) \<and> saved s' = saved s1 \<and>
        q_autocommit Q s' = q_autocommit Q s1"
      using "1.IH"(2) [OF ne diff(2) m_def, of s1 k ?c] rest "1.prems"(3,5) m(1) fits
      by (simp add: fun_upd_def)
    moreover have "overwrite ?c (base + (p + m)) (drop m after) = overwrite c (base + p) after"
      using overwrite_append [of "base + p" "take m after" "drop m after" c] "1.prems"(3,5) m(1)
      by (simp add: add.assoc)
    ultimately show ?thesis
      using count_diff_split [OF "1.prems"(3), of m] m(2) n by (simp add: first)
  qed
qed

end
