(* ===== verification/Native_Exchange.thy ===== *)
theory Native_Exchange
  imports Native_Blob "HOL-Library.Multiset"
begin

text \<open>
  The BLOB operations as a whole: \<open>compare_exchange_blob_ranges\<close> either replaces every range
  and nothing else, or leaves the stored values as they were (or the transaction has ended,
  or the connection is closed); \<open>patch_blob\<close> stores its argument; \<open>blob_sha256\<close> hashes the
  stored value.
\<close>

section \<open>What a connection sees\<close>

definition seen :: "'s sqlite \<Rightarrow> ('s \<Rightarrow> blob_view) \<Rightarrow> ('s \<Rightarrow> blob_view option) \<Rightarrow> 's \<Rightarrow>
    blob_view \<times> blob_view option \<times> bool" where
  "seen Q view saved s = (view s, saved s, q_autocommit Q s)"

lemma seen_iff: "seen Q view saved s' = seen Q view saved s \<longleftrightarrow>
   view s' = view s \<and> saved s' = saved s \<and> q_autocommit Q s' = q_autocommit Q s"
  by (simp add: seen_def)

text \<open>An action that keeps the savepoint.\<close>

definition careful :: "'s sqlite \<Rightarrow> ('s \<Rightarrow> blob_view option) \<Rightarrow> ('s, 'a) action \<Rightarrow> bool" where
  "careful Q saved m \<longleftrightarrow> (\<forall>s r s'. m s = (r, s') \<longrightarrow> \<not> q_autocommit Q s \<longrightarrow>
     (\<exists>e. r = Inl e) \<and> q_autocommit Q s' \<or> \<not> q_autocommit Q s' \<and> saved s' = saved s)"

named_theorems careful_intro \<open>actions that keep the savepoint\<close>

lemma quiet_arc [quiet_intro]: "quiet f (arc Q rc)"
  by (simp add: quiet_def arc_def)

lemma quiet_read_blob [quiet_intro]:
  assumes "read_laws Q view saved"
  shows "quiet (seen Q view saved) (read_blob Q loc p n)"
  unfolding read_blob_def
  by (intro quiet_intro quiet_acall) (auto simp: seen_iff dest: read_laws_read [OF assms])

lemma with_blob_cases:
  assumes "read_laws Q view saved" and "with_blob Q loc w body s = (r, s')"
  obtains (unopened) e where "r = Inl e" "seen Q view saved s' = seen Q view saved s"
    | (failed) e s1 s2 where "r = Inl e" "seen Q view saved s1 = seen Q view saved s"
        "body s1 = (Inl e, s2)" "seen Q view saved s' = seen Q view saved s2"
    | (ran) v s1 s2 where "seen Q view saved s1 = seen Q view saved s" "view s loc \<noteq> None"
        "body s1 = (Inr v, s2)" "seen Q view saved s' = seen Q view saved s2" "r = Inr v \<or> (\<exists>e. r = Inl e)"
proof -
  obtain rc s1 where opened: "q_blob_open Q loc w s = (rc, s1)" by (cases "q_blob_open Q loc w s")
  note o = read_laws_open [OF assms(1) opened]
  show ?thesis
  proof (cases "rc = sqlite_ok")
    case False
    then have "openBlob Q loc w s = (Inl (failure Q s1 rc), s1)"
      by (simp add: openBlob_def abind_def acall_def arc_def opened)
    then show ?thesis using assms(2) o by (intro unopened) (auto simp: with_blob_def seen_iff)
  next
    case True
    then have ok: "openBlob Q loc w s = (Inr (), s1)"
      by (simp add: openBlob_def abind_def acall_def arc_def opened)
    obtain x s2 where body: "body s1 = (x, s2)" by (cases "body s1")
    obtain rc2 s3 where closed: "q_blob_close Q loc s2 = (rc2, s3)" by (cases "q_blob_close Q loc s2")
    note c = read_laws_close [OF assms(1) closed]
    show ?thesis
    proof (cases x)
      case (Inl e)
      then have "r = Inl e" "s' = s3"
        using assms(2) by (auto simp: with_blob_def ok body closed)
      then show ?thesis using o c body Inl by (intro failed) (auto simp: seen_iff)
    next
      case (Inr v)
      then have "s' = s3" "r = Inr v \<or> (\<exists>e. r = Inl e)"
        using assms(2)
        by (auto simp: with_blob_def ok body abind_def acall_def arc_def areturn_def closed split: if_splits)
      then show ?thesis using o c body Inr True by (intro ran) (auto simp: seen_iff)
    qed
  qed
qed

lemma quiet_with_blob [quiet_intro]:
  assumes "read_laws Q view saved" and "quiet (seen Q view saved) body"
  shows "quiet (seen Q view saved) (with_blob Q loc w body)"
  unfolding quiet_def
proof
  fix s
  obtain r s' where run: "with_blob Q loc w body s = (r, s')" by (cases "with_blob Q loc w body s")
  show "seen Q view saved (snd (with_blob Q loc w body s)) = seen Q view saved s"
    unfolding run snd_conv
    by (rule with_blob_cases [OF assms(1) run]) (auto dest: quietD [OF assms(2)])
qed

lemma quiet_compare_chunks [quiet_intro]:
  assumes "read_laws Q view saved"
  shows "quiet (seen Q view saved) (compare_chunks Q loc cs)"
  by (induction cs) (auto intro!: quiet_intro assms)

lemma quiet_compare_ranges [quiet_intro]:
  "read_laws Q view saved \<Longrightarrow> quiet (seen Q view saved) (compare_ranges Q loc rs)"
  by (simp add: compare_ranges_def quiet_intro)

lemma quiet_check_ranges:
  assumes "read_laws Q view saved"
  shows "quiet (seen Q view saved) (check_ranges Q loc rs)"
  unfolding check_ranges_def Let_def
  by (intro quiet_intro assms)

lemma careful_abind [careful_intro]:
  assumes "careful Q saved m" and "\<And>v. careful Q saved (k v)"
  shows "careful Q saved (abind m k)"
  unfolding careful_def
proof (intro allI impI)
  fix s r s'
  assume run: "abind m k s = (r, s')" and inside: "\<not> q_autocommit Q s"
  obtain x s1 where m: "m s = (x, s1)" by (cases "m s")
  note one = assms(1) [unfolded careful_def, rule_format, OF m inside]
  show "(\<exists>e. r = Inl e) \<and> q_autocommit Q s' \<or> \<not> q_autocommit Q s' \<and> saved s' = saved s"
  proof (cases x)
    case (Inl e)
    then show ?thesis using run m one by auto
  next
    case (Inr v)
    then have "k v s1 = (r, s')" "\<not> q_autocommit Q s1" "saved s1 = saved s" using run m one by auto
    then show ?thesis using assms(2) [of v, unfolded careful_def, rule_format, of s1 r s'] by simp
  qed
qed

lemma careful_areturn [careful_intro]: "careful Q saved (areturn v)"
  by (simp add: careful_def areturn_def)

lemma careful_write_runs [careful_intro]:
  assumes "write_laws Q view saved"
  shows "careful Q saved (write_runs Q loc base runs)"
proof -
  have one: "careful Q saved (write_blob Q loc p bytes)" for p bytes
    unfolding careful_def write_blob_def
    by (auto simp: abind_def acall_def arc_def split: prod.splits if_splits
        dest: write_lawsD(2,3) [OF assms])
  show ?thesis
  proof (induction runs)
    case (Cons r runs)
    then show ?case by (cases r) (simp add: careful_intro one)
  qed (simp add: careful_intro)
qed

lemma careful_write_ranges [careful_intro]:
  assumes "write_laws Q view saved"
  shows "careful Q saved (write_ranges Q loc rs)"
  by (induction rs) (auto intro!: careful_intro assms)

section \<open>The effect of the exchange\<close>

fun placed :: "nat \<Rightarrow> blob_range_patch list \<Rightarrow> bool" where
  "placed prior [] = True"
| "placed prior (r # rs) =
     (if range_after r = [] then placed prior rs
      else prior \<le> range_offset r \<and> placed (range_offset r + length (range_after r)) rs)"

definition apply_ranges :: "blob_range_patch list \<Rightarrow> byte list \<Rightarrow> byte list" where
  "apply_ranges rs c = fold (\<lambda>r c. overwrite c (range_offset r) (range_after r)) rs c"

definition range_matches :: "byte list \<Rightarrow> blob_range_patch \<Rightarrow> bool" where
  "range_matches c r \<longleftrightarrow> length (range_before r) = length (range_after r) \<and>
     range_offset r + length (range_after r) \<le> length c \<and>
     slice c (range_offset r) (length (range_before r)) = range_before r"

definition covered :: "blob_range_patch \<Rightarrow> nat \<Rightarrow> bool" where
  "covered r i \<longleftrightarrow> range_offset r \<le> i \<and> i < range_offset r + length (range_after r)"

definition exchanged :: "blob_range_patch list \<Rightarrow> byte list \<Rightarrow> byte list \<Rightarrow> bool" where
  "exchanged rs c c' \<longleftrightarrow> length c' = length c \<and>
     (\<forall>r \<in> set rs. slice c' (range_offset r) (length (range_after r)) = range_after r) \<and>
     (\<forall>i < length c. (\<forall>r \<in> set rs. \<not> covered r i) \<longrightarrow> c' ! i = c ! i)"

lemma overwrite_Nil [simp]: "overwrite c p [] = c"
  by (simp add: overwrite_def)

lemma place_ranges_Inr:
  assumes "place_ranges n prior changes rs = Inr b"
  shows "placed prior rs" and "\<forall>r \<in> set rs. range_offset r + length (range_after r) \<le> n"
    and "b \<longleftrightarrow> changes \<or> (\<exists>r \<in> set rs. range_after r \<noteq> [] \<and> range_before r \<noteq> range_after r)"
  using assms
  by (induction n prior changes rs rule: place_ranges.induct) (auto split: if_splits)

lemma placed_weaken: "placed q rs \<Longrightarrow> p \<le> q \<Longrightarrow> placed p rs"
  by (induction rs) auto

lemma placed_member:
  "placed p rs \<Longrightarrow> r \<in> set rs \<Longrightarrow> range_after r \<noteq> [] \<Longrightarrow> p \<le> range_offset r"
proof (induction rs arbitrary: p)
  case (Cons x rs)
  then show ?case
    by (cases "range_after x = []") (auto dest: placed_weaken [where p = p])
qed simp

lemma apply_ranges_Cons [simp]:
  "apply_ranges [] c = c"
  "apply_ranges (r # rs) c = apply_ranges rs (overwrite c (range_offset r) (range_after r))"
  by (simp_all add: apply_ranges_def)

lemma length_apply_ranges:
  "\<forall>r \<in> set rs. range_offset r + length (range_after r) \<le> length c \<Longrightarrow>
   length (apply_ranges rs c) = length c"
  by (induction rs arbitrary: c) simp_all

lemma apply_ranges_before:
  assumes "placed p rs" and "\<forall>r \<in> set rs. range_offset r + length (range_after r) \<le> length c"
    and "i < p" and "i < length c"
  shows "apply_ranges rs c ! i = c ! i"
  using assms
proof (induction rs arbitrary: p c)
  case (Cons r rs)
  show ?case
  proof (cases "range_after r = []")
    case True
    then show ?thesis using Cons by simp
  next
    case False
    let ?c = "overwrite c (range_offset r) (range_after r)"
    have "apply_ranges rs ?c ! i = ?c ! i"
      using Cons.prems False by (intro Cons.IH [of "range_offset r + length (range_after r)"]) auto
    then show ?thesis using Cons.prems False by (simp add: nth_overwrite)
  qed
qed simp

lemma apply_ranges_exchanged:
  assumes "placed p rs" and "\<forall>r \<in> set rs. range_offset r + length (range_after r) \<le> length c"
  shows "exchanged rs c (apply_ranges rs c)"
  using assms
proof (induction rs arbitrary: p c)
  case (Cons r rs)
  let ?c = "overwrite c (range_offset r) (range_after r)"
  let ?q = "if range_after r = [] then p else range_offset r + length (range_after r)"
  have placed: "placed ?q rs" and fits: "range_offset r + length (range_after r) \<le> length c"
    using Cons.prems by auto
  have IH: "exchanged rs ?c (apply_ranges rs ?c)"
    using Cons.prems by (intro Cons.IH [OF placed]) auto
  have "slice (apply_ranges rs ?c) (range_offset r) (length (range_after r)) = range_after r"
  proof (rule nth_equalityI)
    have len: "length (apply_ranges rs ?c) = length c" using IH fits by (simp add: exchanged_def)
    then show "length (slice (apply_ranges rs ?c) (range_offset r) (length (range_after r))) =
        length (range_after r)" using fits by simp
    fix i
    assume "i < length (slice (apply_ranges rs ?c) (range_offset r) (length (range_after r)))"
    then have i: "i < length (range_after r)" using fits len by simp
    then have "apply_ranges rs ?c ! (range_offset r + i) = ?c ! (range_offset r + i)"
      using placed fits Cons.prems
      by (intro apply_ranges_before [of "range_offset r + length (range_after r)"]) (auto split: if_splits)
    then show "slice (apply_ranges rs ?c) (range_offset r) (length (range_after r)) ! i = range_after r ! i"
      using i fits len by (simp add: slice_def nth_overwrite)
  qed
  moreover have "apply_ranges rs ?c ! i = c ! i"
    if "i < length c" and "\<forall>x \<in> set (r # rs). \<not> covered x i" for i
  proof -
    have "apply_ranges rs ?c ! i = ?c ! i" using IH that fits by (simp add: exchanged_def)
    moreover have "i < range_offset r \<or> range_offset r + length (range_after r) \<le> i"
      using that(2) by (auto simp: covered_def)
    ultimately show ?thesis using fits that(1) by (auto simp: nth_overwrite)
  qed
  ultimately show ?case using IH fits by (simp add: exchanged_def)
qed (simp add: exchanged_def)

lemma write_ranges_Inr:
  assumes "write_laws Q view saved" and "write_ranges Q loc rs s = (Inr n, s')"
    and "view s loc = Some c" and "placed p rs" and "\<forall>r \<in> set rs. range_matches c r"
  shows "view s' = (view s)(loc \<mapsto> apply_ranges rs c) \<and>
    n = (\<Sum>r\<leftarrow>rs. count_diff (range_before r) (range_after r)) \<and>
    saved s' = saved s \<and> q_autocommit Q s' = q_autocommit Q s"
  using assms(2-)
proof (induction rs arbitrary: p c n s)
  case Nil
  then show ?case by (auto simp: fun_upd_idem)
next
  case (Cons r rs)
  obtain s1 k m where one: "write_runs Q loc (range_offset r) (diff_runs 0 (range_before r) (range_after r)) s = (Inr k, s1)"
    and rest: "write_ranges Q loc rs s1 = (Inr m, s')" and n: "n = k + m"
    using Cons.prems(1) by (auto elim!: abind_InrE)
  let ?c = "overwrite c (range_offset r) (range_after r)"
  let ?q = "if range_after r = [] then p else range_offset r + length (range_after r)"
  have placed: "placed ?q rs" using Cons.prems(3) by simp
  have r: "length (range_before r) = length (range_after r)"
    "range_offset r + length (range_after r) \<le> length c"
    "slice c (range_offset r) (length (range_before r)) = range_before r"
    using bspec [OF Cons.prems(4), of r] unfolding range_matches_def by auto
  have first: "view s1 = (view s)(loc \<mapsto> ?c) \<and> k = count_diff (range_before r) (range_after r) \<and>
      saved s1 = saved s \<and> q_autocommit Q s1 = q_autocommit Q s"
    using write_diff_runs [OF assms(1) one Cons.prems(2) r(1)] r by simp
  have "range_matches ?c x" if x: "x \<in> set rs" for x
  proof -
    have "range_after x = [] \<or> range_after r = [] \<or> range_offset r + length (range_after r) \<le> range_offset x"
      using placed x by (cases "range_after r = []") (auto dest: placed_member)
    moreover have "range_matches c x" using Cons.prems(4) x by simp
    ultimately show ?thesis using r(2)
      by (auto simp: range_matches_def slice_overwrite_after) (simp add: slice_def)
  qed
  then show ?case
    using Cons.IH [OF rest _ placed, of ?c] first n by (simp add: fun_eq_iff)
qed

lemma cut_slices:
  assumes "0 < n" and "\<forall>(q, b) \<in> set (cut n p xs). slice c q (length b) = b"
  shows "slice c p (length xs) = xs"
  using assms
proof (induction n p xs rule: cut.induct)
  case (1 n p xs)
  show ?case
  proof (cases "xs = []")
    case True
    then show ?thesis by (simp add: slice_def)
  next
    case False
    then have cut: "cut n p xs = (p, take n xs) # cut n (p + n) (drop n xs)"
      using "1.prems"(1) by (subst cut.simps) simp
    have rest: "slice c (p + n) (length (drop n xs)) = drop n xs"
      using "1.IH" False "1.prems" by (simp add: cut)
    have here: "slice c p (length (take n xs)) = take n xs" using "1.prems"(2) by (simp add: cut)
    show ?thesis
    proof (cases "length xs \<le> n")
      case True
      then show ?thesis using here by simp
    next
      case False
      then have "slice c p (length xs) = slice c p (n + (length xs - n))" by simp
      also have "\<dots> = take n xs @ drop n xs"
        using here rest False by (simp only: slice_split) simp
      finally show ?thesis by simp
    qed
  qed
qed

lemma cut_within: "(q, b) \<in> set (cut n p xs) \<Longrightarrow> p \<le> q \<and> q + length b \<le> p + length xs"
proof (induction n p xs rule: cut.induct)
  case (1 n p xs)
  show ?case
  proof (cases "n = 0 \<or> xs = []")
    case True
    then show ?thesis using "1.prems" by (auto simp: cut.simps [of n])
  next
    case False
    then have "(q, b) = (p, take n xs) \<or> (q, b) \<in> set (cut n (p + n) (drop n xs))"
      using "1.prems" by (subst (asm) cut.simps) simp
    then show ?thesis
    proof
      assume tail: "(q, b) \<in> set (cut n (p + n) (drop n xs))"
      have "n < length xs \<or> drop n xs = []" by auto
      then show ?thesis using "1.IH" [OF False tail] tail by (auto simp: cut.simps [of n "p + n" "[]"])
    qed auto
  qed
qed

lemma compare_chunks_Inr:
  assumes "read_laws Q view saved" and "compare_chunks Q loc cs s = (Inr u, s')"
    and "view s loc = Some c" and "\<forall>(q, b) \<in> set cs. q + length b \<le> length c"
  shows "\<forall>(q, b) \<in> set cs. slice c q (length b) = b"
  using assms(2-)
proof (induction cs arbitrary: s)
  case (Cons x cs)
  obtain q b where x: "x = (q, b)" by (cases x)
  obtain bytes s1 where read: "read_blob Q loc q (length b) s = (Inr bytes, s1)" "bytes = b"
    "compare_chunks Q loc cs s1 = (Inr u, s')"
    using Cons.prems(1) by (auto simp: x elim!: abind_InrE)
  note r = read_blob_Inr [OF assms(1) read(1) Cons.prems(2)]
  have "view s1 loc = Some c" using r Cons.prems by (simp add: x)
  then show ?case using Cons.IH [OF read(3)] Cons.prems(3) r(1) read(2) by (simp add: x)
qed simp

lemma compare_ranges_Inr:
  assumes "read_laws Q view saved" and "compare_ranges Q loc rs s = (Inr u, s')"
    and "view s loc = Some c"
    and "\<forall>r \<in> set rs. length (range_before r) = length (range_after r) \<and>
      range_offset r + length (range_after r) \<le> length c"
  shows "\<forall>r \<in> set rs. range_matches c r"
proof
  fix r
  assume r: "r \<in> set rs"
  let ?cs = "concat (map (\<lambda>r. cut 4096 (range_offset r) (range_before r)) rs)"
  have "\<forall>(q, b) \<in> set ?cs. q + length b \<le> length c"
    using assms(4) by (fastforce dest: cut_within)
  from compare_chunks_Inr [OF assms(1) _ assms(3) this]
  have "\<forall>(q, b) \<in> set (cut 4096 (range_offset r) (range_before r)). slice c q (length b) = b"
    using assms(2) r by (auto simp: compare_ranges_def)
  from cut_slices [OF _ this] show "range_matches c r"
    using assms(4) r by (simp add: range_matches_def)
qed

lemma admit_ranges_Inr:
  "admit_ranges limit k rs = Inr n \<Longrightarrow>
   n = k + (\<Sum>r\<leftarrow>rs. length (range_after r)) \<and> (\<forall>r \<in> set rs. length (range_before r) = length (range_after r))"
  by (induction limit k rs rule: admit_ranges.induct) (auto split: if_splits)

lemma check_ranges_Inr:
  assumes "read_laws Q view saved" and "check_ranges Q loc rs s = (Inr (n, changes), s')"
  obtains c where "view s loc = Some c" "seen Q view saved s' = seen Q view saved s"
    "\<not> q_autocommit Q s" "placed 0 (sort_key range_offset rs)" "\<forall>r \<in> set rs. range_matches c r"
    "n = (\<Sum>r\<leftarrow>rs. length (range_after r))"
    "changes \<longleftrightarrow> (\<exists>r \<in> set rs. range_before r \<noteq> range_after r)"
proof -
  let ?o = "sort_key range_offset rs"
  let ?body = "abind (aget (q_blob_bytes Q loc)) (\<lambda>size.
           abind (alift (place_ranges size 0 False ?o)) (\<lambda>changes.
           abind (compare_ranges Q loc ?o) (\<lambda>_. areturn (n, changes))))"
  have inside: "\<not> q_autocommit Q s" and admit: "admit_ranges (q_limit Q s) 0 rs = Inr n"
    and run: "with_blob Q loc False ?body s = (Inr (n, changes), s')"
  proof -
    obtain compared where "admit_ranges (q_limit Q s) 0 rs = Inr compared" "\<not> q_autocommit Q s"
      and body: "with_blob Q loc False (abind (aget (q_blob_bytes Q loc)) (\<lambda>size.
           abind (alift (place_ranges size 0 False ?o)) (\<lambda>changes.
           abind (compare_ranges Q loc ?o) (\<lambda>_. areturn (compared, changes))))) s = (Inr (n, changes), s')"
      using assms(2) by (auto simp: check_ranges_def in_transaction_def Let_def elim!: abind_InrE)
    moreover have "compared = n"
      by (rule with_blob_cases [OF assms(1) body]) (auto elim!: abind_InrE)
    ultimately show "\<not> q_autocommit Q s" "admit_ranges (q_limit Q s) 0 rs = Inr n"
      "with_blob Q loc False ?body s = (Inr (n, changes), s')" by simp_all
  qed
  note admitted = admit_ranges_Inr [OF admit]
  show thesis
  proof (rule with_blob_cases [OF assms(1) run])
    fix v s1 s2
    assume s1: "seen Q view saved s1 = seen Q view saved s" and some: "view s loc \<noteq> None"
      and body: "?body s1 = (Inr v, s2)" and v: "Inr (n, changes) = Inr v \<or> (\<exists>e. Inr (n, changes) = Inl e)"
    obtain c where c: "view s loc = Some c" using some by auto
    then have c1: "view s1 loc = Some c" using s1 by (simp add: seen_iff)
    then have size: "q_blob_bytes Q loc s1 = length c" by (rule read_laws_bytes [OF assms(1)])
    obtain u where place: "place_ranges (length c) 0 False ?o = Inr changes"
      and compare: "compare_ranges Q loc ?o s1 = (Inr u, s2)"
      using body v by (auto simp: size elim!: abind_InrE)
    note p = place_ranges_Inr [OF place]
    have matches: "\<forall>r \<in> set ?o. range_matches c r"
      using p(2) admitted by (intro compare_ranges_Inr [OF assms(1) compare c1]) auto
    have "changes \<longleftrightarrow> (\<exists>r \<in> set rs. range_before r \<noteq> range_after r)"
      using p(3) admitted by fastforce
    moreover have "seen Q view saved s' = seen Q view saved s"
      by (rule quietD [OF quiet_with_blob [OF assms(1)] run]) (intro quiet_intro assms(1))
    ultimately show thesis
      using that [OF c] inside p(1) matches admitted by simp
  qed auto
qed

text \<open>The possible ends of a rollback.\<close>

definition untouched :: "'s sqlite \<Rightarrow> ('s \<Rightarrow> blob_view) \<Rightarrow> blob_view \<Rightarrow> 's database \<Rightarrow> bool" where
  "untouched Q view v d = (case db_handle d of
     None \<Rightarrow> db_transaction d = 0
   | Some s \<Rightarrow> view s = v \<or> q_autocommit Q s \<and> db_transaction d = 0)"

lemma savepoint_laws_exec:
  assumes "savepoint_laws Q view saved"
  shows "q_exec Q ''SAVEPOINT ii_fp_blob_ranges'' s = (rc, s') \<Longrightarrow> view s' = view s \<and>
      q_autocommit Q s' = q_autocommit Q s \<and> (rc = sqlite_ok \<longrightarrow> saved s' = Some (view s))"
    and "q_exec Q ''RELEASE ii_fp_blob_ranges'' s = (rc, s') \<Longrightarrow> view s' = view s \<and>
      q_autocommit Q s' = q_autocommit Q s \<and> (rc \<noteq> sqlite_ok \<longrightarrow> saved s' = saved s)"
    and "q_exec Q ''ROLLBACK TO ii_fp_blob_ranges'' s = (rc, s') \<Longrightarrow> saved s = Some v \<Longrightarrow>
      q_autocommit Q s' = q_autocommit Q s \<and> (rc = sqlite_ok \<longrightarrow> view s' = v)"
    and "q_exec Q ''ROLLBACK'' s = (rc, s') \<Longrightarrow> rc = sqlite_ok \<Longrightarrow> q_autocommit Q s'"
  using assms unfolding savepoint_laws_def by simp_all

lemma savepoint_rollback_untouched:
  assumes "savepoint_laws Q view saved" and "db_handle d = Some s"
    and "q_autocommit Q s \<or> saved s = Some v"
  shows "untouched Q view v (snd (savepoint_rollback Q d))"
proof (cases "q_autocommit Q s")
  case True
  then show ?thesis using assms(2) by (simp add: savepoint_rollback_def untouched_def)
next
  case False
  obtain r1 s1 where e1: "q_exec Q ''ROLLBACK TO ii_fp_blob_ranges'' s = (r1, s1)"
    by (cases "q_exec Q ''ROLLBACK TO ii_fp_blob_ranges'' s")
  obtain r2 s2 where e2: "q_exec Q ''RELEASE ii_fp_blob_ranges'' s1 = (r2, s2)"
    by (cases "q_exec Q ''RELEASE ii_fp_blob_ranges'' s1")
  define s0 where "s0 = (if r1 = sqlite_ok then s2 else s1)"
  obtain r3 s3 where e3: "q_exec Q ''ROLLBACK'' s0 = (r3, s3)" by (cases "q_exec Q ''ROLLBACK'' s0")
  have "view s2 = v" if "r1 = sqlite_ok"
    using that savepoint_laws_exec(3) [OF assms(1) e1] savepoint_laws_exec(2) [OF assms(1) e2] assms(3) False
    by simp
  then show ?thesis
    using False assms(2) e1 e2 e3 savepoint_laws_exec(4) [OF assms(1) e3]
    by (auto simp: savepoint_rollback_def savepoint_release_def untouched_def invalidate_def Let_def s0_def
        split: prod.splits if_splits)
qed

lemma with_handle_Some:
  "db_handle d = Some s \<Longrightarrow> m s = (r, s') \<Longrightarrow> with_handle m d = (r, d\<lparr>db_handle := Some s'\<rparr>)"
  by (simp add: with_handle_def)

lemma carefulD:
  "careful Q saved m \<Longrightarrow> m s = (r, s') \<Longrightarrow> \<not> q_autocommit Q s \<Longrightarrow> q_autocommit Q s' \<or> saved s' = saved s"
  unfolding careful_def by blast

lemma write_phase:
  assumes "read_laws Q view saved" and "write_laws Q view saved"
    and "\<not> q_autocommit Q s" and "saved s = Some (view s)" and "view s loc = Some c"
    and "placed p rs" and "\<forall>r \<in> set rs. range_matches c r"
    and "with_blob Q loc True (write_ranges Q loc rs) s = (x, s')"
  shows "q_autocommit Q s' \<or> saved s' = Some (view s)"
    and "x = Inr n \<Longrightarrow> view s' = (view s)(loc \<mapsto> apply_ranges rs c) \<and> \<not> q_autocommit Q s' \<and>
      saved s' = Some (view s) \<and> n = (\<Sum>r\<leftarrow>rs. count_diff (range_before r) (range_after r))"
proof -
  have kept: "q_autocommit Q s2 \<or> saved s2 = saved s1"
    if "write_ranges Q loc rs s1 = (r, s2)" "\<not> q_autocommit Q s1" for r s1 s2
    by (rule carefulD [OF careful_write_ranges [OF assms(2)] that])
  show "q_autocommit Q s' \<or> saved s' = Some (view s)"
    by (rule with_blob_cases [OF assms(1,8)]) (use assms(3,4) in \<open>auto simp: seen_iff dest: kept\<close>)
  assume "x = Inr n"
  then obtain s1 s2 where o: "seen Q view saved s1 = seen Q view saved s"
      "write_ranges Q loc rs s1 = (Inr n, s2)" "seen Q view saved s' = seen Q view saved s2"
    by (rule_tac with_blob_cases [OF assms(1,8)]) auto
  have "view s1 loc = Some c" using o(1) assms(5) by (simp add: seen_iff)
  from write_ranges_Inr [OF assms(2) o(2) this assms(6,7)] o
  show "view s' = (view s)(loc \<mapsto> apply_ranges rs c) \<and> \<not> q_autocommit Q s' \<and>
      saved s' = Some (view s) \<and> n = (\<Sum>r\<leftarrow>rs. count_diff (range_before r) (range_after r))"
    using assms(3,4) by (simp add: seen_iff)
qed

text \<open>The savepoint, the writes and the release, with the results of their SQLite calls.\<close>

lemma exchange_ranges_eq:
  assumes "db_handle d = Some s" and "savepoint_begin Q s = (rc, s1)"
    and "with_blob Q loc True (write_ranges Q loc rs) s1 = (x, s2)"
    and "savepoint_release Q s2 = (rc3, s3)"
  shows "exchange_ranges Q loc rs d =
    (if rc \<noteq> sqlite_ok then (Inl (failure Q s1 rc), d\<lparr>db_handle := Some s1\<rparr>)
     else case x of
       Inl e \<Rightarrow> (let (restored, d2) = savepoint_rollback Q (d\<lparr>db_handle := Some s2\<rparr>)
         in (Inl (if restored then e else invalid_as ''BLOB rollback failed'' Failure), d2))
     | Inr n \<Rightarrow> if rc3 = sqlite_ok then (Inr n, d\<lparr>db_handle := Some s3\<rparr>)
         else (Inl (failure Q s3 rc3), snd (savepoint_rollback Q (d\<lparr>db_handle := Some s3\<rparr>))))"
  using assms
  by (simp add: exchange_ranges_def with_handle_def abind_def acall_def arc_def split: sum.splits)

lemma exchange_ranges_cases:
  assumes laws: "read_laws Q view saved" "write_laws Q view saved" "savepoint_laws Q view saved"
    and d: "db_handle d = Some s" "\<not> q_autocommit Q s" "view s loc = Some c"
    and rs: "placed p rs" "\<forall>r \<in> set rs. range_matches c r"
    and run: "exchange_ranges Q loc rs d = (r, d')"
  shows "case r of
      Inr n \<Rightarrow> \<exists>s'. d' = d\<lparr>db_handle := Some s'\<rparr> \<and> \<not> q_autocommit Q s' \<and>
        view s' = (view s)(loc \<mapsto> apply_ranges rs c) \<and>
        n = (\<Sum>r\<leftarrow>rs. count_diff (range_before r) (range_after r))
    | Inl e \<Rightarrow> untouched Q view (view s) d'"
proof -
  obtain rc s1 where b: "savepoint_begin Q s = (rc, s1)" by (cases "savepoint_begin Q s")
  obtain x s2 where w: "with_blob Q loc True (write_ranges Q loc rs) s1 = (x, s2)"
    by (cases "with_blob Q loc True (write_ranges Q loc rs) s1")
  obtain rc3 s3 where e: "savepoint_release Q s2 = (rc3, s3)" by (cases "savepoint_release Q s2")
  note step = exchange_ranges_eq [OF d(1) b w e]
  note begun = savepoint_laws_exec(1) [OF laws(3) b [unfolded savepoint_begin_def]]
  note released = savepoint_laws_exec(2) [OF laws(3) e [unfolded savepoint_release_def]]
  show ?thesis
  proof (cases "rc = sqlite_ok")
    case False
    then show ?thesis using step run begun by (simp add: untouched_def)
  next
    case True
    then have s1: "\<not> q_autocommit Q s1" "saved s1 = Some (view s1)" "view s1 loc = Some c"
      "view s1 = view s" using begun d by simp_all
    note phase = write_phase [OF laws(1,2) s1(1-3) rs w, unfolded s1(4)]
    show ?thesis
    proof (cases x)
      case (Inl err)
      have "untouched Q view (view s) (snd (savepoint_rollback Q (d\<lparr>db_handle := Some s2\<rparr>)))"
        by (rule savepoint_rollback_untouched [OF laws(3) _ phase(1)]) simp
      then show ?thesis
        using step run True Inl by (cases "savepoint_rollback Q (d\<lparr>db_handle := Some s2\<rparr>)") simp
    next
      case (Inr n)
      note wrote = phase(2) [OF Inr]
      have "untouched Q view (view s) (snd (savepoint_rollback Q (d\<lparr>db_handle := Some s3\<rparr>)))" if "rc3 \<noteq> sqlite_ok"
        by (rule savepoint_rollback_untouched [OF laws(3)]) (use wrote released that in auto)
      then show ?thesis
        using step run True Inr wrote released by (cases "rc3 = sqlite_ok") (auto intro!: exI [of _ s3])
    qed
  qed
qed

section \<open>The whole operation\<close>

lemma count_diff_same [simp]: "count_diff xs xs = 0"
proof -
  have "filter (\<lambda>(x, y). x \<noteq> y) (zip xs xs) = []"
    by (auto simp: filter_empty_conv set_zip)
  then show ?thesis by (simp add: count_diff_def)
qed

lemma exchanged_unchanged:
  assumes "\<forall>r \<in> set rs. range_matches c r" and "\<forall>r \<in> set rs. range_before r = range_after r"
  shows "exchanged rs c c" and "(\<Sum>r\<leftarrow>rs. count_diff (range_before r) (range_after r)) = 0"
  using assms by (auto simp: exchanged_def range_matches_def)

lemma exchanged_set: "exchanged rs c c' \<Longrightarrow> set rs' = set rs \<Longrightarrow> exchanged rs' c c'"
  by (simp add: exchanged_def)

lemma sum_sort_key: "(\<Sum>r\<leftarrow>sort_key k rs. f r) = (\<Sum>r\<leftarrow>rs. (f r :: nat))"
  by (metis mset_map mset_sort sum_mset_sum_list)

lemma compare_exchange_eq:
  assumes "db_handle d = Some s" and "check_ranges Q (Blob_At table column row_id) rs s = (x, s1)"
  shows "compare_exchange_blob_ranges Q table column row_id rs d =
    (case x of Inl e \<Rightarrow> (Inl e, d\<lparr>db_handle := Some s1\<rparr>)
     | Inr (n, changes) \<Rightarrow>
       if \<not> changes then (Inr \<lparr>bytes_compared = n, bytes_written = 0\<rparr>, d\<lparr>db_handle := Some s1\<rparr>)
       else (case exchange_ranges Q (Blob_At table column row_id) (sort_key range_offset rs) (d\<lparr>db_handle := Some s1\<rparr>) of
           (Inl e, d2) \<Rightarrow> (Inl e, d2)
         | (Inr m, d2) \<Rightarrow> (Inr \<lparr>bytes_compared = n, bytes_written = m\<rparr>, d2)))"
  using assms
  by (auto simp: compare_exchange_blob_ranges_def with_handle_def abind_def areturn_def Let_def
      split: sum.splits)

lemma compare_exchange_cases:
  assumes laws: "read_laws Q view saved" "write_laws Q view saved" "savepoint_laws Q view saved"
    and d: "db_handle d = Some s"
    and run: "compare_exchange_blob_ranges Q table column row_id rs d = (r, d')"
  shows "case r of
      Inr st \<Rightarrow> \<exists>s' c c'. d' = d\<lparr>db_handle := Some s'\<rparr> \<and> \<not> q_autocommit Q s' \<and>
        view s (Blob_At table column row_id) = Some c \<and> (\<forall>p \<in> set rs. range_matches c p) \<and>
        view s' = (view s)(Blob_At table column row_id \<mapsto> c') \<and> exchanged rs c c' \<and>
        bytes_compared st = (\<Sum>p\<leftarrow>rs. length (range_after p)) \<and>
        bytes_written st = (\<Sum>p\<leftarrow>rs. count_diff (range_before p) (range_after p))
    | Inl e \<Rightarrow> untouched Q view (view s) d'"
proof -
  let ?loc = "Blob_At table column row_id"
  let ?o = "sort_key range_offset rs"
  obtain x s1 where c: "check_ranges Q ?loc rs s = (x, s1)" by (cases "check_ranges Q ?loc rs s")
  let ?d1 = "d\<lparr>db_handle := Some s1\<rparr>"
  note step = compare_exchange_eq [OF d c]
  show ?thesis
  proof (cases x)
    case (Inl e)
    then show ?thesis
      using run step quietD [OF quiet_check_ranges [OF laws(1)] c]
      by (auto simp: untouched_def seen_iff)
  next
    case (Inr y)
    obtain n changes where y: "y = (n, changes)" by (cases y)
    obtain v where v: "view s ?loc = Some v" "seen Q view saved s1 = seen Q view saved s"
      "\<not> q_autocommit Q s" "placed 0 ?o" "\<forall>p \<in> set rs. range_matches v p"
      "n = (\<Sum>p\<leftarrow>rs. length (range_after p))"
      "changes \<longleftrightarrow> (\<exists>p \<in> set rs. range_before p \<noteq> range_after p)"
      using check_ranges_Inr [OF laws(1)] c unfolding Inr y by blast
    have s1: "\<not> q_autocommit Q s1" "view s1 = view s" using v(2,3) by (simp_all add: seen_iff)
    show ?thesis
    proof (cases changes)
      case False
      then have "\<forall>p \<in> set rs. range_before p = range_after p" using v(7) by auto
      note same = exchanged_unchanged [OF v(5) this]
      have "r = Inr \<lparr>bytes_compared = n, bytes_written = 0\<rparr>" "d' = ?d1"
        using run step False by (auto simp: Inr y)
      moreover have "(view s)(?loc \<mapsto> v) = view s" using v(1) by (rule fun_upd_idem)
      ultimately show ?thesis
        using v(1,5,6) same s1 by (auto intro!: exI [of _ s1] exI [of _ v])
    next
      case True
      obtain z d2 where e: "exchange_ranges Q ?loc ?o ?d1 = (z, d2)" by (cases "exchange_ranges Q ?loc ?o ?d1")
      have result: "(r, d') = (case z of Inl e \<Rightarrow> (Inl e, d2)
          | Inr m \<Rightarrow> (Inr \<lparr>bytes_compared = n, bytes_written = m\<rparr>, d2))"
        using run step True e by (auto simp: Inr y split: sum.splits)
      have "exchanged rs v (apply_ranges ?o v)"
        by (rule exchanged_set [OF apply_ranges_exchanged [OF v(4)]]) (use v(5) in \<open>auto simp: range_matches_def\<close>)
      then show ?thesis
        using exchange_ranges_cases [OF laws, of ?d1 s1 ?loc v 0 ?o z d2] result e v s1
        by (auto simp: sum_sort_key split: sum.splits)
    qed
  qed
qed

end
