(* ===== verification/Native_Patch.thy ===== *)
theory Native_Patch
  imports Native_Exchange
begin

text \<open>
  The effects of \<open>patch_blob\<close> and \<open>blob_sha256\<close>, the statements and transactions, and an
  engine in memory on which the operations run.
\<close>

section \<open>Patching\<close>

lemma patch_chunks_Inr:
  assumes "read_laws Q view saved" and "write_laws Q view saved" and "0 < k"
    and "patch_chunks Q loc (cut k p xs) s = (Inr n, s')"
    and "view s loc = Some c" and "p + length xs \<le> length c"
  shows "view s' = (view s)(loc \<mapsto> overwrite c p xs) \<and> n = count_diff (slice c p (length xs)) xs"
  using assms(3-)
proof (induction k p xs arbitrary: s c n rule: cut.induct)
  case (1 k p xs)
  show ?case
  proof (cases "xs = []")
    case True
    then show ?thesis using "1.prems" by (auto simp: cut.simps [of k] fun_upd_idem)
  next
    case False
    let ?a = "take k xs" and ?b = "drop k xs"
    have cut: "cut k p xs = (p, ?a) # cut k (p + k) ?b"
      using "1.prems"(1) False by (subst cut.simps) simp
    obtain previous s1 i s2 j where read: "read_blob Q loc p (length ?a) s = (Inr previous, s1)"
      and runs: "write_runs Q loc p (diff_runs 0 previous ?a) s1 = (Inr i, s2)"
      and rest: "patch_chunks Q loc (cut k (p + k) ?b) s2 = (Inr j, s')" and n: "n = i + j"
      using "1.prems"(2) by (auto simp: cut elim!: abind_InrE)
    have fits: "p + length ?a \<le> length c" using "1.prems"(4) by simp
    note r = read_blob_Inr [OF assms(1) read "1.prems"(3) fits]
    have len: "length previous = length ?a" using r(1) fits by simp
    have wrote: "view s2 = (view s)(loc \<mapsto> overwrite c p ?a)" "i = count_diff previous ?a"
      using write_diff_runs [OF assms(2) runs _ len, of c] r "1.prems"(3) fits len by simp_all
    show ?thesis
    proof (cases "?b = []")
      case True
      then show ?thesis using rest wrote n r(1) by (simp add: cut.simps [of k "p + k"] areturn_def)
    next
      case False
      then have a: "length ?a = k" by simp
      let ?c = "overwrite c p ?a"
      have "view s' = (view s2)(loc \<mapsto> overwrite ?c (p + k) ?b) \<and>
          j = count_diff (slice ?c (p + k) (length ?b)) ?b"
        using "1.IH" [OF _ "1.prems"(1) rest, of ?c] wrote \<open>xs \<noteq> []\<close> "1.prems"(1,4) fits False
        by (simp add: fun_eq_iff)
      moreover have "overwrite ?c (p + k) ?b = overwrite c p xs"
        using overwrite_append [of p ?a ?b c] a "1.prems"(4) by simp
      moreover have "slice ?c (p + k) (length ?b) = slice c (p + k) (length ?b)"
        using a fits "1.prems"(4) False by (intro slice_overwrite_after) auto
      moreover have "slice c p (length xs) = previous @ slice c (p + k) (length ?b)"
        using slice_split [of c p k "length ?b"] a r(1) False by simp
      ultimately show ?thesis
        using wrote n count_diff_append [OF len, of "slice c (p + k) (length ?b)" ?b] by simp
    qed
  qed
qed

lemma patch_blob_cases:
  assumes laws: "read_laws Q view saved" "write_laws Q view saved"
    and d: "db_handle d = Some s"
    and run: "patch_blob Q table column row_id xs d = (Inr n, d')"
  shows "\<exists>s' c. d' = d\<lparr>db_handle := Some s'\<rparr> \<and> \<not> q_autocommit Q s \<and>
    view s (Blob_At table column row_id) = Some c \<and> length c = length xs \<and>
    view s' = (view s)(Blob_At table column row_id \<mapsto> xs) \<and> n = count_diff c xs"
proof -
  let ?loc = "Blob_At table column row_id"
  let ?body = "abind (aget (q_blob_bytes Q ?loc)) (\<lambda>size.
     abind (acheck (length xs = size) (invalid ''BLOB patch must preserve storage size'')) (\<lambda>_.
     patch_chunks Q ?loc (cut 4096 0 xs)))"
  obtain s' where inside: "\<not> q_autocommit Q s" and d': "d' = d\<lparr>db_handle := Some s'\<rparr>"
    and body: "with_blob Q ?loc True ?body s = (Inr n, s')"
    using run d
    by (auto simp: patch_blob_def with_handle_def in_transaction_def Let_def split: prod.splits elim!: abind_InrE)
  show ?thesis
  proof (rule with_blob_cases [OF laws(1) body])
    fix v s1 s2
    assume s1: "seen Q view saved s1 = seen Q view saved s" and some: "view s ?loc \<noteq> None"
      and ran: "?body s1 = (Inr v, s2)" and s2: "seen Q view saved s' = seen Q view saved s2"
      and v: "Inr n = Inr v \<or> (\<exists>e. Inr n = Inl e)"
    obtain c where c: "view s ?loc = Some c" using some by auto
    then have c1: "view s1 ?loc = Some c" using s1 by (simp add: seen_iff)
    have size: "q_blob_bytes Q ?loc s1 = length c" by (rule read_laws_bytes [OF laws(1) c1])
    have patched: "length xs = length c" "patch_chunks Q ?loc (cut 4096 0 xs) s1 = (Inr n, s2)"
      using ran v by (auto simp: size elim!: abind_InrE)
    have "view s2 = (view s1)(?loc \<mapsto> overwrite c 0 xs) \<and> n = count_diff (slice c 0 (length xs)) xs"
      by (rule patch_chunks_Inr [OF laws _ patched(2) c1]) (simp_all add: patched(1))
    then show ?thesis
      using d' inside c s1 s2 patched(1) by (auto simp: seen_iff overwrite_def slice_def)
  qed auto
qed

section \<open>Hashing\<close>

lemma sha256_update_Inr:
  assumes "sha256_represents h m" and "sha256_update h xs = Inr h'"
  shows "sha256_represents h' (m @ xs)"
  using sha256_update_accepts [OF assms(1), of xs] sha256_update_refuses [OF assms(1), of xs] assms(2)
  by (cases "length m + length xs \<le> sha_limit") auto

lemma hash_chunks_Inr:
  assumes "read_laws Q view saved" and "0 < k"
    and "hash_chunks Q loc (cut k p xs) h s = (Inr h', s')"
    and "view s loc = Some c" and "p + length xs = length c" and "sha256_represents h (take p c)"
  shows "sha256_represents h' c"
  using assms(2-)
proof (induction k p xs arbitrary: s h rule: cut.induct)
  case (1 k p xs)
  show ?case
  proof (cases "xs = []")
    case True
    then show ?thesis using "1.prems" by (simp add: cut.simps [of k])
  next
    case False
    have cut: "cut k p xs = (p, take k xs) # cut k (p + k) (drop k xs)"
      using "1.prems"(1) False by (subst cut.simps) simp
    obtain bytes s1 h1 where read: "read_blob Q loc p (length (take k xs)) s = (Inr bytes, s1)"
      and up: "sha256_update h bytes = Inr h1"
      and rest: "hash_chunks Q loc (cut k (p + k) (drop k xs)) h1 s1 = (Inr h', s')"
      using "1.prems"(2) by (auto simp: cut elim!: abind_InrE split: sum.splits)
    have fits: "p + length (take k xs) \<le> length c" using "1.prems"(4) by simp
    note r = read_blob_Inr [OF assms(1) read "1.prems"(3) fits]
    have "take p c @ bytes = take (p + length (take k xs)) c"
      by (simp only: r(1) slice_def take_add)
    also have "\<dots> = take (p + k) c" using "1.prems"(4) by (simp add: min_def)
    finally have rep: "sha256_represents h1 (take (p + k) c)"
      using sha256_update_Inr [OF "1.prems"(5) up] by simp
    show ?thesis
    proof (cases "drop k xs = []")
      case True
      then show ?thesis using rest rep "1.prems"(4) by (simp add: cut.simps [of k "p + k"])
    next
      case more: False
      have "view s1 loc = Some c" using r(2) "1.prems"(3) by simp
      then show ?thesis
        using "1.IH" [OF _ "1.prems"(1) rest] rep False "1.prems"(1,4) more by simp
    qed
  qed
qed

lemma blob_sha256_cases:
  assumes laws: "read_laws Q view saved" and d: "db_handle d = Some s"
    and run: "blob_sha256 Q table column row_id maximum d = (Inr digest, d')"
  shows "\<exists>c h. view s (Blob_At table column row_id) = Some c \<and> length c \<le> maximum \<and>
    digest = sha256_digest h \<and> sha256_represents h c"
proof -
  let ?loc = "Blob_At table column row_id"
  let ?body = "abind (aget (q_blob_bytes Q ?loc)) (\<lambda>size.
     abind (acheck (size \<le> maximum) (invalid_as ''BLOB exceeds hash limit'' Limit_Exceeded)) (\<lambda>_.
     hash_chunks Q ?loc (cut 32768 0 (replicate size ())) sha256_init))"
  obtain h s' where body: "with_blob Q ?loc False ?body s = (Inr h, s')" and digest: "digest = sha256_digest h"
    using run d by (auto simp: blob_sha256_def with_handle_def Let_def split: prod.splits elim!: abind_InrE)
  show ?thesis
  proof (rule with_blob_cases [OF laws body])
    fix v s1 s2
    assume s1: "seen Q view saved s1 = seen Q view saved s" and some: "view s ?loc \<noteq> None"
      and ran: "?body s1 = (Inr v, s2)" and v: "Inr h = Inr v \<or> (\<exists>e. Inr h = Inl e)"
    obtain c where c: "view s ?loc = Some c" using some by auto
    then have c1: "view s1 ?loc = Some c" using s1 by (simp add: seen_iff)
    have size: "q_blob_bytes Q ?loc s1 = length c" by (rule read_laws_bytes [OF laws c1])
    have hashed: "length c \<le> maximum"
      "hash_chunks Q ?loc (cut 32768 0 (replicate (length c) ())) sha256_init s1 = (Inr h, s2)"
      using ran v by (auto simp: size elim!: abind_InrE)
    have "sha256_represents h c"
      by (rule hash_chunks_Inr [OF laws _ hashed(2) c1]) (simp_all add: sha256_represents_init)
    then show ?thesis using c hashed(1) digest by auto
  qed auto
qed

end
