(* ===== verification/Native_Engine.thy ===== *)
theory Native_Engine
  imports Native_Patch
begin

text \<open>
  The histories of a connection: the steps the wrapper takes on the shared state, what they
  keep of the transaction bookkeeping, and the loops that end.  The last section is an engine
  in memory that satisfies the laws of the BLOB interface.
\<close>

section \<open>Steps on the shared state\<close>

text \<open>The flag tells whether the step started a transaction.\<close>

inductive conn_step :: "'s sqlite \<Rightarrow> bool \<Rightarrow> 's database \<Rightarrow> 's database \<Rightarrow> bool" for Q where
  conn_prepare: "prepare Q sql d = (p, d') \<Longrightarrow> conn_step Q False d d'"
| conn_bind: "statement_bind Q q index v d = (u, d') \<Longrightarrow> conn_step Q False d d'"
| conn_patch: "patch_blob Q table column row_id bytes d = (n, d') \<Longrightarrow> conn_step Q False d d'"
| conn_read: "read_blob_range Q table column row_id offset len d = (b, d') \<Longrightarrow> conn_step Q False d d'"
| conn_hash: "blob_sha256 Q table column row_id bound d = (b, d') \<Longrightarrow> conn_step Q False d d'"
| conn_statement: "statement_step Q q d = (y, q', d') \<Longrightarrow> conn_step Q False d d'"
| conn_reset: "statement_reset Q clear q d = (r, q', d') \<Longrightarrow> conn_step Q False d d'"
| conn_execute: "execute Q sql d = Some (r, d') \<Longrightarrow> conn_step Q False d d'"
| conn_exchange: "compare_exchange_blob_ranges Q table column row_id rs d = (x, d') \<Longrightarrow> conn_step Q False d d'"
| conn_begin: "transaction_begin Q w d = Some (z, d') \<Longrightarrow> conn_step Q True d d'"
| conn_commit: "transaction_commit Q t d = (r, t', d') \<Longrightarrow> conn_step Q False d d'"
| conn_rollback: "transaction_rollback Q t d = (r, t', d') \<Longrightarrow> conn_step Q False d d'"
| conn_destroy: "conn_step Q False d (transaction_destroy Q t d)"

inductive conn_steps :: "'s sqlite \<Rightarrow> nat \<Rightarrow> 's database \<Rightarrow> 's database \<Rightarrow> bool" for Q where
  conn_none: "conn_steps Q 0 d d"
| conn_more: "conn_steps Q n d d1 \<Longrightarrow> conn_step Q started d1 d2 \<Longrightarrow>
    conn_steps Q (if started then Suc n else n) d d2"

text \<open>A step that starts nothing keeps the serial number, and the transaction or no transaction.\<close>

definition tx_kept :: "'s database \<Rightarrow> 's database \<Rightarrow> bool" where
  "tx_kept d d' \<longleftrightarrow> db_serial d' = db_serial d \<and> (db_transaction d' = db_transaction d \<or> db_transaction d' = 0)"

lemma tx_kept_refl [simp]: "tx_kept d d"
  by (simp add: tx_kept_def)

lemma tx_kept_trans: "tx_kept d d1 \<Longrightarrow> tx_kept d1 d2 \<Longrightarrow> tx_kept d d2"
  by (auto simp: tx_kept_def)

lemma tx_kept_handle [simp]: "tx_kept d (d\<lparr>db_handle := h\<rparr>)" "tx_kept d (d\<lparr>db_transaction := 0\<rparr>)"
  "tx_kept d (d\<lparr>db_handle := h, db_transaction := 0\<rparr>)"
  by (simp_all add: tx_kept_def)

lemma with_handle_kept: "with_handle m d = (r, d') \<Longrightarrow> tx_kept d d'"
  by (auto simp: with_handle_def split: option.splits prod.splits)

lemma statement_step_kept: "statement_step Q q d = (r, q', d') \<Longrightarrow> tx_kept d d'"
  by (auto simp: statement_step_def tx_kept_def Let_def split: option.splits prod.splits if_splits)

lemma statement_reset_kept: "statement_reset Q clear q d = (r, q', d') \<Longrightarrow> tx_kept d d'"
  by (auto simp: statement_reset_def Let_def split: option.splits prod.splits if_splits)

lemma release_statement_kept [simp]: "tx_kept d (release_statement Q q d)"
  by (simp add: release_statement_def split: option.splits)

lemma step_all_kept:
  assumes run: "step_all Q q d = Some x"
  shows "tx_kept d (snd x)"
proof (rule step_all.raw_induct [where P = "\<lambda>Q q d x. tx_kept d (snd x)", OF _ run])
  fix all :: "'a sqlite \<Rightarrow> statement \<Rightarrow> 'a database \<Rightarrow> ((sql_error, unit) result \<times> 'a database) option"
    and Q :: "'a sqlite" and q :: statement and d :: "'a database" and x
  assume IH: "\<And>Q q d x. all Q q d = Some x \<Longrightarrow> tx_kept d (snd x)"
    and body: "(let (r, q', d') = statement_step Q q d
      in case r of Inl e \<Rightarrow> Some (Inl e, release_statement Q q' d')
         | Inr Row \<Rightarrow> all Q q' d' | Inr Done \<Rightarrow> Some (Inr (), release_statement Q q' d')) = Some x"
  obtain r q' d' where s: "statement_step Q q d = (r, q', d')" by (cases "statement_step Q q d")
  note kept = tx_kept_trans [OF statement_step_kept [OF s]]
  show "tx_kept d (snd x)"
  proof (cases "r = Inr Row")
    case True
    then have "tx_kept d' (snd x)" using IH body by (simp add: s)
    then show ?thesis by (rule kept)
  next
    case False
    then have "snd x = release_statement Q q' d'"
      using body by (auto simp: s split: sum.splits sql_step.splits)
    then show ?thesis using kept by simp
  qed
qed

lemma execute_kept:
  assumes run: "execute Q sql d = Some (r, d')"
  shows "tx_kept d d'"
proof -
  obtain x d1 where p: "prepare Q sql d = (x, d1)" by (cases "prepare Q sql d")
  have d1: "tx_kept d d1" using p unfolding prepare_def by (rule with_handle_kept)
  show "tx_kept d d'"
  proof (cases x)
    case (Inr q)
    then have "tx_kept d1 d'" using run p step_all_kept [of Q q d1 "(r, d')"] by (simp add: execute_def)
    with d1 show ?thesis by (rule tx_kept_trans)
  qed (use run p d1 in \<open>simp add: execute_def\<close>)
qed

lemma savepoint_rollback_kept: "tx_kept d (snd (savepoint_rollback Q d))"
  by (auto simp: savepoint_rollback_def invalidate_def tx_kept_def Let_def split: option.splits prod.splits if_splits)

lemma exchange_ranges_kept:
  assumes "exchange_ranges Q loc rs d = (r, d')"
  shows "tx_kept d d'"
proof (cases "db_handle d")
  case None
  then show ?thesis using assms by (simp add: exchange_ranges_def abind_def with_handle_def)
next
  case (Some s)
  obtain rc s1 where b: "savepoint_begin Q s = (rc, s1)" by (cases "savepoint_begin Q s")
  obtain x s2 where w: "with_blob Q loc True (write_ranges Q loc rs) s1 = (x, s2)"
    by (cases "with_blob Q loc True (write_ranges Q loc rs) s1")
  obtain rc3 s3 where e: "savepoint_release Q s2 = (rc3, s3)" by (cases "savepoint_release Q s2")
  have undone: "tx_kept d (snd (savepoint_rollback Q (d\<lparr>db_handle := h\<rparr>)))" for h
    by (rule tx_kept_trans [OF _ savepoint_rollback_kept]) simp
  then show ?thesis
    using assms unfolding exchange_ranges_eq [OF Some b w e]
    by (cases "savepoint_rollback Q (d\<lparr>db_handle := Some s2\<rparr>)")
      (use undone [of "Some s2"] undone in \<open>auto split: if_splits sum.splits\<close>)
qed

lemma compare_exchange_kept:
  assumes "compare_exchange_blob_ranges Q table column row_id rs d = (r, d')"
  shows "tx_kept d d'"
proof (cases "db_handle d")
  case None
  then show ?thesis
    using assms by (simp add: compare_exchange_blob_ranges_def Let_def abind_def with_handle_def)
next
  case (Some s)
  obtain x s1 where c: "check_ranges Q (Blob_At table column row_id) rs s = (x, s1)"
    by (cases "check_ranges Q (Blob_At table column row_id) rs s")
  show ?thesis
    using assms tx_kept_trans [OF tx_kept_handle(1) exchange_ranges_kept]
    unfolding compare_exchange_eq [OF Some c]
    by (auto split: if_splits sum.splits prod.splits)
qed

lemma transaction_end_kept: "transaction_end Q sql t d = (r, t', d') \<Longrightarrow> tx_kept d d'"
  by (auto simp: transaction_end_def exec_handle_def with_handle_def tx_kept_def
      split: option.splits prod.splits if_splits sum.splits)

lemma handle_calls_kept:
  "prepare Q sql d = (p, d') \<Longrightarrow> tx_kept d d'"
  "statement_bind Q q index v d = (u, d') \<Longrightarrow> tx_kept d d'"
  "patch_blob Q table column row_id bytes d = (n, d') \<Longrightarrow> tx_kept d d'"
  "read_blob_range Q table column row_id offset len d = (b, d') \<Longrightarrow> tx_kept d d'"
  "blob_sha256 Q table column row_id bound d = (b, d') \<Longrightarrow> tx_kept d d'"
  unfolding prepare_def statement_bind_def patch_blob_def read_blob_range_def blob_sha256_def Let_def
  by (erule with_handle_kept)+

lemma transaction_destroy_kept: "tx_kept d (transaction_destroy Q t d)"
proof -
  obtain r t' d' where "transaction_end Q ''ROLLBACK'' t d = (r, t', d')"
    by (cases "transaction_end Q ''ROLLBACK'' t d")
  then show ?thesis
    by (auto simp: transaction_destroy_def transaction_rollback_def dest: transaction_end_kept)
qed

lemma conn_step_kept:
  assumes "conn_step Q started d d'" and "\<not> started"
  shows "tx_kept d d'"
  using assms
proof (induction rule: conn_step.induct)
  case (conn_commit t d r t' d')
  then show ?case by (simp add: transaction_commit_def transaction_end_kept)
next
  case (conn_rollback t d r t' d')
  then show ?case by (simp add: transaction_rollback_def transaction_end_kept)
qed (simp_all add: handle_calls_kept statement_step_kept statement_reset_kept execute_kept
    compare_exchange_kept transaction_destroy_kept)

lemma transaction_begin_cases:
  assumes "transaction_begin Q w d = Some (r, d')"
  obtains "tx_kept d d'" | "db_serial d' = db_serial d + 1" "db_transaction d' = db_serial d + 1"
  using assms execute_kept [of Q "if w then ''BEGIN IMMEDIATE'' else ''BEGIN''" d]
  by (auto simp: transaction_begin_def Let_def tx_kept_def split: option.splits sum.splits)

text \<open>A transaction that was started and is not active any more stays so.\<close>

definition tx_over :: "64 word \<Rightarrow> 's database \<Rightarrow> bool" where
  "tx_over tid d \<longleftrightarrow> 0 < tid \<and> tid \<le> db_serial d \<and> db_transaction d \<noteq> tid"

lemma serial_step:
  assumes "conn_step Q started d d'" and "started \<Longrightarrow> unat (db_serial d) + 1 < 2 ^ 64"
  shows "unat (db_serial d) \<le> unat (db_serial d') \<and>
    unat (db_serial d') \<le> unat (db_serial d) + (if started then 1 else 0)"
proof (cases started)
  case False
  then show ?thesis using conn_step_kept [OF assms(1)] by (simp add: tx_kept_def)
next
  case True
  from assms(1) True obtain w z where b: "transaction_begin Q w d = Some (z, d')"
    by (cases rule: conn_step.cases) auto
  have "unat (db_serial d + 1) = unat (db_serial d) + 1"
    using assms(2) True by (simp add: unat_word_ariths)
  then show ?thesis using True by (rule_tac transaction_begin_cases [OF b]) (auto simp: tx_kept_def)
qed

lemma serial_steps:
  assumes "conn_steps Q n d d'" and "unat (db_serial d) + n < 2 ^ 64"
  shows "unat (db_serial d) \<le> unat (db_serial d') \<and> unat (db_serial d') \<le> unat (db_serial d) + n"
  using assms
proof (induction rule: conn_steps.induct)
  case (conn_more n d d1 started d2)
  have IH: "unat (db_serial d) \<le> unat (db_serial d1)" "unat (db_serial d1) \<le> unat (db_serial d) + n"
    using conn_more.IH conn_more.prems by (auto split: if_splits)
  then have "started \<Longrightarrow> unat (db_serial d1) + 1 < 2 ^ 64" using conn_more.prems by simp
  from serial_step [OF conn_more.hyps(2) this] IH show ?case by (auto split: if_splits)
qed simp

lemma tx_over_step:
  assumes "conn_step Q started d d'" and "tx_over tid d" and "started \<Longrightarrow> unat (db_serial d) + 1 < 2 ^ 64"
  shows "tx_over tid d'"
proof (cases started)
  case False
  then show ?thesis using conn_step_kept [OF assms(1)] assms(2) by (auto simp: tx_over_def tx_kept_def)
next
  case True
  from assms(1) True obtain w z where b: "transaction_begin Q w d = Some (z, d')"
    by (cases rule: conn_step.cases) auto
  have "unat (db_serial d + 1) = unat (db_serial d) + 1"
    using assms(3) True by (simp add: unat_word_ariths)
  then show ?thesis
    using assms(2) by (rule_tac transaction_begin_cases [OF b]) (auto simp: tx_over_def tx_kept_def word_le_nat_alt)
qed

lemma tx_over_steps:
  assumes "conn_steps Q n d d'" and "tx_over tid d" and "unat (db_serial d) + n < 2 ^ 64"
  shows "tx_over tid d'"
  using assms
proof (induction rule: conn_steps.induct)
  case (conn_more n d d1 started d2)
  have before: "tx_over tid d1" and "unat (db_serial d1) \<le> unat (db_serial d) + n"
    using conn_more.IH conn_more.prems serial_steps [OF conn_more.hyps(1)] by (auto split: if_splits)
  then have "started \<Longrightarrow> unat (db_serial d1) + 1 < 2 ^ 64" using conn_more.prems by simp
  then show ?case by (rule tx_over_step [OF conn_more.hyps(2) before])
qed simp

section \<open>Loops that end\<close>

lemma step_all_ends:
  fixes rows :: "'s \<Rightarrow> nat"
  assumes "\<And>q s s'. q_step Q q s = (sqlite_row, s') \<Longrightarrow> rows s' < rows s"
  shows "\<exists>r d'. step_all Q q d = Some (r, d')"
proof (induction "case db_handle d of None \<Rightarrow> 0 | Some s \<Rightarrow> rows s" arbitrary: q d rule: less_induct)
  case less
  obtain r q' d' where s: "statement_step Q q d = (r, q', d')" by (cases "statement_step Q q d")
  show ?case
  proof (cases "r = Inr Row")
    case False
    then show ?thesis
      by (subst step_all.simps) (auto simp: s split: sum.splits sql_step.splits)
  next
    case True
    then obtain h rc h' where h: "db_handle d = Some h" "q_step Q (st_handle q) h = (sqlite_row, h')" "db_handle d' = Some h'"
      using s by (auto simp: statement_step_def Let_def split: option.splits prod.splits if_splits)
    have "\<exists>r d''. step_all Q q' d' = Some (r, d'')"
      by (rule less) (simp add: h assms [OF h(2)])
    then show ?thesis using True by (subst step_all.simps) (simp add: s)
  qed
qed

lemma backup_loop_ends:
  assumes "i \<le> j" and "deadline \<le> now j"
  shows "\<exists>r dst'. backup_loop Q now deadline bound i src dst = Some (r, dst')"
  using assms(1)
proof (induction "j - i" arbitrary: i dst)
  case 0
  then show ?case using assms(2) by (subst backup_loop.simps) simp
next
  case (Suc n)
  then have "i + 1 \<le> j" "n = j - (i + 1)" by simp_all
  then have "\<exists>r dst'. backup_loop Q now deadline bound (i + 1) src x = Some (r, dst')" for x
    using Suc.hyps(1) by simp
  then show ?case by (subst backup_loop.simps) (simp split: prod.splits)
qed

section \<open>An engine in memory\<close>

text \<open>
  BLOB values in a map, one savepoint, and a number of rows that the next statements give.
\<close>

record memory =
  mem_blobs :: blob_view
  mem_saved :: "blob_view option"
  mem_inside :: bool
  mem_rows :: nat

definition memory_exec :: "string \<Rightarrow> memory \<Rightarrow> int \<times> memory" where
  "memory_exec sql m =
     (0, if sql = ''SAVEPOINT ii_fp_blob_ranges'' then m\<lparr>mem_saved := Some (mem_blobs m)\<rparr>
         else if sql = ''ROLLBACK TO ii_fp_blob_ranges''
         then m\<lparr>mem_blobs := case mem_saved m of None \<Rightarrow> mem_blobs m | Some v \<Rightarrow> v\<rparr>
         else if sql = ''ROLLBACK'' \<or> sql = ''COMMIT'' then m\<lparr>mem_inside := False\<rparr>
         else m)"

definition memory_write :: "blob_location \<Rightarrow> nat \<Rightarrow> byte list \<Rightarrow> memory \<Rightarrow> int \<times> memory" where
  "memory_write loc p bytes m = (case mem_blobs m loc of
     None \<Rightarrow> (1, m)
   | Some c \<Rightarrow> if p + length bytes \<le> length c
       then (0, m\<lparr>mem_blobs := (mem_blobs m)(loc \<mapsto> overwrite c p bytes)\<rparr>) else (1, m))"

definition memory_step :: "nat \<Rightarrow> memory \<Rightarrow> int \<times> memory" where
  "memory_step q m = (if q = 1 then (101, m\<lparr>mem_inside := True\<rparr>)
     else if mem_rows m = 0 then (101, m) else (100, m\<lparr>mem_rows := mem_rows m - 1\<rparr>))"

definition memory_sqlite :: "memory sqlite" where
  "memory_sqlite =
    \<lparr>q_open = (\<lambda>path flags. (0, \<lparr>mem_blobs = Map.empty, mem_saved = None, mem_inside = False, mem_rows = 0\<rparr>)),
     q_configure = (\<lambda>timeout maximum m. m),
     q_errcode = (\<lambda>m. 1), q_errmsg = (\<lambda>m. ''error''), q_errstr = (\<lambda>rc. ''error''),
     q_autocommit = (\<lambda>m. \<not> mem_inside m), q_readonly = (\<lambda>m. False), q_limit = (\<lambda>m. 1024),
     q_changes = (\<lambda>m. 0), q_exec = memory_exec, q_db_config = (\<lambda>m. (0, m)), q_has_moved = (\<lambda>m. (0, 0)),
     q_prepare = (\<lambda>sql m. ((0, if sql = [] then None else Some (if take 5 sql = ''BEGIN'' then 1 else 0), length sql), m)),
     q_finalize = (\<lambda>q m. m), q_bind = (\<lambda>q i v m. (0, m)), q_step = memory_step,
     q_reset = (\<lambda>q m. m), q_clear_bindings = (\<lambda>q m. (0, m)), q_column_count = (\<lambda>q m. 1),
     q_column_name = (\<lambda>q i m. Some ''value''), q_column = (\<lambda>q i m. (Col_Integer, Some (VInt 1))),
     q_blob_open = (\<lambda>loc w m. (if mem_blobs m loc = None then 1 else 0, m)),
     q_blob_bytes = (\<lambda>loc m. case mem_blobs m loc of None \<Rightarrow> 0 | Some c \<Rightarrow> length c),
     q_blob_read = (\<lambda>loc p n m. ((0, case mem_blobs m loc of None \<Rightarrow> [] | Some c \<Rightarrow> take n (drop p c)), m)),
     q_blob_write = memory_write,
     q_blob_close = (\<lambda>loc m. (0, m)),
     q_backup_init = (\<lambda>src dst. (True, dst)), q_backup_step = (\<lambda>src dst. ((5, 1), dst)),
     q_backup_finish = (\<lambda>m. (0, m))\<rparr>"

lemma memory_calls:
  "q_autocommit memory_sqlite m \<longleftrightarrow> \<not> mem_inside m"
  "q_readonly memory_sqlite m = False"
  "q_limit memory_sqlite m = 1024"
  "q_exec memory_sqlite sql m = memory_exec sql m"
  "q_blob_open memory_sqlite loc w m = (if mem_blobs m loc = None then 1 else 0, m)"
  "q_blob_bytes memory_sqlite loc m = (case mem_blobs m loc of None \<Rightarrow> 0 | Some c \<Rightarrow> length c)"
  "q_blob_read memory_sqlite loc p n m =
     ((0, case mem_blobs m loc of None \<Rightarrow> [] | Some c \<Rightarrow> take n (drop p c)), m)"
  "q_blob_write memory_sqlite loc p bytes m = memory_write loc p bytes m"
  "q_blob_close memory_sqlite loc m = (0, m)"
  by (simp_all add: memory_sqlite_def)

lemma cut_short: "xs \<noteq> [] \<Longrightarrow> length xs \<le> n \<Longrightarrow> cut n p xs = [(p, xs)]"
  by (cases "n = 0") (simp, subst cut.simps, simp add: cut.simps [of n _ "[]"])

lemmas action_defs = with_blob_def openBlob_def read_blob_def write_blob_def abind_def acheck_def
  aget_def alift_def acall_def areturn_def afail_def arc_def with_handle_def in_transaction_def
  sqlite_ok_def Let_def

lemma memory_laws:
  "read_laws memory_sqlite mem_blobs mem_saved"
  "write_laws memory_sqlite mem_blobs mem_saved"
  "savepoint_laws memory_sqlite mem_blobs mem_saved"
  by (auto simp: read_laws_def write_laws_def savepoint_laws_def memory_sqlite_def memory_exec_def
      memory_write_def sqlite_ok_def split: option.splits if_splits)

lemma memory_rows: "q_step memory_sqlite q m = (sqlite_row, m') \<Longrightarrow> mem_rows m' < mem_rows m"
  by (auto simp: memory_sqlite_def memory_step_def sqlite_row_def split: if_splits)

end
