(* ===== verification/Native_Database_Properties.thy ===== *)
theory Native_Database_Properties
  imports Native_Engine
begin

text \<open>
  The properties of the SQLite wrapper, each with a run of the engine in memory on which its
  hypotheses hold.
\<close>

definition sample_blob :: blob_location where
  "sample_blob = Blob_At ''contents'' ''data'' 7"

definition sample_memory :: memory where
  "sample_memory = \<lparr>mem_blobs = [sample_blob \<mapsto> [1, 2, 3, 4, 5]], mem_saved = None, mem_inside = True, mem_rows = 3\<rparr>"

definition sample_database :: "memory database" where
  "sample_database = \<lparr>db_handle = Some sample_memory, db_serial = 1, db_transaction = 1\<rparr>"


lemma sample_handle: "db_handle sample_database = Some sample_memory"
  by (simp add: sample_database_def)




text \<open>
  A successful \<open>patch_blob\<close> ran inside a transaction on a value of the replacement's size;
  the value is now the replacement, and the number returned is the number of bytes that differed.
\<close>
theorem patch_blob_stores:
  assumes "read_laws Q view saved" and "write_laws Q view saved" and "db_handle d = Some s"
    and "patch_blob Q table column row_id bytes d = (Inr n, d')"
  shows "\<exists>s' c. d' = d\<lparr>db_handle := Some s'\<rparr> \<and> \<not> q_autocommit Q s \<and>
    view s (Blob_At table column row_id) = Some c \<and> length c = length bytes \<and>
    view s' = (view s)(Blob_At table column row_id \<mapsto> bytes) \<and> n = count_diff c bytes"
  using assms by (rule patch_blob_cases)

theorem patch_blob_stores_witness:
  "\<exists>s' :: memory. mem_blobs s' = [sample_blob \<mapsto> [1, 0, 0, 4, 6]] \<and> count_diff [1, 2, 3, 4, 5] [1, 0, 0, 4, 6 :: byte] = 3"
proof -
  let ?run = "patch_blob memory_sqlite ''contents'' ''data'' 7 [1, 0, 0, 4, 6] sample_database"
  have three: "fst ?run = Inr 3"
    by (simp add: patch_blob_def sample_blob_def sample_database_def sample_memory_def memory_calls action_defs
        validBlobNames_def int_max_def cut_short diff_runs.simps memory_write_def)
  then have "?run = (Inr 3, snd ?run)" by (metis prod.collapse)
  from patch_blob_stores [OF memory_laws(1,2) _ this, of sample_memory] show ?thesis
    by (auto simp: sample_database_def sample_memory_def sample_blob_def)
qed

text \<open>
  C16: A successful \<open>blob_sha256\<close> returns the digest whose hexadecimal form is the SHA-256 of the
  stored value, however the value is cut into buffers, and the value is within the bound given.
\<close>
theorem blob_sha256_digest:
  assumes "read_laws Q view saved" and "db_handle d = Some s"
    and "blob_sha256 Q table column row_id maximum d = (Inr digest, d')"
  shows "\<exists>c. view s (Blob_At table column row_id) = Some c \<and> length c \<le> maximum \<and>
    concat (map (\<lambda>v. [hex_digits ! unat (drop_bit 4 v), hex_digits ! unat (v AND 15)]) digest) = sha256_hash c"
proof -
  obtain c h where "view s (Blob_At table column row_id) = Some c" "length c \<le> maximum"
    "digest = sha256_digest h" "sha256_represents h c"
    using blob_sha256_cases [OF assms] by blast
  then show ?thesis using native_hash.finish_hash [of h c] by (auto simp: sha256_hexDigest_def)
qed

theorem blob_sha256_digest_witness:
  "\<exists>digest d'. blob_sha256 memory_sqlite ''contents'' ''data'' 7 5 sample_database = (Inr digest, d') \<and>
     concat (map (\<lambda>v. [hex_digits ! unat (drop_bit 4 v), hex_digits ! unat (v AND 15)]) digest) = sha256_hash [1, 2, 3, 4, 5]"
proof -
  obtain h where h: "sha256_update sha256_init [1, 2, 3, 4, 5] = Inr h"
    using sha256_update_accepts [OF sha256_represents_init, of "[1, 2, 3, 4, 5]"] by (auto simp: sha_limit_def)
  have run: "blob_sha256 memory_sqlite ''contents'' ''data'' 7 5 sample_database =
      (Inr (sha256_digest h), sample_database)"
    by (simp add: blob_sha256_def sample_blob_def sample_database_def sample_memory_def memory_calls action_defs
        validBlobNames_def int_max_def cut_short h)
  from blob_sha256_digest [OF memory_laws(1) sample_handle run] run show ?thesis
    by (auto simp: sample_memory_def sample_blob_def)
qed



text \<open>
  Further, \<open>execute\<close> returns: the loop over the rows of a statement ends whenever each row that
  SQLite delivers leaves fewer rows to come, for every SQL text and every connection.
\<close>
lemma execute_terminates:
  fixes rows :: "'s \<Rightarrow> nat"
  assumes "\<And>q s s'. q_step Q q s = (sqlite_row, s') \<Longrightarrow> rows s' < rows s"
  shows "\<exists>r d'. execute Q sql d = Some (r, d')"
  using step_all_ends [of Q rows, OF assms] by (auto simp: execute_def split: prod.splits sum.splits)

lemma execute_terminates_sample: "\<exists>r d'. execute memory_sqlite ''SELECT 1'' sample_database = Some (r, d')"
  by (rule execute_terminates [of memory_sqlite mem_rows]) (rule memory_rows)

text \<open>
  \<open>backup_to\<close> returns once the clock passes its deadline, even if SQLite reports a busy
  source forever.
\<close>
theorem backup_terminates:
  assumes "0 < j" and "now 0 + timeout_ms \<le> now j"
  shows "\<exists>r d1 d2. backup_to Q now source destination maximum_bytes timeout_ms = Some (r, d1, d2)"
proof -
  have ends: False if "backup_loop Q now (now 0 + timeout_ms) bound (Suc 0) src dst = None" for bound src dst
    using backup_loop_ends [of 1 j "now 0 + timeout_ms" now Q bound src dst] assms that by auto
  show ?thesis
    by (auto dest!: ends simp: backup_to_def Let_def split: option.splits prod.splits sum.splits)
qed

theorem backup_terminates_witness:
  "\<exists>r d1 d2. backup_to memory_sqlite (\<lambda>i. int i) sample_database sample_database 4096 30 = Some (r, d1, d2)"
  by (rule backup_terminates [of 30]) simp_all

end
