(* ===== verification/Native_Path.thy ===== *)
theory Native_Path
  imports Action Native_Text
begin

text \<open>
  The parts of \<open>std::filesystem::path\<close> the native file operations use, on POSIX path strings,
  and the calls on the operating system as the record \<open>filesystem\<close> of functions on its state.
  The result of a call is what the system documents: an error number, or a value.
\<close>

section \<open>Paths\<close>

type_synonym path = string

definition has_nul :: "path \<Rightarrow> bool" where
  "has_nul p \<longleftrightarrow> CHR 0x00 \<in> set p"

definition is_absolute :: "path \<Rightarrow> bool" where
  "is_absolute p \<longleftrightarrow> starts_with ''/'' p"

definition path_filename :: "path \<Rightarrow> string" where
  "path_filename p = rev (takeWhile (\<lambda>c. c \<noteq> CHR ''/'') (rev p))"

text \<open>What precedes the file name, without the separators at its end unless it is the root.\<close>

definition parent_path :: "path \<Rightarrow> path" where
  "parent_path p =
     (let front = rev (dropWhile (\<lambda>c. c \<noteq> CHR ''/'') (rev p));
          stripped = rev (dropWhile (\<lambda>c. c = CHR ''/'') (rev front))
      in if front = [] then [] else if stripped = [] then ''/'' else stripped)"

text \<open>The file name from its last dot on; a name that only starts with a dot has no extension.\<close>

definition extension_of :: "path \<Rightarrow> string" where
  "extension_of p =
     (let name = path_filename p; tail = takeWhile (\<lambda>c. c \<noteq> CHR ''.'') (rev name)
      in if name = ''.'' \<or> name = ''..'' \<or> length tail + 1 \<ge> length name then []
         else CHR ''.'' # rev tail)"

definition path_append :: "path \<Rightarrow> string \<Rightarrow> path" where
  "path_append p name = (if p = [] \<or> ends_with ''/'' p then p @ name else p @ ''/'' @ name)"

text \<open>
  \<open>lexically_normal\<close> of an absolute path: the empty and dot parts go, a dot-dot removes the part
  before it, and a path that ended with one of these keeps a separator at its end.
\<close>

fun normal_parts :: "string list \<Rightarrow> string list \<Rightarrow> string list" where
  "normal_parts stack [] = rev stack"
| "normal_parts stack (part # parts) =
     (if part = [] \<or> part = ''.'' then normal_parts stack parts
      else if part = ''..'' then normal_parts (tl stack) parts
      else normal_parts (part # stack) parts)"

definition lexically_normal :: "path \<Rightarrow> path" where
  "lexically_normal p =
     (let parts = split_on CHR ''/'' (tl p); kept = normal_parts [] parts;
          open_end = (last parts = [] \<or> last parts = ''.'' \<or> last parts = ''..'')
      in concat (map (\<lambda>part. CHR ''/'' # part) kept) @ (if kept = [] \<or> open_end then ''/'' else []))"

section \<open>Errors\<close>

text \<open>\<open>Std_Exception\<close> stands for a standard exception that is no \<open>FileError\<close>.\<close>

datatype file_code = Io_Failure | Limit_Exceeded | Already_Exists | Conflict | Invalid_Path | Std_Exception

record file_error =
  fe_message :: string
  fe_code :: file_code

definition file_failure :: "string \<Rightarrow> file_code \<Rightarrow> file_error" where
  "file_failure message code = \<lparr>fe_message = message, fe_code = code\<rparr>"

abbreviation io_failure :: "string \<Rightarrow> file_error" where
  "io_failure message \<equiv> file_failure message Io_Failure"

type_synonym ('s, 'a) io = "('s, file_error, 'a) act"

section \<open>The operating system\<close>

datatype file_type = No_Status | Not_Found | Regular | Directory | Symlink | Other_Type

record file_status =
  fs_type :: file_type
  fs_permissions :: nat

record 's filesystem =
  f_absolute :: "path \<Rightarrow> 's \<Rightarrow> path option"
  f_current :: "'s \<Rightarrow> path"
  f_canonical :: "path \<Rightarrow> 's \<Rightarrow> (string, path) result"
  f_status :: "path \<Rightarrow> 's \<Rightarrow> int \<times> file_status"
  f_message :: "int \<Rightarrow> string"
  f_nonce :: "'s \<Rightarrow> nat \<times> 's"
  f_reserve :: "path \<Rightarrow> 's \<Rightarrow> bool \<times> 's"
  f_create_directories :: "path \<Rightarrow> 's \<Rightarrow> int \<times> 's"
  f_create_directory :: "path \<Rightarrow> 's \<Rightarrow> (bool \<times> int) \<times> 's"
  f_permissions :: "path \<Rightarrow> nat \<Rightarrow> 's \<Rightarrow> string option \<times> 's"
  f_open_write :: "path \<Rightarrow> 's \<Rightarrow> bool \<times> 's"
  f_write :: "path \<Rightarrow> byte list \<Rightarrow> 's \<Rightarrow> bool \<times> 's"
  f_close_write :: "path \<Rightarrow> 's \<Rightarrow> bool \<times> 's"
  f_size :: "path \<Rightarrow> 's \<Rightarrow> int \<times> nat"
  f_open_read :: "path \<Rightarrow> 's \<Rightarrow> bool"
  f_read :: "path \<Rightarrow> nat \<Rightarrow> nat \<Rightarrow> 's \<Rightarrow> byte list option"
  f_seekable :: "path \<Rightarrow> nat \<Rightarrow> 's \<Rightarrow> bool"
  f_rename :: "path \<Rightarrow> path \<Rightarrow> 's \<Rightarrow> int \<times> 's"
  f_link :: "path \<Rightarrow> path \<Rightarrow> 's \<Rightarrow> int \<times> 's"
  f_remove :: "path \<Rightarrow> 's \<Rightarrow> (bool \<times> int) \<times> 's"
  f_remove_all :: "path \<Rightarrow> 's \<Rightarrow> 's"
  f_access :: "path \<Rightarrow> 's \<Rightarrow> string option"
  f_lease :: "path \<Rightarrow> bool \<Rightarrow> 's \<Rightarrow> (string, bool) result \<times> 's"
  f_unlease :: "path \<Rightarrow> 's \<Rightarrow> 's"
  f_enqueue :: "path \<Rightarrow> 's \<Rightarrow> 's"
  f_cancel :: "path \<Rightarrow> 's \<Rightarrow> 's"
  f_remove_companion :: "path \<Rightarrow> 's \<Rightarrow> 's"

definition no_such_file :: int where "no_such_file = 2"
definition file_exists_error :: int where "file_exists_error = 17"

definition exists_status :: "file_status \<Rightarrow> bool" where
  "exists_status st \<longleftrightarrow> fs_type st \<noteq> No_Status \<and> fs_type st \<noteq> Not_Found"

text \<open>A call whose exception becomes a standard exception of the operation.\<close>

definition std_failure :: "string \<Rightarrow> file_error" where
  "std_failure message = file_failure message Std_Exception"

definition absolute :: "'s filesystem \<Rightarrow> path \<Rightarrow> ('s, path) io" where
  "absolute F p = (\<lambda>s. case f_absolute F p s of
     None \<Rightarrow> (Inl (std_failure ''absolute''), s) | Some a \<Rightarrow> (Inr a, s))"

definition parentOf :: "'s filesystem \<Rightarrow> path \<Rightarrow> 's \<Rightarrow> path" where
  "parentOf F p s = (if parent_path p = [] then f_current F s else parent_path p)"

definition checkedPath :: "'s filesystem \<Rightarrow> path \<Rightarrow> ('s, path) io" where
  "checkedPath F p =
     abind (acheck (\<not> (p = [] \<or> path_filename p = [] \<or> has_nul p))
       (file_failure ''A nonempty output filename without NUL is required'' Invalid_Path)) (\<lambda>_.
     absolute F p)"

section \<open>Leases\<close>

text \<open>
  \<open>TemporaryLease\<close>: the check of the directory, and the opening and locking of its sentinel as
  one call, \<open>f_lease\<close>, which tells whether the lock was acquired.
\<close>

definition lease_directory_ok :: "path \<Rightarrow> bool" where
  "lease_directory_ok directory \<longleftrightarrow>
     directory \<noteq> [] \<and> is_absolute directory \<and> lexically_normal directory = directory"

definition validate_lease :: "path \<Rightarrow> (file_error, unit) result" where
  "validate_lease directory =
     rbind (require_that (std_failure ''temporary lease requires an absolute normalized directory'')
       (lease_directory_ok directory)) (\<lambda>_.
     require_that (std_failure ''temporary lease path contains a null character'') (\<not> has_nul directory))"

definition acquire_lease :: "'s filesystem \<Rightarrow> path \<Rightarrow> bool \<Rightarrow> ('s, bool) io" where
  "acquire_lease F directory exclusive =
     abind (alift (validate_lease directory)) (\<lambda>_.
     abind (acall (f_lease F directory exclusive)) (\<lambda>r. case r of
       Inl message \<Rightarrow> afail (std_failure message)
     | Inr locked \<Rightarrow> areturn locked))"

end
