(* ===== verification/Native_File.thy ===== *)
theory Native_File
  imports Native_Path
begin

text \<open>
  The native file operations (\<open>Native/src/Core/File.cpp\<close>, the POSIX branch of its conditional
  compilation): bounded reading, staged files, publication by renaming, exclusive creation,
  optimistic update, removal and temporary directories.
\<close>

section \<open>Reading\<close>

text \<open>
  \<open>ReadFile::Impl\<close>: the size seen when the file was opened, the position, and whether the
  stream can still deliver (after a short read it cannot before the next seek).
\<close>

record read_file =
  rf_path :: path
  rf_size :: nat
  rf_position :: nat
  rf_good :: bool

definition open_read :: "'s filesystem \<Rightarrow> path \<Rightarrow> ('s, read_file) io" where
  "open_read F p =
     abind (checkedPath F p) (\<lambda>target.
     abind (aget (f_access F target)) (\<lambda>refused. case refused of
       Some message \<Rightarrow> afail (io_failure (''Cannot identify source access: '' @ message))
     | None \<Rightarrow>
       abind (aget (f_size F target)) (\<lambda>(ec, n).
       abind (acheck (ec = 0) (io_failure (''Cannot inspect input file: '' @ f_message F ec))) (\<lambda>_.
       abind (aget (f_open_read F target)) (\<lambda>opened.
       abind (acheck opened (io_failure ''Cannot open input file'')) (\<lambda>_.
       areturn \<lparr>rf_path = target, rf_size = n, rf_position = 0, rf_good = True\<rparr>))))))"

definition streamsize_max :: nat where "streamsize_max = 2 ^ 63 - 1"

text \<open>
  \<open>ReadFile::read\<close> into a buffer: the number of bytes read or -1, with the bytes.  \<open>f_read\<close>
  gives the bytes the file holds there, at most as many as asked for, or \<open>None\<close> on an error
  of the device.
\<close>

definition read_bytes :: "'s filesystem \<Rightarrow> int \<Rightarrow> read_file \<Rightarrow> 's \<Rightarrow> int \<times> byte list \<times> read_file" where
  "read_bytes F n rf s =
     (if n < 0 then (-1, [], rf)
      else let amount = min (nat n) streamsize_max
        in if \<not> rf_good rf then (0, [], rf)
           else case f_read F (rf_path rf) (rf_position rf) amount s of
             None \<Rightarrow> (-1, [], rf\<lparr>rf_good := False\<rparr>)
           | Some bytes \<Rightarrow> (int (length bytes), bytes,
               rf\<lparr>rf_position := rf_position rf + length bytes, rf_good := (length bytes = amount)\<rparr>))"

definition read_string :: "'s filesystem \<Rightarrow> int \<Rightarrow> read_file \<Rightarrow> 's \<Rightarrow> (file_error, byte list) result \<times> read_file" where
  "read_string F n rf s =
     (if n < 0 then (Inl (io_failure ''Invalid input read length''), rf)
      else case read_bytes F n rf s of (got, bytes, rf') \<Rightarrow>
        (if got < 0 then Inl (io_failure ''Input file read failed'') else Inr bytes, rf'))"

definition seek :: "'s filesystem \<Rightarrow> nat \<Rightarrow> read_file \<Rightarrow> 's \<Rightarrow> bool \<times> read_file" where
  "seek F offset rf s =
     (if offset > streamsize_max then (False, rf)
      else if f_seekable F (rf_path rf) offset s
      then (True, rf\<lparr>rf_position := offset, rf_good := True\<rparr>) else (False, rf\<lparr>rf_good := False\<rparr>))"

definition file_read :: "'s filesystem \<Rightarrow> path \<Rightarrow> nat \<Rightarrow> ('s, byte list) io" where
  "file_read F p maximum =
     abind (open_read F p) (\<lambda>input.
     abind (acheck (rf_size input \<le> maximum \<and> rf_size input \<le> streamsize_max)
       (file_failure ''Input file exceeds the configured byte limit'' Limit_Exceeded)) (\<lambda>_.
     abind (aget (\<lambda>s. fst (read_string F (int (rf_size input)) input s))) (\<lambda>r.
     abind (alift r) (\<lambda>bytes.
     abind (acheck (length bytes = rf_size input) (io_failure ''Input file changed or ended during reading'')) (\<lambda>_.
     areturn bytes)))))"

definition createDirectories :: "'s filesystem \<Rightarrow> path \<Rightarrow> ('s, unit) io" where
  "createDirectories F p =
     (if p = [] then areturn ()
      else abind (acall (f_create_directories F p)) (\<lambda>ec.
           acheck (ec = 0) (io_failure (''Cannot create directory: '' @ f_message F ec))))"

section \<open>Publication\<close>

record publish_result =
  succeeded :: bool
  diagnosticSuffix :: string
  publish_message :: string

definition unpublished :: "string \<Rightarrow> string \<Rightarrow> publish_result" where
  "unpublished suffix message = \<lparr>succeeded = False, diagnosticSuffix = suffix, publish_message = message\<rparr>"

text \<open>The throwing \<open>symlink_status\<close>: an error other than a missing file is an exception.\<close>

definition symlink_status :: "'s filesystem \<Rightarrow> path \<Rightarrow> ('s, file_status) io" where
  "symlink_status F p = (\<lambda>s. let (ec, st) = f_status F p s in
     if fs_type st = No_Status then (Inl (std_failure (f_message F ec)), s) else (Inr st, s))"

definition canonical :: "'s filesystem \<Rightarrow> path \<Rightarrow> ('s, path) io" where
  "canonical F p = (\<lambda>s. case f_canonical F p s of
     Inl message \<Rightarrow> (Inl (std_failure message), s) | Inr c \<Rightarrow> (Inr c, s))"

definition set_permissions :: "'s filesystem \<Rightarrow> path \<Rightarrow> nat \<Rightarrow> ('s, unit) io" where
  "set_permissions F p mode = abind (acall (f_permissions F p mode)) (\<lambda>failed. case failed of
     Some message \<Rightarrow> afail (std_failure message) | None \<Rightarrow> areturn ())"

text \<open>The body of \<open>publish\<close>; a returned diagnostic is a value, an exception an error.\<close>

definition publish_body :: "'s filesystem \<Rightarrow> path \<Rightarrow> path \<Rightarrow> ('s, publish_result) io" where
  "publish_body F temporary destination =
     abind (aget (parentOf F temporary)) (\<lambda>p1.
     abind (canonical F p1) (\<lambda>c1.
     abind (aget (parentOf F destination)) (\<lambda>p2.
     abind (canonical F p2) (\<lambda>c2.
     if c1 \<noteq> c2
     then areturn (unpublished ''cross_directory'' ''Staged files must be published in their original directory'')
     else abind (symlink_status F temporary) (\<lambda>source.
     if fs_type source \<noteq> Regular
     then areturn (unpublished ''invalid_staging'' ''Staging input is not a regular file'')
     else abind (symlink_status F destination) (\<lambda>st.
     if fs_type st = Symlink \<or> fs_type st = Directory
     then areturn (unpublished ''invalid_destination'' ''Cannot replace a symlink or directory'')
     else abind (if exists_status st then set_permissions F temporary (fs_permissions st) else areturn ()) (\<lambda>_.
     abind (acall (f_rename F temporary destination)) (\<lambda>rc.
     if rc \<noteq> 0 then areturn (unpublished ''rename_failed'' (f_message F rc))
     else abind (acall (\<lambda>s. ((), f_enqueue F destination s))) (\<lambda>_.
          areturn \<lparr>succeeded = True, diagnosticSuffix = [], publish_message = []\<rparr>)))))))))"

definition file_publish :: "'s filesystem \<Rightarrow> path \<Rightarrow> path \<Rightarrow> 's \<Rightarrow> publish_result \<times> 's" where
  "file_publish F temporary destination s = (case publish_body F temporary destination s of
     (Inl e, s') \<Rightarrow> (unpublished ''commit_failed'' (fe_message e), s')
   | (Inr r, s') \<Rightarrow> (r, s'))"

section \<open>Staged files\<close>

record staged_file =
  staged_path :: path
  staged_destination :: path
  staged_lease :: path
  staged_published :: bool

text \<open>\<open>nonce\<close>: two random numbers.\<close>

definition nonce :: "'s filesystem \<Rightarrow> 's \<Rightarrow> string \<times> 's" where
  "nonce F s = (let (a, s1) = f_nonce F s; (b, s2) = f_nonce F s1
     in (nat_to_string a @ ''-'' @ nat_to_string b, s2))"

fun reserve_staged :: "'s filesystem \<Rightarrow> nat \<Rightarrow> path \<Rightarrow> string \<Rightarrow> ('s, path) io" where
  "reserve_staged F 0 parent ext = afail (io_failure ''Cannot reserve a native staged file'')"
| "reserve_staged F (Suc n) parent ext =
     abind (acall (nonce F)) (\<lambda>random.
     let path = path_append parent (''.iifile-stage-'' @ random @ ext)
     in abind (acall (f_reserve F path)) (\<lambda>reserved.
        if reserved then areturn path else reserve_staged F n parent ext))"

text \<open>
  The constructor; when it fails after taking the lease, the lease is released with the partly
  built object.
\<close>

definition staged_open :: "'s filesystem \<Rightarrow> path \<Rightarrow> ('s, staged_file) io" where
  "staged_open F destination =
     abind (acheck (\<not> (destination = [] \<or> path_filename destination = [] \<or> has_nul destination))
       (io_failure ''A nonempty output filename without NUL is required'')) (\<lambda>_.
     abind (absolute F destination) (\<lambda>target.
     abind (aget (parentOf F target)) (\<lambda>parent.
     abind (createDirectories F parent) (\<lambda>_.
     abind (acquire_lease F parent False) (\<lambda>_ s.
     case reserve_staged F 128 parent (extension_of target) s of
       (Inl e, s') \<Rightarrow> (Inl e, f_unlease F parent s')
     | (Inr path, s') \<Rightarrow> (Inr \<lparr>staged_path = path, staged_destination = target, staged_lease = parent,
           staged_published = False\<rparr>, s'))))))"

definition staged_publish :: "'s filesystem \<Rightarrow> staged_file \<Rightarrow> 's \<Rightarrow> publish_result \<times> staged_file \<times> 's" where
  "staged_publish F st s =
     (if staged_published st then (unpublished ''already_published'' ''Staged file was already published'', st, s)
      else let (r, s') = file_publish F (staged_path st) (staged_destination st) s
           in (r, st\<lparr>staged_published := succeeded r\<rparr>, s'))"

definition staged_close :: "'s filesystem \<Rightarrow> staged_file \<Rightarrow> 's \<Rightarrow> 's" where
  "staged_close F st s =
     f_unlease F (staged_lease st) (if staged_published st then s else snd (f_remove F (staged_path st) s))"

section \<open>Writing\<close>

text \<open>The stream is closed by its destructor when the function throws.\<close>

definition writeStaged :: "'s filesystem \<Rightarrow> path \<Rightarrow> byte list \<Rightarrow> ('s, unit) io" where
  "writeStaged F p bytes =
     abind (acall (f_open_write F p)) (\<lambda>opened.
     abind (acheck opened (io_failure ''Cannot open staged output'')) (\<lambda>_.
     abind (acheck (length bytes \<le> streamsize_max)
       (file_failure ''Output exceeds stream limits'' Limit_Exceeded)) (\<lambda>_.
     abind (acall (f_write F p bytes)) (\<lambda>written.
     abind (acheck written (io_failure ''Cannot write staged output'')) (\<lambda>_.
     abind (acall (f_close_write F p)) (\<lambda>closed.
     acheck closed (io_failure ''Cannot close staged output'')))))))"

definition file_write :: "'s filesystem \<Rightarrow> path \<Rightarrow> byte list \<Rightarrow> ('s, unit) io" where
  "file_write F destination bytes =
     abind (staged_open F destination) (\<lambda>staged s.
     case writeStaged F (staged_path staged) bytes s of
       (Inl e, s1) \<Rightarrow> (Inl e, staged_close F staged s1)
     | (Inr _, s1) \<Rightarrow>
       (let (published, staged', s2) = staged_publish F staged s1
        in (if succeeded published then Inr () else Inl (io_failure (publish_message published)),
            staged_close F staged' s2)))"

definition file_create :: "'s filesystem \<Rightarrow> path \<Rightarrow> byte list \<Rightarrow> ('s, unit) io" where
  "file_create F destination bytes =
     abind (checkedPath F destination) (\<lambda>target.
     abind (staged_open F target) (\<lambda>staged.
     afinally
       (abind (writeStaged F (staged_path staged) bytes) (\<lambda>_.
        abind (acall (f_link F (staged_path staged) target)) (\<lambda>rc.
        abind (acheck (rc = 0) (file_failure (''Exclusive file publication failed: '' @ f_message F rc)
          (if rc = file_exists_error then Already_Exists else Io_Failure))) (\<lambda>_.
        abind (acall (f_remove F (staged_path staged))) (\<lambda>_.
        acall (\<lambda>s. ((), f_enqueue F target s)))))))
       (staged_close F staged)))"

definition size_max :: nat where "size_max = 2 ^ 64 - 1"

definition file_update :: "'s filesystem \<Rightarrow> path \<Rightarrow> byte list \<Rightarrow> byte list \<Rightarrow> ('s, unit) io" where
  "file_update F destination expected replacement =
     abind (checkedPath F destination) (\<lambda>target.
     abind (aget (f_status F target)) (\<lambda>(ec, st).
     abind (acheck (ec \<noteq> no_such_file) (file_failure ''Update destination was removed'' Conflict)) (\<lambda>_.
     abind (acheck (ec = 0) (io_failure (''Cannot inspect update target: '' @ f_message F ec))) (\<lambda>_.
     abind (acheck (fs_type st = Regular)
       (file_failure ''Update destination must be a regular file'' Conflict)) (\<lambda>_.
     abind (\<lambda>s. case file_read F target (min (length expected + 1) size_max) s of
         (Inl e, s') \<Rightarrow> (Inl (if fe_code e = Limit_Exceeded
           then file_failure ''File size changed before update'' Conflict else e), s')
       | (Inr bytes, s') \<Rightarrow> acheck (bytes = expected) (file_failure ''File changed before update'' Conflict) s') (\<lambda>_.
     file_write F target replacement))))))"

definition file_remove :: "'s filesystem \<Rightarrow> path \<Rightarrow> ('s, bool) io" where
  "file_remove F destination =
     abind (checkedPath F destination) (\<lambda>target.
     abind (acall (\<lambda>s. ((), f_cancel F target s))) (\<lambda>_.
     abind (aget (f_status F target)) (\<lambda>(ec, st).
     if ec = no_such_file then areturn False
     else abind (acheck (ec = 0) (io_failure (''Cannot inspect removal target: '' @ f_message F ec))) (\<lambda>_.
     if \<not> exists_status st then areturn False
     else abind (acheck (fs_type st \<noteq> Directory) (io_failure ''File removal does not remove directories'')) (\<lambda>_.
     abind (acall (f_remove F target)) (\<lambda>(removed, ec).
     abind (acheck (ec = 0) (io_failure (''Cannot remove file: '' @ f_message F ec))) (\<lambda>_.
     abind (if removed then acall (\<lambda>s. ((), f_remove_companion F target s)) else areturn ()) (\<lambda>_.
     areturn removed))))))))"

section \<open>Temporary directories\<close>

definition owner_all :: nat where "owner_all = 448"

fun reserve_directory :: "'s filesystem \<Rightarrow> nat \<Rightarrow> path \<Rightarrow> ('s, path) io" where
  "reserve_directory F 0 parent = afail (io_failure ''Cannot reserve a native temporary directory'')"
| "reserve_directory F (Suc n) parent =
     abind (absolute F parent) (\<lambda>base.
     abind (acall (nonce F)) (\<lambda>random.
     let path = path_append base (''.iisacc-native-directory-'' @ random)
     in abind (acall (f_create_directory F path)) (\<lambda>(created, ec).
        if created then abind (set_permissions F path owner_all) (\<lambda>_. areturn path)
        else if ec \<noteq> 0 \<and> ec \<noteq> file_exists_error
        then afail (io_failure ''Cannot reserve a native temporary directory'')
        else reserve_directory F n parent)))"

definition temporary_directory :: "'s filesystem \<Rightarrow> path \<Rightarrow> ('s, path) io" where
  "temporary_directory F parent =
     abind (createDirectories F parent) (\<lambda>_. reserve_directory F 128 parent)"

definition temporary_close :: "'s filesystem \<Rightarrow> path \<Rightarrow> 's \<Rightarrow> 's" where
  "temporary_close F p s = (if p = [] then s else f_remove_all F p (f_cancel F p s))"

end
