(* ===== verification/Native_File_Laws.thy ===== *)
theory Native_File_Laws
  imports Native_File
begin

text \<open>
  What the file operations do to the contents of files, from the documented behaviour of the
  system calls: \<open>content s p\<close> is the bytes of the regular file named \<open>p\<close>, for names that do
  not alias.  The preview worker may write the companion of a file it is told about, and
  nothing else.
\<close>

definition companion_path :: "path \<Rightarrow> path" where
  "companion_path p = path_append (parent_path p) (CHR ''.'' # path_filename p @ ''.iisacc-preview'')"

definition same_but :: "('p \<Rightarrow> 'v) \<Rightarrow> ('p \<Rightarrow> 'v) \<Rightarrow> 'p \<Rightarrow> bool" where
  "same_but f g p \<longleftrightarrow> (\<forall>q. q \<noteq> p \<longrightarrow> f q = g q)"

type_synonym contents = "path \<Rightarrow> byte list option"

text \<open>Calls that change the content of no file.\<close>

definition keep_laws :: "'s filesystem \<Rightarrow> ('s \<Rightarrow> contents) \<Rightarrow> bool" where
  "keep_laws F content \<longleftrightarrow>
     (\<forall>s. content (snd (f_nonce F s)) = content s) \<and>
     (\<forall>p s. content (snd (f_create_directories F p s)) = content s) \<and>
     (\<forall>p m s. content (snd (f_permissions F p m s)) = content s) \<and>
     (\<forall>p x s. content (snd (f_lease F p x s)) = content s) \<and>
     (\<forall>p s. content (f_unlease F p s) = content s) \<and>
     (\<forall>p s. content (f_cancel F p s) = content s) \<and>
     (\<forall>p s. same_but (content (f_enqueue F p s)) (content s) (companion_path p)) \<and>
     (\<forall>p s. same_but (content (f_remove_companion F p s)) (content s) (companion_path p))"

definition change_laws :: "'s filesystem \<Rightarrow> ('s \<Rightarrow> contents) \<Rightarrow> bool" where
  "change_laws F content \<longleftrightarrow>
     (\<forall>p s. content (snd (f_reserve F p s)) =
        (if fst (f_reserve F p s) then (content s)(p \<mapsto> []) else content s)) \<and>
     (\<forall>p s. fst (f_reserve F p s) \<longrightarrow> content s p = None) \<and>
     (\<forall>p s. same_but (content (snd (f_open_write F p s))) (content s) p \<and>
        (fst (f_open_write F p s) \<longrightarrow> content (snd (f_open_write F p s)) p = Some [])) \<and>
     (\<forall>p b s. same_but (content (snd (f_write F p b s))) (content s) p \<and>
        (fst (f_write F p b s) \<longrightarrow> content s p = Some [] \<longrightarrow> content (snd (f_write F p b s)) p = Some b)) \<and>
     (\<forall>p s. same_but (content (snd (f_close_write F p s))) (content s) p \<and>
        (fst (f_close_write F p s) \<longrightarrow> content (snd (f_close_write F p s)) = content s)) \<and>
     (\<forall>p q s. content (snd (f_rename F p q s)) =
        (if fst (f_rename F p q s) = 0 \<and> p \<noteq> q then (content s)(q := content s p, p := None) else content s)) \<and>
     (\<forall>p q s. content (snd (f_link F p q s)) =
        (if fst (f_link F p q s) = 0 then (content s)(q := content s p) else content s)) \<and>
     (\<forall>p q s. fst (f_link F p q s) = 0 \<longrightarrow> content s q = None) \<and>
     (\<forall>p s. same_but (content (snd (f_remove F p s))) (content s) p \<and>
        (fst (f_remove F p s) = (True, 0) \<longrightarrow> content (snd (f_remove F p s)) p = None) \<and>
        (fst (fst (f_remove F p s)) = False \<longrightarrow> content (snd (f_remove F p s)) = content s))"

text \<open>A file that can be opened has a content, its size is the length of it, and reading gives it.\<close>

definition inspect_laws :: "'s filesystem \<Rightarrow> ('s \<Rightarrow> contents) \<Rightarrow> bool" where
  "inspect_laws F content \<longleftrightarrow>
     (\<forall>p s. f_open_read F p s \<longrightarrow> content s p \<noteq> None) \<and>
     (\<forall>p s c. fst (f_size F p s) = 0 \<longrightarrow> content s p = Some c \<longrightarrow> snd (f_size F p s) = length c) \<and>
     (\<forall>p i n s b c. f_read F p i n s = Some b \<longrightarrow> content s p = Some c \<longrightarrow> b = take n (drop i c))"

lemma same_but_refl [simp]: "same_but f f p"
  by (simp add: same_but_def)

lemma same_but_trans: "same_but f g p \<Longrightarrow> same_but g h p \<Longrightarrow> same_but f h p"
  by (simp add: same_but_def)

lemma same_butD: "same_but f g p \<Longrightarrow> q \<noteq> p \<Longrightarrow> f q = g q"
  by (simp add: same_but_def)

section \<open>Names\<close>

lemma path_filename_append:
  assumes "CHR ''/'' \<notin> set name"
  shows "path_filename (path_append p name) = name"
proof -
  have "takeWhile (\<lambda>c. c \<noteq> CHR ''/'') (rev name @ xs) = rev name @ takeWhile (\<lambda>c. c \<noteq> CHR ''/'') xs" for xs
    using assms by (intro takeWhile_append2) auto
  moreover have "takeWhile (\<lambda>c. c \<noteq> CHR ''/'') (rev p) = []" if "ends_with ''/'' p"
    using that by (cases p rule: rev_cases) (auto simp: ends_with_def)
  ultimately show ?thesis by (auto simp: path_filename_def path_append_def)
qed

lemma path_filename_no_separator: "CHR ''/'' \<notin> set (path_filename p)"
  by (auto simp: path_filename_def dest: set_takeWhileD)

lemma companion_path_differs: "companion_path p \<noteq> p"
proof
  assume "companion_path p = p"
  then have "path_filename (companion_path p) = path_filename p" by simp
  then show False
    using path_filename_append [of "CHR ''.'' # path_filename p @ ''.iisacc-preview''" "parent_path p"]
      path_filename_no_separator [of p]
    by (auto simp: companion_path_def dest: arg_cong [where f = length])
qed

lemma extension_no_separator: "CHR ''/'' \<notin> set (extension_of p)"
  using path_filename_no_separator [of p]
  by (auto simp: extension_of_def Let_def dest!: set_takeWhileD split: if_splits)

definition stage_name :: "path \<Rightarrow> bool" where
  "stage_name p \<longleftrightarrow> starts_with ''.iifile-stage-'' (path_filename p)"

section \<open>Steps that keep the contents\<close>

lemma keep_lawsD:
  assumes "keep_laws F content"
  shows "f_nonce F s = (v, s') \<Longrightarrow> content s' = content s"
    and "f_create_directories F p s = (ec, s') \<Longrightarrow> content s' = content s"
    and "f_permissions F p m s = (x, s') \<Longrightarrow> content s' = content s"
    and "f_lease F p ex s = (y, s') \<Longrightarrow> content s' = content s"
    and "content (f_unlease F p s) = content s"
    and "content (f_cancel F p s) = content s"
    and "same_but (content (f_enqueue F p s)) (content s) (companion_path p)"
    and "same_but (content (f_remove_companion F p s)) (content s) (companion_path p)"
  using assms by (simp_all add: keep_laws_def) (metis snd_conv)+

lemma quiet_io [quiet_intro]:
  assumes "keep_laws F content"
  shows "quiet content (absolute F p)" "quiet content (checkedPath F p)"
    "quiet content (createDirectories F p)" "quiet content (acquire_lease F p x)"
    "quiet content (canonical F p)" "quiet content (symlink_status F p)"
    "quiet content (set_permissions F p m)" "quiet content (acall (nonce F))"
proof -
  have abs: "quiet content (absolute F p)" for p
    by (simp add: quiet_def absolute_def split: option.splits)
  show "quiet content (absolute F p)" by (rule abs)
  show "quiet content (checkedPath F p)"
    unfolding checkedPath_def by (intro quiet_intro abs)
  show "quiet content (createDirectories F p)"
    unfolding createDirectories_def by (intro quiet_intro quiet_acall keep_lawsD(2) [OF assms])
  show "quiet content (acquire_lease F p x)"
    unfolding acquire_lease_def
    by (intro quiet_intro quiet_acall keep_lawsD(4) [OF assms]) (auto intro: quiet_intro split: sum.splits)
  show "quiet content (canonical F p)" by (simp add: quiet_def canonical_def split: sum.splits)
  show "quiet content (symlink_status F p)" by (simp add: quiet_def symlink_status_def Let_def split: prod.splits)
  show "quiet content (set_permissions F p m)"
    unfolding set_permissions_def
    by (intro quiet_intro quiet_acall keep_lawsD(3) [OF assms]) (auto intro: quiet_intro split: option.splits)
  show "quiet content (acall (nonce F))"
    using keep_lawsD(1) [OF assms] by (auto simp: quiet_def acall_def nonce_def Let_def split: prod.splits)
qed

lemma quiet_open_read [quiet_intro]: "keep_laws F content \<Longrightarrow> quiet content (open_read F p)"
  unfolding open_read_def
  by (intro quiet_intro) (auto intro!: quiet_intro split: option.splits)

lemma quiet_file_read [quiet_intro]: "keep_laws F content \<Longrightarrow> quiet content (file_read F p n)"
  unfolding file_read_def by (intro quiet_intro)

section \<open>Reading\<close>

lemma inspect_lawsD:
  assumes "inspect_laws F content"
  shows "f_open_read F p s \<Longrightarrow> \<exists>c. content s p = Some c"
    and "f_size F p s = (0, n) \<Longrightarrow> content s p = Some c \<Longrightarrow> n = length c"
    and "f_read F p i n s = Some b \<Longrightarrow> content s p = Some c \<Longrightarrow> b = take n (drop i c)"
proof -
  note laws = assms [unfolded inspect_laws_def]
  show "f_open_read F p s \<Longrightarrow> \<exists>c. content s p = Some c" using laws by blast
  show "f_size F p s = (0, n) \<Longrightarrow> content s p = Some c \<Longrightarrow> n = length c"
    using conjunct1 [OF conjunct2 [OF laws], rule_format, of p s c] by simp
  show "f_read F p i n s = Some b \<Longrightarrow> content s p = Some c \<Longrightarrow> b = take n (drop i c)"
    using conjunct2 [OF conjunct2 [OF laws], rule_format] by blast
qed

lemma open_read_Inr:
  assumes "inspect_laws F content" and "open_read F p s = (Inr rf, s')"
  obtains c where "f_absolute F p s = Some (rf_path rf)" "content s (rf_path rf) = Some c"
    "rf = \<lparr>rf_path = rf_path rf, rf_size = length c, rf_position = 0, rf_good = True\<rparr>" "s' = s"
proof -
  obtain target n where t: "f_absolute F p s = Some target" "f_size F target s = (0, n)" "f_open_read F target s"
    and rf: "rf = \<lparr>rf_path = target, rf_size = n, rf_position = 0, rf_good = True\<rparr>" and s': "s' = s"
    using assms(2) unfolding open_read_def checkedPath_def absolute_def
    by (auto elim!: abind_InrE split: option.splits prod.splits)
  obtain c where c: "content s target = Some c"
    using inspect_lawsD(1) [OF assms(1) t(3)] by blast
  have "n = length c" by (rule inspect_lawsD(2) [OF assms(1) t(2) c])
  then show thesis using that [of c] t(1) c rf s' by simp
qed

lemma file_read_Inr:
  assumes "inspect_laws F content" and "file_read F p maximum s = (Inr bytes, s')"
  obtains target where "f_absolute F p s = Some target" "content s target = Some bytes" "s' = s"
    "length bytes \<le> maximum"
proof -
  obtain rf s1 where op: "open_read F p s = (Inr rf, s1)" and bound: "rf_size rf \<le> maximum" "rf_size rf \<le> streamsize_max"
    and read: "fst (read_string F (int (rf_size rf)) rf s1) = Inr bytes" "length bytes = rf_size rf" and s': "s' = s1"
    using assms(2) unfolding file_read_def by (auto elim!: abind_InrE)
  obtain c where c: "f_absolute F p s = Some (rf_path rf)" "content s (rf_path rf) = Some c"
    and rf: "rf_size rf = length c" "rf_position rf = 0" "rf_good rf" and s1: "s1 = s"
    using open_read_Inr [OF assms(1) op] by (metis read_file.select_convs)
  have "f_read F (rf_path rf) 0 (length c) s = Some bytes"
    using read rf bound s1 by (auto simp: read_string_def read_bytes_def min_def Let_def split: option.splits if_splits)
  then have "bytes = c" using inspect_lawsD(3) [OF assms(1) _ c(2)] by fastforce
  then show thesis using that [OF c(1)] c(2) s' s1 read(2) bound(1) by simp
qed

section \<open>Staged files\<close>

lemma reserve_staged_cases:
  assumes "keep_laws F content" and "change_laws F content" and "CHR ''/'' \<notin> set ext"
    and "reserve_staged F n parent ext s = (r, s')"
  shows "case r of Inl e \<Rightarrow> content s' = content s
    | Inr path \<Rightarrow> stage_name path \<and> content s path = None \<and> content s' = (content s)(path \<mapsto> [])"
  using assms(4)
proof (induction n arbitrary: s)
  case 0
  then show ?case by (auto simp: afail_def)
next
  case (Suc n)
  obtain random s1 where n1: "nonce F s = (random, s1)" by (cases "nonce F s")
  have c1: "content s1 = content s"
    using quietD [OF quiet_io(8) [OF assms(1)], of s "Inr random" s1] n1 by (simp add: acall_def)
  let ?path = "path_append parent (''.iifile-stage-'' @ random @ ext)"
  obtain b s2 where r: "f_reserve F ?path s1 = (b, s2)" by (cases "f_reserve F ?path s1")
  note law = assms(2) [unfolded change_laws_def]
  have c2: "content s2 = (if b then (content s)(?path \<mapsto> []) else content s)" "b \<Longrightarrow> content s ?path = None"
    using conjunct1 [OF law] conjunct1 [OF conjunct2 [OF law]] r c1 by (metis fst_conv snd_conv)+
  have digits: "CHR ''/'' \<notin> set random"
    using n1 by (auto simp: nonce_def Let_def is_digit_def dest!: nat_to_string_digits split: prod.splits)
  have stage: "stage_name ?path"
    using digits assms(3) by (simp add: stage_name_def path_filename_append starts_with_def)
  show ?case
  proof (cases b)
    case True
    then have "r = Inr ?path" "s' = s2"
      using Suc.prems n1 r by (simp_all add: abind_def acall_def areturn_def Let_def)
    then show ?thesis using c2 True stage by simp
  next
    case False
    then have "reserve_staged F n parent ext s2 = (r, s')"
      using Suc.prems n1 r by (simp add: abind_def acall_def Let_def)
    from Suc.IH [OF this] show ?thesis using c2 False by (simp add: fun_upd_def split: sum.splits)
  qed
qed

end
