(* ===== verification/Native_File_Effects.thy ===== *)
theory Native_File_Effects
  imports Native_File_Laws
begin

text \<open>
  The effect of writing, creating, updating and removing on the contents of files.
\<close>

lemma change_lawsD:
  assumes "change_laws F content"
  shows "f_open_write F p s = (b, s') \<Longrightarrow> same_but (content s') (content s) p \<and> (b \<longrightarrow> content s' p = Some [])"
    and "f_write F p bytes s = (b, s') \<Longrightarrow> same_but (content s') (content s) p \<and>
      (b \<longrightarrow> content s p = Some [] \<longrightarrow> content s' p = Some bytes)"
    and "f_close_write F p s = (b, s') \<Longrightarrow> same_but (content s') (content s) p \<and> (b \<longrightarrow> content s' = content s)"
    and "f_rename F p q s = (rc, s') \<Longrightarrow> content s' =
      (if rc = 0 \<and> p \<noteq> q then (content s)(q := content s p, p := None) else content s)"
    and "f_link F p q s = (rc, s') \<Longrightarrow> content s' = (if rc = 0 then (content s)(q := content s p) else content s) \<and>
      (rc = 0 \<longrightarrow> content s q = None)"
    and "f_remove F p s = ((b, ec), s') \<Longrightarrow> same_but (content s') (content s) p \<and>
      (b \<longrightarrow> ec = 0 \<longrightarrow> content s' p = None) \<and> (\<not> b \<longrightarrow> content s' = content s)"
proof -
  note laws = assms [unfolded change_laws_def]
  note l2 = conjunct2 [OF conjunct2 [OF laws]]
  show "f_open_write F p s = (b, s') \<Longrightarrow> same_but (content s') (content s) p \<and> (b \<longrightarrow> content s' p = Some [])"
    using spec [OF spec [OF conjunct1 [OF l2]], of p s] by simp
  show "f_write F p bytes s = (b, s') \<Longrightarrow> same_but (content s') (content s) p \<and>
      (b \<longrightarrow> content s p = Some [] \<longrightarrow> content s' p = Some bytes)"
    using spec [OF spec [OF spec [OF conjunct1 [OF conjunct2 [OF l2]]]], of p bytes s] by simp
  note l4 = conjunct2 [OF conjunct2 [OF l2]]
  show "f_close_write F p s = (b, s') \<Longrightarrow> same_but (content s') (content s) p \<and> (b \<longrightarrow> content s' = content s)"
    using spec [OF spec [OF conjunct1 [OF l4]], of p s] by simp
  show "f_rename F p q s = (rc, s') \<Longrightarrow> content s' =
      (if rc = 0 \<and> p \<noteq> q then (content s)(q := content s p, p := None) else content s)"
    using spec [OF spec [OF spec [OF conjunct1 [OF conjunct2 [OF l4]]]], of p q s] by simp
  note l6 = conjunct2 [OF conjunct2 [OF l4]]
  show "f_link F p q s = (rc, s') \<Longrightarrow> content s' = (if rc = 0 then (content s)(q := content s p) else content s) \<and>
      (rc = 0 \<longrightarrow> content s q = None)"
    using spec [OF spec [OF spec [OF conjunct1 [OF l6]]], of p q s]
      spec [OF spec [OF spec [OF conjunct1 [OF conjunct2 [OF l6]]]], of p q s] by simp
  show "f_remove F p s = ((b, ec), s') \<Longrightarrow> same_but (content s') (content s) p \<and>
      (b \<longrightarrow> ec = 0 \<longrightarrow> content s' p = None) \<and> (\<not> b \<longrightarrow> content s' = content s)"
    using spec [OF spec [OF conjunct2 [OF conjunct2 [OF l6]]], of p s] by simp
qed

lemma staged_open_cases:
  assumes laws: "keep_laws F content" "change_laws F content"
    and run: "staged_open F destination s = (r, s')"
  shows "case r of Inl e \<Rightarrow> content s' = content s
    | Inr st \<Rightarrow> f_absolute F destination s = Some (staged_destination st) \<and> \<not> staged_published st \<and>
        stage_name (staged_path st) \<and> content s (staged_path st) = None \<and>
        content s' = (content s)(staged_path st \<mapsto> [])"
proof (cases "destination = [] \<or> path_filename destination = [] \<or> has_nul destination")
  case True
  then show ?thesis using run by (auto simp: staged_open_def abind_def acheck_def afail_def)
next
  case False
  show ?thesis
  proof (cases "f_absolute F destination s")
    case None
    then show ?thesis using run False
      by (auto simp: staged_open_def abind_def acheck_def areturn_def absolute_def)
  next
    case (Some target)
    let ?parent = "parentOf F target s"
    obtain r1 s1 where c: "createDirectories F ?parent s = (r1, s1)" by (cases "createDirectories F ?parent s")
    obtain r2 s2 where l: "acquire_lease F ?parent False s1 = (r2, s2)" by (cases "acquire_lease F ?parent False s1")
    obtain r3 s3 where v: "reserve_staged F 128 ?parent (extension_of target) s2 = (r3, s3)"
      by (cases "reserve_staged F 128 ?parent (extension_of target) s2")
    have same: "content s1 = content s" "content s2 = content s1"
      using quietD [OF quiet_io(3) [OF laws(1)] c] quietD [OF quiet_io(4) [OF laws(1)] l] by auto
    note reserved = reserve_staged_cases [OF laws extension_no_separator v]
    have steps: "staged_open F destination s = (case r1 of Inl e \<Rightarrow> (Inl e, s1) | Inr _ \<Rightarrow>
        case r2 of Inl e \<Rightarrow> (Inl e, s2) | Inr _ \<Rightarrow>
        case r3 of Inl e \<Rightarrow> (Inl e, f_unlease F ?parent s3)
        | Inr path \<Rightarrow> (Inr \<lparr>staged_path = path, staged_destination = target, staged_lease = ?parent,
           staged_published = False\<rparr>, s3))"
      using False Some c l v
      by (simp add: staged_open_def abind_def acheck_def areturn_def absolute_def aget_def split: sum.splits)
    show ?thesis
      using run reserved same keep_lawsD(5) [OF laws(1)] Some unfolding steps
      by (auto simp: fun_upd_def split: sum.splits)
  qed
qed

lemma writeStaged_cases:
  assumes laws: "change_laws F content" and run: "writeStaged F p bytes s = (r, s')"
  shows "same_but (content s') (content s) p \<and> (r = Inr () \<longrightarrow> content s' p = Some bytes)"
proof -
  obtain b1 s1 where o: "f_open_write F p s = (b1, s1)" by (cases "f_open_write F p s")
  obtain b2 s2 where w: "f_write F p bytes s1 = (b2, s2)" by (cases "f_write F p bytes s1")
  obtain b3 s3 where c: "f_close_write F p s2 = (b3, s3)" by (cases "f_close_write F p s2")
  note o1 = change_lawsD(1) [OF laws o] and w1 = change_lawsD(2) [OF laws w]
    and c1 = change_lawsD(3) [OF laws c]
  have steps: "writeStaged F p bytes s =
      (if \<not> b1 then (Inl (io_failure ''Cannot open staged output''), s1)
       else if length bytes > streamsize_max then (Inl (file_failure ''Output exceeds stream limits'' Limit_Exceeded), s1)
       else if \<not> b2 then (Inl (io_failure ''Cannot write staged output''), s2)
       else if \<not> b3 then (Inl (io_failure ''Cannot close staged output''), s3) else (Inr (), s3))"
    using o w c by (simp add: writeStaged_def abind_def acall_def acheck_def areturn_def afail_def)
  have s2: "same_but (content s2) (content s) p" using same_but_trans [of "content s2" "content s1"] o1 w1 by blast
  have s3: "same_but (content s3) (content s) p" using same_but_trans [of "content s3" "content s2"] s2 c1 by blast
  show ?thesis
    using run o1 w1 c1 s2 s3 unfolding steps by (auto split: if_splits)
qed

section \<open>Publication\<close>

definition published_to :: "contents \<Rightarrow> path \<Rightarrow> path \<Rightarrow> publish_result \<Rightarrow> contents \<Rightarrow> bool" where
  "published_to c temporary destination r c' \<longleftrightarrow>
     (if succeeded r
      then same_but c' (c(destination := c temporary, temporary := None)) (companion_path destination)
      else c' = c)"

lemma published_unpublished [simp]: "published_to c p q (unpublished a b) c' \<longleftrightarrow> c' = c"
  by (simp add: published_to_def unpublished_def)

definition publish_ends :: "('s \<Rightarrow> contents) \<Rightarrow> contents \<Rightarrow> path \<Rightarrow> path \<Rightarrow> file_error + publish_result \<Rightarrow> 's \<Rightarrow> bool" where
  "publish_ends content c temporary destination r s' = (case r of Inl e \<Rightarrow> content s' = c
     | Inr x \<Rightarrow> published_to c temporary destination x (content s'))"

lemma publish_ends_simps [simp]:
  "publish_ends content c p q (Inl e) s' \<longleftrightarrow> content s' = c"
  "publish_ends content c p q (Inr x) s' \<longleftrightarrow> published_to c p q x (content s')"
  by (simp_all add: publish_ends_def)

lemma rename_outcome:
  assumes laws: "keep_laws F content" "change_laws F content" and ne: "temporary \<noteq> destination"
    and s1: "content s1 = c"
  shows "ends_in (abind (acall (f_rename F temporary destination)) (\<lambda>rc.
      if rc \<noteq> 0 then areturn (unpublished ''rename_failed'' (f_message F rc))
      else abind (acall (\<lambda>s. ((), f_enqueue F destination s))) (\<lambda>_.
        areturn \<lparr>succeeded = True, diagnosticSuffix = [], publish_message = []\<rparr>)))
    (publish_ends content c temporary destination) s1"
proof -
  obtain rc s2 where r: "f_rename F temporary destination s1 = (rc, s2)"
    by (cases "f_rename F temporary destination s1")
  note d = change_lawsD(4) [OF laws(2) r] and q = keep_lawsD(7) [OF laws(1), of destination s2]
  show ?thesis
    using r d q s1 ne
    by (auto simp: ends_in_def abind_def acall_def areturn_def published_to_def unpublished_def)
qed

lemma publish_body_outcome:
  assumes laws: "keep_laws F content" "change_laws F content" and ne: "temporary \<noteq> destination"
  shows "ends_in (publish_body F temporary destination)
    (publish_ends content (content s) temporary destination) s"
  unfolding publish_body_def
  by (intro ends_in_quiet [where f = content and c = "content s"] ends_in_if quiet_basic quiet_if
      quiet_io [OF laws(1)] rename_outcome [OF laws ne]) simp_all

lemma publish_cases:
  assumes "keep_laws F content" and "change_laws F content"
    and "file_publish F temporary destination s = (r, s')" and "temporary \<noteq> destination"
  shows "published_to (content s) temporary destination r (content s')"
proof -
  obtain x where body: "publish_body F temporary destination s = (x, s')"
    and r: "r = (case x of Inl e \<Rightarrow> unpublished ''commit_failed'' (fe_message e) | Inr y \<Rightarrow> y)"
    using assms(3) by (auto simp: file_publish_def split: prod.splits sum.splits)
  show ?thesis
    using ends_inD [OF publish_body_outcome [OF assms(1,2,4)] body] r by (auto split: sum.splits)
qed

section \<open>Writing a file\<close>

lemma staged_close_cases:
  assumes laws: "keep_laws F content" "change_laws F content"
  shows "if staged_published st then content (staged_close F st s) = content s
    else same_but (content (staged_close F st s)) (content s) (staged_path st)"
proof -
  obtain b ec s' where r: "f_remove F (staged_path st) s = ((b, ec), s')"
    by (cases "f_remove F (staged_path st) s") auto
  then show ?thesis
    using change_lawsD(6) [OF laws(2) r] keep_lawsD(5) [OF laws(1)] by (simp add: staged_close_def)
qed

text \<open>
  What an operation on one file may do to the others: their contents stay, except for the
  companion of the file, and for a staged name that was free before.
\<close>

definition others_kept :: "contents \<Rightarrow> contents \<Rightarrow> path \<Rightarrow> bool" where
  "others_kept c c' target \<longleftrightarrow>
     (\<forall>q. q \<noteq> target \<longrightarrow> q \<noteq> companion_path target \<longrightarrow> c q \<noteq> None \<longrightarrow> c' q = c q)"

lemma others_kept_same_but:
  "same_but c' c p \<Longrightarrow> c p = None \<Longrightarrow> others_kept c c' target"
  unfolding same_but_def others_kept_def by metis

lemma file_write_cases:
  assumes laws: "keep_laws F content" "change_laws F content"
    and run: "file_write F destination bytes s = (r, s')"
    and target: "f_absolute F destination s = Some target" "\<not> stage_name target"
  shows "content s' target = (case r of Inl e \<Rightarrow> content s target | Inr _ \<Rightarrow> Some bytes) \<and>
    others_kept (content s) (content s') target"
proof -
  obtain x s1 where o: "staged_open F destination s = (x, s1)" by (cases "staged_open F destination s")
  note opened = staged_open_cases [OF laws o]
  show ?thesis
  proof (cases x)
    case (Inl e)
    then have "r = Inl e" "s' = s1" using run o by (simp_all add: file_write_def)
    then show ?thesis using opened Inl by (simp add: others_kept_def)
  next
    case (Inr st)
    let ?p = "staged_path st"
    have st: "staged_destination st = target" "\<not> staged_published st" "stage_name ?p" "content s ?p = None"
      "content s1 = (content s)(?p \<mapsto> [])"
      using opened target Inr by simp_all
    have ne: "?p \<noteq> target" using st(3) target(2) by auto
    obtain y s2 where w: "writeStaged F ?p bytes s1 = (y, s2)" by (cases "writeStaged F ?p bytes s1")
    note wrote = writeStaged_cases [OF laws(2) w]
    have s2: "same_but (content s2) (content s) ?p"
      using same_but_trans [OF conjunct1 [OF wrote], of "content s"] st(5) by (simp add: same_but_def)
    show ?thesis
    proof (cases y)
      case (Inl e)
      then have "r = Inl e" "s' = staged_close F st s2"
        using run o w \<open>x = Inr st\<close> by (simp_all add: file_write_def)
      moreover have "same_but (content (staged_close F st s2)) (content s) ?p"
        using staged_close_cases [OF laws, of st s2] st(2) same_but_trans [OF _ s2] by simp
      ultimately show ?thesis
        using others_kept_same_but [where c = "content s" and p = ?p, OF _ st(4)] same_butD [OF _ ne [symmetric]] by auto
    next
      case (Inr u)
      obtain pr s3 where p: "file_publish F ?p target s2 = (pr, s3)" by (cases "file_publish F ?p target s2")
      note pub = publish_cases [OF laws p ne]
      have s': "s' = staged_close F (st\<lparr>staged_published := succeeded pr\<rparr>) s3"
        and r: "r = (if succeeded pr then Inr () else Inl (io_failure (publish_message pr)))"
        using run o w p \<open>x = Inr st\<close> Inr st(1,2)
        by (auto simp: file_write_def staged_publish_def Let_def)
      note closed = staged_close_cases [OF laws, of "st\<lparr>staged_published := succeeded pr\<rparr>" s3]
      have bytes: "content s2 ?p = Some bytes" using wrote Inr by simp
      show ?thesis
      proof (cases "succeeded pr")
        case True
        then have "same_but (content s') ((content s2)(target := Some bytes, ?p := None)) (companion_path target)"
          using pub closed bytes s' by (simp add: published_to_def)
        then have at: "content s' q = (if q = ?p then None else if q = target then Some bytes else content s2 q)"
          if "q \<noteq> companion_path target" for q
          using that by (simp add: same_but_def)
        have "content s' q = content s q" if "q \<noteq> target" "q \<noteq> companion_path target" for q
          using at [OF that(2)] that(1) st(4) same_butD [OF s2, of q] by simp
        then show ?thesis
          using at [of target] True r ne companion_path_differs [of target] by (simp add: others_kept_def)
      next
        case False
        then have "same_but (content s') (content s2) ?p"
          using pub closed s' by (simp add: published_to_def)
        then have "same_but (content s') (content s) ?p" using s2 by (rule same_but_trans)
        then show ?thesis
          using others_kept_same_but [where c = "content s" and p = ?p, OF _ st(4)] same_butD [OF _ ne [symmetric]] False r by auto
      qed
    qed
  qed
qed

end
