(* ===== verification/Native_File_Publish.thy ===== *)
theory Native_File_Publish
  imports Native_File_Effects
begin

text \<open>
  Exclusive creation, optimistic update and removal, and the destinations a staged file refuses.
\<close>

lemma checkedPath_cases:
  assumes "checkedPath F p s = (r, s')"
  shows "s' = s" and "r = Inr t \<Longrightarrow> f_absolute F p s = Some t"
  using assms by (auto simp: checkedPath_def absolute_def abind_def acheck_def areturn_def afail_def
      split: if_splits option.splits)

text \<open>What exclusive creation does once the staged file is reserved.\<close>

definition link_staged :: "'s filesystem \<Rightarrow> path \<Rightarrow> path \<Rightarrow> byte list \<Rightarrow> ('s, unit) io" where
  "link_staged F staged target bytes =
     abind (writeStaged F staged bytes) (\<lambda>_.
     abind (acall (f_link F staged target)) (\<lambda>rc.
     abind (acheck (rc = 0) (file_failure (''Exclusive file publication failed: '' @ f_message F rc)
       (if rc = file_exists_error then Already_Exists else Io_Failure))) (\<lambda>_.
     abind (acall (f_remove F staged)) (\<lambda>_.
     acall (\<lambda>s. ((), f_enqueue F target s))))))"

lemma file_create_eq:
  "file_create F destination bytes =
     abind (checkedPath F destination) (\<lambda>target.
     abind (staged_open F target) (\<lambda>staged.
     afinally (link_staged F (staged_path staged) target bytes) (staged_close F staged)))"
  by (simp add: file_create_def link_staged_def)

lemma link_staged_cases:
  assumes laws: "keep_laws F content" "change_laws F content"
    and run: "link_staged F staged target bytes s = (r, s')" and ne: "staged \<noteq> target"
  shows "case r of Inl e \<Rightarrow> same_but (content s') (content s) staged
    | Inr _ \<Rightarrow> content s target = None \<and> content s' target = Some bytes \<and>
        (\<forall>q. q \<noteq> staged \<longrightarrow> q \<noteq> target \<longrightarrow> q \<noteq> companion_path target \<longrightarrow> content s' q = content s q)"
proof -
  obtain y s1 where w: "writeStaged F staged bytes s = (y, s1)" by (cases "writeStaged F staged bytes s")
  obtain rc s2 where l: "f_link F staged target s1 = (rc, s2)" by (cases "f_link F staged target s1")
  obtain x s3 where v: "f_remove F staged s2 = (x, s3)" by (cases "f_remove F staged s2")
  note wrote = writeStaged_cases [OF laws(2) w] and linked = change_lawsD(5) [OF laws(2) l]
    and told = keep_lawsD(7) [OF laws(1), of target s3]
  have removed: "same_but (content s3) (content s2) staged"
    using change_lawsD(6) [OF laws(2), of staged s2 "fst x" "snd x" s3] v by simp
  have steps: "link_staged F staged target bytes s = (case y of Inl e \<Rightarrow> (Inl e, s1)
      | Inr _ \<Rightarrow> if rc = 0 then (Inr (), f_enqueue F target s3)
        else (Inl (file_failure (''Exclusive file publication failed: '' @ f_message F rc)
          (if rc = file_exists_error then Already_Exists else Io_Failure)), s2))"
    using w l v by (simp add: link_staged_def abind_def acall_def acheck_def areturn_def afail_def split: sum.splits)
  show ?thesis
  proof (cases "y = Inr () \<and> rc = 0")
    case False
    then have "\<exists>e. r = Inl e" "s' = s1 \<or> (s' = s2 \<and> rc \<noteq> 0)"
      using run unfolding steps by (auto split: sum.splits if_splits)
    then show ?thesis using wrote linked by auto
  next
    case True
    then have r: "r = Inr ()" "s' = f_enqueue F target s3" using run unfolding steps by simp_all
    have "content s1 staged = Some bytes" "same_but (content s1) (content s) staged" using wrote True by simp_all
    moreover have "content s2 = (content s1)(target := content s1 staged)" "content s1 target = None"
      using linked True by simp_all
    ultimately show ?thesis
      using r told removed ne companion_path_differs [of target] by (simp add: same_but_def)
  qed
qed

lemma file_create_cases:
  assumes laws: "keep_laws F content" "change_laws F content"
    and run: "file_create F destination bytes s = (r, s')"
    and target: "f_absolute F destination s = Some target" "\<not> stage_name target"
  shows "(case r of Inl e \<Rightarrow> content s' target = content s target
      | Inr _ \<Rightarrow> content s target = None \<and> content s' target = Some bytes) \<and>
    others_kept (content s) (content s') target"
proof -
  obtain t s0 where c: "checkedPath F destination s = (t, s0)" by (cases "checkedPath F destination s")
  note path = checkedPath_cases [OF c]
  show ?thesis
  proof (cases t)
    case (Inl e)
    then have "r = Inl e" "s' = s" using run c path(1) by (simp_all add: file_create_eq)
    then show ?thesis by (simp add: others_kept_def)
  next
    case (Inr t')
    then have t': "t' = target" using path(2) target(1) by simp
    obtain x s1 where o: "staged_open F target s = (x, s1)" by (cases "staged_open F target s")
    note opened = staged_open_cases [OF laws o]
    show ?thesis
    proof (cases x)
      case (Inl e)
      then have "r = Inl e" "s' = s1"
        using run c o path(1) \<open>t = Inr t'\<close> t' by (simp_all add: file_create_eq)
      then show ?thesis using opened Inl by (simp add: others_kept_def)
    next
      case (Inr st)
      let ?p = "staged_path st"
      have st: "\<not> staged_published st" "stage_name ?p" "content s ?p = None" "content s1 = (content s)(?p \<mapsto> [])"
        using opened Inr by simp_all
      have ne: "?p \<noteq> target" using st(2) target(2) by auto
      obtain y s2 where l: "link_staged F ?p target bytes s1 = (y, s2)" by (cases "link_staged F ?p target bytes s1")
      note linked = link_staged_cases [OF laws l ne]
      have r: "r = y" "s' = staged_close F st s2"
        using run c o path(1) \<open>t = Inr t'\<close> t' Inr l by (simp_all add: file_create_eq afinally_eq)
      have closed: "same_but (content s') (content s2) ?p"
        using staged_close_cases [OF laws, of st s2] st(1) r(2) by simp
      have s1: "content s1 q = content s q" if "q \<noteq> ?p" for q using st(4) that by simp
      show ?thesis
      proof (cases y)
        case (Inl e)
        then have "content s' q = content s q" if "q \<noteq> ?p" for q
          using linked closed s1 [OF that] that by (simp add: same_but_def)
        then have same: "content s' q = content s q" if "q \<noteq> ?p" for q using that by simp
        then have "others_kept (content s) (content s') target"
          using st(3) unfolding others_kept_def by metis
        then show ?thesis using Inl r(1) same [OF ne [symmetric]] by simp
      next
        case (Inr u)
        then have "content s' q = content s q" if "q \<noteq> ?p" "q \<noteq> target" "q \<noteq> companion_path target" for q
          using linked closed s1 [OF that(1)] that by (simp add: same_but_def)
        then have "others_kept (content s) (content s') target"
          using st(3) unfolding others_kept_def by metis
        then show ?thesis
          using Inr r(1) ne linked s1 [OF ne [symmetric]] same_butD [OF closed ne [symmetric]] by simp
      qed
    qed
  qed
qed

section \<open>Update\<close>

text \<open>An update is a write that happens only when the file still holds the expected bytes.\<close>

definition update_guard :: "'s filesystem \<Rightarrow> path \<Rightarrow> byte list \<Rightarrow> ('s, unit) io" where
  "update_guard F target expected = (\<lambda>s.
     case file_read F target (min (length expected + 1) size_max) s of
       (Inl e, s') \<Rightarrow> (Inl (if fe_code e = Limit_Exceeded
         then file_failure ''File size changed before update'' Conflict else e), s')
     | (Inr bytes, s') \<Rightarrow> acheck (bytes = expected) (file_failure ''File changed before update'' Conflict) s')"

lemma update_guard_cases:
  assumes laws: "keep_laws F content" "inspect_laws F content"
    and run: "update_guard F target expected s = (r, s')" and absolute: "f_absolute F target s = Some target"
  shows "content s' = content s" and "r = Inr () \<Longrightarrow> content s target = Some expected \<and> s' = s"
proof -
  obtain x s1 where read: "file_read F target (min (length expected + 1) size_max) s = (x, s1)"
    by (cases "file_read F target (min (length expected + 1) size_max) s")
  show "content s' = content s"
    using quietD [OF quiet_file_read [OF laws(1)] read] run read
    by (auto simp: update_guard_def acheck_def areturn_def afail_def split: sum.splits if_splits)
  assume "r = Inr ()"
  then have "x = Inr expected" "s' = s1"
    using run read by (auto simp: update_guard_def split: sum.splits)
  then show "content s target = Some expected \<and> s' = s"
    using file_read_Inr [OF laws(2)] read absolute by (metis option.inject)
qed

lemma file_update_eq:
  "file_update F destination expected replacement =
     abind (checkedPath F destination) (\<lambda>target.
     abind (aget (f_status F target)) (\<lambda>(ec, st).
     abind (acheck (ec \<noteq> no_such_file) (file_failure ''Update destination was removed'' Conflict)) (\<lambda>_.
     abind (acheck (ec = 0) (io_failure (''Cannot inspect update target: '' @ f_message F ec))) (\<lambda>_.
     abind (acheck (fs_type st = Regular)
       (file_failure ''Update destination must be a regular file'' Conflict)) (\<lambda>_.
     abind (update_guard F target expected) (\<lambda>_. file_write F target replacement))))))"
  by (simp only: file_update_def update_guard_def)

lemma file_update_cases:
  assumes laws: "keep_laws F content" "change_laws F content" "inspect_laws F content"
    and run: "file_update F destination expected replacement s = (r, s')"
    and target: "f_absolute F destination s = Some target" "\<not> stage_name target"
    and absolute: "f_absolute F target s = Some target"
  shows "(case r of Inl e \<Rightarrow> content s' target = content s target
      | Inr _ \<Rightarrow> content s target = Some expected \<and> content s' target = Some replacement) \<and>
    others_kept (content s) (content s') target"
proof -
  have unchanged: ?thesis if "r = Inl e" "content s' = content s" for e
    using that by (simp add: others_kept_def)
  obtain x s0 where c: "checkedPath F destination s = (x, s0)" by (cases "checkedPath F destination s")
  note path = checkedPath_cases [OF c]
  obtain ec st where status: "f_status F target s = (ec, st)" by (cases "f_status F target s")
  obtain g s1 where guard: "update_guard F target expected s = (g, s1)" by (cases "update_guard F target expected s")
  note guarded = update_guard_cases [OF laws(1,3) guard absolute]
  show ?thesis
  proof (cases "x = Inr target \<and> ec = 0 \<and> fs_type st = Regular")
    case False
    moreover have "x = Inl e \<or> x = Inr target" if "x = Inl e \<or> x = Inr t" for e t
      using that path(2) target(1) by auto
    ultimately obtain e where "r = Inl e" "s' = s"
      using run c path target(1) status
      by (cases x) (auto simp: file_update_eq abind_def aget_def acheck_def areturn_def afail_def
          no_such_file_def split: if_splits)
    then show ?thesis using unchanged by simp
  next
    case True
    then have tail: "abind (\<lambda>s. (g, s1)) (\<lambda>_. file_write F target replacement) s = (r, s')"
      using run c path(1) status guard
      by (simp add: file_update_eq abind_def aget_def acheck_def areturn_def no_such_file_def)
    show ?thesis
    proof (cases g)
      case (Inl e)
      then have "r = Inl e" "s' = s1" using tail by (auto simp: abind_def)
      then show ?thesis using guarded(1) unchanged by simp
    next
      case (Inr u)
      then have "file_write F target replacement s = (r, s')" "content s target = Some expected"
        using tail guarded(2) by (simp_all add: abind_def)
      then show ?thesis
        using file_write_cases [OF laws(1,2) _ absolute target(2)] by (auto split: sum.splits)
    qed
  qed
qed

section \<open>Removal\<close>

lemma file_remove_cases:
  assumes laws: "keep_laws F content" "change_laws F content"
    and run: "file_remove F destination s = (r, s')"
    and target: "f_absolute F destination s = Some target"
  shows "(r = Inr True \<longrightarrow> content s' target = None) \<and> (r = Inr False \<longrightarrow> content s' = content s) \<and>
    others_kept (content s) (content s') target"
proof -
  obtain x s0 where c: "checkedPath F destination s = (x, s0)" by (cases "checkedPath F destination s")
  note path = checkedPath_cases [OF c]
  let ?s1 = "f_cancel F target s"
  obtain ec st where status: "f_status F target ?s1 = (ec, st)" by (cases "f_status F target ?s1")
  obtain removed ec2 s2 where v: "f_remove F target ?s1 = ((removed, ec2), s2)"
    by (cases "f_remove F target ?s1") auto
  have c1: "content ?s1 = content s" by (rule keep_lawsD(6) [OF laws(1)])
  note gone = change_lawsD(6) [OF laws(2) v, unfolded c1]
    and companion = keep_lawsD(8) [OF laws(1), of target s2]
  have steps: "file_remove F destination s = (if ec = no_such_file then (Inr False, ?s1)
      else if ec \<noteq> 0 then (Inl (io_failure (''Cannot inspect removal target: '' @ f_message F ec)), ?s1)
      else if \<not> exists_status st then (Inr False, ?s1)
      else if fs_type st = Directory then (Inl (io_failure ''File removal does not remove directories''), ?s1)
      else if ec2 \<noteq> 0 then (Inl (io_failure (''Cannot remove file: '' @ f_message F ec2)), s2)
      else (Inr removed, if removed then f_remove_companion F target s2 else s2))"
    if "x = Inr target"
    using c path(1) status v that
    by (simp add: file_remove_def abind_def aget_def acall_def acheck_def areturn_def afail_def)
  have kept: "others_kept (content s) (content s2) target"
    using gone by (simp add: others_kept_def same_but_def)
  have companion_kept: "others_kept (content s) (content (f_remove_companion F target s2)) target"
    using gone companion by (simp add: others_kept_def same_but_def)
  have "content (f_remove_companion F target s2) target = content s2 target"
    using same_butD [OF companion] companion_path_differs by metis
  note facts = this gone kept companion_kept c1
  have none: "others_kept (content s) (content s) target" by (simp add: others_kept_def)
  show ?thesis
  proof (cases x)
    case (Inl e)
    then have "r = Inl e" "s' = s" using run c path(1) by (simp_all add: file_remove_def)
    then show ?thesis using none by simp
  next
    case (Inr t)
    then have "x = Inr target" using path(2) target by simp
    from run [unfolded steps [OF this]] show ?thesis
      using facts none by (simp split: if_splits) blast+
  qed
qed

section \<open>Destinations that are refused\<close>

lemma lease_refused:
  assumes "\<not> lease_directory_ok directory"
  shows "acquire_lease F directory exclusive s =
    (Inl (std_failure ''temporary lease requires an absolute normalized directory''), s)"
  using assms
  by (simp add: acquire_lease_def validate_lease_def require_that_def alift_def abind_def)

lemma split_on_nonempty [simp]: "split_on d xs \<noteq> []"
  by (induction xs) (auto split: list.splits)

lemma length_split_on: "2 \<le> length (split_on d (xs @ d # ys))"
proof (induction xs)
  case Nil
  then show ?case by (cases "split_on d ys") simp_all
qed (auto split: list.splits)

lemma last_split_on: "last (split_on d (xs @ d # ys)) = last (split_on d ys)"
proof (induction xs)
  case (Cons x xs)
  obtain p q ps where "split_on d (xs @ d # ys) = p # q # ps"
    using length_split_on [of d xs ys] by (auto simp: Suc_le_length_iff numeral_2_eq_2)
  then show ?case using Cons by simp
qed simp

lemma dot_directory_refused: "\<not> lease_directory_ok (dir @ ''/.'')"
proof -
  have "last (split_on CHR ''/'' (tl (dir @ ''/.''))) = ''.''"
    using last_split_on [of "CHR ''/''" "tl dir" "''.''"] by (cases dir) simp_all
  then have "last (lexically_normal (dir @ ''/.'')) = CHR ''/''"
    by (simp add: lexically_normal_def Let_def)
  then have "lexically_normal (dir @ ''/.'') \<noteq> dir @ ''/.''" by auto
  then show ?thesis by (simp add: lease_directory_ok_def)
qed

lemma parent_path_dot:
  assumes "CHR ''/'' \<notin> set name"
  shows "parent_path (dir @ ''/./'' @ name) = dir @ ''/.''"
proof -
  have "dropWhile (\<lambda>c. c \<noteq> CHR ''/'') (rev name @ xs) = dropWhile (\<lambda>c. c \<noteq> CHR ''/'') xs" for xs
    using assms by (intro dropWhile_append2) auto
  then show ?thesis by (simp add: parent_path_def)
qed

lemma staged_open_refused:
  assumes "f_absolute F destination s = Some target" and "parent_path target \<noteq> []"
    and "\<not> lease_directory_ok (parent_path target)"
  shows "\<exists>e s'. staged_open F destination s = (Inl e, s')"
proof (cases "staged_open F destination s")
  case (Pair r s')
  have "\<exists>e. r = Inl e"
  proof (cases r)
    case (Inr st)
    then obtain s1 v s2 where "acquire_lease F (parentOf F target s) False s1 = (Inr v, s2)"
      using Pair assms(1) unfolding staged_open_def absolute_def by (auto elim!: abind_InrE)
    then show ?thesis
      using lease_refused [OF assms(3), of F False s1] assms(2) by (simp add: parentOf_def)
  qed simp
  then show ?thesis using Pair by blast
qed

end
