(* ===== verification/Native_File_Sample.thy ===== *)
theory Native_File_Sample
  imports Native_File_Publish
begin

text \<open>
  A file system in memory that satisfies the laws of theory \<open>Native_File_Laws\<close>, and runs of
  the file operations on it.
\<close>

section \<open>A file system in memory\<close>

record memory_files =
  mf_content :: contents
  mf_seed :: nat

definition mf_remove :: "path \<Rightarrow> memory_files \<Rightarrow> (bool \<times> int) \<times> memory_files" where
  "mf_remove p m = ((mf_content m p \<noteq> None, 0), m\<lparr>mf_content := (mf_content m)(p := None)\<rparr>)"

definition mf_rename :: "path \<Rightarrow> path \<Rightarrow> memory_files \<Rightarrow> int \<times> memory_files" where
  "mf_rename p q m = (if mf_content m p = None then (2, m)
     else (0, if p = q then m else m\<lparr>mf_content := (mf_content m)(q := mf_content m p, p := None)\<rparr>))"

definition mf_link :: "path \<Rightarrow> path \<Rightarrow> memory_files \<Rightarrow> int \<times> memory_files" where
  "mf_link p q m = (if mf_content m q \<noteq> None then (17, m)
     else (0, m\<lparr>mf_content := (mf_content m)(q := mf_content m p)\<rparr>))"

definition mf_reserve :: "path \<Rightarrow> memory_files \<Rightarrow> bool \<times> memory_files" where
  "mf_reserve p m = (if mf_content m p \<noteq> None then (False, m)
     else (True, m\<lparr>mf_content := (mf_content m)(p \<mapsto> [])\<rparr>))"

definition memory_fs :: "memory_files filesystem" where
  "memory_fs =
    \<lparr>f_absolute = (\<lambda>p m. Some (if is_absolute p then p else ''/work/'' @ p)),
     f_current = (\<lambda>m. ''/work''), f_canonical = (\<lambda>p m. Inr (lexically_normal p)),
     f_status = (\<lambda>p m. if mf_content m p = None then (2, \<lparr>fs_type = Not_Found, fs_permissions = 0\<rparr>)
       else (0, \<lparr>fs_type = Regular, fs_permissions = 420\<rparr>)),
     f_message = (\<lambda>ec. ''error''),
     f_nonce = (\<lambda>m. (mf_seed m, m\<lparr>mf_seed := mf_seed m + 1\<rparr>)),
     f_reserve = mf_reserve, f_create_directories = (\<lambda>p m. (0, m)), f_create_directory = (\<lambda>p m. ((True, 0), m)),
     f_permissions = (\<lambda>p mode m. (None, m)),
     f_open_write = (\<lambda>p m. (True, m\<lparr>mf_content := (mf_content m)(p \<mapsto> [])\<rparr>)),
     f_write = (\<lambda>p bytes m. (True, m\<lparr>mf_content := (mf_content m)(p \<mapsto> bytes)\<rparr>)),
     f_close_write = (\<lambda>p m. (True, m)),
     f_size = (\<lambda>p m. case mf_content m p of None \<Rightarrow> (2, 0) | Some c \<Rightarrow> (0, length c)),
     f_open_read = (\<lambda>p m. mf_content m p \<noteq> None),
     f_read = (\<lambda>p i n m. map_option (\<lambda>c. take n (drop i c)) (mf_content m p)),
     f_seekable = (\<lambda>p n m. True), f_rename = mf_rename, f_link = mf_link, f_remove = mf_remove,
     f_remove_all = (\<lambda>p m. m), f_access = (\<lambda>p m. None), f_lease = (\<lambda>p x m. (Inr True, m)),
     f_unlease = (\<lambda>p m. m), f_enqueue = (\<lambda>p m. m), f_cancel = (\<lambda>p m. m), f_remove_companion = (\<lambda>p m. m)\<rparr>"

lemma memory_fs_laws:
  "keep_laws memory_fs mf_content"
  "change_laws memory_fs mf_content"
  "inspect_laws memory_fs mf_content"
  by (auto simp: keep_laws_def change_laws_def inspect_laws_def memory_fs_def mf_reserve_def mf_rename_def
      mf_link_def mf_remove_def same_but_def fun_upd_idem split: option.splits)

definition note_path :: path where "note_path = ''/work/note.txt''"

definition note_files :: memory_files where
  "note_files = \<lparr>mf_content = [note_path \<mapsto> [1, 2]], mf_seed = 3\<rparr>"

lemma note_absolute: "f_absolute memory_fs note_path s = Some note_path"
  by (simp add: memory_fs_def note_path_def is_absolute_def starts_with_def)

lemma note_not_staged: "\<not> stage_name note_path"
  by (simp add: stage_name_def note_path_def path_filename_def starts_with_def)

lemma memory_fs_calls:
  "f_absolute memory_fs p m = Some (if is_absolute p then p else ''/work/'' @ p)"
  "f_canonical memory_fs p m = Inr (lexically_normal p)"
  "f_status memory_fs p m = (if mf_content m p = None then (2, \<lparr>fs_type = Not_Found, fs_permissions = 0\<rparr>)
       else (0, \<lparr>fs_type = Regular, fs_permissions = 420\<rparr>))"
  "f_nonce memory_fs m = (mf_seed m, m\<lparr>mf_seed := mf_seed m + 1\<rparr>)"
  "f_reserve memory_fs = mf_reserve" "f_create_directories memory_fs p m = (0, m)"
  "f_permissions memory_fs p i m = (None, m)"
  "f_open_write memory_fs p m = (True, m\<lparr>mf_content := (mf_content m)(p \<mapsto> [])\<rparr>)"
  "f_write memory_fs p bytes m = (True, m\<lparr>mf_content := (mf_content m)(p \<mapsto> bytes)\<rparr>)"
  "f_close_write memory_fs p m = (True, m)"
  "f_size memory_fs p m = (case mf_content m p of None \<Rightarrow> (2, 0) | Some c \<Rightarrow> (0, length c))"
  "f_open_read memory_fs p m = (mf_content m p \<noteq> None)"
  "f_read memory_fs p i n m = map_option (\<lambda>c. take n (drop i c)) (mf_content m p)"
  "f_rename memory_fs = mf_rename" "f_link memory_fs = mf_link" "f_remove memory_fs = mf_remove"
  "f_access memory_fs p m = None" "f_lease memory_fs p x m = (Inr True, m)"
  "f_unlease memory_fs p m = m" "f_enqueue memory_fs p m = m" "f_message memory_fs ec = ''error''"
  by (simp_all add: memory_fs_def)

lemma lease_work: "lease_directory_ok ''/work''" by (simp add: lease_directory_ok_def is_absolute_def starts_with_def lexically_normal_def)

lemma parent_note: "parent_path note_path = ''/work''" "path_filename note_path = ''note.txt''" "extension_of note_path = ''.txt''"
  "is_absolute note_path" "note_path \<noteq> []" "\<not> has_nul note_path"
  by (simp_all add: note_path_def parent_path_def path_filename_def extension_of_def is_absolute_def starts_with_def has_nul_def)

lemma no_nul: "\<not> has_nul ''/work''" by (simp add: has_nul_def)




section \<open>Runs\<close>

definition stage_path :: path where
  "stage_path = path_append ''/work'' (''.iifile-stage-'' @ (nat_to_string 3 @ ''-'' @ nat_to_string 4) @ ''.txt'')"

lemma number_no_separator: "CHR ''/'' \<notin> set (nat_to_string n)"
  by (auto dest!: nat_to_string_digits simp: is_digit_def)

lemma parent_path_work:
  assumes "CHR ''/'' \<notin> set name"
  shows "parent_path (''/work/'' @ name) = ''/work''"
proof -
  have "dropWhile (\<lambda>c. c \<noteq> CHR ''/'') (rev name @ xs) = dropWhile (\<lambda>c. c \<noteq> CHR ''/'') xs" for xs
    using assms by (intro dropWhile_append2) auto
  then show ?thesis by (simp add: parent_path_def)
qed

lemma stage_path_ne: "stage_path \<noteq> note_path" "parent_path stage_path = ''/work''"
  using parent_path_work [of "''.iifile-stage-'' @ (nat_to_string 3 @ ''-'' @ nat_to_string 4) @ ''.txt''"]
  by (simp_all add: stage_path_def note_path_def path_append_def ends_with_def number_no_separator)


definition stage_files :: memory_files where
  "stage_files = \<lparr>mf_content = [note_path \<mapsto> [1, 2], stage_path \<mapsto> []], mf_seed = 5\<rparr>"

lemma reserve_first: "reserve_staged F 128 p e = abind (acall (nonce F)) (\<lambda>random.
     let path = path_append p (''.iifile-stage-'' @ random @ e)
     in abind (acall (f_reserve F path)) (\<lambda>reserved.
        if reserved then areturn path else reserve_staged F 127 p e))"
  using reserve_staged.simps(2) [of F 127 p e] by simp

lemma sample_reserved: "reserve_staged memory_fs 128 ''/work'' ''.txt'' note_files = (Inr stage_path, stage_files)"
proof -
  have n: "nonce memory_fs note_files = (nat_to_string 3 @ ''-'' @ nat_to_string 4, note_files\<lparr>mf_seed := 5\<rparr>)"
    by (simp add: nonce_def memory_fs_calls note_files_def)
  have "mf_reserve stage_path (note_files\<lparr>mf_seed := 5\<rparr>) = (True, stage_files)"
    using stage_path_ne(1) by (simp add: mf_reserve_def note_files_def stage_files_def)
  then show ?thesis
    unfolding reserve_first
    by (simp only: abind_def acall_def n Let_def prod.case sum.case stage_path_def [symmetric] memory_fs_calls if_True areturn_def)
qed

lemma sample_opened: "staged_open memory_fs note_path note_files = (Inr \<lparr>staged_path = stage_path,
   staged_destination = note_path, staged_lease = ''/work'', staged_published = False\<rparr>, stage_files)"
 by (simp add: staged_open_def abind_def acheck_def areturn_def absolute_def aget_def alift_def acall_def memory_fs_calls
   parent_note parentOf_def createDirectories_def acquire_lease_def validate_lease_def lease_work no_nul sample_reserved)

lemma sample_write: "fst (file_write memory_fs note_path [7, 8] note_files) = Inr ()"
  using stage_path_ne by (simp add: file_write_def sample_opened writeStaged_def staged_publish_def file_publish_def publish_body_def
    abind_def acheck_def areturn_def aget_def acall_def memory_fs_calls parent_note parentOf_def canonical_def symlink_status_def
    set_permissions_def stage_files_def mf_rename_def exists_status_def streamsize_max_def unpublished_def)

lemma sample_update: "fst (file_update memory_fs note_path [1,2] [7, 8] note_files) = Inr ()"
proof -
  have "file_read memory_fs note_path (Suc (Suc (Suc 0))) note_files = (Inr [1, 2], note_files)"
    by (simp add: file_read_def open_read_def checkedPath_def absolute_def abind_def acheck_def areturn_def aget_def alift_def
      memory_fs_calls parent_note read_string_def read_bytes_def streamsize_max_def note_files_def)
  moreover have "mf_content note_files note_path = Some [1, 2]" by (simp add: note_files_def)
  ultimately show ?thesis using sample_write
    by (simp add: file_update_def checkedPath_def absolute_def abind_def acheck_def areturn_def aget_def size_max_def no_such_file_def
      memory_fs_calls parent_note numeral_3_eq_3)
qed

lemma sample_create: "fst (file_create memory_fs note_path [7, 8] note_files) = Inl (file_failure ''Exclusive file publication failed: error'' Already_Exists)"
  using stage_path_ne by (simp add: file_create_def checkedPath_def absolute_def sample_opened writeStaged_def afinally_def
    abind_def acheck_def areturn_def afail_def aget_def acall_def memory_fs_calls parent_note stage_files_def mf_link_def
    streamsize_max_def file_exists_error_def)
end
