(* ===== verification/Native_File_Properties.thy ===== *)
theory Native_File_Properties
  imports Native_File_Sample
begin

text \<open>
  The properties of the native file operations, each with a run on the file system in memory.
\<close>

section \<open>The properties\<close>







text \<open>
  A destination written as \<open>./name\<close> passes the path check and is still never written: the
  lease refuses the directory, whose absolute name is not normalized, on every file system.
\<close>
theorem dot_destination_refused:
  assumes "name \<noteq> []" and "CHR ''/'' \<notin> set name"
    and "f_absolute F (''./'' @ name) s = Some (dir @ ''/./'' @ name)"
  shows "\<exists>e. fst (file_write F (''./'' @ name) bytes s) = Inl e"
proof -
  have "parent_path (dir @ ''/./'' @ name) = dir @ ''/.''" by (rule parent_path_dot [OF assms(2)])
  then obtain e s' where "staged_open F (''./'' @ name) s = (Inl e, s')"
    using staged_open_refused [OF assms(3)] dot_directory_refused [of dir] by auto
  then show ?thesis by (simp add: file_write_def)
qed

theorem dot_destination_refused_witness:
  "\<exists>e. fst (file_write memory_fs ''./a.txt'' [1] note_files) = Inl e"
  using dot_destination_refused [of "''a.txt''" memory_fs note_files "''/work''"]
  by (simp add: memory_fs_def is_absolute_def starts_with_def)

end
