(* ===== verification/Qt_Contract.thy ===== *)
theory Qt_Contract
  imports Complex_Main Native_Text
begin

text \<open>
  The parsing helpers of the Qt identity classes (\<open>src/API/JsonContract.h\<close>).  A \<open>QString\<close> is
  its UTF-16 code units, a \<open>QDateTime\<close> its instant in milliseconds or \<open>None\<close> when invalid, a JSON
  number the rational its double stands for.  Unicode tables, \<open>QUrl\<close>, date texts, time zones and
  the JSON printer of Qt are the fields of \<open>qt_library\<close>.
\<close>

section \<open>Values\<close>

type_synonym qstring = "16 word list"

definition q :: "string \<Rightarrow> qstring" where
  "q s = map (\<lambda>c. of_nat (of_char c)) s"

datatype qjson =
    Undefined
  | QNull
  | QBool bool
  | QNumber rat
  | QText qstring
  | QArray "qjson list"
  | QObject "(qstring \<times> qjson) list"

type_synonym qdate = "int option"

record 'u qt_library =
  qt_nfc :: "qstring \<Rightarrow> qstring"
  qt_nfkc :: "qstring \<Rightarrow> qstring"
  qt_lower :: "qstring \<Rightarrow> qstring"
  qt_space :: "16 word \<Rightarrow> bool"
  qt_category :: "nat \<Rightarrow> uc_category"
  qt_compact :: "qjson \<Rightarrow> byte list"
  qt_parse :: "byte list \<Rightarrow> qjson option"
  qt_from_iso :: "qstring \<Rightarrow> qdate"
  qt_to_iso :: "int \<Rightarrow> qstring"
  qt_zone :: "qstring \<Rightarrow> bool"
  qt_sha256 :: "byte list \<Rightarrow> byte list"
  url_strict :: "qstring \<Rightarrow> 'u"
  url_empty :: 'u
  url_is_empty :: "'u \<Rightarrow> bool"
  url_encoded :: "'u \<Rightarrow> qstring"
  url_display :: "'u \<Rightarrow> qstring"
  url_valid :: "'u \<Rightarrow> bool"
  url_relative :: "'u \<Rightarrow> bool"
  url_scheme :: "'u \<Rightarrow> qstring"
  url_host :: "'u \<Rightarrow> qstring"
  url_userinfo :: "'u \<Rightarrow> qstring"
  url_path :: "'u \<Rightarrow> qstring"
  url_has_query :: "'u \<Rightarrow> bool"
  url_has_fragment :: "'u \<Rightarrow> bool"
  url_port :: "'u \<Rightarrow> int"
  url_adjusted :: "'u \<Rightarrow> 'u" \<comment> \<open>\<open>adjusted(RemovePath)\<close>\<close>
  url_without_path :: "'u \<Rightarrow> 'u" \<comment> \<open>\<open>setPath({})\<close>\<close>
  url_set_port :: "int \<Rightarrow> 'u \<Rightarrow> 'u"
  url_resolved :: "'u \<Rightarrow> 'u \<Rightarrow> 'u"

text \<open>\<open>InvalidField\<close>: the field that was refused.\<close>

type_synonym 'a field_result = "(string, 'a) result"

definition require_field :: "bool \<Rightarrow> string \<Rightarrow> unit field_result" where
  "require_field valid field = require_that field valid"

section \<open>UTF-16\<close>

definition high_surrogate :: "16 word \<Rightarrow> bool" where
  "high_surrogate u \<longleftrightarrow> 0xD800 \<le> u \<and> u < 0xDC00"

definition low_surrogate :: "16 word \<Rightarrow> bool" where
  "low_surrogate u \<longleftrightarrow> 0xDC00 \<le> u \<and> u < 0xE000"

fun valid_utf16 :: "qstring \<Rightarrow> bool" where
  "valid_utf16 [] = True"
| "valid_utf16 (u # us) =
     (if high_surrogate u then (case us of v # vs \<Rightarrow> low_surrogate v \<and> valid_utf16 vs | [] \<Rightarrow> False)
      else \<not> low_surrogate u \<and> valid_utf16 us)"

fun ucs4 :: "qstring \<Rightarrow> nat list" where
  "ucs4 [] = []"
| "ucs4 (u # us) =
     (case us of
        v # vs \<Rightarrow>
          if high_surrogate u \<and> low_surrogate v
          then (0x10000 + (unat u - 0xD800) * 0x400 + (unat v - 0xDC00)) # ucs4 vs
          else (if high_surrogate u \<or> low_surrogate u then 0xFFFD else unat u) # ucs4 us
      | [] \<Rightarrow> [if high_surrogate u \<or> low_surrogate u then 0xFFFD else unat u])"

definition utf8_length :: "nat \<Rightarrow> nat" where
  "utf8_length cp = (if cp < 0x80 then 1 else if cp < 0x800 then 2 else if cp < 0x10000 then 3 else 4)"

section \<open>Regular expressions of the contract\<close>

definition unit_in :: "16 word \<Rightarrow> (char \<Rightarrow> bool) \<Rightarrow> bool" where
  "unit_in u P \<longleftrightarrow> unat u < 128 \<and> P (char_of (unat u))"

definition all_units :: "(char \<Rightarrow> bool) \<Rightarrow> qstring \<Rightarrow> bool" where
  "all_units P s \<longleftrightarrow> list_all (\<lambda>u. unit_in u P) s"

text \<open>The class \<open>[A-Za-z0-9_-]\<close>.\<close>

definition id_char :: "char \<Rightarrow> bool" where
  "id_char c \<longleftrightarrow> is_alnum c \<or> c = CHR ''_'' \<or> c = CHR ''-''"

definition subject_ok :: "qstring \<Rightarrow> bool" where
  "subject_ok s \<longleftrightarrow> 1 \<le> length s \<and> length s \<le> 128 \<and> all_units id_char s"

definition hex_id_ok :: "nat \<Rightarrow> qstring \<Rightarrow> bool" where
  "hex_id_ok n s \<longleftrightarrow> length s = n \<and> all_units is_lower_hex s"

definition user_ok :: "qstring \<Rightarrow> bool" where
  "user_ok s \<longleftrightarrow> take 1 s = q ''@'' \<and> 3 \<le> length (drop 1 s) \<and> length (drop 1 s) \<le> 30 \<and>
     all_units (\<lambda>c. is_lower c \<or> is_digit c \<or> c = CHR ''_'') (drop 1 s)"

definition regex_space :: "16 word \<Rightarrow> bool" where
  "regex_space u \<longleftrightarrow> u = 32 \<or> (9 \<le> u \<and> u \<le> 13)"

definition at_sign :: "16 word" where "at_sign = 64"

definition email_ok :: "qstring \<Rightarrow> bool" where
  "email_ok s \<longleftrightarrow>
     (let local = takeWhile (\<lambda>u. u \<noteq> at_sign) s; domain = drop (length local + 1) s
      in local \<noteq> [] \<and> length local < length s \<and> at_sign \<notin> set domain \<and>
         list_all (\<lambda>u. \<not> regex_space u) s \<and> 46 \<in> set (butlast (drop 1 domain)))"

definition avatar_path_ok :: "qstring \<Rightarrow> bool" where
  "avatar_path_ok s \<longleftrightarrow>
     (let prefix = q ''/media/avatars/''; name = drop (length prefix) s
      in take (length prefix) s = prefix \<and> all_units is_lower_hex (take 64 name) \<and> drop 64 name = q ''.webp'' \<and>
         length (take 64 name) = 64)"

fun split_units :: "16 word \<Rightarrow> qstring \<Rightarrow> qstring list" where
  "split_units d [] = [[]]"
| "split_units d (u # us) =
     (if u = d then [] # split_units d us
      else (case split_units d us of [] \<Rightarrow> [[u]] | p # ps \<Rightarrow> (u # p) # ps))"

definition locale_ok :: "qstring \<Rightarrow> bool" where
  "locale_ok s \<longleftrightarrow>
     (let parts = split_units 45 s
      in 2 \<le> length (hd parts) \<and> length (hd parts) \<le> 8 \<and> all_units is_alpha (hd parts) \<and>
         list_all (\<lambda>p. 1 \<le> length p \<and> length p \<le> 8 \<and> all_units is_alnum p) (tl parts))"

definition country_ok :: "qstring \<Rightarrow> bool" where
  "country_ok s \<longleftrightarrow> length s = 2 \<and> all_units is_upper s"

text \<open>Four, two and two digits of the date, the time, up to three digits of a fraction, the zone.\<close>

definition digits_at :: "qstring \<Rightarrow> nat \<Rightarrow> nat \<Rightarrow> bool" where
  "digits_at s p n \<longleftrightarrow> p + n \<le> length s \<and> all_units is_digit (take n (drop p s))"

definition zone_suffix_ok :: "qstring \<Rightarrow> bool" where
  "zone_suffix_ok s \<longleftrightarrow> s = q ''Z'' \<or>
     (length s = 6 \<and> (take 1 s = q ''+'' \<or> take 1 s = q ''-'') \<and> digits_at s 1 2 \<and> take 1 (drop 3 s) = q '':'' \<and> digits_at s 4 2)"

definition timestamp_shape_ok :: "qstring \<Rightarrow> bool" where
  "timestamp_shape_ok s \<longleftrightarrow>
     digits_at s 0 4 \<and> take 1 (drop 4 s) = q ''-'' \<and> digits_at s 5 2 \<and> take 1 (drop 7 s) = q ''-'' \<and>
     digits_at s 8 2 \<and> take 1 (drop 10 s) = q ''T'' \<and> digits_at s 11 2 \<and> take 1 (drop 13 s) = q '':'' \<and>
     digits_at s 14 2 \<and> take 1 (drop 16 s) = q '':'' \<and> digits_at s 17 2 \<and>
     (zone_suffix_ok (drop 19 s) \<or>
      (take 1 (drop 19 s) = q ''.'' \<and>
       (\<exists>n \<in> {1, 2, 3}. digits_at s 20 n \<and> zone_suffix_ok (drop (20 + n) s))))"

section \<open>JSON access\<close>

fun qvalue :: "(qstring \<times> qjson) list \<Rightarrow> string \<Rightarrow> qjson" where
  "qvalue kvs k = (case map_of kvs (q k) of None \<Rightarrow> Undefined | Some v \<Rightarrow> v)"

definition trimmed :: "'u qt_library \<Rightarrow> qstring \<Rightarrow> qstring" where
  "trimmed L s = rev (dropWhile (qt_space L) (rev (dropWhile (qt_space L) s)))"

definition plain_point :: "'u qt_library \<Rightarrow> nat \<Rightarrow> bool" where
  "plain_point L code \<longleftrightarrow> qt_category L code \<notin> {Cat_CC, Cat_ZL, Cat_ZP}"

definition cleanText :: "'u qt_library \<Rightarrow> qstring \<Rightarrow> string \<Rightarrow> nat \<Rightarrow> bool \<Rightarrow> bool \<Rightarrow> qstring field_result" where
  "cleanText L s field maximum required multiline =
     rbind (require_field (valid_utf16 s) field) (\<lambda>_.
     let s = trimmed L (qt_nfc L s)
     in rbind (require_field ((\<not> required \<or> s \<noteq> []) \<and> length (ucs4 s) \<le> maximum) field) (\<lambda>_.
        rbind (require_field (list_all (\<lambda>code. multiline \<and> code = 10 \<or> plain_point L code) (ucs4 s)) field) (\<lambda>_.
        Inr s)))"

definition qtext :: "'u qt_library \<Rightarrow> (qstring \<times> qjson) list \<Rightarrow> string \<Rightarrow> nat \<Rightarrow> bool \<Rightarrow> bool \<Rightarrow> qstring field_result" where
  "qtext L kvs key maximum required multiline = (case qvalue kvs key of
     QText s \<Rightarrow> cleanText L s key maximum required multiline
   | Undefined \<Rightarrow> if required then Inl key else Inr []
   | _ \<Rightarrow> Inl key)"

definition qobject :: "(qstring \<times> qjson) list \<Rightarrow> string \<Rightarrow> bool \<Rightarrow> (qstring \<times> qjson) list field_result" where
  "qobject kvs key required = (case qvalue kvs key of
     QObject m \<Rightarrow> Inr m
   | Undefined \<Rightarrow> if required then Inl key else Inr []
   | _ \<Rightarrow> Inl key)"

definition knownKeys :: "(qstring \<times> qjson) list \<Rightarrow> string list \<Rightarrow> string \<Rightarrow> unit field_result" where
  "knownKeys kvs known field = require_field (list_all (\<lambda>(k, v). k \<in> set (map q known)) kvs) field"

definition qtimestamp :: "'u qt_library \<Rightarrow> (qstring \<times> qjson) list \<Rightarrow> string \<Rightarrow> bool \<Rightarrow> qdate field_result" where
  "qtimestamp L kvs key required =
     (let v = qvalue kvs key
      in if (v = QNull \<or> v = Undefined) \<and> \<not> required then Inr None
         else case v of
           QText raw \<Rightarrow> rbind (require_field (timestamp_shape_ok raw) key) (\<lambda>_.
             case qt_from_iso L raw of None \<Rightarrow> Inl key | Some t \<Rightarrow> Inr (Some t))
         | _ \<Rightarrow> Inl key)"

definition dateJson :: "'u qt_library \<Rightarrow> qdate \<Rightarrow> qjson" where
  "dateJson L d = (case d of None \<Rightarrow> QNull | Some t \<Rightarrow> QText (qt_to_iso L t))"

definition httpsUrl :: "'u qt_library \<Rightarrow> qstring \<Rightarrow> string \<Rightarrow> bool \<Rightarrow> 'u field_result" where
  "httpsUrl L raw field required =
     (if raw = [] \<and> \<not> required then Inr (url_empty L)
      else let url = url_strict L raw
        in rbind (require_field (length raw \<le> 2048 \<and> url_valid L url \<and> url_scheme L url = q ''https'' \<and>
             url_host L url \<noteq> [] \<and> url_userinfo L url = []) field) (\<lambda>_. Inr url))"

definition serviceOrigin :: "'u qt_library \<Rightarrow> 'u \<Rightarrow> 'u field_result" where
  "serviceOrigin L v =
     rbind (httpsUrl L (url_encoded L v) ''serviceOrigin'' True) (\<lambda>url.
     rbind (require_field ((url_path L url = [] \<or> url_path L url = q ''/'') \<and> \<not> url_has_query L url \<and>
       \<not> url_has_fragment L url) ''serviceOrigin'') (\<lambda>_.
     let url = url_without_path L url
     in Inr (if url_port L url = 443 then url_set_port L (-1) url else url)))"

definition qemail :: "'u qt_library \<Rightarrow> qstring \<Rightarrow> string \<Rightarrow> qstring field_result" where
  "qemail L v field =
     (let v = qt_lower L (qt_nfkc L v)
      in rbind (require_field (3 \<le> length v \<and> length v \<le> 254 \<and> email_ok v \<and>
           length (takeWhile (\<lambda>u. u \<noteq> at_sign) v) \<le> 64) field) (\<lambda>_. Inr v))"

text \<open>\<open>finishError\<close>: an operation reports its failure as text.\<close>

definition finishError :: "string \<Rightarrow> string" where
  "finishError field = ''Invalid '' @ field @ ''.''"

end
