(* ===== verification/Qt_Author.thy ===== *)
theory Qt_Author
  imports Qt_Contract
begin

text \<open>
  File authors of the Qt library (\<open>src/Identity/FileAuthor.cpp\<close>) and authentication tokens
  (\<open>src/Identity/AuthenticationToken.cpp\<close>).  The table \<open>detailFields\<close> of member pointers is the
  list \<open>qdetail_fields\<close>; the values of those members are kept in its order.
\<close>

section \<open>Data\<close>

datatype membership = Free | Plus | Pro | Enterprise

record 'u q_account =
  ac_sub :: qstring
  ac_email :: qstring
  ac_displayName :: qstring
  ac_userId :: qstring
  ac_membership :: membership
  ac_avatarUrl :: 'u

record 'u q_link =
  ql_relation :: qstring
  ql_label :: qstring
  ql_url :: 'u

record q_identifier =
  qi_scheme :: qstring
  qi_value :: qstring

record 'u q_details =
  qd_values :: "qstring list"
  qd_links :: "'u q_link list"
  qd_identifiers :: "q_identifier list"

record 'u q_attribution =
  qa_roles :: "qstring list"
  qa_credit :: qstring
  qa_copyrightNotice :: qstring
  qa_licenseIdentifier :: qstring
  qa_licenseUrl :: 'u
  qa_documentId :: qstring
  qa_projectId :: qstring
  qa_workspaceId :: qstring
  qa_createdAt :: qdate
  qa_modifiedAt :: qdate

record q_device =
  dv_id :: qstring
  dv_type :: qstring
  dv_name :: qstring
  dv_platform :: qstring
  dv_osVersion :: qstring
  dv_appId :: qstring
  dv_appVersion :: qstring

record login_session =
  ls_id :: qstring
  ls_client :: qstring
  ls_device :: q_device
  ls_createdAt :: qdate
  ls_lastSeenAt :: qdate
  ls_expiresAt :: qdate

record 'u q_metadata =
  md_account :: "'u q_account"
  md_details :: "'u q_details"
  md_attribution :: "'u q_attribution"
  md_serviceOrigin :: 'u
  md_capturedAt :: qdate
  md_device :: "q_device option"

datatype token_kind = IisaccSession | CognitoId | CognitoAccess | CognitoRefresh

record 'u token_info =
  ti_kind :: token_kind
  ti_subject :: qstring
  ti_serviceOrigin :: 'u
  ti_sessionId :: qstring
  ti_issuer :: qstring
  ti_audience :: qstring
  ti_scopes :: "qstring list"
  ti_issuedAt :: qdate
  ti_notBefore :: qdate
  ti_expiresAt :: qdate

record 'u token =
  tk_info :: "'u token_info"
  tk_secret :: "byte list"

record 'u q_author =
  qf_metadata :: "'u q_metadata"
  qf_session :: "login_session option"
  qf_token :: "'u token option"

section \<open>Accounts\<close>

definition qmembershipNames :: "(string \<times> membership) list" where
  "qmembershipNames = [(''Free'', Free), (''Plus'', Plus), (''Pro'', Pro), (''Enterprise'', Enterprise)]"

fun qmembershipName :: "membership \<Rightarrow> string" where
  "qmembershipName Free = ''Free''"
| "qmembershipName Plus = ''Plus''"
| "qmembershipName Pro = ''Pro''"
| "qmembershipName Enterprise = ''Enterprise''"

definition read_avatar :: "'u qt_library \<Rightarrow> 'u \<Rightarrow> bool \<Rightarrow> qjson \<Rightarrow> 'u field_result" where
  "read_avatar L service strict v = (case v of
     QNull \<Rightarrow> Inr (url_empty L)
   | Undefined \<Rightarrow> Inr (url_empty L)
   | QText raw \<Rightarrow>
     (let candidate = url_strict L raw
      in rbind (if strict \<and> \<not> url_relative L candidate
                then rbind (require_field (url_valid L candidate \<and> url_adjusted L candidate = service) ''avatarUrl'')
                       (\<lambda>_. Inr candidate)
                else rbind (require_field (take 1 raw = q ''/'' \<and> take 2 raw \<noteq> q ''//'') ''avatarUrl'')
                       (\<lambda>_. Inr (url_resolved L service candidate))) (\<lambda>url.
         rbind (require_field (url_valid L url \<and> \<not> url_has_query L url \<and> \<not> url_has_fragment L url \<and>
           url_userinfo L url = [] \<and> avatar_path_ok (url_path L url)) ''avatarUrl'') (\<lambda>_. Inr url)))
   | _ \<Rightarrow> Inl ''avatarUrl'')"

definition account_keys :: "string list" where
  "account_keys = [''sub'', ''email'', ''displayName'', ''userId'', ''societyCloudMembership'', ''avatarUrl'']"

definition qreadAccount :: "'u qt_library \<Rightarrow> (qstring \<times> qjson) list \<Rightarrow> 'u \<Rightarrow> bool \<Rightarrow> 'u q_account field_result" where
  "qreadAccount L kvs service strict =
     rbind (if strict then knownKeys kvs account_keys ''account.fields'' else Inr ()) (\<lambda>_.
     rbind (case qvalue kvs ''sub'' of QText s \<Rightarrow> Inr s | _ \<Rightarrow> Inl ''sub'') (\<lambda>sub.
     rbind (require_field (subject_ok sub) ''sub'') (\<lambda>_.
     rbind (qtext L kvs ''email'' 254 True False) (\<lambda>raw_email.
     rbind (qemail L raw_email ''email'') (\<lambda>email.
     rbind (qtext L kvs ''displayName'' 80 False False) (\<lambda>displayName.
     rbind (qtext L kvs ''userId'' 31 False False) (\<lambda>userId.
     rbind (require_field (userId = [] \<or> user_ok userId) ''userId'') (\<lambda>_.
     rbind (if map_of kvs (q ''societyCloudMembership'') \<noteq> None
            then qtext L kvs ''societyCloudMembership'' 16 True False else Inr (q ''Free'')) (\<lambda>name.
     rbind (of_option ''societyCloudMembership'' (map_of (map (\<lambda>(n, m). (q n, m)) qmembershipNames) name)) (\<lambda>membership.
     rbind (read_avatar L service strict (qvalue kvs ''avatarUrl'')) (\<lambda>avatar.
     Inr \<lparr>ac_sub = sub, ac_email = email, ac_displayName = displayName, ac_userId = userId,
          ac_membership = membership, ac_avatarUrl = avatar\<rparr>)))))))))))"

definition qobj :: "(string \<times> qjson) list \<Rightarrow> qjson" where
  "qobj kvs = QObject (map (\<lambda>(k, v). (q k, v)) kvs)"

definition qaccountJson :: "'u qt_library \<Rightarrow> 'u q_account \<Rightarrow> qjson" where
  "qaccountJson L a = qobj
     [(''sub'', QText (ac_sub a)), (''email'', QText (ac_email a)), (''displayName'', QText (ac_displayName a)),
      (''userId'', QText (ac_userId a)), (''societyCloudMembership'', QText (q (qmembershipName (ac_membership a)))),
      (''avatarUrl'', if url_is_empty L (ac_avatarUrl a) then QNull else QText (url_encoded L (ac_avatarUrl a)))]"

section \<open>Details\<close>

definition qdetail_fields :: "(string \<times> nat) list" where
  "qdetail_fields =
     [(''fullName'', 160), (''givenName'', 80), (''additionalName'', 80), (''familyName'', 80), (''pseudonym'', 80),
      (''biography'', 4096), (''organization'', 160), (''organizationId'', 128), (''department'', 160),
      (''team'', 160), (''jobTitle'', 160), (''contactEmail'', 254), (''phoneNumber'', 64), (''locale'', 64),
      (''timeZone'', 128), (''countryCode'', 2), (''region'', 160), (''city'', 160)]"

definition read_detail_texts :: "'u qt_library \<Rightarrow> (qstring \<times> qjson) list \<Rightarrow> qstring list field_result" where
  "read_detail_texts L kvs =
     mapM (\<lambda>(key, maximum). qtext L kvs key maximum False (key = ''biography'')) qdetail_fields"

text \<open>The value of a detail by its key, and its replacement.\<close>

definition detail :: "qstring list \<Rightarrow> string \<Rightarrow> qstring" where
  "detail vs key = (case map_of (zip (map fst qdetail_fields) vs) key of None \<Rightarrow> [] | Some v \<Rightarrow> v)"

definition set_detail :: "qstring list \<Rightarrow> string \<Rightarrow> qstring \<Rightarrow> qstring list" where
  "set_detail vs key v = map (\<lambda>(k, x). if k = key then v else x) (zip (map fst qdetail_fields) vs)"

definition qread_link :: "'u qt_library \<Rightarrow> qjson \<Rightarrow> 'u q_link field_result" where
  "qread_link L entry = (case entry of
     QObject item \<Rightarrow>
       rbind (knownKeys item [''relation'', ''label'', ''url''] ''links.fields'') (\<lambda>_.
       rbind (qtext L item ''url'' 2048 True False) (\<lambda>raw.
       rbind (httpsUrl L raw ''links.url'' True) (\<lambda>url.
       rbind (require_field (length (url_encoded L url) \<le> 2048) ''links.url'') (\<lambda>_.
       rbind (qtext L item ''relation'' 40 True False) (\<lambda>relation.
       rbind (qtext L item ''label'' 160 False False) (\<lambda>label.
       Inr \<lparr>ql_relation = relation, ql_label = label, ql_url = url\<rparr>))))))
   | _ \<Rightarrow> Inl ''links'')"

definition qread_identifier :: "'u qt_library \<Rightarrow> qjson \<Rightarrow> q_identifier field_result" where
  "qread_identifier L entry = (case entry of
     QObject item \<Rightarrow>
       rbind (knownKeys item [''scheme'', ''value''] ''identifiers.fields'') (\<lambda>_.
       rbind (qtext L item ''scheme'' 40 True False) (\<lambda>scheme.
       rbind (qtext L item ''value'' 256 True False) (\<lambda>v.
       Inr \<lparr>qi_scheme = scheme, qi_value = v\<rparr>)))
   | _ \<Rightarrow> Inl ''identifiers'')"

definition qread_entries :: "(qjson \<Rightarrow> 'a field_result) \<Rightarrow> string \<Rightarrow> qjson \<Rightarrow> 'a list field_result" where
  "qread_entries f key v = (case v of
     Undefined \<Rightarrow> Inr []
   | QArray es \<Rightarrow> rbind (require_field (length es \<le> 32) key) (\<lambda>_. mapM f es)
   | _ \<Rightarrow> Inl key)"

definition qdetailsJson :: "'u qt_library \<Rightarrow> 'u q_details \<Rightarrow> qjson" where
  "qdetailsJson L d = qobj (map2 (\<lambda>(key, _) v. (key, QText v)) qdetail_fields (qd_values d) @
     [(''links'', QArray (map (\<lambda>l. qobj [(''relation'', QText (ql_relation l)), (''label'', QText (ql_label l)),
        (''url'', QText (url_encoded L (ql_url l)))]) (qd_links d))),
      (''identifiers'', QArray (map (\<lambda>i. qobj [(''scheme'', QText (qi_scheme i)), (''value'', QText (qi_value i))])
        (qd_identifiers d)))])"

definition qcompact_size :: "'u qt_library \<Rightarrow> qjson \<Rightarrow> nat" where
  "qcompact_size L j = length (qt_compact L j)"

definition qreadDetails :: "'u qt_library \<Rightarrow> (qstring \<times> qjson) list \<Rightarrow> 'u q_details field_result" where
  "qreadDetails L kvs =
     rbind (require_field (qcompact_size L (QObject kvs) \<le> 65536) ''details.size'') (\<lambda>_.
     rbind (read_detail_texts L kvs) (\<lambda>vs.
     rbind (knownKeys kvs ([''links'', ''identifiers''] @ map fst qdetail_fields) ''details.fields'') (\<lambda>_.
     rbind (if detail vs ''contactEmail'' \<noteq> []
            then rbind (qemail L (detail vs ''contactEmail'') ''contactEmail'') (\<lambda>e. Inr (set_detail vs ''contactEmail'' e))
            else Inr vs) (\<lambda>vs.
     rbind (require_field (detail vs ''locale'' = [] \<or> locale_ok (detail vs ''locale'')) ''locale'') (\<lambda>_.
     rbind (require_field (detail vs ''countryCode'' = [] \<or> country_ok (detail vs ''countryCode'')) ''countryCode'') (\<lambda>_.
     rbind (require_field (detail vs ''timeZone'' = [] \<or> qt_zone L (detail vs ''timeZone'')) ''timeZone'') (\<lambda>_.
     rbind (qread_entries (qread_link L) ''links'' (qvalue kvs ''links'')) (\<lambda>links.
     rbind (qread_entries (qread_identifier L) ''identifiers'' (qvalue kvs ''identifiers'')) (\<lambda>ids.
     let d = \<lparr>qd_values = vs, qd_links = links, qd_identifiers = ids\<rparr>
     in rbind (require_field (qcompact_size L (qdetailsJson L d) \<le> 65536) ''details.size'') (\<lambda>_. Inr d))))))))))"

end
