(* ===== verification/Qt_Session.thy ===== *)
theory Qt_Session
  imports Qt_Author
begin

text \<open>
  The rest of \<open>src/Identity/FileAuthor.cpp\<close>: attributions, devices, the metadata document, the
  author made from an account or from an app session, and the operations on the author;
  and the tokens of \<open>src/Identity/AuthenticationToken.cpp\<close>.  The value \<open>Inl field\<close> is the exception
  \<open>InvalidField\<close>; the public operation catches it, reports \<open>finishError field\<close> and returns nothing.
\<close>

section \<open>Instants\<close>

text \<open>\<open>QDateTime\<close> orders an invalid instant before every valid one.\<close>

fun date_le :: "qdate \<Rightarrow> qdate \<Rightarrow> bool" where
  "date_le None d = True"
| "date_le (Some a) None = False"
| "date_le (Some a) (Some b) = (a \<le> b)"

definition date_less :: "qdate \<Rightarrow> qdate \<Rightarrow> bool" where
  "date_less c d \<longleftrightarrow> \<not> date_le d c"

section \<open>Attribution\<close>

fun qread_roles :: "'u qt_library \<Rightarrow> qstring list \<Rightarrow> qjson list \<Rightarrow> qstring list field_result" where
  "qread_roles L acc [] = Inr acc"
| "qread_roles L acc (QText raw # es) =
     rbind (cleanText L raw ''roles'' 40 True False) (\<lambda>name.
     rbind (require_field (name \<notin> set acc) ''roles'') (\<lambda>_. qread_roles L (acc @ [name]) es))"
| "qread_roles L acc (_ # es) = Inl ''roles''"

definition attribution_keys :: "string list" where
  "attribution_keys = [''roles'', ''credit'', ''copyrightNotice'', ''licenseIdentifier'', ''licenseUrl'', ''documentId'',
     ''projectId'', ''workspaceId'', ''createdAt'', ''modifiedAt'']"

definition qreadAttribution :: "'u qt_library \<Rightarrow> (qstring \<times> qjson) list \<Rightarrow> 'u q_attribution field_result" where
  "qreadAttribution L kvs =
     rbind (knownKeys kvs attribution_keys ''attribution.fields'') (\<lambda>_.
     rbind (case qvalue kvs ''roles'' of
              Undefined \<Rightarrow> Inr []
            | QArray es \<Rightarrow> rbind (require_field (length es \<le> 16) ''roles'') (\<lambda>_. qread_roles L [] es)
            | _ \<Rightarrow> Inl ''roles'') (\<lambda>roles.
     rbind (qtext L kvs ''credit'' 1024 False False) (\<lambda>credit.
     rbind (qtext L kvs ''copyrightNotice'' 1024 False False) (\<lambda>notice.
     rbind (qtext L kvs ''licenseIdentifier'' 128 False False) (\<lambda>license.
     rbind (qtext L kvs ''licenseUrl'' 2048 False False) (\<lambda>raw.
     rbind (httpsUrl L raw ''licenseUrl'' False) (\<lambda>licenseUrl.
     rbind (qtext L kvs ''documentId'' 128 False False) (\<lambda>documentId.
     rbind (qtext L kvs ''projectId'' 128 False False) (\<lambda>projectId.
     rbind (qtext L kvs ''workspaceId'' 128 False False) (\<lambda>workspaceId.
     rbind (qtimestamp L kvs ''createdAt'' False) (\<lambda>createdAt.
     rbind (qtimestamp L kvs ''modifiedAt'' False) (\<lambda>modifiedAt.
     rbind (require_field (createdAt = None \<or> modifiedAt = None \<or> date_le createdAt modifiedAt)
              ''attribution.timestamps'') (\<lambda>_.
     Inr \<lparr>qa_roles = roles, qa_credit = credit, qa_copyrightNotice = notice, qa_licenseIdentifier = license,
          qa_licenseUrl = licenseUrl, qa_documentId = documentId, qa_projectId = projectId,
          qa_workspaceId = workspaceId, qa_createdAt = createdAt, qa_modifiedAt = modifiedAt\<rparr>)))))))))))))"

definition qattributionJson :: "'u qt_library \<Rightarrow> 'u q_attribution \<Rightarrow> qjson" where
  "qattributionJson L a = qobj
     [(''roles'', QArray (map QText (qa_roles a))), (''credit'', QText (qa_credit a)),
      (''copyrightNotice'', QText (qa_copyrightNotice a)), (''licenseIdentifier'', QText (qa_licenseIdentifier a)),
      (''licenseUrl'', QText (url_encoded L (qa_licenseUrl a))), (''documentId'', QText (qa_documentId a)),
      (''projectId'', QText (qa_projectId a)), (''workspaceId'', QText (qa_workspaceId a)),
      (''createdAt'', dateJson L (qa_createdAt a)), (''modifiedAt'', dateJson L (qa_modifiedAt a))]"

section \<open>Devices\<close>

definition device_keys :: "string list" where
  "device_keys = [''id'', ''type'', ''name'', ''platform'', ''osVersion'', ''appId'', ''appVersion'']"

definition qreadDevice :: "'u qt_library \<Rightarrow> (qstring \<times> qjson) list \<Rightarrow> bool \<Rightarrow> q_device field_result" where
  "qreadDevice L kvs strict =
     rbind (if strict then knownKeys kvs device_keys ''device.fields'' else Inr ()) (\<lambda>_.
     rbind (qtext L kvs ''id'' 64 True False) (\<lambda>device_id.
     rbind (qtext L kvs ''type'' 6 True False) (\<lambda>type.
     rbind (require_field (hex_id_ok 64 device_id) ''device.id'') (\<lambda>_.
     rbind (require_field (type = q ''pc'' \<or> type = q ''tablet'') ''device.type'') (\<lambda>_.
     rbind (qtext L kvs ''name'' 80 True False) (\<lambda>name.
     rbind (qtext L kvs ''platform'' 40 True False) (\<lambda>platform.
     rbind (qtext L kvs ''osVersion'' 80 True False) (\<lambda>osVersion.
     rbind (qtext L kvs ''appId'' 128 True False) (\<lambda>appId.
     rbind (qtext L kvs ''appVersion'' 40 True False) (\<lambda>appVersion.
     Inr \<lparr>dv_id = device_id, dv_type = type, dv_name = name, dv_platform = platform, dv_osVersion = osVersion,
          dv_appId = appId, dv_appVersion = appVersion\<rparr>))))))))))"

definition qdeviceJson :: "q_device \<Rightarrow> qjson" where
  "qdeviceJson d = qobj
     [(''id'', QText (dv_id d)), (''type'', QText (dv_type d)), (''name'', QText (dv_name d)),
      (''platform'', QText (dv_platform d)), (''osVersion'', QText (dv_osVersion d)),
      (''appId'', QText (dv_appId d)), (''appVersion'', QText (dv_appVersion d))]"

section \<open>The metadata document\<close>

definition qmetadataJson :: "'u qt_library \<Rightarrow> 'u q_metadata \<Rightarrow> qjson" where
  "qmetadataJson L d = qobj
     [(''schemaVersion'', QNumber 1), (''account'', qaccountJson L (md_account d)),
      (''details'', qdetailsJson L (md_details d)), (''attribution'', qattributionJson L (md_attribution d)),
      (''serviceOrigin'', QText (url_encoded L (md_serviceOrigin d))), (''capturedAt'', dateJson L (md_capturedAt d)),
      (''device'', case md_device d of None \<Rightarrow> QNull | Some v \<Rightarrow> qdeviceJson v)]"

definition metadata_keys :: "string list" where
  "metadata_keys =
     [''schemaVersion'', ''account'', ''details'', ''attribution'', ''serviceOrigin'', ''capturedAt'', ''device'']"

definition qread_optional_device :: "'u qt_library \<Rightarrow> (qstring \<times> qjson) list \<Rightarrow> q_device option field_result" where
  "qread_optional_device L kvs =
     (if qvalue kvs ''device'' = QNull \<or> qvalue kvs ''device'' = Undefined then Inr None
      else rbind (qobject kvs ''device'' True) (\<lambda>m. rbind (qreadDevice L m True) (\<lambda>d. Inr (Some d))))"

definition qreadMetadata :: "'u qt_library \<Rightarrow> (qstring \<times> qjson) list \<Rightarrow> 'u q_metadata field_result" where
  "qreadMetadata L kvs =
     rbind (require_field (qcompact_size L (QObject kvs) \<le> 131072) ''metadata.size'') (\<lambda>_.
     rbind (knownKeys kvs metadata_keys ''metadata.fields'') (\<lambda>_.
     rbind (require_field (qvalue kvs ''schemaVersion'' = QNumber 1) ''schemaVersion'') (\<lambda>_.
     rbind (qtext L kvs ''serviceOrigin'' 2048 True False) (\<lambda>raw.
     rbind (serviceOrigin L (url_strict L raw)) (\<lambda>service.
     rbind (qtimestamp L kvs ''capturedAt'' True) (\<lambda>capturedAt.
     rbind (qobject kvs ''account'' True) (\<lambda>account_json.
     rbind (qreadAccount L account_json service True) (\<lambda>account.
     rbind (qobject kvs ''details'' False) (\<lambda>details_json.
     rbind (qreadDetails L details_json) (\<lambda>details.
     rbind (qobject kvs ''attribution'' False) (\<lambda>attribution_json.
     rbind (qreadAttribution L attribution_json) (\<lambda>attribution.
     rbind (qread_optional_device L kvs) (\<lambda>device.
     Inr \<lparr>md_account = account, md_details = details, md_attribution = attribution,
          md_serviceOrigin = service, md_capturedAt = capturedAt, md_device = device\<rparr>)))))))))))))"

section \<open>Making an author\<close>

definition no_attribution :: "'u qt_library \<Rightarrow> 'u q_attribution" where
  "no_attribution L = \<lparr>qa_roles = [], qa_credit = [], qa_copyrightNotice = [], qa_licenseIdentifier = [],
     qa_licenseUrl = url_empty L, qa_documentId = [], qa_projectId = [], qa_workspaceId = [],
     qa_createdAt = None, qa_modifiedAt = None\<rparr>"

definition qfromIisaccAccount ::
    "'u qt_library \<Rightarrow> (qstring \<times> qjson) list \<Rightarrow> 'u \<Rightarrow> qdate \<Rightarrow> 'u q_author field_result" where
  "qfromIisaccAccount L account_json u capturedAt =
     rbind (require_field (qcompact_size L (QObject account_json) \<le> 131072) ''account.size'') (\<lambda>_.
     rbind (serviceOrigin L u) (\<lambda>service.
     rbind (require_field (capturedAt \<noteq> None) ''capturedAt'') (\<lambda>_.
     rbind (qreadAccount L account_json service False) (\<lambda>account.
     rbind (qobject account_json ''authorDetails'' False) (\<lambda>details_json.
     rbind (qreadDetails L details_json) (\<lambda>details.
     Inr \<lparr>qf_metadata = \<lparr>md_account = account, md_details = details, md_attribution = no_attribution L,
            md_serviceOrigin = service, md_capturedAt = capturedAt, md_device = None\<rparr>,
          qf_session = None, qf_token = None\<rparr>))))))"

definition absent_or_null :: "(qstring \<times> qjson) list \<Rightarrow> string \<Rightarrow> bool" where
  "absent_or_null kvs k \<longleftrightarrow> map_of kvs (q k) = None \<or> map_of kvs (q k) = Some QNull"

definition qread_session ::
    "'u qt_library \<Rightarrow> (qstring \<times> qjson) list \<Rightarrow> qdate \<Rightarrow> login_session field_result" where
  "qread_session L kvs capturedAt =
     rbind (qtext L kvs ''id'' 32 True False) (\<lambda>session_id.
     rbind (require_field (hex_id_ok 32 session_id) ''session.id'') (\<lambda>_.
     rbind (qtext L kvs ''client'' 3 True False) (\<lambda>client.
     rbind (require_field (client = q ''app'' \<and> qvalue kvs ''current'' = QBool True) ''session.current'') (\<lambda>_.
     rbind (qobject kvs ''device'' True) (\<lambda>device_json.
     rbind (qreadDevice L device_json False) (\<lambda>device.
     rbind (qtimestamp L kvs ''createdAt'' True) (\<lambda>createdAt.
     rbind (qtimestamp L kvs ''lastSeenAt'' True) (\<lambda>lastSeenAt.
     rbind (qtimestamp L kvs ''expiresAt'' True) (\<lambda>expiresAt.
     rbind (require_field (date_le createdAt lastSeenAt \<and> date_le lastSeenAt capturedAt \<and>
              date_less capturedAt expiresAt) ''session.timestamps'') (\<lambda>_.
     Inr \<lparr>ls_id = session_id, ls_client = client, ls_device = device, ls_createdAt = createdAt,
          ls_lastSeenAt = lastSeenAt, ls_expiresAt = expiresAt\<rparr>))))))))))"

definition fromIisaccAppSession ::
    "'u qt_library \<Rightarrow> (qstring \<times> qjson) list \<Rightarrow> 'u \<Rightarrow> qdate \<Rightarrow> 'u q_author field_result" where
  "fromIisaccAppSession L response u capturedAt =
     rbind (require_field (qcompact_size L (QObject response) \<le> 196608) ''response.size'') (\<lambda>_.
     rbind (require_field (absent_or_null response ''error'' \<and> absent_or_null response ''challenge'')
              ''response.state'') (\<lambda>_.
     rbind (qobject response ''account'' True) (\<lambda>account_json.
     rbind (qfromIisaccAccount L account_json u capturedAt) (\<lambda>author.
     rbind (qobject response ''session'' True) (\<lambda>session_json.
     rbind (qread_session L session_json capturedAt) (\<lambda>session.
     Inr (author\<lparr>qf_metadata := (qf_metadata author)\<lparr>md_device := Some (ls_device session)\<rparr>,
                 qf_session := Some session\<rparr>)))))))"

definition qauthor_fromJson :: "'u qt_library \<Rightarrow> (qstring \<times> qjson) list \<Rightarrow> 'u q_author field_result" where
  "qauthor_fromJson L kvs =
     rbind (qreadMetadata L kvs) (\<lambda>d. Inr \<lparr>qf_metadata = d, qf_session = None, qf_token = None\<rparr>)"

section \<open>Operations of an author\<close>

definition toIisaccProfileUpdate :: "'u qt_library \<Rightarrow> 'u q_author \<Rightarrow> qjson" where
  "toIisaccProfileUpdate L a = qobj
     [(''displayName'', QText (ac_displayName (md_account (qf_metadata a)))),
      (''authorDetails'', qdetailsJson L (md_details (qf_metadata a)))]"

text \<open>The keys and values of an object, as \<open>toObject\<close> gives them.\<close>

fun toObject :: "qjson \<Rightarrow> (qstring \<times> qjson) list" where
  "toObject (QObject kvs) = kvs"
| "toObject _ = []"

definition qsetMetadata :: "'u qt_library \<Rightarrow> 'u q_metadata \<Rightarrow> 'u q_author \<Rightarrow> 'u q_author field_result" where
  "qsetMetadata L d a =
     rbind (qreadMetadata L (toObject (qmetadataJson L d))) (\<lambda>replacement.
     let changedBinding = ac_sub (md_account replacement) \<noteq> ac_sub (md_account (qf_metadata a)) \<or>
           md_serviceOrigin replacement \<noteq> md_serviceOrigin (qf_metadata a) \<or>
           md_device replacement \<noteq> md_device (qf_metadata a);
         a = a\<lparr>qf_metadata := replacement\<rparr>
     in Inr (if changedBinding then a\<lparr>qf_token := None, qf_session := None\<rparr> else a))"

definition qdisplayLabel :: "'u q_author \<Rightarrow> qstring" where
  "qdisplayLabel a =
     (let account = md_account (qf_metadata a)
      in if ac_displayName account \<noteq> [] then ac_displayName account
         else if ac_userId account \<noteq> [] then ac_userId account else ac_email account)"

definition qauthor_toJson :: "'u qt_library \<Rightarrow> 'u q_author \<Rightarrow> qjson" where
  "qauthor_toJson L a = qmetadataJson L (qf_metadata a)"

definition setAuthenticationToken :: "'u token \<Rightarrow> 'u q_author \<Rightarrow> 'u q_author field_result" where
  "setAuthenticationToken t a =
     (if ti_subject (tk_info t) \<noteq> ac_sub (md_account (qf_metadata a)) \<or>
         ti_serviceOrigin (tk_info t) \<noteq> md_serviceOrigin (qf_metadata a) \<or>
         (case qf_session a of None \<Rightarrow> False | Some s \<Rightarrow> ti_sessionId (tk_info t) \<noteq> ls_id s)
      then Inl ''token.binding''
      else Inr (a\<lparr>qf_token := Some t\<rparr>))"

definition clearAuthenticationToken :: "'u q_author \<Rightarrow> 'u q_author" where
  "clearAuthenticationToken a = a\<lparr>qf_token := None\<rparr>"

section \<open>Tokens\<close>

fun kindName :: "token_kind \<Rightarrow> string" where
  "kindName IisaccSession = ''iisaccSession''"
| "kindName CognitoId = ''cognitoId''"
| "kindName CognitoAccess = ''cognitoAccess''"
| "kindName CognitoRefresh = ''cognitoRefresh''"

definition session_secret_ok :: "byte list \<Rightarrow> bool" where
  "session_secret_ok s \<longleftrightarrow> length s = 43 \<and> list_all (\<lambda>b. b < 128 \<and> id_char (char_of (unat b))) s"

fun read_scopes :: "'u qt_library \<Rightarrow> qstring list \<Rightarrow> qstring list \<Rightarrow> qstring list field_result" where
  "read_scopes L acc [] = Inr acc"
| "read_scopes L acc (raw # rest) =
     rbind (cleanText L raw ''token.scopes'' 128 True False) (\<lambda>v.
     rbind (require_field (\<not> list_ex regex_space v \<and> v \<notin> set acc) ''token.scopes'') (\<lambda>_.
     read_scopes L (acc @ [v]) rest))"

definition token_create :: "'u qt_library \<Rightarrow> 'u token_info \<Rightarrow> byte list \<Rightarrow> 'u token field_result" where
  "token_create L i secret =
     rbind (require_field (subject_ok (ti_subject i)) ''token.subject'') (\<lambda>_.
     rbind (serviceOrigin L (ti_serviceOrigin i)) (\<lambda>service.
     rbind (require_field (secret \<noteq> [] \<and> length secret \<le> 16384) ''token.secret'') (\<lambda>_.
     rbind (require_field (list_all (\<lambda>b. 33 \<le> b \<and> b \<le> 126) secret) ''token.secret'') (\<lambda>_.
     rbind (if ti_kind i = IisaccSession
            then rbind (require_field (session_secret_ok secret) ''token.secret'') (\<lambda>_.
                 require_field (ti_sessionId i \<noteq> []) ''token.sessionId'')
            else Inr ()) (\<lambda>_.
     rbind (require_field (ti_sessionId i = [] \<or> hex_id_ok 32 (ti_sessionId i)) ''token.sessionId'') (\<lambda>_.
     rbind (cleanText L (ti_issuer i) ''token.issuer'' 2048 False False) (\<lambda>issuer.
     rbind (cleanText L (ti_audience i) ''token.audience'' 256 False False) (\<lambda>audience.
     rbind (require_field (length (ti_scopes i) \<le> 64) ''token.scopes'') (\<lambda>_.
     rbind (read_scopes L [] (ti_scopes i)) (\<lambda>scopes.
     rbind (require_field (ti_issuedAt i \<noteq> None \<and> ti_expiresAt i \<noteq> None \<and>
              date_less (ti_issuedAt i) (ti_expiresAt i)) ''token.validity'') (\<lambda>_.
     rbind (require_field (ti_notBefore i = None \<or> (date_le (ti_issuedAt i) (ti_notBefore i) \<and>
              date_less (ti_notBefore i) (ti_expiresAt i))) ''token.notBefore'') (\<lambda>_.
     Inr \<lparr>tk_info = i\<lparr>ti_serviceOrigin := service, ti_issuer := issuer, ti_audience := audience, ti_scopes := scopes\<rparr>,
          tk_secret = secret\<rparr>))))))))))))"

definition isWithinValidityWindow :: "'u token \<Rightarrow> qdate \<Rightarrow> bool" where
  "isWithinValidityWindow t now \<longleftrightarrow>
     now \<noteq> None \<and> date_le (ti_issuedAt (tk_info t)) now \<and> date_less now (ti_expiresAt (tk_info t)) \<and>
     (ti_notBefore (tk_info t) = None \<or> date_le (ti_notBefore (tk_info t)) now)"

definition toRedactedJson :: "'u qt_library \<Rightarrow> 'u token \<Rightarrow> qjson" where
  "toRedactedJson L t =
     (let i = tk_info t
      in qobj [(''kind'', QText (q (kindName (ti_kind i)))), (''subject'', QText (ti_subject i)),
           (''serviceOrigin'', QText (url_display L (ti_serviceOrigin i))), (''sessionId'', QText (ti_sessionId i)),
           (''issuer'', QText (ti_issuer i)), (''audience'', QText (ti_audience i)),
           (''scopes'', QArray (map QText (ti_scopes i))), (''issuedAt'', dateJson L (ti_issuedAt i)),
           (''notBefore'', dateJson L (ti_notBefore i)), (''expiresAt'', dateJson L (ti_expiresAt i)),
           (''secret'', QText (q ''[REDACTED]''))])"

end
