(* ===== verification/Qt_Authorship.thy ===== *)
theory Qt_Authorship
  imports Qt_Session
begin

text \<open>
  Named links and the authorship ledger of the Qt library (\<open>src/Identity/FileLink.cpp\<close> and
  \<open>src/Identity/Authorship.cpp\<close>).  A mutating method works on a copy that it assigns at the end,
  so it maps the ledger to the new ledger or to the exception that leaves the old one in place.
  Objects are built with their keys in one fixed order, so that the equality of their lists of
  entries is the equality of \<open>QJsonObject\<close>.
\<close>

section \<open>Links\<close>

record q_file_link =
  fl_name :: qstring
  fl_url :: qstring

definition maximum_url_bytes :: nat where
  "maximum_url_bytes = 16 * 1024"

definition bar :: "16 word" where "bar = 124"

definition readUrl :: "'u qt_library \<Rightarrow> qstring \<Rightarrow> 'u field_result" where
  "readUrl L raw =
     rbind (require_field (valid_utf16 raw \<and> raw \<noteq> [] \<and> length raw \<le> maximum_url_bytes \<and>
       sum_list (map utf8_length (ucs4 raw)) \<le> maximum_url_bytes) ''fileLink.url'') (\<lambda>_.
     rbind (require_field (list_all (plain_point L) (ucs4 raw)) ''fileLink.url'') (\<lambda>_.
     let url = url_strict L raw
     in rbind (require_field (url_valid L url \<and> \<not> url_is_empty L url \<and>
          length (url_encoded L url) \<le> maximum_url_bytes) ''fileLink.url'') (\<lambda>_. Inr url)))"

definition fileLink_create :: "'u qt_library \<Rightarrow> qstring \<Rightarrow> qstring \<Rightarrow> q_file_link field_result" where
  "fileLink_create L name url =
     rbind (cleanText L name ''fileLink.name'' 160 True False) (\<lambda>cleanName.
     rbind (require_field (bar \<notin> set cleanName) ''fileLink.name'') (\<lambda>_.
     rbind (readUrl L url) (\<lambda>_.
     Inr \<lparr>fl_name = cleanName, fl_url = url\<rparr>)))"

definition fileLink_create_url :: "'u qt_library \<Rightarrow> qstring \<Rightarrow> 'u \<Rightarrow> q_file_link field_result" where
  "fileLink_create_url L name u =
     (if \<not> url_valid L u \<or> url_is_empty L u then Inl ''fileLink.url''
      else fileLink_create L name (url_encoded L u))"

definition fileLink_fromString :: "'u qt_library \<Rightarrow> qstring \<Rightarrow> q_file_link field_result" where
  "fileLink_fromString L namedUrl =
     (let input = trimmed L namedUrl
      in rbind (require_field (input \<noteq> [] \<and> hd input = 91 \<and> last input = 93) ''fileLink.format'') (\<lambda>_.
         let separator = length (takeWhile (\<lambda>u. u \<noteq> bar) input)
         in rbind (require_field (1 < separator \<and> separator + 2 < length input) ''fileLink.format'') (\<lambda>_.
            fileLink_create L (take (separator - 1) (drop 1 input))
              (take (length input - separator - 2) (drop (separator + 1) input)))))"

definition fileLink_fromJson :: "'u qt_library \<Rightarrow> (qstring \<times> qjson) list \<Rightarrow> q_file_link field_result" where
  "fileLink_fromJson L kvs =
     rbind (knownKeys kvs [''name'', ''url''] ''fileLink.fields'') (\<lambda>_.
     case (qvalue kvs ''name'', qvalue kvs ''url'') of
       (QText name, QText url) \<Rightarrow> fileLink_create L name url
     | _ \<Rightarrow> Inl ''fileLink.fields'')"

definition fileLink_toString :: "q_file_link \<Rightarrow> qstring" where
  "fileLink_toString l = [91] @ fl_name l @ [bar] @ fl_url l @ [93]"

definition fileLink_toJson :: "q_file_link \<Rightarrow> qjson" where
  "fileLink_toJson l = qobj [(''name'', QText (fl_name l)), (''url'', QText (fl_url l))]"

section \<open>The ledger\<close>

datatype q_exception =
    Length_Error string
  | Invalid_Argument string
  | Overflow_Error string
  | Bad_Access

record q_authorship =
  au_revision :: "64 word"
  au_modifiedAt :: qdate
  au_authors :: "qjson list"
  au_links :: "qjson list"
  au_lastAuthor :: qstring
  au_activeAuthor :: qstring
  au_dump :: "byte list"

definition utf8_bytes :: "nat \<Rightarrow> byte list" where
  "utf8_bytes cp =
     (if cp < 0x80 then [of_nat cp]
      else if cp < 0x800 then [of_nat (0xC0 + cp div 0x40), of_nat (0x80 + cp mod 0x40)]
      else if cp < 0x10000
      then [of_nat (0xE0 + cp div 0x1000), of_nat (0x80 + cp div 0x40 mod 0x40), of_nat (0x80 + cp mod 0x40)]
      else [of_nat (0xF0 + cp div 0x40000), of_nat (0x80 + cp div 0x1000 mod 0x40),
            of_nat (0x80 + cp div 0x40 mod 0x40), of_nat (0x80 + cp mod 0x40)])"

definition hex_units :: "byte list \<Rightarrow> qstring" where
  "hex_units bs = concat (map (\<lambda>b. [q ''0123456789abcdef'' ! (unat b div 16), q ''0123456789abcdef'' ! (unat b mod 16)]) bs)"

definition qkeyFor :: "'u qt_library \<Rightarrow> 'u q_author \<Rightarrow> qstring" where
  "qkeyFor L a = hex_units (qt_sha256 L (map ucast (url_encoded L (md_serviceOrigin (qf_metadata a))) @ [10] @
     concat (map utf8_bytes (ucs4 (ac_sub (md_account (qf_metadata a)))))))"

fun qlink_records_from :: "'u qt_library \<Rightarrow> qjson list \<Rightarrow> q_file_link list \<Rightarrow> (q_exception, qjson list) result" where
  "qlink_records_from L acc [] = Inr acc"
| "qlink_records_from L acc (l # ls) =
     (case fileLink_create L (fl_name l) (fl_url l) of
        Inl _ \<Rightarrow> Inl (Invalid_Argument ''Invalid file link'')
      | Inr v \<Rightarrow>
          if fileLink_toJson v \<in> set acc then Inl (Invalid_Argument ''Duplicate file link'')
          else qlink_records_from L (acc @ [fileLink_toJson v]) ls)"

definition maximum_links :: nat where
  "maximum_links = 64"

definition qlinkRecords :: "'u qt_library \<Rightarrow> q_file_link list \<Rightarrow> (q_exception, qjson list) result" where
  "qlinkRecords L ls =
     (if maximum_links < length ls then Inl (Length_Error ''Too many file links'')
      else qlink_records_from L [] ls)"

definition text_of :: "qjson \<Rightarrow> qstring" where
  "text_of v = (case v of QText s \<Rightarrow> s | _ \<Rightarrow> [])"

definition record_field :: "qjson \<Rightarrow> string \<Rightarrow> qjson" where
  "record_field r k = qvalue (toObject r) k"

fun jput :: "(qstring \<times> qjson) list \<Rightarrow> string \<Rightarrow> qjson \<Rightarrow> (qstring \<times> qjson) list" where
  "jput [] k v = [(q k, v)]"
| "jput ((k', v') # kvs) k v = (if k' = q k then (k', v) # kvs else (k', v') # jput kvs k v)"

definition qisEmpty :: "q_authorship \<Rightarrow> bool" where
  "qisEmpty a \<longleftrightarrow> au_revision a = 0 \<and> au_authors a = []"

definition qclearActiveAuthor :: "q_authorship \<Rightarrow> q_authorship" where
  "qclearActiveAuthor a = a\<lparr>au_activeAuthor := []\<rparr>"

definition qhasActiveAuthor :: "q_authorship \<Rightarrow> bool" where
  "qhasActiveAuthor a \<longleftrightarrow> au_activeAuthor a \<noteq> []"

definition qfirstEditor :: "'u qt_library \<Rightarrow> q_authorship \<Rightarrow> 'u q_author option" where
  "qfirstEditor L a = (case au_authors a of
     [] \<Rightarrow> None
   | r # _ \<Rightarrow> (case qauthor_fromJson L (toObject (record_field r ''author'')) of Inl _ \<Rightarrow> None | Inr v \<Rightarrow> Some v))"

definition bad_access :: "'a field_result \<Rightarrow> (q_exception, 'a) result" where
  "bad_access r = (case r of Inl _ \<Rightarrow> Inl Bad_Access | Inr v \<Rightarrow> Inr v)"

definition qparticipants :: "'u qt_library \<Rightarrow> q_authorship \<Rightarrow> (q_exception, 'u q_author list) result" where
  "qparticipants L a =
     mapM (\<lambda>r. bad_access (qauthor_fromJson L (toObject (record_field r ''author'')))) (tl (au_authors a))"

definition qlinks :: "'u qt_library \<Rightarrow> q_authorship \<Rightarrow> (q_exception, q_file_link list) result" where
  "qlinks L a = mapM (\<lambda>item. bad_access (fileLink_fromJson L (toObject item))) (au_links a)"

definition qauthorship_toJson :: "'u qt_library \<Rightarrow> q_authorship \<Rightarrow> qjson" where
  "qauthorship_toJson L a = qobj
     [(''schemaVersion'', QNumber 3), (''revision'', QText (q (nat_to_string (unat (au_revision a))))),
      (''modifiedAt'', dateJson L (au_modifiedAt a)), (''authors'', QArray (au_authors a)),
      (''firstEditor'', if au_authors a = [] then QNull else record_field (hd (au_authors a)) ''key''),
      (''participants'', QArray (map (\<lambda>r. record_field r ''key'') (tl (au_authors a)))),
      (''links'', QArray (au_links a)),
      (''lastAuthor'', if au_lastAuthor a = [] then QNull else QText (au_lastAuthor a))]"

definition maximum_ledger_bytes :: nat where
  "maximum_ledger_bytes = 2 * 1024 * 1024"

definition qrebuildDump :: "'u qt_library \<Rightarrow> q_authorship \<Rightarrow> (q_exception, q_authorship) result" where
  "qrebuildDump L a =
     (let serialized = qt_compact L (qauthorship_toJson L a)
      in if maximum_ledger_bytes < length serialized
         then Inl (Length_Error ''Authorship metadata exceeds the size limit'')
         else Inr (a\<lparr>au_dump := serialized\<rparr>))"

definition qauthorship_new :: "'u qt_library \<Rightarrow> (q_exception, q_authorship) result" where
  "qauthorship_new L = qrebuildDump L \<lparr>au_revision = 0, au_modifiedAt = None, au_authors = [], au_links = [],
     au_lastAuthor = [], au_activeAuthor = [], au_dump = []\<rparr>"

section \<open>Changes\<close>

definition change_entry :: "qjson \<Rightarrow> qjson \<Rightarrow> qjson" where
  "change_entry date r =
     (let kvs = toObject r;
          kvs = if map_of kvs (q ''firstChangedAt'') = None then jput kvs ''firstChangedAt'' date else kvs
      in QObject (jput kvs ''lastChangedAt'' date))"

fun change_first :: "(qjson \<Rightarrow> qjson) \<Rightarrow> qstring \<Rightarrow> qjson list \<Rightarrow> qjson list" where
  "change_first f key [] = []"
| "change_first f key (r # rs) =
     (if text_of (record_field r ''key'') = key then f r # rs else r # change_first f key rs)"

definition qrecordChange :: "'u qt_library \<Rightarrow> qdate \<Rightarrow> q_authorship \<Rightarrow> (q_exception, q_authorship) result" where
  "qrecordChange L when a =
     (if when = None then Inl (Invalid_Argument ''Invalid authorship change time'')
      else if au_revision a = - 1 then Inl (Overflow_Error ''Authorship revision is exhausted'')
      else let modified = if au_modifiedAt a \<noteq> None \<and> date_less when (au_modifiedAt a) then au_modifiedAt a else when
        in qrebuildDump L (a\<lparr>au_revision := au_revision a + 1, au_modifiedAt := modified,
             au_lastAuthor := au_activeAuthor a,
             au_authors := change_first (change_entry (dateJson L modified)) (au_activeAuthor a) (au_authors a)\<rparr>))"

definition qsetLinks ::
    "'u qt_library \<Rightarrow> q_file_link list \<Rightarrow> qdate \<Rightarrow> q_authorship \<Rightarrow> (q_exception, bool \<times> q_authorship) result" where
  "qsetLinks L ls when a =
     rbind (qlinkRecords L ls) (\<lambda>records.
     if records = au_links a then Inr (False, a)
     else rbind (qrecordChange L when (a\<lparr>au_links := records\<rparr>)) (\<lambda>a'. Inr (True, a')))"

definition qsetLinksFromStrings ::
    "'u qt_library \<Rightarrow> qstring list \<Rightarrow> qdate \<Rightarrow> q_authorship \<Rightarrow> (q_exception, bool \<times> q_authorship) result" where
  "qsetLinksFromStrings L entries when a =
     (if maximum_links < length entries then Inl (Length_Error ''Too many file links'')
      else rbind (mapM (\<lambda>s. case fileLink_fromString L s of
                   Inl _ \<Rightarrow> Inl (Invalid_Argument ''Invalid named URL format'') | Inr l \<Rightarrow> Inr l) entries) (\<lambda>ls.
           qsetLinks L ls when a))"

text \<open>\<open>record["author"] = profile\<close> on the record of the key.\<close>

definition set_profile :: "qjson \<Rightarrow> qjson \<Rightarrow> qjson" where
  "set_profile profile r = QObject (jput (toObject r) ''author'' profile)"

definition qsetAuthor ::
    "'u qt_library \<Rightarrow> 'u q_author \<Rightarrow> q_file_link list \<Rightarrow> qdate \<Rightarrow> q_authorship \<Rightarrow>
     (q_exception, bool \<times> q_authorship) result" where
  "qsetAuthor L author ls when a =
     rbind (qlinkRecords L ls) (\<lambda>records.
     let key = qkeyFor L author; profile = qauthor_toJson L author;
         next = a\<lparr>au_activeAuthor := key, au_links := records\<rparr>
     in case List.find (\<lambda>r. text_of (record_field r ''key'') = key) (au_authors a) of
       Some r \<Rightarrow>
         if toObject (record_field r ''author'') = toObject profile \<and> au_links a = records
         then Inr (False, a\<lparr>au_activeAuthor := key\<rparr>)
         else rbind (qrecordChange L when
                (next\<lparr>au_authors := change_first (set_profile profile) key (au_authors a)\<rparr>)) (\<lambda>a'. Inr (True, a'))
     | None \<Rightarrow>
         if 256 \<le> length (au_authors a) then Inl (Length_Error ''Authorship exceeds 256 authors'')
         else rbind (qrecordChange L when (next\<lparr>au_authors := au_authors a @
                [qobj [(''key'', QText key), (''author'', profile)]]\<rparr>)) (\<lambda>a'. Inr (True, a')))"

definition qsetAuthor_keep ::
    "'u qt_library \<Rightarrow> 'u q_author \<Rightarrow> qdate \<Rightarrow> q_authorship \<Rightarrow> (q_exception, bool \<times> q_authorship) result" where
  "qsetAuthor_keep L author when a = rbind (qlinks L a) (\<lambda>ls. qsetAuthor L author ls when a)"

section \<open>Reading a ledger\<close>

definition decimal_ok :: "qstring \<Rightarrow> bool" where
  "decimal_ok s \<longleftrightarrow> s = q ''0'' \<or> (s \<noteq> [] \<and> all_units is_digit s \<and> hd s \<noteq> 48)"

definition decimal_value :: "qstring \<Rightarrow> nat" where
  "decimal_value s = foldl (\<lambda>n u. n * 10 + (unat u - 48)) 0 s"

definition qread_revision :: "'u qt_library \<Rightarrow> (qstring \<times> qjson) list \<Rightarrow> qstring field_result" where
  "qread_revision L kvs =
     rbind (qtext L kvs ''revision'' 20 True False) (\<lambda>revision.
     rbind (require_field (decimal_ok revision) ''authorship.revision'') (\<lambda>_. Inr revision))"

definition qread_record ::
    "'u qt_library \<Rightarrow> qdate \<Rightarrow> qstring list \<Rightarrow> qjson \<Rightarrow> (qstring \<times> qjson) field_result" where
  "qread_record L modifiedAt used item = (case item of
     QObject kvs \<Rightarrow>
       rbind (knownKeys kvs [''key'', ''author'', ''firstChangedAt'', ''lastChangedAt''] ''authorship.author.fields'') (\<lambda>_.
       rbind (qobject kvs ''author'' True) (\<lambda>author_json.
       rbind (case qauthor_fromJson L author_json of Inl _ \<Rightarrow> Inl ''authorship.author'' | Inr v \<Rightarrow> Inr v) (\<lambda>author.
       rbind (qtext L kvs ''key'' 64 True False) (\<lambda>key.
       rbind (require_field (key = qkeyFor L author \<and> key \<notin> set used) ''authorship.author.key'') (\<lambda>_.
       rbind (qtimestamp L kvs ''firstChangedAt'' True) (\<lambda>first.
       rbind (qtimestamp L kvs ''lastChangedAt'' True) (\<lambda>latest.
       rbind (require_field (date_le first latest \<and> date_le latest modifiedAt) ''authorship.author.timestamps'') (\<lambda>_.
       Inr (key, QObject (jput (jput (jput kvs ''author'' (qauthor_toJson L author))
              ''firstChangedAt'' (dateJson L first)) ''lastChangedAt'' (dateJson L latest)))))))))))
   | _ \<Rightarrow> Inl ''authorship.author'')"

fun qread_records ::
    "'u qt_library \<Rightarrow> qdate \<Rightarrow> qstring list \<Rightarrow> qjson list \<Rightarrow> qjson list \<Rightarrow>
     (qstring list \<times> qjson list) field_result" where
  "qread_records L modifiedAt used acc [] = Inr (used, acc)"
| "qread_records L modifiedAt used acc (item # items) =
     rbind (qread_record L modifiedAt used item) (\<lambda>(key, r).
     qread_records L modifiedAt (key # used) (acc @ [r]) items)"

fun qread_links :: "'u qt_library \<Rightarrow> qjson list \<Rightarrow> qjson list \<Rightarrow> qjson list field_result" where
  "qread_links L acc [] = Inr acc"
| "qread_links L acc (QObject kvs # items) =
     rbind (case fileLink_fromJson L kvs of Inl _ \<Rightarrow> Inl ''authorship.link'' | Inr v \<Rightarrow> Inr v) (\<lambda>l.
     rbind (require_field (fileLink_toJson l \<notin> set acc) ''authorship.link.duplicate'') (\<lambda>_.
     qread_links L (acc @ [fileLink_toJson l]) items))"
| "qread_links L acc (_ # items) = Inl ''authorship.link''"

definition ledger_fields :: "rat \<Rightarrow> string list" where
  "ledger_fields schema = [''schemaVersion'', ''revision'', ''modifiedAt'', ''authors'', ''lastAuthor''] @
     (if 2 \<le> schema then [''firstEditor'', ''participants''] else []) @ (if schema = 3 then [''links''] else [])"

definition read_schema :: "(qstring \<times> qjson) list \<Rightarrow> rat field_result" where
  "read_schema kvs = (case qvalue kvs ''schemaVersion'' of
     QNumber n \<Rightarrow> if n = 1 \<or> n = 2 \<or> n = 3 then Inr n else Inl ''authorship.schemaVersion''
   | _ \<Rightarrow> Inl ''authorship.schemaVersion'')"

definition qread_authors ::
    "'u qt_library \<Rightarrow> qdate \<Rightarrow> (qstring \<times> qjson) list \<Rightarrow> (qstring list \<times> qjson list) field_result" where
  "qread_authors L modifiedAt kvs = (case qvalue kvs ''authors'' of
     QArray es \<Rightarrow> rbind (require_field (length es \<le> 256) ''authorship.authors'') (\<lambda>_.
       qread_records L modifiedAt [] [] es)
   | _ \<Rightarrow> Inl ''authorship.authors'')"

definition qread_last_author :: "(qstring \<times> qjson) list \<Rightarrow> qstring list \<Rightarrow> qstring field_result" where
  "qread_last_author kvs used = (case qvalue kvs ''lastAuthor'' of
     QNull \<Rightarrow> Inr []
   | QText s \<Rightarrow> rbind (require_field (s \<in> set used) ''authorship.lastAuthor'') (\<lambda>_. Inr s)
   | _ \<Rightarrow> Inl ''authorship.lastAuthor'')"

definition qread_ledger_links :: "'u qt_library \<Rightarrow> rat \<Rightarrow> (qstring \<times> qjson) list \<Rightarrow> qjson list field_result" where
  "qread_ledger_links L schema kvs =
     (if schema = 3
      then case qvalue kvs ''links'' of
        QArray ls \<Rightarrow> rbind (require_field (length ls \<le> maximum_links) ''authorship.links'') (\<lambda>_. qread_links L [] ls)
      | _ \<Rightarrow> Inl ''authorship.links''
      else Inr [])"

text \<open>\<open>fromJson\<close>.  A \<open>length_error\<close> is reported as \<open>Invalid authorship size.\<close>\<close>

definition size_error :: "(q_exception, 'a) result \<Rightarrow> 'a field_result" where
  "size_error r = (case r of Inl _ \<Rightarrow> Inl ''authorship size'' | Inr v \<Rightarrow> Inr v)"

definition qauthorship_fromJson :: "'u qt_library \<Rightarrow> (qstring \<times> qjson) list \<Rightarrow> q_authorship field_result" where
  "qauthorship_fromJson L kvs =
     (let byteSize = qcompact_size L (QObject kvs)
      in rbind (require_field (byteSize \<le> maximum_ledger_bytes) ''authorship.size'') (\<lambda>_.
         rbind (read_schema kvs) (\<lambda>schema.
         rbind (require_field (schema = 1 \<longrightarrow> byteSize \<le> 1024 * 1024) ''authorship.size'') (\<lambda>_.
         rbind (require_field (schema = 2 \<longrightarrow> byteSize \<le> 1024 * 1024 + 32 * 1024) ''authorship.size'') (\<lambda>_.
         rbind (knownKeys kvs (ledger_fields schema) ''authorship.fields'') (\<lambda>_.
         rbind (qread_revision L kvs) (\<lambda>digits.
         rbind (size_error (qauthorship_new L)) (\<lambda>fresh.
         rbind (require_field (decimal_value digits < 2 ^ 64) ''authorship.revision'') (\<lambda>_.
         let revision = of_nat (decimal_value digits) in
         rbind (qtimestamp L kvs ''modifiedAt'' (revision \<noteq> 0)) (\<lambda>modifiedAt.
         rbind (qread_authors L modifiedAt kvs) (\<lambda>(used, authors).
         rbind (qread_last_author kvs used) (\<lambda>lastAuthor.
         rbind (qread_ledger_links L schema kvs) (\<lambda>ls.
         rbind (require_field (revision \<noteq> 0 \<or> (authors = [] \<and> ls = [] \<and> modifiedAt = None)) ''authorship.empty'') (\<lambda>_.
         let result = fresh\<lparr>au_revision := revision, au_modifiedAt := modifiedAt, au_authors := authors,
               au_links := ls, au_lastAuthor := lastAuthor\<rparr>;
             canonical = toObject (qauthorship_toJson L result)
         in rbind (require_field (2 \<le> schema \<longrightarrow> qvalue kvs ''firstEditor'' = qvalue canonical ''firstEditor'')
                    ''authorship.firstEditor'') (\<lambda>_.
            rbind (require_field (2 \<le> schema \<longrightarrow> qvalue kvs ''participants'' = qvalue canonical ''participants'')
                    ''authorship.participants'') (\<lambda>_.
            size_error (qrebuildDump L result)))))))))))))))))"

definition qfromDump :: "'u qt_library \<Rightarrow> byte list \<Rightarrow> q_authorship field_result" where
  "qfromDump L bytes =
     (if maximum_ledger_bytes < length bytes then Inl ''authorship size''
      else case qt_parse L bytes of
        Some (QObject kvs) \<Rightarrow> qauthorship_fromJson L kvs
      | _ \<Rightarrow> Inl ''authorship JSON'')"

end
