(* ===== verification/Qt_Author_Laws.thy ===== *)
theory Qt_Author_Laws
  imports Qt_Session
begin

text \<open>
  What an accepted document gives: the steps of a reader taken apart, the session of an app
  login, the life of an author object as a step relation, and the binding of its token to
  the account, the service, the session and the device it is kept with.
\<close>

section \<open>Readers\<close>

lemma require_field_Inr [simp]: "require_field b f = Inr u \<longleftrightarrow> b"
  by (cases u) (simp add: require_field_def require_that_def)

lemma require_field_Inl [simp]: "require_field b f = Inl e \<longleftrightarrow> \<not> b \<and> e = f"
  by (auto simp: require_field_def require_that_def)

lemma require_field_simps [simp]: "require_field True f = Inr ()" "require_field False f = Inl f"
  by (simp_all add: require_field_def require_that_def)

lemma unat_char [simp]: "unat (of_nat (of_char c) :: 16 word) = of_char c"
  using nat_of_char_less_256 [of c]
  by (simp add: unat_of_nat take_bit_nat_eq_self mod_less order_less_trans [of _ 256])

lemma q_inject [simp]: "q s = q t \<longleftrightarrow> s = t"
proof -
  have "inj (\<lambda>c :: char. (of_nat (of_char c) :: 16 word))"
    by (rule injI) (metis unat_char of_char_eq_iff)
  then show ?thesis by (simp add: q_def inj_map_eq_map)
qed

lemma qtimestamp_required [dest]: "qtimestamp L kvs k True = Inr d \<Longrightarrow> \<exists>t. d = Some t"
  by (auto simp: qtimestamp_def Let_def rbind_Inr_iff split: qjson.splits option.splits dest: sym)

lemma date_between: "date_le (Some a) d \<Longrightarrow> \<not> date_le (Some b) d \<Longrightarrow> a < b"
  by (cases d) auto

section \<open>Sessions\<close>

text \<open>An accepted session: identifiers in form, instants in order, the login not expired.\<close>

definition session_times :: "int \<Rightarrow> int \<Rightarrow> int \<Rightarrow> login_session \<Rightarrow> bool" where
  "session_times created seen expires s \<longleftrightarrow>
     ls_createdAt s = Some created \<and> ls_lastSeenAt s = Some seen \<and> ls_expiresAt s = Some expires \<and>
     created \<le> seen \<and> seen < expires"

definition session_formed :: "login_session \<Rightarrow> bool" where
  "session_formed s \<longleftrightarrow> hex_id_ok 32 (ls_id s) \<and> hex_id_ok 64 (dv_id (ls_device s)) \<and> ls_client s = q ''app'' \<and>
     (\<exists>created seen expires. session_times created seen expires s)"

lemma qreadDevice_id: "qreadDevice L kvs strict = Inr d \<Longrightarrow> hex_id_ok 64 (dv_id d)"
  by (auto simp: qreadDevice_def rbind_Inr_iff)

lemma qread_session_formed:
  assumes "qread_session L kvs capturedAt = Inr s"
  shows "session_formed s"
  using assms
  by (auto simp: qread_session_def rbind_Inr_iff session_formed_def session_times_def date_less_def
      dest!: qtimestamp_required qreadDevice_id intro: date_between)

lemma author_from_account:
  "qfromIisaccAccount L m u c = Inr a \<Longrightarrow> qf_session a = None \<and> qf_token a = None"
  by (auto simp: qfromIisaccAccount_def rbind_Inr_iff)

lemma author_from_session:
  assumes "fromIisaccAppSession L m u c = Inr a"
  obtains s where "qf_session a = Some s" "session_formed s" "md_device (qf_metadata a) = Some (ls_device s)"
    "qf_token a = None"
  using assms
  by (auto simp: fromIisaccAppSession_def rbind_Inr_iff dest!: author_from_account qread_session_formed)

section \<open>The life of an author object\<close>

text \<open>Objects come from a stored document, an account or a session; every later call is a step.\<close>

inductive author_made :: "'u qt_library \<Rightarrow> 'u q_author \<Rightarrow> bool" for L where
  stored: "qauthor_fromJson L kvs = Inr a \<Longrightarrow> author_made L a"
| account: "qfromIisaccAccount L kvs u c = Inr a \<Longrightarrow> author_made L a"
| session: "fromIisaccAppSession L kvs u c = Inr a \<Longrightarrow> author_made L a"
| metadata: "author_made L a \<Longrightarrow> qsetMetadata L d a = Inr a' \<Longrightarrow> author_made L a'"
| token: "author_made L a \<Longrightarrow> token_create L i secret = Inr t \<Longrightarrow> setAuthenticationToken t a = Inr a' \<Longrightarrow>
    author_made L a'"
| clear: "author_made L a \<Longrightarrow> author_made L (clearAuthenticationToken a)"

definition token_bound :: "'u q_author \<Rightarrow> 'u token \<Rightarrow> bool" where
  "token_bound a t \<longleftrightarrow>
     ti_subject (tk_info t) = ac_sub (md_account (qf_metadata a)) \<and>
     ti_serviceOrigin (tk_info t) = md_serviceOrigin (qf_metadata a) \<and>
     (case qf_session a of None \<Rightarrow> True | Some s \<Rightarrow> ti_sessionId (tk_info t) = ls_id s)"

definition session_bound :: "'u q_author \<Rightarrow> login_session \<Rightarrow> bool" where
  "session_bound a s \<longleftrightarrow> session_formed s \<and> md_device (qf_metadata a) = Some (ls_device s)"

text \<open>The secret of a token: visible ASCII, and at its creation the validity window not empty.\<close>

definition token_formed :: "'u token \<Rightarrow> bool" where
  "token_formed t \<longleftrightarrow> list_all (\<lambda>b. 33 \<le> b \<and> b \<le> 126) (tk_secret t) \<and> tk_secret t \<noteq> [] \<and>
     (\<exists>now. isWithinValidityWindow t now)"

definition author_bound :: "'u q_author \<Rightarrow> bool" where
  "author_bound a \<longleftrightarrow>
     (case qf_token a of None \<Rightarrow> True | Some t \<Rightarrow> token_bound a t \<and> token_formed t) \<and>
     (case qf_session a of None \<Rightarrow> True | Some s \<Rightarrow> session_bound a s)"

lemma token_created_formed:
  assumes "token_create L i secret = Inr t"
  shows "token_formed t"
proof -
  from assms obtain c where "ti_issuedAt i \<noteq> None" "ti_expiresAt i = Some c"
      "date_less (ti_issuedAt i) (Some c)"
      "ti_notBefore i = None \<or> date_le (ti_issuedAt i) (ti_notBefore i) \<and> date_less (ti_notBefore i) (Some c)"
    and secret: "list_all (\<lambda>b. 33 \<le> b \<and> b \<le> 126) secret" "secret \<noteq> []" "tk_secret t = secret"
    and kept: "ti_issuedAt (tk_info t) = ti_issuedAt i" "ti_expiresAt (tk_info t) = ti_expiresAt i"
      "ti_notBefore (tk_info t) = ti_notBefore i"
    by (auto simp: token_create_def rbind_Inr_iff)
  then have "isWithinValidityWindow t (if ti_notBefore i = None then ti_issuedAt i else ti_notBefore i)"
    by (cases "ti_issuedAt i"; cases "ti_notBefore i") (auto simp: isWithinValidityWindow_def date_less_def)
  with secret show ?thesis by (auto simp: token_formed_def)
qed

lemma setMetadata_cases:
  assumes "qsetMetadata L d a = Inr a'"
  shows "(qf_token a' = None \<and> qf_session a' = None) \<or>
    (qf_token a' = qf_token a \<and> qf_session a' = qf_session a \<and>
     ac_sub (md_account (qf_metadata a')) = ac_sub (md_account (qf_metadata a)) \<and>
     md_serviceOrigin (qf_metadata a') = md_serviceOrigin (qf_metadata a) \<and>
     md_device (qf_metadata a') = md_device (qf_metadata a))"
proof -
  from assms obtain d' where d': "a' = (let b = a\<lparr>qf_metadata := d'\<rparr>
      in if ac_sub (md_account d') \<noteq> ac_sub (md_account (qf_metadata a)) \<or>
            md_serviceOrigin d' \<noteq> md_serviceOrigin (qf_metadata a) \<or> md_device d' \<noteq> md_device (qf_metadata a)
         then b\<lparr>qf_token := None, qf_session := None\<rparr> else b)"
    by (auto simp only: qsetMetadata_def rbind_Inr_iff Let_def sum.inject)
  then show ?thesis by (simp add: Let_def)
qed

lemma setMetadata_bound:
  assumes "qsetMetadata L d a = Inr a'" "author_bound a"
  shows "author_bound a'"
  using setMetadata_cases [OF assms(1)] assms(2)
  by (auto simp: author_bound_def token_bound_def session_bound_def split: option.splits)

lemma setAuthenticationToken_bound:
  assumes "setAuthenticationToken t a = Inr a'" "author_bound a" "token_formed t"
  shows "author_bound a'"
  using assms
  by (auto simp: setAuthenticationToken_def author_bound_def token_bound_def session_bound_def
      split: if_splits option.splits)

lemma author_made_bound: "author_made L a \<Longrightarrow> author_bound a"
proof (induction rule: author_made.induct)
  case (stored kvs a)
  then show ?case by (auto simp: qauthor_fromJson_def rbind_Inr_iff author_bound_def)
next
  case (account kvs u c a)
  then show ?case by (auto dest!: author_from_account simp: author_bound_def)
next
  case (session kvs u c a)
  then show ?case by (auto elim!: author_from_session simp: author_bound_def session_bound_def)
next
  case (metadata a d a')
  then show ?case by (blast intro: setMetadata_bound)
next
  case (token a i secret t a')
  then show ?case by (blast intro: setAuthenticationToken_bound token_created_formed)
next
  case (clear a)
  then show ?case by (auto simp: clearAuthenticationToken_def author_bound_def session_bound_def split: option.splits)
qed

end
