(* ===== verification/Qt_Ledger_Laws.thy ===== *)
theory Qt_Ledger_Laws
  imports Qt_Authorship Qt_Author_Laws
begin

text \<open>
  Laws of the named links and of the ledger: reading nonempty the text of a link, the invariant of
  every ledger that the operations produce, and how a change moves the ledger on.
\<close>

section \<open>Trimming\<close>

lemma dropWhile_no_op: "xs = [] \<or> \<not> P (hd xs) \<Longrightarrow> dropWhile P xs = xs"
  by (cases xs) auto

lemma trimmed_no_op:
  "s = [] \<or> (\<not> qt_space L (hd s) \<and> \<not> qt_space L (last s)) \<Longrightarrow> trimmed L s = s"
  by (auto simp: trimmed_def dropWhile_no_op hd_rev)

lemma hd_dropWhile_not: "dropWhile P xs \<noteq> [] \<Longrightarrow> \<not> P (hd (dropWhile P xs))"
  by (rule hd_dropWhile)

lemma last_dropWhile: "dropWhile P xs \<noteq> [] \<Longrightarrow> last (dropWhile P xs) = last xs"
  by (induction xs) auto

lemma trimmed_ends:
  assumes "trimmed L s \<noteq> []"
  shows "\<not> qt_space L (hd (trimmed L s)) \<and> \<not> qt_space L (last (trimmed L s))"
proof -
  let ?front = "dropWhile (qt_space L) s"
  let ?rest = "dropWhile (qt_space L) (rev ?front)"
  have nonempty: "?rest \<noteq> []" using assms by (simp add: trimmed_def)
  then have "?front \<noteq> []" by (metis dropWhile.simps(1) rev.simps(1))
  have "last (rev ?rest) = hd ?rest" using nonempty by (simp add: last_rev)
  moreover have "hd (rev ?rest) = last (rev ?front)" using nonempty last_dropWhile [OF nonempty] by (simp add: hd_rev)
  moreover have "last (rev ?front) = hd ?front" using \<open>?front \<noteq> []\<close> by (simp add: last_rev)
  ultimately show ?thesis
    using hd_dropWhile [OF nonempty] hd_dropWhile [OF \<open>?front \<noteq> []\<close>] by (simp add: trimmed_def)
qed

lemma trimmed_trimmed: "trimmed L (trimmed L s) = trimmed L s"
  using trimmed_ends [of L s] by (intro trimmed_no_op) auto

section \<open>Links\<close>

text \<open>
  What the link text relies on of Unicode: the normal form of a text is normal, so is what
  trimming leaves of it and it is well-formed UTF-16, and square brackets are not white space.
\<close>

definition text_laws :: "'u qt_library \<Rightarrow> bool" where
  "text_laws L \<longleftrightarrow>
     (\<forall>s. valid_utf16 s \<longrightarrow> valid_utf16 (trimmed L (qt_nfc L s)) \<and>
        qt_nfc L (trimmed L (qt_nfc L s)) = trimmed L (qt_nfc L s)) \<and>
     \<not> qt_space L 91 \<and> \<not> qt_space L 93"

lemma cleanText_again:
  assumes "text_laws L" "cleanText L s f n r m = Inr v"
  shows "cleanText L v f n r m = Inr v"
  using assms by (auto simp: cleanText_def rbind_Inr_iff Let_def text_laws_def trimmed_trimmed)

lemma fileLink_create_again:
  assumes "text_laws L" "fileLink_create L name url = Inr l"
  shows "fileLink_create L (fl_name l) (fl_url l) = Inr l" "fl_name l \<noteq> []" "fl_url l \<noteq> []" "bar \<notin> set (fl_name l)"
proof -
  from assms(2) obtain clean u where clean: "cleanText L name ''fileLink.name'' 160 True False = Inr clean"
    and bar: "bar \<notin> set clean" and url: "readUrl L url = Inr u" and l: "l = \<lparr>fl_name = clean, fl_url = url\<rparr>"
    by (auto simp: fileLink_create_def rbind_Inr_iff)
  from cleanText_again [OF assms(1) clean] bar url l show "fileLink_create L (fl_name l) (fl_url l) = Inr l"
    by (simp add: fileLink_create_def)
  from clean l show "fl_name l \<noteq> []" by (auto simp: cleanText_def rbind_Inr_iff Let_def)
  from url l show "fl_url l \<noteq> []" by (auto simp: readUrl_def rbind_Inr_iff)
  from bar l show "bar \<notin> set (fl_name l)" by simp
qed

lemma fileLink_string_split:
  assumes "bar \<notin> set n"
  shows "takeWhile (\<lambda>u. u \<noteq> bar) ([91] @ n @ [bar] @ u @ [93]) = 91 # n"
proof -
  have "takeWhile (\<lambda>u. u \<noteq> bar) (n @ bar # u @ [93]) = n"
    using assms by (subst takeWhile_append2) auto
  then show ?thesis by (simp add: bar_def)
qed

lemma fileLink_fromString_toString:
  assumes laws: "text_laws L" and created: "fileLink_create L name url = Inr l"
  shows "fileLink_fromString L (fileLink_toString l) = Inr l"
proof -
  note l = fileLink_create_again [OF laws created]
  let ?s = "fileLink_toString l"
  have ends: "?s \<noteq> []" "hd ?s = 91" "last ?s = 93" by (simp_all add: fileLink_toString_def)
  with laws have trim: "trimmed L ?s = ?s" by (intro trimmed_no_op) (simp add: text_laws_def)
  have sep: "length (takeWhile (\<lambda>u. u \<noteq> bar) ?s) = Suc (length (fl_name l))"
    using fileLink_string_split [OF l(4)] by (simp add: fileLink_toString_def)
  have size: "length ?s = length (fl_name l) + length (fl_url l) + 3" by (simp add: fileLink_toString_def)
  have name: "take (length (fl_name l)) (drop 1 ?s) = fl_name l"
    and url: "take (length (fl_url l)) (drop (length (fl_name l) + 2) ?s) = fl_url l"
    by (simp_all add: fileLink_toString_def)
  show ?thesis
    using l ends trim sep size name url
    by (simp add: fileLink_fromString_def Let_def add.commute)
qed

section \<open>The keys of the records\<close>

abbreviation key_of :: "qjson \<Rightarrow> qstring" where
  "key_of r \<equiv> text_of (record_field r ''key'')"

lemma qvalue_jput [simp]: "qvalue (jput kvs k v) k' = (if k' = k then v else qvalue kvs k')"
  by (induction kvs k v rule: jput.induct) auto

lemma key_of_change_entry [simp]: "key_of (change_entry d r) = key_of r"
  by (simp add: change_entry_def record_field_def Let_def del: qvalue.simps)

lemma key_of_set_profile [simp]: "key_of (set_profile p r) = key_of r"
  by (simp add: set_profile_def record_field_def del: qvalue.simps)

lemma keys_change_first [simp]:
  "(\<And>r. key_of (f r) = key_of r) \<Longrightarrow> map key_of (change_first f k rs) = map key_of rs"
  by (induction rs) auto

lemma length_change_first [simp]: "length (change_first f k rs) = length rs"
  by (induction rs) auto

section \<open>The invariant\<close>

definition ledger_ok :: "'u qt_library \<Rightarrow> q_authorship \<Rightarrow> bool" where
  "ledger_ok L a \<longleftrightarrow>
     distinct (map key_of (au_authors a)) \<and> length (au_authors a) \<le> 256 \<and>
     distinct (au_links a) \<and> length (au_links a) \<le> 64 \<and>
     au_dump a = qt_compact L (qauthorship_toJson L a) \<and> length (au_dump a) \<le> 2 * 1024 * 1024"

lemma toJson_dump [simp]: "qauthorship_toJson L (a\<lparr>au_dump := d\<rparr>) = qauthorship_toJson L a"
  by (simp add: qauthorship_toJson_def)

lemma toJson_active [simp]: "qauthorship_toJson L (a\<lparr>au_activeAuthor := k\<rparr>) = qauthorship_toJson L a"
  by (simp add: qauthorship_toJson_def)

lemma qrebuildDump_Inr:
  "qrebuildDump L a = Inr b \<longleftrightarrow>
     length (qt_compact L (qauthorship_toJson L a)) \<le> maximum_ledger_bytes \<and>
     b = a\<lparr>au_dump := qt_compact L (qauthorship_toJson L a)\<rparr>"
  by (auto simp: qrebuildDump_def Let_def)

lemma qrebuildDump_ok:
  assumes "qrebuildDump L a = Inr b"
    "distinct (map key_of (au_authors a))" "length (au_authors a) \<le> 256"
    "distinct (au_links a)" "length (au_links a) \<le> 64"
  shows "ledger_ok L b"
  using assms by (auto simp: qrebuildDump_Inr ledger_ok_def maximum_ledger_bytes_def)

text \<open>How a recorded change moves the ledger on: the same keys, one revision more, no earlier date.\<close>

lemma qrecordChange_Inr:
  assumes "qrecordChange L when a = Inr b"
  shows "map key_of (au_authors b) = map key_of (au_authors a) \<and> au_links b = au_links a \<and>
    unat (au_revision b) = unat (au_revision a) + 1 \<and> date_le (au_modifiedAt a) (au_modifiedAt b) \<and>
    au_lastAuthor b = au_activeAuthor a \<and> au_activeAuthor b = au_activeAuthor a \<and>
    au_modifiedAt b \<noteq> None"
proof -
  have order: "date_le d d" for d by (cases d) auto
  have later: "date_le d (if d \<noteq> None \<and> date_less when d then d else when)" for d
    by (cases d; cases "when") (auto simp: date_less_def order)
  from assms have "au_revision a \<noteq> - 1" "when \<noteq> None"
    by (auto simp: qrecordChange_def split: if_splits)
  then have "unat (au_revision a + 1) = unat (au_revision a) + 1"
    using unatSuc [of "au_revision a"] by (simp add: add.commute eq_neg_iff_add_eq_0)
  with assms later [of "au_modifiedAt a"] \<open>when \<noteq> None\<close> show ?thesis
    by (auto simp: qrecordChange_def Let_def qrebuildDump_Inr split: if_splits)
qed

end
