(* ===== verification/Qt_Ledger.thy ===== *)
theory Qt_Ledger
  imports Qt_Ledger_Laws
begin

text \<open>
  The calls on a ledger as steps, the invariant of every ledger they reach and the history they
  keep: identities are appended and never reordered or dropped, dates do not go back, and the
  revision counts the calls that reported a change.
\<close>

section \<open>Recorded changes\<close>

lemma qrecordChange_ok:
  assumes "qrecordChange L when a = Inr b"
    "distinct (map key_of (au_authors a))" "length (au_authors a) \<le> 256"
    "distinct (au_links a)" "length (au_links a) \<le> 64"
  shows "ledger_ok L b"
  using assms
  by (auto simp: qrecordChange_def Let_def split: if_splits elim!: qrebuildDump_ok)

lemma qlink_records_from_ok:
  "qlink_records_from L acc ls = Inr rs \<Longrightarrow> distinct acc \<Longrightarrow> distinct rs \<and> length rs = length acc + length ls"
  by (induction L acc ls rule: qlink_records_from.induct) (auto split: sum.splits if_splits)

lemma qlinkRecords_ok: "qlinkRecords L ls = Inr rs \<Longrightarrow> distinct rs \<and> length rs \<le> 64"
  using qlink_records_from_ok [of L "[]" ls rs] by (auto simp: qlinkRecords_def maximum_links_def split: if_splits)

text \<open>One call: what it keeps of the ledger, and what it adds.\<close>

definition ledger_moves :: "bool \<Rightarrow> q_authorship \<Rightarrow> q_authorship \<Rightarrow> bool" where
  "ledger_moves changed a b \<longleftrightarrow>
     (\<exists>added. map key_of (au_authors b) = map key_of (au_authors a) @ added \<and> length added \<le> 1) \<and>
     date_le (au_modifiedAt a) (au_modifiedAt b) \<and>
     unat (au_revision b) = unat (au_revision a) + (if changed then 1 else 0) \<and>
     (\<not> changed \<longrightarrow> (\<exists>k. b = a\<lparr>au_activeAuthor := k\<rparr>))"

lemma date_le_refl [simp]: "date_le d d"
  by (cases d) auto

lemma date_le_trans: "date_le a b \<Longrightarrow> date_le b c \<Longrightarrow> date_le a c"
  by (cases a; cases b; cases c) auto

lemma ledger_stays: "ledger_moves False a a"
  unfolding ledger_moves_def by (auto intro!: exI [of _ "au_activeAuthor a"])

lemma ledger_active: "ledger_moves False a (a\<lparr>au_activeAuthor := k\<rparr>)"
  unfolding ledger_moves_def by (auto intro: exI [of _ k])

lemma qrecordChange_moves:
  assumes "qrecordChange L when c = Inr b"
    and "au_revision c = au_revision a" "au_modifiedAt c = au_modifiedAt a"
    and "map key_of (au_authors c) = map key_of (au_authors a) @ added" "length added \<le> 1"
  shows "ledger_moves True a b"
  using qrecordChange_Inr [OF assms(1)] assms(2-) unfolding ledger_moves_def by auto

lemma qsetLinks_step:
  assumes "qsetLinks L ls when a = Inr (changed, b)" "ledger_ok L a"
  shows "ledger_ok L b \<and> ledger_moves changed a b"
proof -
  from assms(1) obtain records where records: "qlinkRecords L ls = Inr records"
    and "(changed, b) = (False, a) \<or> changed \<and> qrecordChange L when (a\<lparr>au_links := records\<rparr>) = Inr b"
    by (fastforce simp: qsetLinks_def rbind_Inr_iff split: if_splits)
  then show ?thesis
  proof (elim disjE conjE)
    assume "(changed, b) = (False, a)"
    with assms(2) ledger_stays show ?thesis by simp
  next
    assume "changed" and run: "qrecordChange L when (a\<lparr>au_links := records\<rparr>) = Inr b"
    from qrecordChange_ok [OF run] qlinkRecords_ok [OF records] assms(2) have "ledger_ok L b"
      by (auto simp: ledger_ok_def)
    moreover from qrecordChange_moves [OF run, of a "[]"] \<open>changed\<close> have "ledger_moves changed a b" by simp
    ultimately show ?thesis ..
  qed
qed

lemma find_none_key: "List.find (\<lambda>r. key_of r = k) rs = None \<Longrightarrow> k \<notin> key_of ` set rs"
  by (auto simp: find_None_iff)

lemma key_of_new: "key_of (qobj [(''key'', QText k), (''author'', p)]) = k"
  by (simp add: qobj_def record_field_def text_of_def)

lemma qsetAuthor_step:
  assumes call: "qsetAuthor L author ls when a = Inr (changed, b)" and ok: "ledger_ok L a"
  shows "ledger_ok L b \<and> ledger_moves changed a b"
proof -
  let ?key = "qkeyFor L author"
  let ?profile = "qauthor_toJson L author"
  from call obtain records where records: "qlinkRecords L ls = Inr records"
    and rest: "qsetAuthor L author ls when a = Inr (changed, b)"
    by (auto simp: qsetAuthor_def rbind_Inr_iff)
  let ?next = "a\<lparr>au_activeAuthor := ?key, au_links := records\<rparr>"
  note links = qlinkRecords_ok [OF records]
  show ?thesis
  proof (cases "List.find (\<lambda>r. key_of r = ?key) (au_authors a)")
    case None
    let ?added = "qobj [(''key'', QText ?key), (''author'', ?profile)]"
    from rest records None have len: "length (au_authors a) < 256" and
      run: "qrecordChange L when (?next\<lparr>au_authors := au_authors a @ [?added]\<rparr>) = Inr b" and "changed"
      by (auto simp: qsetAuthor_def rbind_Inr_iff Let_def split: if_splits)
    from qrecordChange_ok [OF run] links len ok find_none_key [OF None] have "ledger_ok L b"
      by (auto simp: ledger_ok_def key_of_new)
    moreover from qrecordChange_moves [OF run, of a "[?key]"] have "ledger_moves changed a b"
      using \<open>changed\<close> by (simp add: key_of_new)
    ultimately show ?thesis ..
  next
    case (Some r)
    show ?thesis
    proof (cases "toObject (record_field r ''author'') = toObject ?profile \<and> au_links a = records")
      case True
      with rest records Some have "b = a\<lparr>au_activeAuthor := ?key\<rparr>" "\<not> changed"
        by (auto simp: qsetAuthor_def rbind_Inr_iff Let_def)
      with ok ledger_active [of a ?key] show ?thesis by (auto simp: ledger_ok_def)
    next
      case False
      with rest records Some have
        run: "qrecordChange L when (?next\<lparr>au_authors := change_first (set_profile ?profile) ?key (au_authors a)\<rparr>) = Inr b"
        and "changed"
        by (auto simp: qsetAuthor_def rbind_Inr_iff Let_def split: if_splits)
      from qrecordChange_ok [OF run] links ok have "ledger_ok L b" by (auto simp: ledger_ok_def)
      moreover from qrecordChange_moves [OF run, of a "[]"] have "ledger_moves changed a b"
        using \<open>changed\<close> by simp
      ultimately show ?thesis ..
    qed
  qed
qed

section \<open>Reading\<close>

abbreviation clean_key :: "'u qt_library \<Rightarrow> qjson \<Rightarrow> qstring field_result" where
  "clean_key L r \<equiv> cleanText L (key_of r) ''key'' 64 True False"

lemma qread_record_key:
  assumes "qread_record L m used item = Inr (key, r)"
  shows "key \<notin> set used \<and> clean_key L r = Inr key \<and> key_of r = key_of item"
proof -
  from assms obtain kvs where kvs: "item = QObject kvs"
    by (auto simp: qread_record_def split: qjson.splits)
  from assms have "key \<notin> set used \<and> qtext L kvs ''key'' 64 True False = Inr key \<and>
      key_of r = text_of (qvalue kvs ''key'')"
    unfolding kvs qread_record_def qjson.case
    apply (elim rbind_InrE)
    apply (simp only: sum.inject prod.inject require_field_Inr)
    apply (elim conjE)
    apply hypsubst
    apply (simp add: record_field_def del: qvalue.simps)
    done
  then have key: "qtext L kvs ''key'' 64 True False = Inr key" "key \<notin> set used"
    and r: "key_of r = text_of (qvalue kvs ''key'')" by blast+
  from key(1) have "cleanText L (text_of (qvalue kvs ''key'')) ''key'' 64 True False = Inr key"
    by (simp add: qtext_def text_of_def del: qvalue.simps split: qjson.splits)
  with key(2) r show ?thesis by (simp add: kvs record_field_def del: qvalue.simps)
qed

lemma qread_records_keys:
  assumes "qread_records L m used acc items = Inr (used', rs)"
    and "distinct used" "map (clean_key L) acc = map Inr (rev used)"
  shows "distinct used' \<and> map (clean_key L) rs = map Inr (rev used') \<and> length rs = length acc + length items"
  using assms
proof (induction L m used acc items rule: qread_records.induct)
  case (2 L m used acc item items)
  from "2.prems"(1) obtain key r where one: "qread_record L m used item = Inr (key, r)"
      and more: "qread_records L m (key # used) (acc @ [r]) items = Inr (used', rs)"
    by (auto simp: rbind_Inr_iff)
  have facts: "key \<notin> set used" "clean_key L r = Inr key" using qread_record_key [OF one] by blast+
  from "2.IH" [OF more] facts "2.prems"(2, 3) show ?case by simp
qed simp

lemma distinct_by_image:
  assumes "\<And>x y. g x = g y \<Longrightarrow> f x = f y" "map f xs = map Inr ys" "distinct ys"
  shows "distinct (map g xs)"
proof -
  from assms(2, 3) have "distinct (map f xs)" by (simp add: distinct_map)
  then show ?thesis using assms(1) by (metis (no_types, lifting) distinct_map inj_onD inj_onI)
qed

lemma qread_records_distinct:
  assumes "qread_records L m [] [] items = Inr (used, rs)"
  shows "distinct (map key_of rs) \<and> length rs = length items"
  using qread_records_keys [OF assms]
  by (auto intro: distinct_by_image [where f = "clean_key L" and ys = "rev used"])

lemma qread_links_distinct:
  "qread_links L acc items = Inr ls \<Longrightarrow> distinct acc \<Longrightarrow> distinct ls \<and> length ls = length acc + length items"
  by (induction L acc items rule: qread_links.induct) (auto simp: rbind_Inr_iff split: sum.splits)

lemma qauthorship_new_ok: "qauthorship_new L = Inr a \<Longrightarrow> ledger_ok L a"
  by (auto simp: qauthorship_new_def intro: qrebuildDump_ok)

lemma size_error_Inr [simp]: "size_error r = Inr v \<longleftrightarrow> r = Inr v"
  by (auto simp: size_error_def split: sum.splits)

lemma qread_authors_ok:
  "qread_authors L m kvs = Inr (used, rs) \<Longrightarrow> distinct (map key_of rs) \<and> length rs \<le> 256"
  by (auto simp: qread_authors_def rbind_Inr_iff dest!: qread_records_distinct split: qjson.splits simp del: qvalue.simps)

lemma qread_ledger_links_ok: "qread_ledger_links L schema kvs = Inr ls \<Longrightarrow> distinct ls \<and> length ls \<le> 64"
  by (auto simp: qread_ledger_links_def rbind_Inr_iff maximum_links_def dest!: qread_links_distinct
      split: qjson.splits if_splits simp del: qvalue.simps)

lemma qauthorship_fromJson_ok:
  assumes "qauthorship_fromJson L kvs = Inr a"
  shows "ledger_ok L a"
proof -
  from assms have "\<exists>m used_rs schema ls base. qread_authors L m kvs = Inr used_rs \<and>
      qread_ledger_links L schema kvs = Inr ls \<and> qrebuildDump L base = Inr a \<and>
      au_authors base = snd used_rs \<and> au_links base = ls"
    unfolding qauthorship_fromJson_def Let_def
    apply (elim rbind_InrE)
    apply (simp only: case_prod_unfold)
    apply (elim rbind_InrE)
    apply (simp only: size_error_Inr)
    apply (intro exI conjI)
        apply assumption+
     apply simp_all
    done
  then obtain schema m used_rs ls base where
    rs: "qread_authors L m kvs = Inr used_rs" and ls: "qread_ledger_links L schema kvs = Inr ls" and
    dump: "qrebuildDump L base = Inr a" and base: "au_authors base = snd used_rs" "au_links base = ls" by blast
  from qrebuildDump_ok [OF dump] qread_authors_ok [of L m kvs "fst used_rs" "snd used_rs"] qread_ledger_links_ok [OF ls]
    rs base show ?thesis by simp
qed

section \<open>Histories\<close>

inductive ledger_step :: "'u qt_library \<Rightarrow> bool \<Rightarrow> q_authorship \<Rightarrow> q_authorship \<Rightarrow> bool" for L where
  links: "qsetLinks L ls when a = Inr (changed, b) \<Longrightarrow> ledger_step L changed a b"
| strings: "qsetLinksFromStrings L ss when a = Inr (changed, b) \<Longrightarrow> ledger_step L changed a b"
| author: "qsetAuthor L p ls when a = Inr (changed, b) \<Longrightarrow> ledger_step L changed a b"
| author_keep: "qsetAuthor_keep L p when a = Inr (changed, b) \<Longrightarrow> ledger_step L changed a b"
| clear: "ledger_step L False a (qclearActiveAuthor a)"

text \<open>A history: the ledger and the number of calls that reported a change.\<close>

inductive ledger_run :: "'u qt_library \<Rightarrow> nat \<Rightarrow> q_authorship \<Rightarrow> q_authorship \<Rightarrow> bool" for L where
  stop: "ledger_run L 0 a a"
| call: "ledger_run L n a b \<Longrightarrow> ledger_step L changed b c \<Longrightarrow> ledger_run L (n + (if changed then 1 else 0)) a c"

definition ledger_start :: "'u qt_library \<Rightarrow> q_authorship \<Rightarrow> bool" where
  "ledger_start L a \<longleftrightarrow> qauthorship_new L = Inr a \<or> (\<exists>bytes. qfromDump L bytes = Inr a)"

lemma ledger_start_ok: "ledger_start L a \<Longrightarrow> ledger_ok L a"
  by (auto simp: ledger_start_def qfromDump_def qauthorship_new_ok qauthorship_fromJson_ok
      split: if_splits option.splits qjson.splits)

lemma ledger_step_ok: "ledger_step L changed a b \<Longrightarrow> ledger_ok L a \<Longrightarrow> ledger_ok L b \<and> ledger_moves changed a b"
proof (induction rule: ledger_step.induct)
  case (strings ss "when" a changed b)
  then show ?case by (auto simp: qsetLinksFromStrings_def rbind_Inr_iff split: if_splits dest: qsetLinks_step)
next
  case (author_keep p "when" a changed b)
  then show ?case by (auto simp: qsetAuthor_keep_def rbind_Inr_iff dest: qsetAuthor_step)
next
  case (clear a)
  then show ?case
    using ledger_active [of a "[]"] by (auto simp: qclearActiveAuthor_def ledger_ok_def)
qed (auto dest: qsetLinks_step qsetAuthor_step)

text \<open>The keys are kept as a prefix, the dates do not go back, the revision counts the changes.\<close>

definition ledger_follows :: "nat \<Rightarrow> q_authorship \<Rightarrow> q_authorship \<Rightarrow> bool" where
  "ledger_follows n a b \<longleftrightarrow>
     take (length (au_authors a)) (map key_of (au_authors b)) = map key_of (au_authors a) \<and>
     date_le (au_modifiedAt a) (au_modifiedAt b) \<and> unat (au_revision b) = unat (au_revision a) + n"

lemma prefix_extended: "take n (xs @ ys) = zs" if "take n xs = zs" "length zs = n" for xs :: "'a list"
  using that by (auto simp: min_def split: if_splits)

lemma ledger_follows_step:
  assumes "ledger_follows n a b" "ledger_moves changed b c"
  shows "ledger_follows (n + (if changed then 1 else 0)) a c"
proof -
  from assms(2) obtain added where added: "map key_of (au_authors c) = map key_of (au_authors b) @ added"
    and moves: "date_le (au_modifiedAt b) (au_modifiedAt c)"
      "unat (au_revision c) = unat (au_revision b) + (if changed then 1 else 0)"
    unfolding ledger_moves_def by blast
  from assms(1) have a: "take (length (au_authors a)) (map key_of (au_authors b)) = map key_of (au_authors a)"
      "date_le (au_modifiedAt a) (au_modifiedAt b)" "unat (au_revision b) = unat (au_revision a) + n"
    unfolding ledger_follows_def by blast+
  from prefix_extended [OF a(1), of added] date_le_trans [OF a(2) moves(1)] moves(2) a(3) show ?thesis
    unfolding ledger_follows_def added by simp
qed

lemma ledger_run_ok:
  "ledger_run L n a b \<Longrightarrow> ledger_ok L a \<Longrightarrow> ledger_ok L b \<and> ledger_follows n a b"
proof (induction rule: ledger_run.induct)
  case (stop a)
  then show ?case by (simp add: ledger_follows_def)
next
  case (call n a b changed c)
  from call.IH [OF call.prems] have b: "ledger_ok L b" "ledger_follows n a b" by blast+
  from ledger_step_ok [OF call.hyps(2) b(1)] ledger_follows_step [OF b(2)] show ?case by blast
qed

section \<open>A padded key\<close>

text \<open>
  Reading checks the trimmed key of a record and keeps the text as it was stored, while
  \<open>setAuthor\<close> compares the stored text: an author whose stored key has spaces around it is added again.
\<close>

lemma padded_key_added_again:
  assumes "qread_record L m [] item = Inr (qkeyFor L p, r)" "key_of item \<noteq> qkeyFor L p"
    and "au_authors a = [r]" "qsetAuthor L p ls when a = Inr (changed, b)"
  shows "map key_of (au_authors b) = [key_of item, qkeyFor L p]"
proof -
  from qread_record_key [OF assms(1)] have r: "key_of r = key_of item" by simp
  then have "List.find (\<lambda>x. key_of x = qkeyFor L p) (au_authors a) = None"
    using assms(2, 3) by simp
  with assms(3, 4) obtain c where "qrecordChange L when c = Inr b"
      "map key_of (au_authors c) = [key_of item, qkeyFor L p]"
    by (auto simp: qsetAuthor_def rbind_Inr_iff Let_def key_of_new r split: if_splits)
  with qrecordChange_Inr show ?thesis by metis
qed

end
