(* ===== verification/Qt_Sample.thy ===== *)
theory Qt_Sample
  imports Qt_Ledger
begin

text \<open>
  A small library for evaluation: texts in the Latin alphabet are in normal form, the space is
  the only white space, a URL is its text, and the instant of a date text is its year digit.
\<close>

definition sample_qt :: "qstring qt_library" where
  "sample_qt = \<lparr>qt_nfc = (\<lambda>s. s), qt_nfkc = (\<lambda>s. s), qt_lower = (\<lambda>s. s), qt_space = (\<lambda>u. u = 32),
     qt_category = (\<lambda>n. if n < 32 then Cat_CC else Cat_Other), qt_compact = (\<lambda>_. []), qt_parse = (\<lambda>_. None),
     qt_from_iso = (\<lambda>s. Some (int (unat (s ! 3)))), qt_to_iso = (\<lambda>_. []), qt_zone = (\<lambda>_. True),
     qt_sha256 = (\<lambda>_. []), url_strict = (\<lambda>s. s), url_empty = [], url_is_empty = (\<lambda>u. u = []),
     url_encoded = (\<lambda>u. u), url_display = (\<lambda>u. u), url_valid = (\<lambda>u. u \<noteq> []), url_relative = (\<lambda>_. False),
     url_scheme = (\<lambda>_. q ''https''), url_host = (\<lambda>u. u), url_userinfo = (\<lambda>_. []), url_path = (\<lambda>_. []),
     url_has_query = (\<lambda>_. False), url_has_fragment = (\<lambda>_. False), url_port = (\<lambda>_. -1), url_adjusted = (\<lambda>u. u),
     url_without_path = (\<lambda>u. u), url_set_port = (\<lambda>_ u. u), url_resolved = (\<lambda>_ u. u)\<rparr>"

lemma sample_fields [simp]:
  "qt_nfc sample_qt = (\<lambda>s. s)" "qt_nfkc sample_qt = (\<lambda>s. s)" "qt_lower sample_qt = (\<lambda>s. s)"
  "qt_space sample_qt = (\<lambda>u. u = 32)" "qt_category sample_qt = (\<lambda>n. if n < 32 then Cat_CC else Cat_Other)"
  "qt_compact sample_qt = (\<lambda>_. [])" "qt_from_iso sample_qt = (\<lambda>s. Some (int (unat (s ! 3))))"
  "url_strict sample_qt = (\<lambda>s. s)" "url_is_empty sample_qt = (\<lambda>u. u = [])" "url_encoded sample_qt = (\<lambda>u. u)"
  "url_valid sample_qt = (\<lambda>u. u \<noteq> [])" "url_scheme sample_qt = (\<lambda>_. q ''https'')" "url_host sample_qt = (\<lambda>u. u)"
  "url_userinfo sample_qt = (\<lambda>_. [])" "url_path sample_qt = (\<lambda>_. [])" "url_has_query sample_qt = (\<lambda>_. False)"
  "url_has_fragment sample_qt = (\<lambda>_. False)" "url_port sample_qt = (\<lambda>_. -1)" "url_empty sample_qt = []"
  "url_without_path sample_qt = (\<lambda>u. u)"
  by (simp_all add: sample_qt_def)

section \<open>Its texts\<close>

lemma space_no_surrogate: "\<not> low_surrogate 32" "\<not> high_surrogate 32"
  by (simp_all add: low_surrogate_def high_surrogate_def)

lemma valid_utf16_prefix: "valid_utf16 (xs @ ys) \<Longrightarrow> list_all (\<lambda>u. u = 32) ys \<Longrightarrow> valid_utf16 xs"
proof (induction xs rule: valid_utf16.induct)
  case (2 u us)
  show ?case
  proof (cases us)
    case Nil
    with "2.prems" show ?thesis by (cases ys) (auto simp: space_no_surrogate split: if_splits)
  next
    case (Cons v vs)
    with 2 show ?thesis by (simp del: valid_utf16.simps(2) add: valid_utf16.simps(2) [of u] split: if_splits)
  qed
qed simp

lemma valid_utf16_dropWhile: "valid_utf16 xs \<Longrightarrow> valid_utf16 (dropWhile (\<lambda>u. u = 32) xs)"
proof (induction xs)
  case (Cons x xs)
  show ?case
  proof (cases "x = 32")
    case True
    with Cons show ?thesis by (simp add: space_no_surrogate)
  next
    case False
    with Cons.prems show ?thesis by (simp del: valid_utf16.simps)
  qed
qed simp

lemma sample_laws: "text_laws sample_qt"
proof -
  have "valid_utf16 (trimmed sample_qt s)" if "valid_utf16 s" for s
  proof -
    define front where "front = dropWhile (\<lambda>u. u = 32) s"
    define kept where "kept = rev (dropWhile (\<lambda>u. u = 32) (rev front))"
    define spaces where "spaces = rev (takeWhile (\<lambda>u. u = 32) (rev front))"
    have "front = kept @ spaces"
      unfolding kept_def spaces_def by (metis rev_append rev_rev_ident takeWhile_dropWhile_id)
    moreover have "valid_utf16 front" unfolding front_def by (rule valid_utf16_dropWhile [OF that])
    moreover have "list_all (\<lambda>u. u = 32) spaces"
      unfolding spaces_def by (auto simp: list_all_iff dest: set_takeWhileD)
    ultimately have "valid_utf16 kept" using valid_utf16_prefix [of kept spaces] by simp
    moreover have "trimmed sample_qt s = kept" by (simp add: trimmed_def kept_def front_def)
    ultimately show ?thesis by simp
  qed
  then show ?thesis by (simp add: text_laws_def trimmed_trimmed)
qed

text \<open>Visible ASCII is its own clean form.\<close>

definition plain :: "qstring \<Rightarrow> bool" where
  "plain s \<longleftrightarrow> list_all (\<lambda>u. 33 \<le> u \<and> u < 127) s"

lemma plain_unit: "33 \<le> u \<Longrightarrow> u < 127 \<Longrightarrow> \<not> high_surrogate u \<and> \<not> low_surrogate u \<and> u \<noteq> 32" for u :: "16 word"
  unfolding high_surrogate_def low_surrogate_def by (auto simp: word_less_nat_alt word_le_nat_alt)

lemma plain_valid: "plain s \<Longrightarrow> valid_utf16 s"
  by (induction s) (simp_all add: plain_def plain_unit)

lemma plain_ucs4: "plain s \<Longrightarrow> ucs4 s = map unat s"
proof (induction s)
  case (Cons u us)
  then show ?case by (cases us) (simp_all add: plain_def plain_unit)
qed simp

lemma plain_trimmed: "plain s \<Longrightarrow> trimmed sample_qt s = s"
proof (rule trimmed_no_op)
  assume "plain s"
  then have "u \<noteq> 32" if "u \<in> set s" for u
    using that plain_unit by (auto simp: plain_def list_all_iff)
  then show "s = [] \<or> (\<not> qt_space sample_qt (hd s) \<and> \<not> qt_space sample_qt (last s))"
    by (cases "s = []") auto
qed

lemma plain_points: "plain s \<Longrightarrow> list_all (plain_point sample_qt) (ucs4 s)"
  by (auto simp: plain_ucs4 list_all_iff plain_def plain_point_def word_le_nat_alt)

lemma sample_clean:
  "plain s \<Longrightarrow> length s \<le> n \<Longrightarrow> r \<longrightarrow> s \<noteq> [] \<Longrightarrow> cleanText sample_qt s f n r m = Inr s"
  using plain_points [of s]
  by (simp add: cleanText_def Let_def plain_valid plain_trimmed plain_ucs4 list_all_iff)

lemma plain_q: "plain (q s) \<longleftrightarrow> list_all (\<lambda>c. 33 \<le> (of_char c :: nat) \<and> (of_char c :: nat) < 127) s"
  by (simp add: plain_def q_def list_all_iff word_le_nat_alt word_less_nat_alt)

lemma length_q [simp]: "length (q s) = length s" "q s = [] \<longleftrightarrow> s = []"
  by (simp_all add: q_def)

lemma qt_sample_link: "fileLink_create sample_qt (q ''n'') (q ''u'') = Inr \<lparr>fl_name = q ''n'', fl_url = q ''u''\<rparr>"
proof -
  have "plain (q ''n'')" "plain (q ''u'')" by (simp_all add: plain_q)
  moreover have "bar \<notin> set (q ''n'')" by (simp add: bar_def q_def)
  ultimately show ?thesis
    using plain_points [of "q ''u''"]
    by (simp add: fileLink_create_def sample_clean readUrl_def plain_valid Let_def maximum_url_bytes_def)
      (simp add: plain_ucs4 q_def utf8_length_def)
qed

end
