(* ===== verification/Qt_Properties.thy ===== *)
theory Qt_Properties
  imports Qt_Sample
begin

text \<open>
  The claims about the Qt identity classes, with the objects that show each hypothesis can hold.
\<close>

section \<open>A sample author\<close>

lemmas char_classes = id_char_def is_alnum_def is_lower_def is_upper_def is_alpha_def is_digit_def is_lower_hex_def
  char_between_def

lemma all_units_q: "all_units P (q s) \<longleftrightarrow> list_all (\<lambda>c. (of_char c :: nat) < 128 \<and> P c) s"
  by (simp add: all_units_def unit_in_def q_def list_all_iff)

lemma q_pieces: "take n (q s) = q (take n s)" "drop n (q s) = q (drop n s)"
  by (simp_all add: q_def take_map drop_map)

lemma sample_text:
  "qvalue kvs k = QText (q s) \<Longrightarrow> list_all (\<lambda>c. 33 \<le> (of_char c :: nat) \<and> (of_char c :: nat) < 127) s \<Longrightarrow>
   length s \<le> n \<Longrightarrow> r \<longrightarrow> s \<noteq> [] \<Longrightarrow> qtext sample_qt kvs k n r m = Inr (q s)"
  by (simp add: qtext_def sample_clean plain_q del: qvalue.simps)

lemma sample_absent: "map_of kvs (q k) = None \<Longrightarrow> qtext sample_qt kvs k n False m = Inr []"
  by (simp add: qtext_def)

definition qt_sample_account :: "(qstring \<times> qjson) list" where
  "qt_sample_account = [(q ''sub'', QText (q ''a'')), (q ''email'', QText (q ''a@b.c''))]"

definition sample_device :: "(qstring \<times> qjson) list" where
  "sample_device = [(q ''id'', QText (q (replicate 64 CHR ''a''))), (q ''type'', QText (q ''pc'')), (q ''name'', QText (q ''n'')),
     (q ''platform'', QText (q ''p'')), (q ''osVersion'', QText (q ''o'')), (q ''appId'', QText (q ''i'')), (q ''appVersion'', QText (q ''v''))]"

definition qt_sample_session :: "(qstring \<times> qjson) list" where
  "qt_sample_session = [(q ''id'', QText (q (replicate 32 CHR ''a''))), (q ''client'', QText (q ''app'')), (q ''current'', QBool True),
     (q ''device'', QObject sample_device), (q ''createdAt'', QText (q ''2021-01-01T00:00:00Z'')),
     (q ''lastSeenAt'', QText (q ''2022-01-01T00:00:00Z'')), (q ''expiresAt'', QText (q ''2024-01-01T00:00:00Z''))]"

lemma sample_email: "qemail sample_qt (q ''a@b.c'') f = Inr (q ''a@b.c'')"
  by (simp add: qemail_def email_ok_def at_sign_def regex_space_def q_def)

lemma sample_readAccount: "\<exists>a. qreadAccount sample_qt qt_sample_account u False = Inr a \<and> ac_sub a = q ''a''"
  by (simp add: qreadAccount_def qt_sample_account_def sample_text sample_absent sample_email subject_ok_def all_units_q
      char_classes qmembershipNames_def read_avatar_def)

lemma sample_readDevice:
  "\<exists>d. qreadDevice sample_qt sample_device False = Inr d"
  by (simp add: qreadDevice_def sample_device_def sample_text hex_id_ok_def all_units_q list_all_iff char_classes)

lemma sample_readDetails: "\<exists>d. qreadDetails sample_qt [] = Inr d"
  by (simp add: qreadDetails_def qcompact_size_def read_detail_texts_def qdetail_fields_def sample_absent knownKeys_def
      detail_def qread_entries_def)

lemma qt_sample_origin: "u \<noteq> [] \<Longrightarrow> length u \<le> 2048 \<Longrightarrow> serviceOrigin sample_qt u = Inr u"
  by (simp add: serviceOrigin_def httpsUrl_def Let_def)

lemma sample_time:
  "qvalue kvs k = QText (q s) \<Longrightarrow> timestamp_shape_ok (q s) \<Longrightarrow> qtimestamp sample_qt kvs k True = Inr (Some (int (unat (q s ! 3))))"
  by (simp add: qtimestamp_def Let_def del: qvalue.simps)

lemma sample_shape: "y \<in> set ''12345'' \<Longrightarrow> timestamp_shape_ok (q (''202'' @ [y] @ ''-01-01T00:00:00Z''))"
  by (auto simp: timestamp_shape_ok_def digits_at_def q_pieces all_units_q is_digit_def zone_suffix_ok_def)

lemma sample_qread_session:
  "\<exists>s. qread_session sample_qt qt_sample_session (Some 51) = Inr s \<and> ls_id s = q (replicate 32 CHR ''a'')"
  using sample_readDevice sample_shape [of "CHR ''1''"] sample_shape [of "CHR ''2''"] sample_shape [of "CHR ''4''"]
  by (auto simp: qread_session_def qt_sample_session_def sample_text hex_id_ok_def all_units_q list_all_iff char_classes
      qobject_def sample_time date_less_def, simp_all add: q_def)

lemma sample_app_session:
  "\<exists>a s. fromIisaccAppSession sample_qt [(q ''account'', QObject qt_sample_account), (q ''session'', QObject qt_sample_session)]
     (q ''u'') (Some 51) = Inr a \<and> ac_sub (md_account (qf_metadata a)) = q ''a'' \<and>
     md_serviceOrigin (qf_metadata a) = q ''u'' \<and> qf_session a = Some s \<and> ls_id s = q (replicate 32 CHR ''a'')"
proof -
  obtain a where a: "qreadAccount sample_qt qt_sample_account (q ''u'') False = Inr a" "ac_sub a = q ''a''"
    using sample_readAccount by blast
  obtain d where d: "qreadDetails sample_qt [] = Inr d" using sample_readDetails by blast
  obtain s where s: "qread_session sample_qt qt_sample_session (Some 51) = Inr s" "ls_id s = q (replicate 32 CHR ''a'')"
    using sample_qread_session by blast
  have "qobject qt_sample_account ''authorDetails'' False = Inr []"
    by (simp add: qobject_def qt_sample_account_def)
  with a d s show ?thesis
    by (simp add: fromIisaccAppSession_def qcompact_size_def absent_or_null_def qobject_def qfromIisaccAccount_def
        qt_sample_origin)
qed

definition sample_token_info :: "qstring token_info" where
  "sample_token_info = \<lparr>ti_kind = CognitoId, ti_subject = q ''a'', ti_serviceOrigin = q ''u'',
     ti_sessionId = q (replicate 32 CHR ''a''), ti_issuer = [], ti_audience = [], ti_scopes = [],
     ti_issuedAt = Some 1, ti_notBefore = None, ti_expiresAt = Some 2\<rparr>"

lemma sample_token: "token_create sample_qt sample_token_info [65] = Inr \<lparr>tk_info = sample_token_info, tk_secret = [65]\<rparr>"
  by (simp add: token_create_def sample_token_info_def qt_sample_origin subject_ok_def hex_id_ok_def all_units_q
      char_classes list_all_iff sample_clean plain_def date_less_def)

lemma sample_bound_author:
  "\<exists>a. author_made sample_qt a \<and> qf_token a \<noteq> None \<and> qf_session a \<noteq> None"
proof -
  let ?t = "\<lparr>tk_info = sample_token_info, tk_secret = [65]\<rparr>"
  from sample_app_session obtain kvs u c a s where "fromIisaccAppSession sample_qt kvs u c = Inr a"
      "ac_sub (md_account (qf_metadata a)) = q ''a''" "md_serviceOrigin (qf_metadata a) = q ''u''"
      "qf_session a = Some s" "ls_id s = q (replicate 32 CHR ''a'')"
    by blast
  then have "author_made sample_qt a" "setAuthenticationToken ?t a = Inr (a\<lparr>qf_token := Some ?t\<rparr>)" "qf_session a \<noteq> None"
    by (auto simp: setAuthenticationToken_def sample_token_info_def intro: author_made.session)
  then have "author_made sample_qt (a\<lparr>qf_token := Some ?t\<rparr>)" "qf_session (a\<lparr>qf_token := Some ?t\<rparr>) \<noteq> None"
    using author_made.token sample_token by auto
  then show ?thesis by (intro exI [of _ "a\<lparr>qf_token := Some ?t\<rparr>"]) simp
qed

section \<open>A sample ledger\<close>




section \<open>Claims\<close>

text \<open>
  C36: whatever calls follow, an author object holds a token only for its own account, service and
  login session, and a session only with the device of its metadata, well-formed and its instants ordered.
\<close>

theorem author_credentials_bound:
  assumes "author_made L a"
  shows "(case qf_token a of None \<Rightarrow> True | Some t \<Rightarrow> token_bound a t \<and> token_formed t) \<and>
    (case qf_session a of None \<Rightarrow> True | Some s \<Rightarrow> session_bound a s)"
  using author_made_bound [OF assms] unfolding author_bound_def .

theorem author_credentials_bound_witness:
  "\<exists>a t s. author_made sample_qt a \<and> qf_token a = Some t \<and> qf_session a = Some s \<and>
     token_bound a t \<and> token_formed t \<and> session_bound a s"
proof -
  from sample_bound_author obtain a t s where
    a: "author_made sample_qt a" and some: "qf_token a = Some t" "qf_session a = Some s"
    by auto
  from author_credentials_bound [OF a] a some show ?thesis by auto
qed



text \<open>
  a named link that was accepted is read back unchanged from the form \<open>[name|url]\<close> it prints.
\<close>

theorem fileLink_text_roundtrip:
  "text_laws L \<Longrightarrow> fileLink_create L name url = Inr l \<Longrightarrow> fileLink_fromString L (fileLink_toString l) = Inr l"
  by (rule fileLink_fromString_toString)

theorem fileLink_text_roundtrip_witness:
  "fileLink_fromString sample_qt (fileLink_toString \<lparr>fl_name = q ''n'', fl_url = q ''u''\<rparr>) =
     Inr \<lparr>fl_name = q ''n'', fl_url = q ''u''\<rparr>"
  by (rule fileLink_text_roundtrip [OF sample_laws qt_sample_link])

end
