(* ===== verification/Preview_Codec.thy ===== *)
theory Preview_Codec
  imports Native_Path Native_Author
begin

text \<open>
  The pure part of \<open>Native/src/Presentation/Presentation.cpp\<close>: which files get a preview, Base64,
  XML escaping, the text and information cards in SVG, and the type of a file by its first bytes.
  A \<open>std::string\<close> is its bytes.
\<close>

section \<open>Names\<close>

definition lower_text :: "string \<Rightarrow> string" where
  "lower_text s = map ascii_lower s"

definition preview_suffix :: string where
  "preview_suffix = ''.iisacc-preview''"

definition control_file :: "path \<Rightarrow> bool" where
  "control_file p =
     (let name = lower_text (path_filename p)
      in name = [] \<or> hd name = CHR ''.'' \<or>
         list_ex (\<lambda>e. ends_with e name) [preview_suffix, ''.iisacc.json'', ''.iisacc-lock'', ''.lock'', ''.tmp'', ''.log'',
           ''.sqlite3'', ''.sqlite'', ''.db'', ''-wal'', ''-shm'', ''-journal''])"

definition provider_control :: "path \<Rightarrow> bool" where
  "provider_control p =
     (let name = lower_text (path_filename p)
      in name = ''.iisacc-file-provider'' \<or> name = ''.iisacc-temporary.lock'' \<or> starts_with ''.iifile-stage-'' name \<or>
         ends_with preview_suffix name \<or> ends_with ''.iisacc.json'' name \<or> ends_with ''.iisacc-lock'' name)"

text \<open>The elements of a path: its root directory and the names between separators.\<close>

fun split_names :: "string \<Rightarrow> string \<Rightarrow> string list" where
  "split_names acc [] = [rev acc]"
| "split_names acc (c # s) = (if c = CHR ''/'' then rev acc # split_names [] s else split_names (c # acc) s)"

definition path_elements :: "path \<Rightarrow> string list" where
  "path_elements p =
     (let names = split_names [] p; inner = filter (\<lambda>n. n \<noteq> []) names
      in (if is_absolute p then [''/''] else []) @ inner @ (if inner \<noteq> [] \<and> last names = [] then [[]] else []))"

definition managed_visible :: "path \<Rightarrow> bool" where
  "managed_visible p = list_all (\<lambda>n. \<not> ((1 < length n \<and> hd n = CHR ''.'') \<or> provider_control n)) (path_elements p)"

definition preview_visible :: "path \<Rightarrow> bool" where
  "preview_visible p \<longleftrightarrow> list_all (\<lambda>n. \<not> (1 < length n \<and> hd n = CHR ''.'')) (path_elements p) \<and> \<not> control_file p"

section \<open>Base64\<close>

definition maximum_document_bytes :: nat where
  "maximum_document_bytes = 2 * 1024 * 1024"

definition base64_alphabet :: string where
  "base64_alphabet = ''ABCDEFGHIJKLMNOPQRSTUVWXYZabcdefghijklmnopqrstuvwxyz0123456789+/''"

definition char_u32 :: "char \<Rightarrow> u32" where
  "char_u32 c = of_nat (of_char c)"

definition base64_value :: "u32 \<Rightarrow> u32 \<Rightarrow> u32 \<Rightarrow> u32" where
  "base64_value a b c = push_bit 16 a OR push_bit 8 b OR c"

definition base64_digit :: "u32 \<Rightarrow> nat \<Rightarrow> char" where
  "base64_digit v k = base64_alphabet ! unat (drop_bit k v AND 63)"

fun base64 :: "string \<Rightarrow> string" where
  "base64 [] = []"
| "base64 [a] =
     (let v = base64_value (char_u32 a) 0 0 in [base64_digit v 18, base64_digit v 12, CHR ''='', CHR ''=''])"
| "base64 [a, b] =
     (let v = base64_value (char_u32 a) (char_u32 b) 0
      in [base64_digit v 18, base64_digit v 12, base64_digit v 6, CHR ''=''])"
| "base64 (a # b # c # rest) =
     (let v = base64_value (char_u32 a) (char_u32 b) (char_u32 c)
      in [base64_digit v 18, base64_digit v 12, base64_digit v 6, base64_digit v 0] @ base64 rest)"

text \<open>One character of a group of four; \<open>final\<close> tells whether the group ends the input.\<close>

definition unbase64_char :: "bool \<Rightarrow> nat \<Rightarrow> char \<Rightarrow> u32 \<times> nat \<Rightarrow> (string, u32 \<times> nat) result" where
  "unbase64_char final i c = (\<lambda>(v, padding).
     if c = CHR ''=''
     then if i < 2 \<or> \<not> final then Inl ''Invalid preview padding'' else Inr (push_bit 6 v, padding + 1)
     else case index_of (\<lambda>x. x = c) base64_alphabet of
       None \<Rightarrow> Inl ''Invalid preview base64''
     | Some n \<Rightarrow> if 0 < padding then Inl ''Invalid preview base64'' else Inr (push_bit 6 v OR of_nat n, padding))"

definition low_byte :: "u32 \<Rightarrow> char" where
  "low_byte v = char_of (unat v)"

definition unbase64_group :: "bool \<Rightarrow> char \<Rightarrow> char \<Rightarrow> char \<Rightarrow> char \<Rightarrow> (string, string) result" where
  "unbase64_group final a b c d =
     rbind (unbase64_char final 0 a (0, 0)) (\<lambda>s.
     rbind (unbase64_char final 1 b s) (\<lambda>s.
     rbind (unbase64_char final 2 c s) (\<lambda>s.
     rbind (unbase64_char final 3 d s) (\<lambda>(v, padding).
     Inr (low_byte (drop_bit 16 v) # (if padding < 2 then [low_byte (drop_bit 8 v)] else []) @
          (if padding = 0 then [low_byte v] else []))))))"

fun unbase64_groups :: "string \<Rightarrow> (string, string) result" where
  "unbase64_groups (a # b # c # d # rest) =
     rbind (unbase64_group (rest = []) a b c d) (\<lambda>bytes.
     rbind (unbase64_groups rest) (\<lambda>more. Inr (bytes @ more)))"
| "unbase64_groups _ = Inr []"

definition unbase64 :: "string \<Rightarrow> (string, string) result" where
  "unbase64 s =
     (if length s mod 4 \<noteq> 0 \<or> maximum_document_bytes < length s then Inl ''Invalid preview encoding''
      else rbind (unbase64_groups s) (\<lambda>out.
        if base64 out \<noteq> s then Inl ''Noncanonical preview encoding'' else Inr out))"

section \<open>XML and cards\<close>

text \<open>One step of the loop: the text for the next character, and how many bytes it took.\<close>

definition xml_step :: "('z) native_library_scheme \<Rightarrow> string \<Rightarrow> string \<times> nat" where
  "xml_step L s =
     (let (n, cp) = u_iterate L s
      in if n \<le> 0 then ([CHR 0xEF, CHR 0xBF, CHR 0xBD], 1)
         else (if cp = 38 then ''&amp;'' else if cp = 60 then ''&lt;'' else if cp = 62 then ''&gt;''
               else if cp = 34 then ''&quot;'' else if cp = 39 then ''&apos;''
               else if 32 \<le> cp \<or> cp = 9 then take (nat n) s else [], nat n))"

function xml :: "('z) native_library_scheme \<Rightarrow> string \<Rightarrow> string" where
  "xml L s = (if s = [] then [] else case xml_step L s of (out, n) \<Rightarrow> out @ xml L (drop n s))"
  by pat_completeness auto
termination
  by (relation "measure (\<lambda>(L, s). length s)") (auto simp: xml_step_def Let_def split: prod.splits if_splits)

declare xml.simps [simp del]

definition svg_start :: string where
  "svg_start = ''<svg xmlns=\"http://www.w3.org/2000/svg\" width=\"512\" height=\"512\" viewBox=\"0 0 512 512\"><rect width=\"512\" height=\"512\" fill=\"#f7f7f8\"/>''"

record file_details =
  fd_name :: string
  fd_extension :: string
  fd_mimeType :: string
  fd_size :: u64
  fd_modifiedAtNs :: int
  fd_properties :: "(string \<times> string) list"

record file_preview =
  fp_mimeType :: string
  fp_kind :: string
  fp_bytes :: string
  fp_width :: u32
  fp_height :: u32

text \<open>A text element at a position, in a font.\<close>

definition svg_text :: "string \<Rightarrow> string \<Rightarrow> string \<Rightarrow> string" where
  "svg_text y style content = ''<text x=\"24\" y=\"'' @ y @ ''\" font-family=\"'' @ style @ ''\">'' @ content @ ''</text>''"

definition middle_dot :: string where
  "middle_dot = [CHR 0x20, CHR 0xC2, CHR 0xB7, CHR 0x20]"

definition continuation :: "char \<Rightarrow> bool" where
  "continuation c \<longleftrightarrow> (of_char c :: nat) div 64 = 2"

text \<open>The end of the row that starts the text: its line break, or 66 bytes and what completes a character.\<close>

definition row_end :: "string \<Rightarrow> nat" where
  "row_end s = (case index_of (\<lambda>c. c = CHR 0x0A) s of
     Some e \<Rightarrow> if 66 < e then min (length s) 66 + length (takeWhile continuation (drop (min (length s) 66) s)) else e
   | None \<Rightarrow> min (length s) 66 + length (takeWhile continuation (drop (min (length s) 66) s)))"

definition monospace_style :: string where
  "monospace_style = ''monospace\" font-size=\"12\" fill=\"#303134''"

text \<open>The rows from a row number on; \<open>n\<close> rows are left of the 23.\<close>

fun card_rows :: "('z) native_library_scheme \<Rightarrow> nat \<Rightarrow> nat \<Rightarrow> string \<Rightarrow> string" where
  "card_rows L 0 row s = []"
| "card_rows L (Suc n) row s =
     (if s = [] then []
      else let e = row_end s
        in svg_text (nat_to_string (96 + row * 17)) monospace_style (xml L (take e s)) @
           card_rows L n (row + 1) (drop (e + (if e < length s \<and> s ! e = CHR 0x0A then 1 else 0)) s))"

definition card :: "('z) native_library_scheme \<Rightarrow> file_details \<Rightarrow> string \<Rightarrow> bool \<Rightarrow> file_preview" where
  "card L details content isText =
     \<lparr>fp_mimeType = ''image/svg+xml'', fp_kind = (if isText then ''text'' else ''information''),
      fp_bytes = svg_start @
        svg_text ''38'' ''sans-serif\" font-size=\"18\" fill=\"#202124'' (xml L (take 120 (fd_name details))) @
        svg_text ''64'' ''sans-serif\" font-size=\"12\" fill=\"#555''
          (xml L (fd_mimeType details @ middle_dot @ nat_to_string (unat (fd_size details)) @ '' bytes'')) @
        card_rows L 23 0 content @ ''</svg>'',
      fp_width = 512, fp_height = 512\<rparr>"

section \<open>Types\<close>

text \<open>Whether a prefix of a file is text; the last character of a prefix may be cut.\<close>

function textual_from :: "('z) native_library_scheme \<Rightarrow> bool \<Rightarrow> string \<Rightarrow> bool" where
  "textual_from L started s =
     (if s = [] then True
      else let (n, cp) = u_iterate L s
        in if n \<le> 0 then length s < 4 \<and> started
           else if (cp < 32 \<and> cp \<noteq> 10 \<and> cp \<noteq> 13 \<and> cp \<noteq> 9) \<or> cp = 127 then False
           else textual_from L True (drop (nat n) s))"
  by pat_completeness auto
termination
  by (relation "measure (\<lambda>(L, b, s). length s)") auto

declare textual_from.simps [simp del]

definition textual :: "('z) native_library_scheme \<Rightarrow> string \<Rightarrow> bool" where
  "textual L s = textual_from L False s"

definition part_at :: "nat \<Rightarrow> nat \<Rightarrow> string \<Rightarrow> string" where
  "part_at i n s = take n (drop i s)"

definition png_signature :: string where
  "png_signature = [CHR 0x89, CHR ''P'', CHR ''N'', CHR ''G'', CHR 0x0D, CHR 0x0A, CHR 0x1A, CHR 0x0A]"

definition mime :: "('z) native_library_scheme \<Rightarrow> path \<Rightarrow> string \<Rightarrow> string" where
  "mime L p bytes =
     (let ext = lower_text (extension_of p); brand = part_at 8 4 bytes
      in if starts_with png_signature bytes then ''image/png''
         else if starts_with [CHR 0xFF, CHR 0xD8, CHR 0xFF] bytes then ''image/jpeg''
         else if starts_with ''GIF87a'' bytes \<or> starts_with ''GIF89a'' bytes then ''image/gif''
         else if starts_with ''%PDF-'' bytes then ''application/pdf''
         else if 12 \<le> length bytes \<and> part_at 0 4 bytes = ''RIFF'' \<and> part_at 8 4 bytes = ''WEBP'' then ''image/webp''
         else if starts_with ''BM'' bytes then ''image/bmp''
         else if starts_with [CHR ''I'', CHR ''I'', CHR ''*'', CHR 0x00] bytes \<or> starts_with [CHR ''M'', CHR ''M'', CHR 0x00, CHR ''*''] bytes
         then ''image/tiff''
         else if 12 \<le> length bytes \<and> part_at 4 4 bytes = ''ftyp''
         then (if brand = ''heic'' \<or> brand = ''heix'' \<or> brand = ''mif1'' then ''image/heic''
               else if brand = ''avif'' then ''image/avif'' else ''video/mp4'')
         else if ext = ''.iisc'' then ''application/vnd.iisacc.canvas''
         else if ext = ''.mid'' \<or> ext = ''.midi'' then ''audio/midi''
         else if ext = ''.mp3'' then ''audio/mpeg''
         else if ext = ''.svg'' then ''image/svg+xml''
         else if ext = ''.docx'' then ''application/vnd.openxmlformats-officedocument.wordprocessingml.document''
         else if ext = ''.xlsx'' then ''application/vnd.openxmlformats-officedocument.spreadsheetml.sheet''
         else if ext = ''.pptx'' then ''application/vnd.openxmlformats-officedocument.presentationml.presentation''
         else if textual L bytes then (if ext = ''.json'' then ''application/json'' else ''text/plain'')
         else ''application/octet-stream'')"

end
