(* ===== verification/Preview_Document.thy ===== *)
theory Preview_Document
  imports Preview_Codec
begin

text \<open>
  The preview document of \<open>Native/src/Presentation/Presentation.cpp\<close>: validation of a preview, in
  particular of the SVG cards that portable documents may carry, and the JSON text of a record.
\<close>

section \<open>Validation\<close>

fun contains_text :: "string \<Rightarrow> string \<Rightarrow> bool" where
  "contains_text t [] = (t = [])"
| "contains_text t (c # s) = (starts_with t (c # s) \<or> contains_text t s)"

definition svg_tag_error :: "string \<Rightarrow> string option" where
  "svg_tag_error raw =
     (let tag = lower_text raw; name = takeWhile (\<lambda>c. c \<notin> {CHR '' '', CHR 0x09, CHR 0x0D, CHR 0x0A}) tag
      in if name \<notin> {''svg'', ''/svg'', ''rect'', ''text'', ''/text''} then Some ''Unsupported SVG element''
         else if list_ex (\<lambda>t. contains_text t tag)
           ['' on'', CHR 0x09 # ''on'', CHR 0x0A # ''on'', CHR 0x0D # ''on'', ''href'', ''url('', ''style'', ''<!'', ''<?'']
         then Some ''Active or externally referenced preview content'' else None)"

text \<open>Every tag from a position on.\<close>

function svg_tags :: "string \<Rightarrow> (string, unit) result" where
  "svg_tags s = (case index_of (\<lambda>c. c = CHR ''<'') s of
     None \<Rightarrow> Inr ()
   | Some i \<Rightarrow> (case index_of (\<lambda>c. c = CHR ''>'') (drop i s) of
       None \<Rightarrow> Inl ''Invalid SVG tag''
     | Some e \<Rightarrow> (case svg_tag_error (take (e - 1) (drop (i + 1) s)) of
         Some m \<Rightarrow> Inl m
       | None \<Rightarrow> svg_tags (drop (i + e + 1) s))))"
  by pat_completeness auto
termination
  by (relation "measure length") (auto simp: index_of_def Let_def split: if_splits)

declare svg_tags.simps [simp del]

definition big_endian :: "string \<Rightarrow> nat" where
  "big_endian s = foldl (\<lambda>n c. n * 256 + of_char c) 0 s"

definition validate_preview :: "file_preview \<Rightarrow> bool \<Rightarrow> (string, unit) result" where
  "validate_preview p supplied =
     rbind (if fp_width p = 0 \<or> fp_height p = 0 \<or> 512 < fp_width p \<or> 512 < fp_height p \<or> fp_bytes p = [] \<or>
               maximum_document_bytes div 2 < length (fp_bytes p)
            then Inl ''Preview exceeds the supported bounds'' else Inr ()) (\<lambda>_.
     rbind (if fp_mimeType p = ''image/png''
            then if length (fp_bytes p) < 24 \<or> part_at 0 8 (fp_bytes p) \<noteq> png_signature \<or> part_at 12 4 (fp_bytes p) \<noteq> ''IHDR''
                 then Inl ''Invalid PNG preview''
                 else if big_endian (part_at 16 4 (fp_bytes p)) \<noteq> unat (fp_width p) \<or>
                         big_endian (part_at 20 4 (fp_bytes p)) \<noteq> unat (fp_height p)
                 then Inl ''Preview dimensions do not match its payload'' else Inr ()
            else if fp_mimeType p = ''image/svg+xml'' \<and> \<not> supplied
            then if \<not> starts_with svg_start (fp_bytes p) \<or> \<not> ends_with ''</svg>'' (fp_bytes p) then Inl ''Invalid provider SVG card''
                 else svg_tags (fp_bytes p)
            else Inl ''Only bounded PNGs may be supplied by a document encoder'') (\<lambda>_.
     if fp_kind p \<notin> {''image'', ''text'', ''audio'', ''information''} then Inl ''Unknown preview kind'' else Inr ()))"

section \<open>The document\<close>

record presentation_record =
  pr_details :: file_details
  pr_preview :: file_preview
  pr_sourceVersion :: string
  pr_document :: string
  pr_embedded :: bool
  pr_cacheHit :: bool

definition document_json :: "presentation_record \<Rightarrow> string \<Rightarrow> json" where
  "document_json r checksum = JObject
     [(''details'', JObject
        [(''extension'', JString (fd_extension (pr_details r))), (''mimeType'', JString (fd_mimeType (pr_details r))),
         (''modifiedAtNs'', JInt (fd_modifiedAtNs (pr_details r))), (''name'', JString (fd_name (pr_details r))),
         (''properties'', JObject (map (\<lambda>(k, v). (k, JString v)) (fd_properties (pr_details r)))),
         (''size'', JInt (uint (fd_size (pr_details r))))]),
      (''format'', JString ''iiFileProvider.Presentation''),
      (''generator'', JString ''iiFileProvider.Native/0.7''),
      (''preview'', JObject
        [(''data'', JString (base64 (fp_bytes (pr_preview r)))), (''encoding'', JString ''base64''),
         (''height'', JInt (uint (fp_height (pr_preview r)))), (''kind'', JString (fp_kind (pr_preview r))),
         (''mimeType'', JString (fp_mimeType (pr_preview r))), (''sha256'', JString checksum),
         (''width'', JInt (uint (fp_width (pr_preview r))))]),
      (''schema'', JInt 1), (''sourceVersion'', JString (pr_sourceVersion r))]"

text \<open>\<open>serialize\<close>; \<open>None\<close> when the digest or the printer throws.\<close>

definition serialize_record :: "('z) native_library_scheme \<Rightarrow> presentation_record \<Rightarrow> string option" where
  "serialize_record L r = (case text_sha256 (fp_bytes (pr_preview r)) of
     Inl _ \<Rightarrow> None
   | Inr checksum \<Rightarrow> nl_dump L (document_json r checksum))"

text \<open>\<open>at(key)\<close>, \<open>get<std::string>()\<close> and the number conversions of the JSON library.\<close>

definition doc_at :: "json \<Rightarrow> string \<Rightarrow> (string, json) result" where
  "doc_at j k = (if is_object j then of_option ''out_of_range'' (member j k) else Inl ''type_error'')"

definition get_text :: "json \<Rightarrow> (string, string) result" where
  "get_text j = (case j of JString s \<Rightarrow> Inr s | _ \<Rightarrow> Inl ''type_error'')"

text \<open>
  \<open>real_int\<close> converts a floating-point member; the conversion to \<open>unsigned\<close> takes a boolean too, those to
  the library's own 64-bit types do not.
\<close>

definition get_number :: "(string \<Rightarrow> int) \<Rightarrow> json \<Rightarrow> (string, int) result" where
  "get_number real_int j = (case j of JInt i \<Rightarrow> Inr i | JReal x \<Rightarrow> Inr (real_int x) | _ \<Rightarrow> Inl ''type_error'')"

definition get_unsigned :: "(string \<Rightarrow> int) \<Rightarrow> json \<Rightarrow> (string, int) result" where
  "get_unsigned real_int j = (case j of JBool b \<Rightarrow> Inr (if b then 1 else 0) | _ \<Rightarrow> get_number real_int j)"

definition is_one :: "('z) native_library_scheme \<Rightarrow> json \<Rightarrow> bool" where
  "is_one L j = (case j of JInt i \<Rightarrow> i = 1 | JReal x \<Rightarrow> nl_real_is L x 1 | _ \<Rightarrow> False)"

definition text_at :: "json \<Rightarrow> string \<Rightarrow> (string, string) result" where
  "text_at j k = rbind (doc_at j k) get_text"

definition int_at :: "(string \<Rightarrow> int) \<Rightarrow> json \<Rightarrow> string \<Rightarrow> (string, int) result" where
  "int_at real_int j k = rbind (doc_at j k) (get_number real_int)"

definition unsigned_at :: "(string \<Rightarrow> int) \<Rightarrow> json \<Rightarrow> string \<Rightarrow> (string, int) result" where
  "unsigned_at real_int j k = rbind (doc_at j k) (get_unsigned real_int)"

definition texts_at :: "json \<Rightarrow> string \<Rightarrow> (string, (string \<times> string) list) result" where
  "texts_at j k = rbind (doc_at j k) (\<lambda>m. case m of
     JObject kvs \<Rightarrow> mapM (\<lambda>(key, v). rbind (get_text v) (\<lambda>s. Inr (key, s))) kvs
   | _ \<Rightarrow> Inl ''type_error'')"

text \<open>A signed 64-bit number of a JSON integer.\<close>

definition int64_of :: "int \<Rightarrow> int" where
  "int64_of i = sint (word_of_int i :: 64 word)"

definition parse_record ::
    "('z) native_library_scheme \<Rightarrow> (string \<Rightarrow> int) \<Rightarrow> string \<Rightarrow> (string, presentation_record) result" where
  "parse_record L real_int input =
     (if maximum_document_bytes < length input then Inl ''Presentation document exceeds limit''
      else rbind (of_option ''parse_error'' (nl_parse L input)) (\<lambda>j.
      rbind (doc_at j ''format'') (\<lambda>format.
      rbind (if format \<noteq> JString ''iiFileProvider.Presentation'' then Inl ''Unknown presentation document'' else Inr ()) (\<lambda>_.
      rbind (doc_at j ''schema'') (\<lambda>schema.
      rbind (if \<not> is_one L schema then Inl ''Unknown presentation document'' else Inr ()) (\<lambda>_.
      rbind (text_at j ''sourceVersion'') (\<lambda>version.
      rbind (doc_at j ''details'') (\<lambda>d.
      rbind (doc_at j ''preview'') (\<lambda>p.
      rbind (text_at d ''name'') (\<lambda>name.
      rbind (text_at d ''extension'') (\<lambda>ext.
      rbind (text_at d ''mimeType'') (\<lambda>type.
      rbind (int_at real_int d ''size'') (\<lambda>sz.
      rbind (int_at real_int d ''modifiedAtNs'') (\<lambda>modified.
      rbind (texts_at d ''properties'') (\<lambda>properties.
      rbind (doc_at p ''encoding'') (\<lambda>encoding.
      rbind (if encoding \<noteq> JString ''base64'' then Inl ''Unknown preview encoding'' else Inr ()) (\<lambda>_.
      rbind (text_at p ''mimeType'') (\<lambda>ptype.
      rbind (text_at p ''kind'') (\<lambda>kind.
      rbind (text_at p ''data'') (\<lambda>data.
      rbind (unbase64 data) (\<lambda>bytes.
      rbind (unsigned_at real_int p ''width'') (\<lambda>width.
      rbind (unsigned_at real_int p ''height'') (\<lambda>height.
      let preview = \<lparr>fp_mimeType = ptype, fp_kind = kind, fp_bytes = bytes, fp_width = word_of_int width, fp_height = word_of_int height\<rparr>
      in rbind (validate_preview preview False) (\<lambda>_.
      rbind (case text_sha256 bytes of Inl _ \<Rightarrow> Inl ''length_error'' | Inr h \<Rightarrow> Inr h) (\<lambda>actual.
      rbind (text_at p ''sha256'') (\<lambda>checksum.
      if actual \<noteq> checksum then Inl ''Preview checksum mismatch''
      else Inr \<lparr>pr_details = \<lparr>fd_name = name, fd_extension = ext, fd_mimeType = type, fd_size = word_of_int sz,
                  fd_modifiedAtNs = int64_of modified, fd_properties = properties\<rparr>,
                pr_preview = preview, pr_sourceVersion = version, pr_document = input,
                pr_embedded = False, pr_cacheHit = False\<rparr>))))))))))))))))))))))))))"

end
