(* ===== verification/Preview_Store.thy ===== *)
theory Preview_Store
  imports Preview_Document
begin

text \<open>
  How \<open>Presentation::prepare\<close> describes a file, falls back to a card and makes the documents, and
  how \<open>Presentation::load\<close> decides whether a stored document still belongs to its file.  What the
  operating system tells of the file (name, size, times, version and change token) is an argument.
\<close>

section \<open>Details and the fallback\<close>

definition details_for :: "('z) native_library_scheme \<Rightarrow> path \<Rightarrow> u64 \<Rightarrow> int \<Rightarrow> string \<Rightarrow> file_details" where
  "details_for L p sz modified bytes =
     \<lparr>fd_name = path_filename p, fd_extension = lower_text (extension_of p), fd_mimeType = mime L p bytes,
      fd_size = sz, fd_modifiedAtNs = modified, fd_properties = []\<rparr>"

definition information_text :: string where
  "information_text = ''Content preview unavailable. Open the file to view its contents.''"

definition fallback_preview ::
    "('z) native_library_scheme \<Rightarrow> file_details \<Rightarrow> string \<Rightarrow> file_preview \<times> file_details" where
  "fallback_preview L details bytes =
     (let isText = (fd_mimeType details = ''text/plain'' \<or> fd_mimeType details = ''application/json'');
          details = (if isText
            then details\<lparr>fd_properties :=
                put ''textPreviewTruncated'' (if 4096 < fd_size details then ''true'' else ''false'')
               (put ''textEncoding'' ''UTF-8'' (fd_properties details))\<rparr>
            else details)
      in (card L details (if isText then take 4096 bytes else information_text) isText, details))"

section \<open>Publication\<close>

text \<open>The document of \<open>persist\<close>, before it touches the file system.\<close>

definition persist_document ::
    "('z) native_library_scheme \<Rightarrow> string \<Rightarrow> file_preview \<Rightarrow> file_details \<Rightarrow> (string, presentation_record) result" where
  "persist_document L stamp preview details =
     rbind (validate_preview preview False) (\<lambda>_.
     let r = \<lparr>pr_details = details, pr_preview = preview, pr_sourceVersion = stamp, pr_document = [],
              pr_embedded = False, pr_cacheHit = False\<rparr>
     in rbind (of_option ''type_error'' (serialize_record L r)) (\<lambda>document.
        if maximum_document_bytes < length document then Inl ''Presentation document exceeds byte limit''
        else Inr (r\<lparr>pr_document := document\<rparr>)))"

text \<open>The companion: the same document with the change token of the published file.\<close>

definition portable_document :: "('z) native_library_scheme \<Rightarrow> presentation_record \<Rightarrow> string \<Rightarrow> (string, presentation_record) result" where
  "portable_document L r token =
     rbind (of_option ''parse_error'' (nl_parse L (pr_document r))) (\<lambda>j.
     rbind (of_option ''type_error'' (nl_dump L (set_member ''sourceChangeToken'' (JString token) j))) (\<lambda>document.
     if maximum_document_bytes < length document then Inl ''Portable presentation exceeds byte limit''
     else Inr (r\<lparr>pr_document := document\<rparr>)))"

section \<open>Loading\<close>

text \<open>What the operating system tells of a source: \<open>Source\<close>, its version and its change token.\<close>

record source_state =
  so_name :: string
  so_size :: u64
  so_modified :: int
  so_version :: string
  so_token :: string

text \<open>Whether the extended attribute carries the same preview.\<close>

definition embedded_same :: "('z) native_library_scheme \<Rightarrow> (string \<Rightarrow> int) \<Rightarrow> source_state \<Rightarrow> string option \<Rightarrow> presentation_record \<Rightarrow> bool" where
  "embedded_same L real_int source attribute r = (case attribute of None \<Rightarrow> pr_embedded r
   | Some data \<Rightarrow> (case parse_record L real_int data of Inl _ \<Rightarrow> pr_embedded r
     | Inr stored \<Rightarrow> pr_sourceVersion stored = so_version source \<and> fp_bytes (pr_preview stored) = fp_bytes (pr_preview r)))"

text \<open>The companion of a source is current; a failure to read it counts as absent.\<close>

definition load_companion ::
    "('z) native_library_scheme \<Rightarrow> (string \<Rightarrow> int) \<Rightarrow> source_state \<Rightarrow> string option \<Rightarrow> string \<Rightarrow> presentation_record option" where
  "load_companion L real_int source attribute bytes = (case parse_record L real_int bytes of
     Inl _ \<Rightarrow> None
   | Inr r \<Rightarrow>
     if pr_sourceVersion r \<noteq> so_version source \<or> fd_name (pr_details r) \<noteq> so_name source \<or>
        fd_size (pr_details r) \<noteq> so_size source \<or> fd_modifiedAtNs (pr_details r) \<noteq> so_modified source then None
     else (case nl_parse L bytes of None \<Rightarrow> None
       | Some j \<Rightarrow> (case value_or j ''sourceChangeToken'' (JString []) of
           Inr (JString token) \<Rightarrow>
             if token \<noteq> so_token source then None
             else Some (r\<lparr>pr_embedded := embedded_same L real_int source attribute r, pr_cacheHit := True\<rparr>)
         | _ \<Rightarrow> None)))"

section \<open>Attached previews\<close>

text \<open>\<open>attach\<close> on its arguments: a PNG and bounded properties.\<close>

definition attach_checks :: "file_preview \<Rightarrow> (string \<times> string) list \<Rightarrow> (string, unit) result" where
  "attach_checks preview properties =
     rbind (validate_preview preview True) (\<lambda>_.
     rbind (if 64 < length properties then Inl ''Too many presentation properties'' else Inr ()) (\<lambda>_.
     if list_ex (\<lambda>(k, v). k = [] \<or> 256 < length k \<or> 8192 < length v) properties
     then Inl ''Presentation property exceeds limits'' else Inr ()))"

text \<open>Whether a companion may be replaced or removed: read without an exception, and a presentation document.\<close>

definition own_companion :: "(string \<Rightarrow> int) \<Rightarrow> json \<Rightarrow> bool" where
  "own_companion real_int j \<longleftrightarrow> is_object j \<and>
     value_or j ''format'' (JString []) = Inr (JString ''iiFileProvider.Presentation'') \<and>
     (case value_or j ''schema'' (JInt 0) of Inl _ \<Rightarrow> False | Inr v \<Rightarrow>
       (case get_unsigned real_int v of Inl _ \<Rightarrow> False | Inr i \<Rightarrow> (word_of_int i :: 32 word) = 1))"

end
