(* ===== verification/Preview_Wave.thy ===== *)
theory Preview_Wave
  imports Preview_Store
begin

text \<open>
  The wave files of \<open>Native/src/Presentation/Presentation.cpp\<close>: the search for the format and the data
  chunk, and the card with a waveform of the leading samples.  Floating-point numbers are parameters:
  \<open>duration\<close> prints the seconds, and \<open>level\<close> gives the height of a 32-bit sample,
  \<open>int(min(1, |sample|) * 144)\<close>, or 0 where it is not finite; since it grows with the sample, the height
  of the peak is the greatest height.
\<close>

section \<open>Chunks\<close>

definition byte_at :: "string \<Rightarrow> nat \<Rightarrow> nat" where
  "byte_at s i = of_char (s ! i)"

definition le16 :: "string \<Rightarrow> nat \<Rightarrow> nat" where
  "le16 s i = byte_at s i + 256 * byte_at s (i + 1)"

definition le32 :: "string \<Rightarrow> nat \<Rightarrow> nat" where
  "le32 s i = le16 s i + 65536 * le16 s (i + 2)"

record wave_format =
  wf_format :: nat
  wf_channels :: nat
  wf_rate :: nat
  wf_align :: nat
  wf_bits :: nat

definition no_format :: wave_format where
  "no_format = \<lparr>wf_format = 0, wf_channels = 0, wf_rate = 0, wf_align = 0, wf_bits = 0\<rparr>"

definition read_format :: "string \<Rightarrow> nat \<Rightarrow> wave_format" where
  "read_format s i = \<lparr>wf_format = le16 s i, wf_channels = le16 s (i + 2), wf_rate = le32 s (i + 4),
     wf_align = le16 s (i + 12), wf_bits = le16 s (i + 14)\<rparr>"

text \<open>The format, the start and the length of the data chunk; \<open>sz\<close> is the size of the whole file.\<close>

function wave_scan :: "string \<Rightarrow> nat \<Rightarrow> nat \<Rightarrow> wave_format \<Rightarrow> (wave_format \<times> nat \<times> nat) option" where
  "wave_scan s sz i f =
     (if i + 8 \<le> length s
      then let len = le32 s (i + 4); data = i + 8;
               f = (if part_at i 4 s = ''fmt '' \<and> 16 \<le> len \<and> data + 16 \<le> length s then read_format s data else f)
        in if part_at i 4 s = ''data'' \<and> wf_channels f \<noteq> 0 \<and> wf_rate f \<noteq> 0 \<and> wf_align f \<noteq> 0 \<and> len \<le> sz - min sz data
           then Some (f, data, len)
           else if length s < data + len + len mod 2 then None
           else wave_scan s sz (data + len + len mod 2) f
      else None)"
  by pat_completeness auto
termination
  by (relation "measure (\<lambda>(s, sz, i, f). length s - i)") auto

declare wave_scan.simps [simp del]

section \<open>The waveform\<close>

definition wave_supported :: "wave_format \<Rightarrow> bool" where
  "wave_supported f \<longleftrightarrow> ((wf_format f = 1 \<and> wf_bits f = 16) \<or> (wf_format f = 3 \<and> wf_bits f = 32)) \<and>
     wf_channels f \<le> 64 \<and> wf_align f = wf_channels f * (wf_bits f div 8)"

text \<open>The height of a 16-bit sample, from its absolute value.\<close>

definition level16 :: "nat \<Rightarrow> nat" where
  "level16 n = (if n < 32768 then n else 65536 - n) * 144 div 32768"

definition sample_at :: "nat \<Rightarrow> wave_format \<Rightarrow> nat \<Rightarrow> nat \<Rightarrow> nat" where
  "sample_at data f frame c = data + frame * wf_align f + c * (wf_bits f div 8)"

definition bin_frames :: "nat \<Rightarrow> nat \<Rightarrow> nat list" where
  "bin_frames frames bin =
     (let start = bin * frames div 232; stop = max (start + 1) ((bin + 1) * frames div 232)
      in [start ..< min stop frames])"

definition bin_height :: "(nat \<Rightarrow> nat) \<Rightarrow> string \<Rightarrow> wave_format \<Rightarrow> nat \<Rightarrow> nat \<Rightarrow> nat \<Rightarrow> nat" where
  "bin_height level s f data frames bin =
     foldl max 1 (concat (map (\<lambda>frame. map (\<lambda>c.
       let p = sample_at data f frame c in if wf_format f = 1 then level16 (le16 s p) else level (le32 s p))
       [0 ..< wf_channels f]) (bin_frames frames bin)))"

definition wave_bar :: "nat \<Rightarrow> nat \<Rightarrow> string" where
  "wave_bar bin h = ''<rect x=\"'' @ nat_to_string (24 + bin * 2) @ ''\" y=\"'' @ nat_to_string (280 - h) @
     ''\" width=\"1\" height=\"'' @ nat_to_string (h * 2) @ ''\" fill=\"#4475cb\"/>''"

definition wave_title_style :: string where
  "wave_title_style = ''sans-serif\" font-size=\"16''"

definition wave_text_style :: string where
  "wave_text_style = ''sans-serif\" font-size=\"12''"

definition wave_details :: "string \<Rightarrow> wave_format \<Rightarrow> file_details \<Rightarrow> file_details" where
  "wave_details seconds f details = details\<lparr>fd_mimeType := ''audio/wav'', fd_properties :=
     put ''bitsPerSample'' (nat_to_string (wf_bits f))
    (put ''durationSeconds'' seconds
    (put ''channels'' (nat_to_string (wf_channels f))
    (put ''sampleRate'' (nat_to_string (wf_rate f)) (fd_properties details))))\<rparr>"

text \<open>The preview, and the details as they are left even without one.\<close>

definition wave ::
    "('z) native_library_scheme \<Rightarrow> (nat \<Rightarrow> nat \<Rightarrow> nat \<Rightarrow> string) \<Rightarrow> (nat \<Rightarrow> nat) \<Rightarrow> string \<Rightarrow> file_details \<Rightarrow>
     file_preview option \<times> file_details" where
  "wave L duration level s details =
     (if length s < 12 \<or> part_at 0 4 s \<noteq> ''RIFF'' \<or> part_at 8 4 s \<noteq> ''WAVE'' then (None, details)
      else case wave_scan s (unat (fd_size details)) 12 no_format of
        None \<Rightarrow> (None, details)
      | Some (f, data, len) \<Rightarrow>
          (let seconds = duration len (wf_rate f) (wf_align f); details = wave_details seconds f details;
               frames = min len (length s - data) div wf_align f
           in if \<not> wave_supported f \<or> frames = 0 then (None, details)
              else (Some \<lparr>fp_mimeType = ''image/svg+xml'', fp_kind = ''audio'',
                fp_bytes = svg_start @ svg_text ''40'' wave_title_style (xml L (take 120 (fd_name details))) @
                  svg_text ''68'' wave_text_style (xml L (seconds @ '' s'' @ middle_dot @ nat_to_string (wf_rate f) @ '' Hz'' @
                    middle_dot @ nat_to_string (wf_channels f) @ '' channels'')) @
                  concat (map (\<lambda>bin. wave_bar bin (bin_height level s f data frames bin)) [0 ..< 232]) @ ''</svg>'',
                fp_width = 512, fp_height = 512\<rparr>,
                details\<lparr>fd_properties := put ''waveformScope''
                  (if frames * wf_align f = len then ''complete'' else ''leading-samples'') (fd_properties details)\<rparr>)))"

text \<open>What \<open>prepare\<close> makes where no renderer and no image decoder gives a preview.\<close>

definition provider_preview ::
    "('z) native_library_scheme \<Rightarrow> (nat \<Rightarrow> nat \<Rightarrow> nat \<Rightarrow> string) \<Rightarrow> (nat \<Rightarrow> nat) \<Rightarrow> file_details \<Rightarrow> string \<Rightarrow>
     file_preview \<times> file_details" where
  "provider_preview L duration level details s = (case wave L duration level s details of
     (Some p, details) \<Rightarrow> (p, details)
   | (None, details) \<Rightarrow> fallback_preview L details s)"

section \<open>Reads stay inside\<close>

lemma le32_less: "le32 s i < 2 ^ 32"
proof -
  have "byte_at s j < 256" for j using nat_of_char_less_256 [of "s ! j"] by (simp add: byte_at_def)
  from this [of i] this [of "i + 1"] this [of "i + 2"] this [of "i + 2 + 1"] show ?thesis
    by (simp add: le32_def le16_def add.assoc)
qed

lemma wave_scan_Some:
  "wave_scan s sz i f0 = Some (f, data, len) \<Longrightarrow>
     wf_rate f0 < 2 ^ 32 \<Longrightarrow>
     data \<le> length s \<and> wf_channels f \<noteq> 0 \<and> wf_rate f \<noteq> 0 \<and> wf_rate f < 2 ^ 32 \<and> wf_align f \<noteq> 0 \<and> len \<le> sz - min sz data"
proof (induction s sz i f0 rule: wave_scan.induct)
  case (1 s sz i f0)
  define len' where "len' = le32 s (i + 4)"
  define f1 where "f1 = (if part_at i 4 s = ''fmt '' \<and> 16 \<le> len' \<and> i + 8 + 16 \<le> length s then read_format s (i + 8) else f0)"
  define hit where "hit \<longleftrightarrow> part_at i 4 s = ''data'' \<and> wf_channels f1 \<noteq> 0 \<and> wf_rate f1 \<noteq> 0 \<and> wf_align f1 \<noteq> 0 \<and>
    len' \<le> sz - min sz (i + 8)"
  have fits: "i + 8 \<le> length s" using 1(2) by (subst (asm) wave_scan.simps) (simp split: if_splits)
  have step: "wave_scan s sz i f0 = (if hit then Some (f1, i + 8, len')
      else if length s < i + 8 + len' + len' mod 2 then None else wave_scan s sz (i + 8 + len' + len' mod 2) f1)"
    using fits unfolding hit_def f1_def len'_def by (subst wave_scan.simps) (simp add: Let_def)
  have rate: "wf_rate f1 < 2 ^ 32" using 1(3) le32_less by (simp add: f1_def read_format_def)
  show ?case
  proof (cases hit)
    case True
    with 1(2) fits step rate show ?thesis by (auto simp: hit_def)
  next
    case False
    with 1(2) step have more: "\<not> length s < i + 8 + len' + len' mod 2"
      and rest: "wave_scan s sz (i + 8 + len' + len' mod 2) f1 = Some (f, data, len)" by (auto split: if_splits)
    show ?thesis
      by (rule 1(1) [OF fits len'_def refl f1_def _ _ rest rate]) (use False more in \<open>simp_all add: hit_def\<close>)
  qed
qed

lemma bin_frames_less: "frame \<in> set (bin_frames frames bin) \<Longrightarrow> frame < frames"
  by (auto simp: bin_frames_def Let_def)

lemma sample_inside:
  assumes "wave_supported f" "frame < min len n div wf_align f" "c < wf_channels f"
  shows "sample_at data f frame c + wf_bits f div 8 \<le> data + min len n"
proof -
  let ?b = "wf_bits f div 8"
  have align: "wf_align f = wf_channels f * ?b" using assms(1) by (simp add: wave_supported_def)
  have "c * ?b + ?b \<le> wf_align f"
    unfolding align using mult_le_mono1 [of "Suc c" "wf_channels f" ?b] assms(3) by simp
  moreover have "Suc frame * wf_align f \<le> min len n"
    using mult_le_mono1 [of "Suc frame" "min len n div wf_align f" "wf_align f"] assms(2) div_times_less_eq_dividend
    by (meson Suc_leI order_trans)
  ultimately show ?thesis by (simp add: sample_at_def)
qed

lemma foldl_max_le: "(\<And>x. x \<in> set xs \<Longrightarrow> x \<le> b) \<Longrightarrow> a \<le> b \<Longrightarrow> foldl max a xs \<le> (b :: nat)"
  by (induction xs arbitrary: a) simp_all

lemma level16_le: "level16 n \<le> 144"
  by (auto simp: level16_def)

lemma bin_height_le: "(\<And>x. level x \<le> 144) \<Longrightarrow> bin_height level s f data frames bin \<le> 144"
  unfolding bin_height_def by (rule foldl_max_le) (auto simp: level16_le Let_def)

end
