(* ===== verification/Preview_Laws.thy ===== *)
theory Preview_Laws
  imports Preview_Document
begin

text \<open>
  Laws of the preview documents: Base64 is read back, the cards that the provider makes carry no
  markup of the file, and a stored document is read back as the record it was made of.
\<close>

unbundle bit_operations_syntax

section \<open>Base64\<close>

lemma index_of_nth:
  assumes "distinct xs" "n < length xs"
  shows "index_of (\<lambda>x. x = xs ! n) xs = Some n"
proof -
  have "takeWhile (\<lambda>c. c \<noteq> xs ! n) xs = take n xs"
  proof (rule takeWhile_eq_take_P_nth)
    show "xs ! i \<noteq> xs ! n" if "i < n" "i < length xs" for i
      using assms that by (simp add: nth_eq_iff_index_eq)
  qed simp
  with assms(2) show ?thesis by (simp add: index_of_def Let_def)
qed

lemma base64_alphabet_facts: "distinct base64_alphabet" "length base64_alphabet = 64" "CHR ''='' \<notin> set base64_alphabet"
  by (simp_all add: base64_alphabet_def)

lemma digit_small: "unat (drop_bit k v AND 63 :: u32) < 64"
proof -
  have "drop_bit k v AND 63 \<le> 63" by (rule word_and_le1)
  then show ?thesis by (simp add: word_le_nat_alt)
qed

lemma digit_not_padding: "base64_digit v k \<noteq> CHR ''=''"
  using digit_small [of k v] base64_alphabet_facts by (metis base64_digit_def nth_mem)

lemma digit_index: "index_of (\<lambda>x. x = base64_digit v k) base64_alphabet = Some (unat (drop_bit k v AND 63))"
  unfolding base64_digit_def using digit_small [of k v] by (intro index_of_nth) (simp_all add: base64_alphabet_facts)

lemma unbase64_digit:
  "unbase64_char final i (base64_digit v k) (s, 0) = Inr (push_bit 6 s OR (drop_bit k v AND 63), 0)"
  by (simp add: unbase64_char_def digit_not_padding digit_index)

lemma unbase64_padding: "2 \<le> i \<Longrightarrow> unbase64_char True i (CHR ''='') (s, n) = Inr (push_bit 6 s, n + 1)"
  by (simp add: unbase64_char_def)

text \<open>The 24 bits of a group.\<close>

lemma char_u32_byte: "char_u32 c = take_bit 8 (char_u32 c)"
proof -
  have "(of_char c :: nat) = take_bit 8 (of_char c)"
    using nat_of_char_less_256 [of c] by (simp add: take_bit_nat_eq_self)
  then show ?thesis unfolding char_u32_def by (metis take_bit_of_nat)
qed

lemma mask_six: "(x :: u32) AND 63 = take_bit 6 x"
  by (simp add: take_bit_eq_mask mask_eq_exp_minus_1)

lemma push_six: "push_bit 6 (take_bit m (drop_bit 6 w)) OR take_bit 6 w = take_bit (m + 6) w" for w :: u32
  by (rule bit_word_eqI) (auto simp: bit_simps)

lemma group_digits:
  "push_bit 6 (push_bit 6 (push_bit 6 (push_bit 6 0 OR (drop_bit 18 v AND 63)) OR (drop_bit 12 v AND 63)) OR
     (drop_bit 6 v AND 63)) OR (drop_bit 0 v AND 63) = take_bit 24 v" for v :: u32
  using push_six [of 6 "drop_bit 12 v"] push_six [of 12 "drop_bit 6 v"] push_six [of 18 v]
  by (simp add: mask_six drop_bit_drop_bit)

lemma group_bytes:
  fixes a b c :: u32
  assumes "take_bit 8 a = a" "take_bit 8 b = b" "take_bit 8 c = c"
  shows "take_bit 24 (base64_value a b c) = base64_value a b c"
    "take_bit 8 (drop_bit 16 (base64_value a b c)) = a" "take_bit 8 (drop_bit 8 (base64_value a b c)) = b"
    "take_bit 8 (base64_value a b c) = c"
proof -
  have small: "\<not> bit x n" if "take_bit 8 x = x" "8 \<le> n" for x :: u32 and n
    using that by (metis bit_take_bit_iff not_less)
  note high = small [OF assms(1)] small [OF assms(2)] small [OF assms(3)]
  show "take_bit 24 (base64_value a b c) = base64_value a b c"
    unfolding base64_value_def by (rule bit_word_eqI) (auto simp: bit_simps high intro: ccontr)
  show "take_bit 8 (drop_bit 16 (base64_value a b c)) = a"
  proof (rule bit_word_eqI)
    fix n assume "n < LENGTH(32)"
    then show "bit (take_bit 8 (drop_bit 16 (base64_value a b c))) n = bit a n"
      unfolding base64_value_def by (cases "n < 8") (simp_all add: bit_simps high)
  qed
  show "take_bit 8 (drop_bit 8 (base64_value a b c)) = b"
  proof (rule bit_word_eqI)
    fix n assume "n < LENGTH(32)"
    then show "bit (take_bit 8 (drop_bit 8 (base64_value a b c))) n = bit b n"
      unfolding base64_value_def by (cases "n < 8") (simp_all add: bit_simps high)
  qed
  show "take_bit 8 (base64_value a b c) = c"
  proof (rule bit_word_eqI)
    fix n assume "n < LENGTH(32)"
    then show "bit (take_bit 8 (base64_value a b c)) n = bit c n"
      unfolding base64_value_def by (cases "n < 8") (simp_all add: bit_simps high)
  qed
qed

lemma low_byte_take: "low_byte (take_bit 8 v) = low_byte v"
  unfolding low_byte_def by (simp add: unsigned_take_bit_eq char_of_take_bit_eq)

lemma low_byte_char: "low_byte (char_u32 c) = c"
proof -
  have "unat (char_u32 c) = of_char c"
    using nat_of_char_less_256 [of c] by (simp add: char_u32_def unat_of_nat take_bit_nat_eq_self mod_less order_less_trans [of _ 256])
  then show ?thesis by (simp add: low_byte_def)
qed

lemma value_bytes:
  "low_byte (drop_bit 16 (base64_value (char_u32 a) (char_u32 b) (char_u32 c))) = a"
  "low_byte (drop_bit 8 (base64_value (char_u32 a) (char_u32 b) (char_u32 c))) = b"
  "low_byte (base64_value (char_u32 a) (char_u32 b) (char_u32 c)) = c"
  using group_bytes [OF char_u32_byte [symmetric] char_u32_byte [symmetric] char_u32_byte [symmetric], of a b c]
  by (metis low_byte_take low_byte_char)+

lemma value_bits: "take_bit 24 (base64_value (char_u32 a) (char_u32 b) (char_u32 c)) = base64_value (char_u32 a) (char_u32 b) (char_u32 c)"
  by (rule group_bytes(1)) (rule char_u32_byte [symmetric])+

lemma char_u32_zero: "char_u32 (CHR 0x00) = 0"
  by (simp add: char_u32_def)

lemma unbase64_three:
  fixes a b c
  defines "v \<equiv> base64_value (char_u32 a) (char_u32 b) (char_u32 c)"
  shows "unbase64_group final (base64_digit v 18) (base64_digit v 12) (base64_digit v 6) (base64_digit v 0) = Inr [a, b, c]"
  using group_digits [of v] value_bits [of a b c] value_bytes [of a b c]
  by (simp add: unbase64_group_def unbase64_digit v_def)

lemma unbase64_two:
  fixes a b
  defines "v \<equiv> base64_value (char_u32 a) (char_u32 b) 0"
  shows "unbase64_group True (base64_digit v 18) (base64_digit v 12) (base64_digit v 6) (CHR ''='') = Inr [a, b]"
proof -
  have "take_bit 6 v = 0"
    unfolding v_def base64_value_def by (rule bit_word_eqI) (auto simp: bit_simps)
  moreover have "take_bit 24 v = v" "low_byte (drop_bit 16 v) = a" "low_byte (drop_bit 8 v) = b"
    using value_bits [of a b "CHR 0x00"] value_bytes [of a b "CHR 0x00"] by (simp_all add: v_def char_u32_zero)
  ultimately show ?thesis
    using group_digits [of v] by (simp add: unbase64_group_def unbase64_digit unbase64_padding mask_six)
qed

lemma unbase64_one:
  fixes a
  defines "v \<equiv> base64_value (char_u32 a) 0 0"
  shows "unbase64_group True (base64_digit v 18) (base64_digit v 12) (CHR ''='') (CHR ''='') = Inr [a]"
proof -
  have "take_bit 6 v = 0" "take_bit 6 (drop_bit 6 v) = 0"
    unfolding v_def base64_value_def by (rule bit_word_eqI; auto simp: bit_simps)+
  moreover have "take_bit 24 v = v" "low_byte (drop_bit 16 v) = a"
    using value_bits [of a "CHR 0x00" "CHR 0x00"] value_bytes [of a "CHR 0x00" "CHR 0x00"]
    by (simp_all add: v_def char_u32_zero)
  ultimately show ?thesis
    using group_digits [of v] by (simp add: unbase64_group_def unbase64_digit unbase64_padding mask_six)
qed

lemma unbase64_groups_base64: "unbase64_groups (base64 s) = Inr s"
  by (induction s rule: base64.induct) (simp_all add: Let_def unbase64_one unbase64_two unbase64_three)

lemma length_base64: "length (base64 s) = 4 * ((length s + 2) div 3)"
  by (induction s rule: base64.induct) (simp_all add: Let_def, presburger)

text \<open>Exactly the encodings are accepted.\<close>

lemma unbase64_iff: "unbase64 s = Inr b \<longleftrightarrow> s = base64 b \<and> length s \<le> maximum_document_bytes"
proof
  assume "unbase64 s = Inr b"
  then show "s = base64 b \<and> length s \<le> maximum_document_bytes"
    by (auto simp: unbase64_def rbind_Inr_iff split: if_splits)
next
  assume s: "s = base64 b \<and> length s \<le> maximum_document_bytes"
  then have "length s mod 4 = 0" by (simp add: length_base64)
  with s show "unbase64 s = Inr b" by (auto simp: unbase64_def unbase64_groups_base64)
qed

section \<open>Text in a card\<close>

text \<open>
  What the card relies on of \<open>utf8proc_iterate\<close>: a character of one byte is its own code, and one of several
  bytes consists of bytes beyond ASCII.
\<close>

definition iterate_laws :: "('z) native_library_scheme \<Rightarrow> bool" where
  "iterate_laws L \<longleftrightarrow> (\<forall>s n cp. s \<noteq> [] \<longrightarrow> u_iterate L s = (n, cp) \<longrightarrow> 0 < n \<longrightarrow>
     (n = 1 \<and> cp = of_char (hd s)) \<or> (1 < n \<and> (\<forall>c \<in> set (take (nat n) s). 128 \<le> (of_char c :: nat))))"

text \<open>Text without the characters that open or close markup.\<close>

definition no_markup :: "string \<Rightarrow> bool" where
  "no_markup s \<longleftrightarrow> CHR ''<'' \<notin> set s \<and> CHR ''>'' \<notin> set s"

lemma no_markup_append [simp]: "no_markup (s @ t) \<longleftrightarrow> no_markup s \<and> no_markup t"
  by (auto simp: no_markup_def)

lemma char_code: "(of_char c :: nat) = n \<Longrightarrow> c = char_of n"
  by auto

lemma xml_step_no_markup:
  assumes "iterate_laws L" "s \<noteq> []" "xml_step L s = (out, n)"
  shows "no_markup out"
proof -
  obtain k cp where it: "u_iterate L s = (k, cp)" by fastforce
  show ?thesis
  proof (cases "0 < k")
    case True
    with assms(1,2) it have cases: "(k = 1 \<and> cp = of_char (hd s)) \<or>
        (1 < k \<and> (\<forall>c \<in> set (take (nat k) s). 128 \<le> (of_char c :: nat)))"
      unfolding iterate_laws_def by blast
    show ?thesis
    proof (cases "cp \<in> {38, 60, 62, 34, 39} \<or> \<not> (32 \<le> cp \<or> cp = 9)")
      case True
      with assms(3) it \<open>0 < k\<close> show ?thesis
        by (auto simp: xml_step_def no_markup_def split: if_splits)
    next
      case False
      with assms(3) it \<open>0 < k\<close> have out: "out = take (nat k) s"
        by (auto simp: xml_step_def split: if_splits)
      from cases show ?thesis
      proof (elim disjE conjE)
        assume "k = 1" "cp = of_char (hd s)"
        with False out assms(2) show ?thesis by (cases s) (auto simp: no_markup_def)
      next
        assume "\<forall>c \<in> set (take (nat k) s). 128 \<le> (of_char c :: nat)"
        with out show ?thesis by (force simp: no_markup_def)
      qed
    qed
  next
    case False
    with assms(3) it show ?thesis by (auto simp: xml_step_def no_markup_def)
  qed
qed

lemma xml_no_markup: "iterate_laws L \<Longrightarrow> no_markup (xml L s)"
proof (induction L s rule: xml.induct)
  case (1 L s)
  obtain out n where "xml_step L s = (out, n)" by fastforce
  with 1 xml_step_no_markup [of L s out n] show ?case
    by (subst xml.simps) (auto simp: no_markup_def [of "[]"])
qed

section \<open>Tags\<close>

lemma index_of_skip: "\<forall>x \<in> set s. \<not> P x \<Longrightarrow> index_of P (s @ t) = map_option ((+) (length s)) (index_of P t)"
  by (simp add: index_of_def Let_def takeWhile_append2)

lemma index_of_here: "P x \<Longrightarrow> index_of P (x # s) = Some 0"
  by (simp add: index_of_def)

lemma index_of_none: "\<forall>x \<in> set s. \<not> P x \<Longrightarrow> index_of P s = None"
  by (simp add: index_of_def Let_def takeWhile_eq_all_conv [THEN iffD2])

text \<open>A card is text and tags in turn.\<close>

lemma svg_tags_text: "no_markup s \<Longrightarrow> svg_tags (s @ t) = svg_tags t"
proof -
  assume "no_markup s"
  then have "index_of (\<lambda>c. c = CHR ''<'') (s @ t) = map_option ((+) (length s)) (index_of (\<lambda>c. c = CHR ''<'') t)"
    by (intro index_of_skip) (auto simp: no_markup_def)
  then show ?thesis
    by (subst (1 2) svg_tags.simps) (auto simp: add.assoc split: option.splits)
qed

lemma svg_tags_end:
  assumes "no_markup s"
  shows "svg_tags s = Inr ()"
proof -
  have "index_of (\<lambda>c. c = CHR ''<'') s = None"
    by (rule index_of_none) (use assms in \<open>auto simp: no_markup_def\<close>)
  then show ?thesis by (subst svg_tags.simps) simp
qed

lemma svg_tags_tag:
  assumes "CHR ''>'' \<notin> set tag" "svg_tag_error tag = None"
  shows "svg_tags (CHR ''<'' # tag @ CHR ''>'' # t) = svg_tags t"
proof -
  have "index_of (\<lambda>c. c = CHR ''>'') (CHR ''<'' # tag @ CHR ''>'' # t) = Some (length tag + 1)"
    using assms(1) index_of_skip [of "CHR ''<'' # tag" "\<lambda>c. c = CHR ''>''" "CHR ''>'' # t"]
    by (auto simp: index_of_here)
  with assms(2) show ?thesis
    by (subst svg_tags.simps) (simp add: index_of_here)
qed

lemma contains_char:
  assumes "c \<notin> set t" "t \<noteq> []"
  shows "contains_text t (a @ c # b) \<Longrightarrow> contains_text t a \<or> contains_text t b"
proof (induction a)
  case Nil
  with assms show ?case by (cases t) (auto simp: starts_with_def)
next
  case (Cons x a)
  have "starts_with t (x # a)" if "starts_with t (x # a @ c # b)"
  proof (cases "length t \<le> length (x # a)")
    case True
    then have "take (length t) ((x # a) @ c # b) = take (length t) (x # a)" by (simp only: take_append) simp
    with that show ?thesis by (simp add: starts_with_def)
  next
    case False
    then have "c \<in> set (take (length t) ((x # a) @ c # b))" by (simp only: take_append) (simp add: take_Cons')
    with that assms show ?thesis by (simp add: starts_with_def)
  qed
  with Cons show ?case by auto
qed

lemma contains_digits:
  assumes "\<forall>c \<in> set y. c \<notin> set t" "t \<noteq> []"
  shows "y \<noteq> [] \<Longrightarrow> contains_text t (a @ y @ b) \<Longrightarrow> contains_text t a \<or> contains_text t b"
  using assms
proof (induction y arbitrary: a)
  case (Cons c y)
  from Cons.prems have "contains_text t a \<or> contains_text t (y @ b)" using contains_char [of c t a "y @ b"] by auto
  then show ?case
  proof
    assume more: "contains_text t (y @ b)"
    show ?thesis
    proof (cases "y = []")
      case False
      with Cons.IH [of "[]"] Cons.prems more show ?thesis by auto
    qed (use more in simp)
  qed simp
qed simp

lemma lower_digits: "list_all is_digit y \<Longrightarrow> lower_text y = y"
  by (induction y) (auto simp: lower_text_def ascii_lower_def is_digit_def Let_def)

definition svg_tokens :: "string list" where
  "svg_tokens = ['' on'', CHR 0x09 # ''on'', CHR 0x0A # ''on'', CHR 0x0D # ''on'', ''href'', ''url('', ''style'', ''<!'', ''<?'']"

lemma digits_no_token: "list_all is_digit y \<Longrightarrow> t \<in> set svg_tokens \<Longrightarrow> \<forall>c \<in> set y. c \<notin> set t"
proof -
  assume y: "list_all is_digit y" and t: "t \<in> set svg_tokens"
  have "\<forall>t \<in> set svg_tokens. \<forall>c \<in> set t. \<not> is_digit c" by (simp add: svg_tokens_def is_digit_def Let_def)
  with y t show ?thesis by (auto simp: list_all_iff)
qed

lemma lower_append: "lower_text (a @ b) = lower_text a @ lower_text b"
  by (simp add: lower_text_def)

lemma text_tag_ok:
  assumes y: "list_all is_digit y" "y \<noteq> []"
    and style: "\<forall>t \<in> set svg_tokens. \<not> contains_text t (lower_text (''\" font-family=\"'' @ style @ ''\"''))"
  shows "svg_tag_error (''text x=\"24\" y=\"'' @ y @ ''\" font-family=\"'' @ style @ ''\"'') = None"
proof -
  let ?tag = "''text x=\"24\" y=\"'' @ y @ ''\" font-family=\"'' @ style @ ''\"''"
  have low: "lower_text ?tag = ''text x=\"24\" y=\"'' @ y @ lower_text (''\" font-family=\"'' @ style @ ''\"'')"
    using lower_digits [OF y(1)] by (simp add: lower_append) (simp add: lower_text_def ascii_lower_def)
  have front: "\<not> contains_text t ''text x=\"24\" y=\"''" if "t \<in> set svg_tokens" for t
    using that by (auto simp: svg_tokens_def starts_with_def)
  have "\<not> contains_text t (lower_text ?tag)" if "t \<in> set svg_tokens" for t
  proof -
    have "t \<noteq> []" using that by (auto simp: svg_tokens_def)
    with contains_digits [OF digits_no_token [OF y(1) that]] y(2) front [OF that] style that show ?thesis
      unfolding low by blast
  qed
  then have "\<not> list_ex (\<lambda>t. contains_text t (lower_text ?tag)) svg_tokens" by (auto simp: list_ex_iff)
  moreover have "takeWhile (\<lambda>c. c \<notin> {CHR '' '', CHR 0x09, CHR 0x0D, CHR 0x0A}) (lower_text ?tag) = ''text''"
    unfolding low by simp
  ultimately show ?thesis unfolding svg_tag_error_def svg_tokens_def Let_def by simp
qed

section \<open>Cards\<close>

lemma tag_chars: "list_all is_digit y \<Longrightarrow> CHR ''>'' \<notin> set y"
  by (auto simp: list_all_iff is_digit_def)

text \<open>The styles of the text elements of a card.\<close>

definition card_styles :: "string list" where
  "card_styles = [''sans-serif\" font-size=\"18\" fill=\"#202124'', ''sans-serif\" font-size=\"12\" fill=\"#555'', monospace_style,
     ''sans-serif\" font-size=\"16'', ''sans-serif\" font-size=\"12'']"

lemma card_styles_facts:
  assumes "style \<in> set card_styles"
  shows "CHR ''>'' \<notin> set style"
    and "\<forall>t \<in> set svg_tokens. \<not> contains_text t (lower_text (''\" font-family=\"'' @ style @ ''\"''))"
  using assms
  by (auto simp: card_styles_def monospace_style_def svg_tokens_def lower_text_def ascii_lower_def starts_with_def)

lemma svg_text_tags:
  assumes "list_all is_digit y" "y \<noteq> []" "style \<in> set card_styles" "no_markup content"
  shows "svg_tags (svg_text y style content @ t) = svg_tags t"
proof -
  let ?tag = "''text x=\"24\" y=\"'' @ y @ ''\" font-family=\"'' @ style @ ''\"''"
  have "svg_text y style content @ t = CHR ''<'' # ?tag @ CHR ''>'' # content @ CHR ''<'' # ''/text'' @ CHR ''>'' # t"
    by (simp add: svg_text_def)
  moreover have "CHR ''>'' \<notin> set ?tag"
    using tag_chars [OF assms(1)] card_styles_facts(1) [OF assms(3)] by simp
  moreover have "svg_tag_error ?tag = None"
    using text_tag_ok [OF assms(1,2) card_styles_facts(2) [OF assms(3)]] .
  moreover have "svg_tag_error ''/text'' = None"
    by (simp add: svg_tag_error_def lower_text_def ascii_lower_def starts_with_def)
  ultimately show ?thesis
    using svg_tags_tag [of ?tag "content @ CHR ''<'' # ''/text'' @ CHR ''>'' # t"] svg_tags_tag [of "''/text''" t]
      svg_tags_text [OF assms(4)]
    by simp
qed

lemma svg_start_tags: "svg_tags (svg_start @ t) = svg_tags t"
proof -
  let ?svg = "''svg xmlns=\"http://www.w3.org/2000/svg\" width=\"512\" height=\"512\" viewBox=\"0 0 512 512\"''"
  let ?rect = "''rect width=\"512\" height=\"512\" fill=\"#f7f7f8\"/''"
  have start: "svg_start @ t = CHR ''<'' # ?svg @ CHR ''>'' # CHR ''<'' # ?rect @ CHR ''>'' # t"
    by (simp add: svg_start_def)
  have "svg_tags (CHR ''<'' # ?svg @ CHR ''>'' # r) = svg_tags r" for r
    by (rule svg_tags_tag) (simp_all add: svg_tag_error_def lower_text_def ascii_lower_def starts_with_def)
  moreover have "svg_tags (CHR ''<'' # ?rect @ CHR ''>'' # r) = svg_tags r" for r
    by (rule svg_tags_tag) (simp_all add: svg_tag_error_def lower_text_def ascii_lower_def starts_with_def)
  ultimately show ?thesis unfolding start by (simp only:)
qed

lemma svg_close_tags: "svg_tags ''</svg>'' = Inr ()"
proof -
  have "svg_tag_error ''/svg'' = None"
    by (simp add: svg_tag_error_def lower_text_def ascii_lower_def starts_with_def)
  then show ?thesis
    using svg_tags_tag [of "''/svg''" "[]"] svg_tags_end [of "[]"] by (simp add: no_markup_def)
qed

lemma nat_to_string_all_digits: "list_all is_digit (nat_to_string n)"
  by (simp add: list_all_iff nat_to_string_digits)

lemma card_rows_tags: "iterate_laws L \<Longrightarrow> svg_tags (card_rows L n row s @ t) = svg_tags t"
proof (induction L n row s rule: card_rows.induct)
  case (2 L n row s)
  have "monospace_style \<in> set card_styles" by (simp add: card_styles_def)
  with 2 show ?case
    by (simp add: Let_def svg_text_tags nat_to_string_all_digits xml_no_markup del: set_simps)
qed simp

text \<open>The size of a card.\<close>

lemma xml_step_length:
  assumes "s \<noteq> []" "xml_step L s = (out, n)"
  shows "length out \<le> 6 * length (take n s)"
proof -
  have "0 < n" "length out \<le> 6 \<or> out = take n s"
    using assms(2) by (auto simp: xml_step_def Let_def split: prod.splits if_splits)
  moreover have "Suc 0 \<le> length s" using assms(1) by (cases s) simp_all
  ultimately show ?thesis by (auto simp: min_def simp del: length_greater_0_conv)
qed

lemma xml_length: "length (xml L s) \<le> 6 * length s"
proof (induction L s rule: xml.induct)
  case (1 L s)
  show ?case
  proof (cases "s = []")
    case False
    obtain out n where step: "xml_step L s = (out, n)" by fastforce
    have "length (xml L (drop n s)) \<le> 6 * length (drop n s)" using 1 False step by simp
    with xml_step_length [OF False step] have "length (out @ xml L (drop n s)) \<le> 6 * (length (take n s) + length (drop n s))"
      by simp
    then show ?thesis using False step by (subst xml.simps) simp
  qed (simp add: xml.simps)
qed

lemma svg_text_length:
  "style \<in> set card_styles \<Longrightarrow> length y \<le> 3 \<Longrightarrow> length (svg_text y style content) \<le> 120 + length content"
  by (auto simp: svg_text_def card_styles_def monospace_style_def)

lemma card_rows_length: "n + row \<le> 23 \<Longrightarrow> length (card_rows L n row s) \<le> 120 * n + 6 * length s"
proof (induction L n row s rule: card_rows.induct)
  case (2 L n row s)
  show ?case
  proof (cases "s = []")
    case False
    define e where "e = row_end s"
    define k where "k = e + (if e < length s \<and> s ! e = CHR 0x0A then 1 else 0)"
    have "length (nat_to_string (96 + row * 17)) \<le> 3"
      using 2 by (intro nat_to_string_length) auto
    then have "length (svg_text (nat_to_string (96 + row * 17)) monospace_style (xml L (take e s)))
        \<le> 120 + length (xml L (take e s))"
      by (intro svg_text_length) (simp_all add: card_styles_def)
    also have "\<dots> \<le> 120 + 6 * length (take e s)" using xml_length [of L "take e s"] by (rule add_left_mono)
    finally have "length (svg_text (nat_to_string (96 + row * 17)) monospace_style (xml L (take e s))) \<le> 120 + 6 * length (take e s)" .
    moreover have "length (card_rows L n (row + 1) (drop k s)) \<le> 120 * n + 6 * length (drop k s)"
      using 2 False by (simp add: k_def e_def Let_def)
    moreover have "length (take e s) + length (drop k s) \<le> length s" by (auto simp: k_def)
    ultimately show ?thesis using False by (simp add: Let_def e_def [symmetric] k_def [symmetric])
  qed simp
qed simp

text \<open>What the provider makes of a file passes its own check of portable previews.\<close>

lemma card_valid:
  assumes "iterate_laws L" "length (fd_mimeType details) \<le> 256" "length content \<le> 4096"
  shows "validate_preview (card L details content isText) False = Inr ()"
proof -
  let ?style = "\<lambda>i. card_styles ! i"
  let ?size = "fd_mimeType details @ middle_dot @ nat_to_string (unat (fd_size details)) @ '' bytes''"
  let ?title = "svg_text ''38'' (?style 0) (xml L (take 120 (fd_name details)))"
  let ?type = "svg_text ''64'' (?style 1) (xml L ?size)"
  let ?rows = "card_rows L 23 0 content"
  have styles: "?style 0 \<in> set card_styles" "?style 1 \<in> set card_styles" by (simp_all add: card_styles_def)
  have bytes: "fp_bytes (card L details content isText) = svg_start @ ?title @ ?type @ ?rows @ ''</svg>''"
    by (simp add: card_def card_styles_def)
  have "svg_tags (fp_bytes (card L details content isText)) = Inr ()"
    unfolding bytes svg_start_tags
    using styles svg_close_tags assms(1)
    by (simp add: svg_text_tags card_rows_tags xml_no_markup is_digit_def del: append_Cons)
  moreover have "length (fp_bytes (card L details content isText)) \<le> maximum_document_bytes div 2"
  proof -
    have "unat (fd_size details) < 10 ^ 20" using unsigned_less [of "fd_size details", where 'a = nat] by simp
    then have "length (nat_to_string (unat (fd_size details))) \<le> 20" by (intro nat_to_string_length) auto
    then have "length ?size \<le> 300" using assms(2) by (simp add: middle_dot_def)
    moreover have "length ?type \<le> 120 + length (xml L ?size)" using styles by (intro svg_text_length) auto
    moreover have "length ?title \<le> 120 + length (xml L (take 120 (fd_name details)))" using styles by (intro svg_text_length) auto
    moreover have "length ?rows \<le> 2760 + 6 * 4096" using card_rows_length [of 23 0 L content] assms(3) by simp
    moreover have "length svg_start \<le> 300" by (simp add: svg_start_def)
    moreover note xml_length [of L ?size] xml_length [of L "take 120 (fd_name details)"]
    ultimately show ?thesis unfolding bytes maximum_document_bytes_def by simp
  qed
  moreover have "starts_with svg_start (fp_bytes (card L details content isText))" unfolding bytes by (simp add: starts_with_def)
  moreover have "ends_with ''</svg>'' (fp_bytes (card L details content isText))" unfolding bytes by (simp add: ends_with_def)
  moreover have "fp_bytes (card L details content isText) \<noteq> []" unfolding bytes by simp
  ultimately show ?thesis
    unfolding validate_preview_def by (simp add: card_def del: append_assoc)
qed

end
