(* ===== verification/Preview_Wave_Laws.thy ===== *)
theory Preview_Wave_Laws
  imports Preview_Wave Preview_Laws
begin

text \<open>The card of a wave file passes the provider's own check, whatever the samples are.\<close>

section \<open>Bars\<close>

lemma bar_tag_ok:
  assumes "list_all is_digit x" "x \<noteq> []" "list_all is_digit y" "y \<noteq> []" "list_all is_digit h" "h \<noteq> []"
  shows "svg_tag_error (''rect x=\"'' @ x @ ''\" y=\"'' @ y @ ''\" width=\"1\" height=\"'' @ h @ ''\" fill=\"#4475cb\"/'') = None"
proof -
  let ?tag = "''rect x=\"'' @ x @ ''\" y=\"'' @ y @ ''\" width=\"1\" height=\"'' @ h @ ''\" fill=\"#4475cb\"/''"
  have low: "lower_text ?tag = ?tag"
    using lower_digits [OF assms(1)] lower_digits [OF assms(3)] lower_digits [OF assms(5)]
    by (simp add: lower_text_def ascii_lower_def)
  have pieces: "\<not> contains_text t ''rect x=\"''" "\<not> contains_text t ''\" y=\"''" "\<not> contains_text t ''\" width=\"1\" height=\"''"
    "\<not> contains_text t ''\" fill=\"#4475cb\"/''" if "t \<in> set svg_tokens" for t
    using that by (auto simp: svg_tokens_def starts_with_def)
  have "\<not> contains_text t ?tag" if t: "t \<in> set svg_tokens" for t
  proof -
    have "t \<noteq> []" using t by (auto simp: svg_tokens_def)
    then show ?thesis
      using contains_digits [OF digits_no_token [OF assms(1) t]] contains_digits [OF digits_no_token [OF assms(3) t]]
        contains_digits [OF digits_no_token [OF assms(5) t]] assms(2,4,6) pieces [OF t]
      by blast
  qed
  then have "\<not> list_ex (\<lambda>t. contains_text t ?tag) svg_tokens" by (auto simp: list_ex_iff)
  moreover have "takeWhile (\<lambda>c. c \<notin> {CHR '' '', CHR 0x09, CHR 0x0D, CHR 0x0A}) ?tag = ''rect''" by simp
  ultimately show ?thesis unfolding svg_tag_error_def svg_tokens_def Let_def low by simp
qed

lemma bar_tags: "svg_tags (wave_bar bin h @ t) = svg_tags t"
proof -
  let ?tag = "''rect x=\"'' @ nat_to_string (24 + bin * 2) @ ''\" y=\"'' @ nat_to_string (280 - h) @
     ''\" width=\"1\" height=\"'' @ nat_to_string (h * 2) @ ''\" fill=\"#4475cb\"/''"
  have bar: "wave_bar bin h @ t = CHR ''<'' # ?tag @ CHR ''>'' # t" by (simp add: wave_bar_def)
  have "CHR ''>'' \<notin> set ?tag" using tag_chars [OF nat_to_string_all_digits] by simp
  moreover have "svg_tag_error ?tag = None" by (rule bar_tag_ok) (simp_all add: nat_to_string_all_digits)
  ultimately show ?thesis unfolding bar by (rule svg_tags_tag)
qed

lemma bars_tags: "svg_tags (concat (map (\<lambda>bin. wave_bar bin (height bin)) bins) @ t) = svg_tags t"
  by (induction bins) (simp_all add: bar_tags)

lemma bar_length:
  assumes "bin < 232" "h \<le> 144"
  shows "length (wave_bar bin h) \<le> 70"
proof -
  have "length (nat_to_string (24 + bin * 2)) \<le> 3" "length (nat_to_string (280 - h)) \<le> 3" "length (nat_to_string (h * 2)) \<le> 3"
    using assms by (auto intro!: nat_to_string_length)
  then show ?thesis by (simp add: wave_bar_def)
qed

lemma bars_length:
  assumes "\<And>bin. height bin \<le> 144" "\<forall>bin \<in> set bins. bin < 232"
  shows "length (concat (map (\<lambda>bin. wave_bar bin (height bin)) bins)) \<le> 70 * length bins"
  using assms(2)
proof (induction bins)
  case (Cons b bins)
  with bar_length [of b "height b"] assms(1) show ?case by fastforce
qed simp

section \<open>The card\<close>

lemma wave_valid:
  assumes laws: "iterate_laws L" and level: "\<And>x. level x \<le> 144" and seconds: "\<And>a b c. length (duration a b c) \<le> 400"
    and made: "wave L duration level s details = (Some p, details')"
  shows "validate_preview p False = Inr ()"
proof -
  obtain f data len where scan: "wave_scan s (unat (fd_size details)) 12 no_format = Some (f, data, len)"
    using made by (auto simp: wave_def split: if_splits option.splits)
  define frames where "frames = min len (length s - data) div wf_align f"
  let ?content = "duration len (wf_rate f) (wf_align f) @ '' s'' @ middle_dot @ nat_to_string (wf_rate f) @ '' Hz'' @
    middle_dot @ nat_to_string (wf_channels f) @ '' channels''"
  let ?title = "svg_text ''40'' wave_title_style (xml L (take 120 (fd_name details)))"
  let ?text = "svg_text ''68'' wave_text_style (xml L ?content)"
  let ?bars = "concat (map (\<lambda>bin. wave_bar bin (bin_height level s f data frames bin)) [0 ..< 232])"
  have p: "p = \<lparr>fp_mimeType = ''image/svg+xml'', fp_kind = ''audio'', fp_bytes = svg_start @ ?title @ ?text @ ?bars @ ''</svg>'',
      fp_width = 512, fp_height = 512\<rparr>" and supported: "wave_supported f"
    using made scan by (auto simp: wave_def Let_def wave_details_def frames_def split: if_splits)
  have styles: "wave_title_style \<in> set card_styles" "wave_text_style \<in> set card_styles"
    by (simp_all add: card_styles_def wave_title_style_def wave_text_style_def)
  have tags: "svg_tags (fp_bytes p) = Inr ()"
    unfolding p file_preview.select_convs svg_start_tags
    using styles svg_close_tags laws
    by (simp add: svg_text_tags bars_tags xml_no_markup is_digit_def del: append_Cons)
  have "wf_channels f \<le> 64" using supported by (simp add: wave_supported_def)
  then have channels: "length (nat_to_string (wf_channels f)) \<le> 2" by (intro nat_to_string_length) auto
  have "length (nat_to_string (wf_rate f)) \<le> 10" using wave_scan_Some [OF scan] by (intro nat_to_string_length) (auto simp: no_format_def)
  with channels seconds [of len "wf_rate f" "wf_align f"] have "length ?content \<le> 500" by (simp add: middle_dot_def)
  moreover have "length ?text \<le> 120 + length (xml L ?content)" using styles by (intro svg_text_length) auto
  moreover have "length ?title \<le> 120 + length (xml L (take 120 (fd_name details)))" using styles by (intro svg_text_length) auto
  moreover have "length ?bars \<le> 70 * 232" using bars_length [of "\<lambda>bin. bin_height level s f data frames bin" "[0 ..< 232]"]
      bin_height_le [OF level] by simp
  moreover have "length svg_start \<le> 300" by (simp add: svg_start_def)
  moreover note xml_length [of L ?content] xml_length [of L "take 120 (fd_name details)"]
  ultimately have few: "length (fp_bytes p) \<le> maximum_document_bytes div 2"
    unfolding p maximum_document_bytes_def by simp
  have "starts_with svg_start (fp_bytes p)" "ends_with ''</svg>'' (fp_bytes p)" "fp_bytes p \<noteq> []"
    unfolding p by (simp_all add: starts_with_def ends_with_def)
  with few tags show ?thesis unfolding validate_preview_def by (simp add: p del: append_assoc)
qed

lemma mime_length: "length (mime L p s) \<le> 256"
  by (simp add: mime_def Let_def)

lemma wave_mime_length: "wave L duration level s details = (q, details') \<Longrightarrow> length (fd_mimeType details) \<le> 256 \<Longrightarrow>
    length (fd_mimeType details') \<le> 256"
  by (auto simp: wave_def wave_details_def Let_def split: if_splits option.splits)

lemma fallback_valid:
  assumes "iterate_laws L" "length (fd_mimeType details) \<le> 256"
  shows "validate_preview (fst (fallback_preview L details s)) False = Inr ()"
  unfolding fallback_preview_def Let_def fst_conv
  by (rule card_valid) (use assms in \<open>auto simp: information_text_def\<close>)

lemma provider_preview_valid:
  assumes "iterate_laws L" "\<And>x. level x \<le> 144" "\<And>a b c. length (duration a b c) \<le> 400"
  shows "validate_preview (fst (provider_preview L duration level (details_for L p sz modified s) s)) False = Inr ()"
proof -
  let ?d = "details_for L p sz modified s"
  obtain q d' where made: "wave L duration level s ?d = (q, d')" by fastforce
  have "length (fd_mimeType ?d) \<le> 256" by (simp add: details_for_def mime_length)
  then have "length (fd_mimeType d') \<le> 256" by (rule wave_mime_length [OF made])
  then show ?thesis
    using made wave_valid [where level = level and duration = duration and s = s and details = ?d, OF assms] fallback_valid [OF assms(1)]
    by (cases q) (simp_all add: provider_preview_def)
qed

end
