(* ===== verification/Preview_Load.thy ===== *)
theory Preview_Load
  imports Preview_Store Preview_Laws
begin

text \<open>
  A companion is read back as the record it was made of, and is current exactly for the source it
  was made of.
\<close>

section \<open>Reading a document\<close>

definition details_json :: "file_details \<Rightarrow> json" where
  "details_json d = JObject
     [(''extension'', JString (fd_extension d)), (''mimeType'', JString (fd_mimeType d)),
      (''modifiedAtNs'', JInt (fd_modifiedAtNs d)), (''name'', JString (fd_name d)),
      (''properties'', JObject (map (\<lambda>(k, v). (k, JString v)) (fd_properties d))), (''size'', JInt (uint (fd_size d)))]"

definition preview_json :: "file_preview \<Rightarrow> string \<Rightarrow> json" where
  "preview_json p checksum = JObject
     [(''data'', JString (base64 (fp_bytes p))), (''encoding'', JString ''base64''), (''height'', JInt (uint (fp_height p))),
      (''kind'', JString (fp_kind p)), (''mimeType'', JString (fp_mimeType p)), (''sha256'', JString checksum),
      (''width'', JInt (uint (fp_width p)))]"

text \<open>A document of the record, whatever else it has.\<close>

definition describes :: "presentation_record \<Rightarrow> string \<Rightarrow> json \<Rightarrow> bool" where
  "describes r checksum j \<longleftrightarrow> is_object j \<and>
     member j ''format'' = Some (JString ''iiFileProvider.Presentation'') \<and> member j ''schema'' = Some (JInt 1) \<and>
     member j ''sourceVersion'' = Some (JString (pr_sourceVersion r)) \<and>
     member j ''details'' = Some (details_json (pr_details r)) \<and>
     member j ''preview'' = Some (preview_json (pr_preview r) checksum)"

lemma document_describes: "describes r checksum (document_json r checksum)"
  by (simp add: describes_def document_json_def details_json_def preview_json_def)

lemma token_describes:
  "describes r checksum (set_member ''sourceChangeToken'' (JString token) (document_json r checksum))"
  by (simp add: describes_def document_json_def details_json_def preview_json_def)

lemma texts_back: "mapM (\<lambda>(key, v). rbind (get_text v) (\<lambda>s. Inr (key, s))) (map (\<lambda>(k, v). (k, JString v)) ps) = Inr ps"
  by (induction ps) (auto simp: get_text_def)

lemma details_back:
  "text_at (details_json d) ''name'' = Inr (fd_name d)"
  "text_at (details_json d) ''extension'' = Inr (fd_extension d)"
  "text_at (details_json d) ''mimeType'' = Inr (fd_mimeType d)"
  "int_at ri (details_json d) ''size'' = Inr (uint (fd_size d))"
  "int_at ri (details_json d) ''modifiedAtNs'' = Inr (fd_modifiedAtNs d)"
  by (simp_all add: text_at_def int_at_def doc_at_def details_json_def of_option_def get_text_def get_number_def)

lemma properties_back: "texts_at (details_json d) ''properties'' = Inr (fd_properties d)"
  by (simp add: texts_at_def doc_at_def details_json_def of_option_def texts_back)

lemma preview_back:
  "doc_at (preview_json p checksum) ''encoding'' = Inr (JString ''base64'')"
  "text_at (preview_json p checksum) ''mimeType'' = Inr (fp_mimeType p)"
  "text_at (preview_json p checksum) ''kind'' = Inr (fp_kind p)"
  "text_at (preview_json p checksum) ''data'' = Inr (base64 (fp_bytes p))"
  "text_at (preview_json p checksum) ''sha256'' = Inr checksum"
  "unsigned_at ri (preview_json p checksum) ''width'' = Inr (uint (fp_width p))"
  "unsigned_at ri (preview_json p checksum) ''height'' = Inr (uint (fp_height p))"
  by (simp_all add: text_at_def unsigned_at_def doc_at_def preview_json_def of_option_def get_text_def get_number_def get_unsigned_def)

lemma validate_preview_bytes: "validate_preview p b = Inr u \<Longrightarrow> length (fp_bytes p) \<le> maximum_document_bytes div 2"
  by (auto simp: validate_preview_def rbind_Inr_iff split: if_splits)

lemma unbase64_preview: "validate_preview p b = Inr u \<Longrightarrow> unbase64 (base64 (fp_bytes p)) = Inr (fp_bytes p)"
  using validate_preview_bytes [of p b u]
  by (simp add: unbase64_iff length_base64 maximum_document_bytes_def)

definition int64 :: "int \<Rightarrow> bool" where
  "int64 i \<longleftrightarrow> - (2 ^ 63) \<le> i \<and> i < 2 ^ 63"

lemma int64_of_eq: "int64 i \<Longrightarrow> int64_of i = i"
  by (simp add: int64_def int64_of_def sint_sbintrunc' signed_take_bit_int_eq_self)

lemma parse_describes:
  assumes "nl_parse L doc = Some j" "describes r checksum j" "length doc \<le> maximum_document_bytes"
    and "validate_preview (pr_preview r) False = Inr u" "text_sha256 (fp_bytes (pr_preview r)) = Inr checksum"
    and "int64 (fd_modifiedAtNs (pr_details r))"
  shows "parse_record L ri doc = Inr (r\<lparr>pr_document := doc, pr_embedded := False, pr_cacheHit := False\<rparr>)"
proof -
  have "doc_at j k = of_option ''out_of_range'' (member j k)" for k
    using assms(2) by (simp add: doc_at_def describes_def)
  then have at: "doc_at j ''format'' = Inr (JString ''iiFileProvider.Presentation'')" "doc_at j ''schema'' = Inr (JInt 1)"
    "text_at j ''sourceVersion'' = Inr (pr_sourceVersion r)" "doc_at j ''details'' = Inr (details_json (pr_details r))"
    "doc_at j ''preview'' = Inr (preview_json (pr_preview r) checksum)"
    using assms(2) by (simp_all add: describes_def text_at_def of_option_def get_text_def)
  have one: "is_one L (JInt 1)" by (simp add: is_one_def)
  have bytes: "unbase64 (base64 (fp_bytes (pr_preview r))) = Inr (fp_bytes (pr_preview r))"
    by (rule unbase64_preview) (rule assms(4))
  have records: "\<lparr>fp_mimeType = fp_mimeType q, fp_kind = fp_kind q, fp_bytes = fp_bytes q, fp_width = fp_width q,
      fp_height = fp_height q\<rparr> = q"
    "\<lparr>fd_name = fd_name d, fd_extension = fd_extension d, fd_mimeType = fd_mimeType d, fd_size = fd_size d,
      fd_modifiedAtNs = fd_modifiedAtNs d, fd_properties = fd_properties d\<rparr> = d"
    "\<lparr>pr_details = pr_details r, pr_preview = pr_preview r, pr_sourceVersion = pr_sourceVersion r, pr_document = doc,
      pr_embedded = False, pr_cacheHit = False\<rparr> = r\<lparr>pr_document := doc, pr_embedded := False, pr_cacheHit := False\<rparr>"
    for q :: file_preview and d :: file_details by simp_all
  show ?thesis
    unfolding parse_record_def using assms(1,3,4,5)
    by (simp add: at one bytes details_back properties_back preview_back records of_option_def Let_def int64_of_eq [OF assms(6)]
        del: presentation_record.update_convs)
qed

section \<open>Loading\<close>

lemma token_value:
  "value_or (set_member ''sourceChangeToken'' (JString token) (document_json r checksum)) ''sourceChangeToken'' (JString [])
    = Inr (JString token)"
  by (simp add: document_json_def)

text \<open>The source as it was described.\<close>

definition current_source :: "presentation_record \<Rightarrow> string \<Rightarrow> source_state \<Rightarrow> bool" where
  "current_source r token source \<longleftrightarrow> so_version source = pr_sourceVersion r \<and> so_name source = fd_name (pr_details r) \<and>
     so_size source = fd_size (pr_details r) \<and> so_modified source = fd_modifiedAtNs (pr_details r) \<and> so_token source = token"

lemma persist_document_Inr:
  assumes "persist_document L stamp preview details = Inr r"
  obtains checksum where "validate_preview preview False = Inr ()" "text_sha256 (fp_bytes preview) = Inr checksum"
    "nl_dump L (document_json r checksum) = Some (pr_document r)" "length (pr_document r) \<le> maximum_document_bytes"
    "pr_details r = details" "pr_preview r = preview" "pr_sourceVersion r = stamp" "\<not> pr_embedded r" "\<not> pr_cacheHit r"
proof -
  obtain doc where *: "validate_preview preview False = Inr ()"
    "serialize_record L \<lparr>pr_details = details, pr_preview = preview, pr_sourceVersion = stamp, pr_document = [],
       pr_embedded = False, pr_cacheHit = False\<rparr> = Some doc" "length doc \<le> maximum_document_bytes"
    "r = \<lparr>pr_details = details, pr_preview = preview, pr_sourceVersion = stamp, pr_document = doc,
       pr_embedded = False, pr_cacheHit = False\<rparr>"
    using assms by (auto simp: persist_document_def rbind_Inr_iff of_option_def Let_def split: if_splits option.splits)
  then obtain checksum where "text_sha256 (fp_bytes preview) = Inr checksum"
    "nl_dump L (document_json r checksum) = Some doc"
    by (auto simp: serialize_record_def document_json_def split: sum.splits)
  with * that show ?thesis by simp
qed

lemma load_iff:
  assumes made: "persist_document L stamp preview details = Inr r" and portable: "portable_document L r token = Inr p"
    and laws: "\<forall>j \<in> {document_json r checksum, set_member ''sourceChangeToken'' (JString token) (document_json r checksum)}.
      \<forall>s. nl_dump L j = Some s \<longrightarrow> nl_parse L s = Some j"
    and checksum: "text_sha256 (fp_bytes preview) = Inr checksum" and range: "int64 (fd_modifiedAtNs details)"
  shows "load_companion L ri source attribute (pr_document p) =
    (if current_source r token source
     then Some (p\<lparr>pr_embedded := embedded_same L ri source attribute p, pr_cacheHit := True\<rparr>) else None)"
proof -
  let ?j = "set_member ''sourceChangeToken'' (JString token) (document_json r checksum)"
  from made obtain valid: "validate_preview preview False = Inr ()"
    and first: "nl_dump L (document_json r checksum) = Some (pr_document r)"
    and fields: "pr_details r = details" "pr_preview r = preview" "pr_sourceVersion r = stamp" "\<not> pr_embedded r" "\<not> pr_cacheHit r"
    using checksum by (auto elim!: persist_document_Inr)
  have "nl_parse L (pr_document r) = Some (document_json r checksum)" using laws first by blast
  with portable have second: "nl_dump L ?j = Some (pr_document p)" "length (pr_document p) \<le> maximum_document_bytes"
    and p: "p = r\<lparr>pr_document := pr_document p\<rparr>"
    unfolding portable_document_def of_option_def rbind_Inr_iff
    by (auto split: if_splits option.splits simp del: set_member.simps)
  have read: "nl_parse L (pr_document p) = Some ?j" using laws second(1) by blast
  have "parse_record L ri (pr_document p) =
      Inr (r\<lparr>pr_document := pr_document p, pr_embedded := False, pr_cacheHit := False\<rparr>)"
    using parse_describes [OF read token_describes second(2)] valid checksum range fields by simp
  moreover have "r\<lparr>pr_document := pr_document p, pr_embedded := False, pr_cacheHit := False\<rparr> = p"
    by (subst (2) p) (use fields in \<open>cases r; simp\<close>)
  ultimately have "parse_record L ri (pr_document p) = Inr p" by simp
  moreover have "pr_details p = pr_details r" "pr_sourceVersion p = pr_sourceVersion r" by (subst p, simp)+
  ultimately show ?thesis
    using fields by (simp add: load_companion_def read token_value current_source_def del: set_member.simps)
qed

end
