(* ===== verification/Preview_Worker.thy ===== *)
theory Preview_Worker
  imports Preview_Store "HOL-Library.AList"
begin

text \<open>
  The presentation worker of \<open>Native/src/Presentation/Presentation.cpp\<close>: its queue of saved files, its
  watched roots and the one thread that serves them.  A step is what one critical section does; the
  thread prepares a file or scans a root between two of its steps.  Time is in milliseconds.
\<close>

section \<open>Paths below a root\<close>

text \<open>\<open>lexically_relative\<close>, as the elements of its result; the empty list is the empty path.\<close>

fun strip_common :: "string list \<Rightarrow> string list \<Rightarrow> string list \<times> string list" where
  "strip_common (x # xs) (y # ys) = (if x = y then strip_common xs ys else (x # xs, y # ys))"
| "strip_common xs ys = (xs, ys)"

definition relative_elements :: "path \<Rightarrow> path \<Rightarrow> string list" where
  "relative_elements p root =
     (if is_absolute p \<noteq> is_absolute root then []
      else let (a, b) = strip_common (path_elements p) (path_elements root);
               ups = length (filter (\<lambda>x. x \<notin> {[], ''.'', ''..''}) b); downs = length (filter (\<lambda>x. x = ''..'') b)
        in if a = [] \<and> b = [] then [''.'']
           else if ups < downs then []
           else if ups = downs \<and> (a = [] \<or> hd a = []) then [''.'']
           else replicate (ups - downs) ''..'' @ a)"

definition path_within :: "path \<Rightarrow> path \<Rightarrow> bool" where
  "path_within p root \<longleftrightarrow> path_elements p = path_elements root \<or>
     (let relative = relative_elements p root in relative \<noteq> [] \<and> hd relative \<noteq> ''/'' \<and> hd relative \<noteq> ''..'')"

section \<open>The state\<close>

text \<open>A watched root; \<open>wt_id\<close> tells the object apart from one that replaces it.\<close>

record watch =
  wt_id :: nat
  wt_identity :: string
  wt_directories :: "path list"
  wt_interval :: int
  wt_next :: int
  wt_available :: bool

datatype thread_state = Absent | Working | Returned

record intake =
  in_queue :: "path list"
  in_queued :: "path set"
  in_watches :: "(path \<times> watch) list"
  in_thread :: thread_state
  in_stopping :: bool
  in_active :: bool
  in_path :: path
  in_scan :: "nat option"
  in_objects :: nat

definition intake_new :: intake where
  "intake_new = \<lparr>in_queue = [], in_queued = {}, in_watches = [], in_thread = Absent, in_stopping = False,
     in_active = False, in_path = [], in_scan = None, in_objects = 0\<rparr>"

definition intake_start :: "intake \<Rightarrow> intake" where
  "intake_start s = (if in_thread s = Absent then s\<lparr>in_thread := Working\<rparr> else s)"

section \<open>The callers\<close>

text \<open>\<open>add\<close>; \<open>None\<close> while it waits for room in the queue.\<close>

definition intake_add :: "path \<Rightarrow> intake \<Rightarrow> intake option" where
  "intake_add p s =
     (if in_stopping s \<or> p \<in> in_queued s then Some s
      else if length (in_queue s) < 4096
      then Some (intake_start (s\<lparr>in_queued := insert p (in_queued s), in_queue := in_queue s @ [p]\<rparr>))
      else None)"

text \<open>\<open>cancel\<close> removes at once, then waits; a call from the worker's own thread does nothing.\<close>

definition intake_cancel :: "path \<Rightarrow> intake \<Rightarrow> intake" where
  "intake_cancel root s = s\<lparr>in_queue := filter (\<lambda>p. \<not> path_within p root) (in_queue s),
     in_queued := in_queued s - set (filter (\<lambda>p. path_within p root) (in_queue s)),
     in_watches := filter (\<lambda>(p, w). \<not> path_within p root) (in_watches s)\<rparr>"

definition cancel_returns :: "path \<Rightarrow> intake \<Rightarrow> bool" where
  "cancel_returns root s \<longleftrightarrow>
     \<not> in_active s \<or> (\<not> path_within (in_path s) root \<and> \<not> path_within root (in_path s))"

definition idle_returns :: "intake \<Rightarrow> bool" where
  "idle_returns s \<longleftrightarrow> in_queue s = [] \<and> \<not> in_active s"

definition intake_watch :: "path \<Rightarrow> string \<Rightarrow> path list \<Rightarrow> int \<Rightarrow> bool \<Rightarrow> intake \<Rightarrow> (string, intake) result" where
  "intake_watch root identity directories interval available s =
     (let w = \<lparr>wt_id = in_objects s, wt_identity = identity, wt_directories = directories,
                wt_interval = max interval 50, wt_next = 0, wt_available = available\<rparr>;
          found = map_of (in_watches s) root
      in if \<not> available \<and> (case found of None \<Rightarrow> False
            | Some v \<Rightarrow> wt_identity v = identity \<and> wt_directories v = directories) then Inr s
         else if 128 \<le> length (in_watches s) \<and> found = None then Inl ''Presentation intake root limit exceeded''
         else Inr (intake_start (s\<lparr>in_watches := AList.update root w (in_watches s), in_objects := in_objects s + 1\<rparr>)))"

definition intake_unwatch :: "path \<Rightarrow> intake \<Rightarrow> intake" where
  "intake_unwatch root s = s\<lparr>in_watches := filter (\<lambda>(p, w). p \<noteq> root) (in_watches s)\<rparr>"

text \<open>The arguments of \<open>Presentation::watch\<close>: what is watched are relative directories without hidden parts.\<close>

definition watch_checks :: "(path \<Rightarrow> path) \<Rightarrow> path list \<Rightarrow> (string, unit) result" where
  "watch_checks normal directories =
     (if directories = [] \<or> 64 < length directories then Inl ''Intake requires one to 64 relative directories''
      else foldM (\<lambda>d _.
        if d = [] \<or> is_absolute d \<or> path_elements (normal d) \<noteq> path_elements d \<or> d = ''.''
        then Inl ''Intake directory must be a relative path''
        else if list_ex (\<lambda>part. part = ''..'' \<or> starts_with ''.'' part) (path_elements d)
        then Inl ''Intake cannot traverse private or parent directories'' else Inr ()) directories ())"

section \<open>The thread\<close>

definition worker_free :: "intake \<Rightarrow> bool" where
  "worker_free s \<longleftrightarrow> in_thread s = Working \<and> \<not> in_active s"

text \<open>The next queued file comes first.\<close>

definition intake_take :: "intake \<Rightarrow> intake option" where
  "intake_take s = (case in_queue s of [] \<Rightarrow> None
   | p # q \<Rightarrow> if worker_free s
       then Some (s\<lparr>in_queue := q, in_queued := in_queued s - {p}, in_active := True, in_path := p\<rparr>) else None)"

definition intake_prepared :: "intake \<Rightarrow> intake option" where
  "intake_prepared s = (if in_active s \<and> in_scan s = None then Some (s\<lparr>in_active := False, in_path := []\<rparr>) else None)"

text \<open>
  A root that is due, when nothing is queued.  The code takes the first one in the order of paths; here
  it is any.
\<close>

definition intake_scan :: "int \<Rightarrow> path \<Rightarrow> intake \<Rightarrow> intake option" where
  "intake_scan now root s = (case map_of (in_watches s) root of None \<Rightarrow> None
   | Some w \<Rightarrow>
     if worker_free s \<and> in_queue s = [] \<and> \<not> in_stopping s \<and> wt_next w \<le> now
     then Some (s\<lparr>in_watches := AList.update root (w\<lparr>wt_next := now + wt_interval w\<rparr>) (in_watches s),
                  in_active := True, in_path := root, in_scan := Some (wt_id w)\<rparr>)
     else None)"

text \<open>After a slice; \<open>left\<close> tells whether directories are left.\<close>

definition intake_scanned :: "int \<Rightarrow> bool \<Rightarrow> intake \<Rightarrow> intake option" where
  "intake_scanned now left s = (case in_scan s of None \<Rightarrow> None
   | Some i \<Rightarrow> Some (s\<lparr>in_watches := map (\<lambda>(p, w). (p, if left \<and> wt_id w = i then w\<lparr>wt_next := now + 5\<rparr> else w)) (in_watches s),
       in_active := False, in_path := [], in_scan := None\<rparr>))"

definition intake_end :: "intake \<Rightarrow> intake option" where
  "intake_end s = (if worker_free s \<and> in_queue s = [] \<and> in_stopping s then Some (s\<lparr>in_thread := Returned\<rparr>) else None)"

section \<open>Runs\<close>

datatype intake_event =
    Add path
  | Cancel path
  | Watch path string "path list" int bool
  | Unwatch path
  | Stop
  | Take
  | Prepared
  | Scan int path
  | Scanned int bool
  | End

text \<open>What an event does; \<open>None\<close> where it cannot happen.\<close>

fun intake_apply :: "intake_event \<Rightarrow> intake \<Rightarrow> intake option" where
  "intake_apply (Add p) s = intake_add p s"
| "intake_apply (Cancel root) s = Some (intake_cancel root s)"
| "intake_apply (Watch root identity directories interval available) s =
     (case intake_watch root identity directories interval available s of Inl _ \<Rightarrow> Some s | Inr s' \<Rightarrow> Some s')"
| "intake_apply (Unwatch root) s = Some (intake_unwatch root s)"
| "intake_apply Stop s = Some (s\<lparr>in_stopping := True\<rparr>)"
| "intake_apply Take s = intake_take s"
| "intake_apply Prepared s = intake_prepared s"
| "intake_apply (Scan now root) s = intake_scan now root s"
| "intake_apply (Scanned now left) s = intake_scanned now left s"
| "intake_apply End s = intake_end s"

text \<open>The paths an event accepts and hands to the decoder, and the roots it cancels.\<close>

fun accepted :: "intake_event \<Rightarrow> intake \<Rightarrow> path list" where
  "accepted (Add p) s = (if in_stopping s \<or> p \<in> in_queued s then [] else [p])"
| "accepted _ s = []"

fun taken :: "intake_event \<Rightarrow> intake \<Rightarrow> path list" where
  "taken Take s = take 1 (in_queue s)"
| "taken _ s = []"

fun cancelled :: "intake_event \<Rightarrow> path list" where
  "cancelled (Cancel root) = [root]"
| "cancelled _ = []"

inductive intake_run :: "intake \<Rightarrow> path list \<Rightarrow> path list \<Rightarrow> path list \<Rightarrow> intake \<Rightarrow> bool" for s0 where
  start: "intake_run s0 [] [] [] s0"
| event: "intake_run s0 a t c s \<Longrightarrow> intake_apply e s = Some s' \<Longrightarrow>
    intake_run s0 (a @ accepted e s) (t @ taken e s) (c @ cancelled e) s'"

text \<open>Events that bring nothing below a root.\<close>

fun outside :: "path \<Rightarrow> intake_event \<Rightarrow> bool" where
  "outside root (Add p) = (\<not> path_within p root)"
| "outside root (Watch p _ _ _ _) = (\<not> path_within p root)"
| "outside root _ = True"

fun intake_events :: "intake_event list \<Rightarrow> intake \<Rightarrow> intake option" where
  "intake_events [] s = Some s"
| "intake_events (e # es) s = Option.bind (intake_apply e s) (intake_events es)"

section \<open>Invariant\<close>

definition intake_ok :: "intake \<Rightarrow> bool" where
  "intake_ok s \<longleftrightarrow> distinct (in_queue s) \<and> set (in_queue s) = in_queued s \<and> length (in_queue s) \<le> 4096 \<and>
     distinct (map fst (in_watches s)) \<and> length (in_watches s) \<le> 128 \<and>
     (in_queue s \<noteq> [] \<longrightarrow> in_thread s = Working) \<and> (in_active s \<longrightarrow> in_thread s = Working) \<and>
     (in_thread s = Returned \<longrightarrow> in_stopping s) \<and> (in_scan s \<noteq> None \<longrightarrow> in_active s)"

lemma intake_new_ok: "intake_ok intake_new"
  by (simp add: intake_ok_def intake_new_def)

lemma update_length: "length (AList.update k v al) = (if map_of al k = None then length al + 1 else length al)"
proof -
  have "length (AList.update k v al) = length (map fst (AList.update k v al))" by simp
  also have "\<dots> = (if map_of al k = None then length al + 1 else length al)"
    unfolding update_keys by (simp add: map_of_eq_None_iff)
  finally show ?thesis .
qed

lemma start_ok:
  assumes "intake_ok s" "s' = s\<lparr>in_watches := ws, in_objects := n\<rparr>"
    and "distinct (map fst ws)" "length ws \<le> 128"
  shows "intake_ok (intake_start s')"
  using assms by (simp add: intake_ok_def intake_start_def)

lemma add_ok:
  assumes "intake_ok s" "intake_add p s = Some s'"
  shows "intake_ok s'"
proof (cases "in_stopping s \<or> p \<in> in_queued s")
  case False
  then have s': "s' = intake_start (s\<lparr>in_queued := insert p (in_queued s), in_queue := in_queue s @ [p]\<rparr>)"
    and room: "length (in_queue s) < 4096"
    using assms(2) by (simp_all add: intake_add_def split: if_splits)
  have "p \<notin> set (in_queue s)" "in_thread s \<noteq> Returned" using False assms(1) by (auto simp: intake_ok_def)
  with assms(1) room show ?thesis
    unfolding s' by (cases "in_thread s") (auto simp: intake_ok_def intake_start_def)
qed (use assms in \<open>simp add: intake_add_def\<close>)

lemma cancel_ok: "intake_ok s \<Longrightarrow> intake_ok (intake_cancel root s)"
  by (auto simp: intake_ok_def intake_cancel_def distinct_map_filter intro: order_trans [OF length_filter_le])

lemma watch_ok:
  assumes "intake_ok s" "intake_watch root identity directories interval available s = Inr s'"
  shows "intake_ok s'"
proof -
  have keys: "distinct (map fst (in_watches s))" and few: "length (in_watches s) \<le> 128"
    using assms(1) by (simp_all add: intake_ok_def)
  define w where "w = \<lparr>wt_id = in_objects s, wt_identity = identity, wt_directories = directories,
    wt_interval = max interval 50, wt_next = 0, wt_available = available\<rparr>"
  consider "s' = s" | "s' = intake_start (s\<lparr>in_watches := AList.update root w (in_watches s), in_objects := in_objects s + 1\<rparr>)"
    "\<not> (128 \<le> length (in_watches s) \<and> map_of (in_watches s) root = None)"
    using assms(2) unfolding intake_watch_def Let_def w_def by (auto split: if_splits)
  then show ?thesis
  proof cases
    case 2
    show ?thesis unfolding 2(1)
      by (rule start_ok [OF assms(1) refl]) (use keys few 2(2) in \<open>auto simp: distinct_update update_length\<close>)
  qed (use assms in simp)
qed

lemma unwatch_ok: "intake_ok s \<Longrightarrow> intake_ok (intake_unwatch root s)"
  by (auto simp: intake_ok_def intake_unwatch_def distinct_map_filter intro: order_trans [OF length_filter_le])

lemma take_ok: "intake_ok s \<Longrightarrow> intake_take s = Some s' \<Longrightarrow> intake_ok s'"
  by (auto simp: intake_ok_def intake_take_def worker_free_def split: list.splits if_splits)

lemma prepared_ok: "intake_ok s \<Longrightarrow> intake_prepared s = Some s' \<Longrightarrow> intake_ok s'"
  by (auto simp: intake_ok_def intake_prepared_def split: if_splits)

lemma scan_ok: "intake_ok s \<Longrightarrow> intake_scan now root s = Some s' \<Longrightarrow> intake_ok s'"
  by (auto simp: intake_ok_def intake_scan_def worker_free_def distinct_update update_length split: option.splits if_splits)

lemma scanned_ok: "intake_ok s \<Longrightarrow> intake_scanned now left s = Some s' \<Longrightarrow> intake_ok s'"
  by (auto simp: intake_ok_def intake_scanned_def comp_def case_prod_unfold split: option.splits)

lemma end_ok: "intake_ok s \<Longrightarrow> intake_end s = Some s' \<Longrightarrow> intake_ok s'"
  by (auto simp: intake_ok_def intake_end_def worker_free_def split: if_splits)

lemma apply_ok:
  assumes "intake_ok s" "intake_apply e s = Some s'"
  shows "intake_ok s'"
proof (cases e)
  case (Watch root identity directories interval available)
  with assms show ?thesis by (auto split: sum.splits dest: watch_ok)
next
  case Stop
  with assms show ?thesis by (auto simp: intake_ok_def)
qed (use assms in \<open>auto dest: add_ok cancel_ok unwatch_ok take_ok prepared_ok scan_ok scanned_ok end_ok\<close>)

lemma run_ok: "intake_run s0 a t c s \<Longrightarrow> intake_ok s0 \<Longrightarrow> intake_ok s"
  by (induction rule: intake_run.induct) (auto intro: apply_ok)

section \<open>Nothing is lost\<close>

text \<open>The part of a list that no call cancelled.\<close>

definition kept_of :: "path list \<Rightarrow> path list \<Rightarrow> path list" where
  "kept_of c xs = filter (\<lambda>p. \<forall>root \<in> set c. \<not> path_within p root) xs"

lemma kept_Nil [simp]: "kept_of c [] = []"
  by (simp add: kept_of_def)

lemma kept_append [simp]: "kept_of c (xs @ ys) = kept_of c xs @ kept_of c ys"
  by (simp add: kept_of_def)

lemma kept_cancel: "kept_of (c @ c') xs = kept_of c' (kept_of c xs)"
  by (auto simp: kept_of_def intro: filter_cong)

lemma kept_filter: "kept_of [root] (filter (\<lambda>p. \<not> path_within p root) xs) = kept_of [root] xs"
  by (auto simp: kept_of_def intro: filter_cong)

text \<open>One event, seen from the queue.\<close>

lemma apply_queue:
  assumes "intake_apply e s = Some s'"
  shows "kept_of (cancelled e) (taken e s @ in_queue s') = kept_of (cancelled e) (in_queue s @ accepted e s)"
  using assms
proof (cases e)
  case (Add p)
  with assms show ?thesis by (auto simp: intake_add_def intake_start_def kept_of_def split: if_splits)
next
  case (Cancel root)
  with assms show ?thesis using kept_filter [of root "in_queue s"] by (auto simp: intake_cancel_def)
next
  case (Watch root identity directories interval available)
  with assms show ?thesis by (auto simp: intake_watch_def intake_start_def Let_def split: sum.splits if_splits option.splits)
next
  case Take
  with assms show ?thesis by (auto simp: intake_take_def kept_of_def split: list.splits if_splits)
qed (auto simp: intake_unwatch_def intake_prepared_def intake_scan_def intake_scanned_def intake_end_def split: if_splits option.splits)

lemma run_queue: "intake_run s0 a t c s \<Longrightarrow> in_queue s0 = [] \<Longrightarrow> kept_of c (t @ in_queue s) = kept_of c a"
proof (induction rule: intake_run.induct)
  case (event a t c s e s')
  have "kept_of (c @ cancelled e) ((t @ taken e s) @ in_queue s') =
      kept_of c (kept_of (cancelled e) t @ kept_of (cancelled e) (taken e s @ in_queue s'))"
    unfolding kept_cancel by (simp add: kept_of_def conj_commute)
  also have "\<dots> = kept_of c (kept_of (cancelled e) (t @ in_queue s) @ kept_of (cancelled e) (accepted e s))"
    unfolding apply_queue [OF event(2)] by simp
  also have "\<dots> = kept_of (cancelled e) (kept_of c (t @ in_queue s) @ kept_of c (accepted e s))"
    by (simp add: kept_of_def conj_commute)
  also have "\<dots> = kept_of (c @ cancelled e) (a @ accepted e s)"
    unfolding event.IH [OF event.prems] kept_cancel by simp
  finally show ?case .
qed simp

section \<open>After a cancellation\<close>

definition nothing_below :: "path \<Rightarrow> intake \<Rightarrow> bool" where
  "nothing_below root s \<longleftrightarrow> list_all (\<lambda>p. \<not> path_within p root) (in_queue s) \<and>
     list_all (\<lambda>(p, w). \<not> path_within p root) (in_watches s)"

lemma cancel_nothing_below: "nothing_below root (intake_cancel root s)"
  by (auto simp: nothing_below_def intake_cancel_def list_all_iff)

lemma list_all_update:
  "list_all P (map fst al) \<Longrightarrow> P k \<Longrightarrow> list_all P (map fst (AList.update k v al))"
  by (simp add: update_keys)

lemma below_watches: "list_all (\<lambda>(p, w). Q p) al \<longleftrightarrow> list_all Q (map fst al)"
  by (auto simp: list_all_iff)

lemma apply_nothing_below:
  assumes "nothing_below root s" "outside root e" "intake_apply e s = Some s'"
  shows "nothing_below root s'"
proof (cases e)
  case (Add p)
  with assms show ?thesis by (auto simp: nothing_below_def intake_add_def intake_start_def split: if_splits)
next
  case (Watch r identity directories interval available)
  with assms show ?thesis
    by (auto simp: nothing_below_def intake_watch_def intake_start_def Let_def below_watches list_all_update split: sum.splits if_splits option.splits)
next
  case (Scan now r)
  with assms(3) obtain w where w: "map_of (in_watches s) r = Some w"
    and s': "in_queue s' = in_queue s" "in_watches s' = AList.update r (w\<lparr>wt_next := now + wt_interval w\<rparr>) (in_watches s)"
    by (auto simp: intake_scan_def split: option.splits if_splits)
  have "\<not> path_within r root" using assms(1) map_of_SomeD [OF w] by (auto simp: nothing_below_def list_all_iff)
  with assms(1) show ?thesis
    unfolding nothing_below_def below_watches s' by (intro conjI list_all_update [of "\<lambda>p. \<not> path_within p root"]) simp_all
next
  case (Scanned now left)
  with assms show ?thesis by (auto simp: nothing_below_def intake_scanned_def list_all_iff split: option.splits)
qed (use assms in \<open>auto simp: nothing_below_def intake_cancel_def intake_unwatch_def intake_take_def intake_prepared_def
     intake_end_def list_all_iff split: list.splits if_splits\<close>)

definition quiet_below :: "path \<Rightarrow> intake \<Rightarrow> bool" where
  "quiet_below root s \<longleftrightarrow> nothing_below root s \<and> (in_active s \<longrightarrow> \<not> path_within (in_path s) root)"

lemma apply_quiet:
  assumes "quiet_below root s" "outside root e" "intake_apply e s = Some s'"
  shows "quiet_below root s'"
proof -
  have "nothing_below root s'" using apply_nothing_below assms by (auto simp: quiet_below_def)
  moreover have "\<not> path_within (in_path s') root" if active: "in_active s'"
  proof (cases e)
    case Take
    with assms show ?thesis by (auto simp: quiet_below_def nothing_below_def intake_take_def split: list.splits if_splits)
  next
    case (Scan now r)
    with assms(3) obtain w where "map_of (in_watches s) r = Some w" "in_path s' = r"
      by (auto simp: intake_scan_def split: option.splits if_splits)
    with assms(1) show ?thesis by (auto simp: quiet_below_def nothing_below_def list_all_iff dest!: map_of_SomeD)
  qed (use assms active in \<open>auto simp: quiet_below_def intake_add_def intake_start_def intake_cancel_def intake_watch_def Let_def
       intake_unwatch_def intake_prepared_def intake_scanned_def intake_end_def split: sum.splits if_splits option.splits\<close>)
  ultimately show ?thesis by (simp add: quiet_below_def)
qed

lemma events_nothing_below:
  "nothing_below root s \<Longrightarrow> list_all (outside root) es \<Longrightarrow> intake_events es s = Some s' \<Longrightarrow> nothing_below root s'"
proof (induction es arbitrary: s)
  case (Cons e es)
  from Cons.prems obtain s1 where "intake_apply e s = Some s1" "intake_events es s1 = Some s'"
    by (auto simp: bind_eq_Some_conv)
  with Cons show ?case by (auto intro: apply_nothing_below)
qed simp

lemma events_quiet:
  "quiet_below root s \<Longrightarrow> list_all (outside root) es \<Longrightarrow> intake_events es s = Some s' \<Longrightarrow> quiet_below root s'"
proof (induction es arbitrary: s)
  case (Cons e es)
  from Cons.prems obtain s1 where "intake_apply e s = Some s1" "intake_events es s1 = Some s'"
    by (auto simp: bind_eq_Some_conv)
  with Cons show ?case by (auto intro: apply_quiet)
qed simp

end
