(* ===== verification/Preview_Registry.thy ===== *)
theory Preview_Registry
  imports Preview_Store
begin

text \<open>
  The tables that \<open>Presentation\<close> shares between threads, each under its own mutex: the change tokens of
  the attributes it published, the renderers, and the access locks of the sources.
\<close>

section \<open>Change tokens\<close>

record source_info =
  sn_identity :: string
  sn_stamp :: string
  sn_size :: u64
  sn_modified :: int
  sn_changed :: string
  sn_sequence :: "int option"

record cache_token =
  ct_observed :: string
  ct_normalized :: string
  ct_observedSequence :: "int option"
  ct_normalizedSequence :: "int option"

type_synonym token_table = "(string \<times> cache_token) list"

text \<open>The token of a source before anything was published, or the one it stands for.\<close>

definition normalized_token :: "token_table \<Rightarrow> source_info \<Rightarrow> string \<times> int option" where
  "normalized_token tokens s = (case map_of tokens (sn_identity s) of
     None \<Rightarrow> (sn_changed s, sn_sequence s)
   | Some t \<Rightarrow> if ct_observed t = sn_changed s \<and> ct_observedSequence t = sn_sequence s
               then (ct_normalized t, ct_normalizedSequence t) else (sn_changed s, sn_sequence s))"

text \<open>The block of \<open>persist\<close> around the attribute: \<open>before\<close> and \<open>after\<close> are the source on both sides of it.\<close>

definition publish_token :: "source_info \<Rightarrow> source_info \<Rightarrow> token_table \<Rightarrow> token_table" where
  "publish_token before after tokens =
     (let (original, sequence) = normalized_token tokens before;
          room = (if 65536 \<le> length tokens \<and> map_of tokens (sn_identity before) = None then tl tokens else tokens)
      in put (sn_identity before)
           \<lparr>ct_observed = sn_changed after, ct_normalized = original,
            ct_observedSequence = sn_sequence after, ct_normalizedSequence = sequence\<rparr> room)"

text \<open>\<open>cacheChangeToken\<close>; \<open>wal\<close> is the write-ahead log of a canvas where there is one.\<close>

definition sequence_text :: "int option \<Rightarrow> string" where
  "sequence_text q = (case q of None \<Rightarrow> [] | Some n \<Rightarrow> '':usn:'' @ int_to_string n)"

definition cache_change_token :: "token_table \<Rightarrow> source_info \<Rightarrow> source_info option \<Rightarrow> string" where
  "cache_change_token tokens s wal =
     (let (result, sequence) = normalized_token tokens s
      in result @ sequence_text sequence @
         (case wal of None \<Rightarrow> [] | Some w \<Rightarrow> '':wal:'' @ sn_changed w @ sequence_text (sn_sequence w)))"

text \<open>\<open>changeToken\<close>\<close>

definition change_token :: "source_info \<Rightarrow> source_info option \<Rightarrow> string" where
  "change_token s wal = sn_changed s @ (case wal of None \<Rightarrow> [] | Some w \<Rightarrow> '':wal:'' @ sn_changed w)"

text \<open>\<open>normalizeChangeTime\<close>, as it is outside Windows.\<close>

definition normalize_change_time :: "token_table \<Rightarrow> u64 \<Rightarrow> u64 \<Rightarrow> int \<Rightarrow> int \<Rightarrow> (string, string) result" where
  "normalize_change_time tokens device index seconds nanoseconds =
     (if nanoseconds < 0 \<or> 1000000000 \<le> nanoseconds then Inl ''Invalid native change-time fraction''
      else let identity = nat_to_string (unat device) @ '':'' @ nat_to_string (unat index);
               token = identity @ '':'' @ int_to_string seconds @ '':'' @ int_to_string nanoseconds
        in Inr (case map_of tokens identity of
             Some t \<Rightarrow> if ct_observed t = token then ct_normalized t else token
           | None \<Rightarrow> token))"

section \<open>Renderers\<close>

definition extension_char :: "char \<Rightarrow> bool" where
  "extension_char c \<longleftrightarrow> c \<in> set ''.abcdefghijklmnopqrstuvwxyz0123456789_-''"

text \<open>\<open>setRenderer\<close> on the table and the revision counter.\<close>

definition set_renderer ::
    "string \<Rightarrow> 'r option \<Rightarrow> (string \<times> 'r) list \<times> u64 \<Rightarrow> (string, (string \<times> 'r) list \<times> u64) result" where
  "set_renderer raw renderer = (\<lambda>(renderers, revision).
     let ext = lower_text raw
     in if length ext < 2 \<or> 32 < length ext \<or> hd ext \<noteq> CHR ''.'' \<or> \<not> list_all extension_char ext
        then Inl ''A renderer needs a simple filename extension''
        else case renderer of
          Some r \<Rightarrow>
            if 64 \<le> length renderers \<and> map_of renderers ext = None then Inl ''Renderer count exceeds limit''
            else Inr (put ext r renderers, revision + 1)
        | None \<Rightarrow> Inr (filter (\<lambda>(k, r). k \<noteq> ext) renderers, revision + 1))"

section \<open>Source access\<close>

text \<open>
  A mutex is a number.  A handle owns its mutex from \<open>acquire\<close> until its destructor resets it; the
  destructor then removes an expired entry in a second step.
\<close>

record access =
  ac_locks :: "string \<rightharpoonup> nat"
  ac_handles :: "nat \<rightharpoonup> string \<times> nat"
  ac_closing :: "string list"
  ac_fresh :: nat

definition access_new :: access where
  "access_new = \<lparr>ac_locks = Map.empty, ac_handles = Map.empty, ac_closing = [], ac_fresh = 0\<rparr>"

definition expired :: "access \<Rightarrow> nat \<Rightarrow> bool" where
  "expired s m \<longleftrightarrow> m \<notin> snd ` ran (ac_handles s)"

definition access_acquire :: "nat \<Rightarrow> string \<Rightarrow> access \<Rightarrow> access" where
  "access_acquire h identity s =
     (case ac_locks s identity of
        Some m \<Rightarrow> if expired s m
          then s\<lparr>ac_locks := (ac_locks s)(identity \<mapsto> ac_fresh s), ac_handles := (ac_handles s)(h \<mapsto> (identity, ac_fresh s)),
                 ac_fresh := ac_fresh s + 1\<rparr>
          else s\<lparr>ac_handles := (ac_handles s)(h \<mapsto> (identity, m))\<rparr>
      | None \<Rightarrow> s\<lparr>ac_locks := (ac_locks s)(identity \<mapsto> ac_fresh s), ac_handles := (ac_handles s)(h \<mapsto> (identity, ac_fresh s)),
                  ac_fresh := ac_fresh s + 1\<rparr>)"

definition access_reset :: "nat \<Rightarrow> access \<Rightarrow> access" where
  "access_reset h s = (case ac_handles s h of None \<Rightarrow> s
   | Some (identity, m) \<Rightarrow> s\<lparr>ac_handles := (ac_handles s)(h := None), ac_closing := identity # ac_closing s\<rparr>)"

definition access_erase :: "string \<Rightarrow> access \<Rightarrow> access" where
  "access_erase identity s =
     (let s = s\<lparr>ac_closing := remove1 identity (ac_closing s)\<rparr>
      in case ac_locks s identity of
           Some m \<Rightarrow> if expired s m then s\<lparr>ac_locks := (ac_locks s)(identity := None)\<rparr> else s
         | None \<Rightarrow> s)"

inductive access_step :: "access \<Rightarrow> access \<Rightarrow> bool" where
  acquire: "ac_handles s h = None \<Longrightarrow> access_step s (access_acquire h identity s)"
| reset: "ac_handles s h \<noteq> None \<Longrightarrow> access_step s (access_reset h s)"
| erase: "identity \<in> set (ac_closing s) \<Longrightarrow> access_step s (access_erase identity s)"

section \<open>Laws\<close>

lemma length_put: "length (put k v kvs) \<le> length kvs + 1"
  by (induction k v kvs rule: put.induct) auto

text \<open>A table with room.\<close>

lemma publish_token_lookup:
  assumes "length tokens < 65536"
  shows "map_of (publish_token before after tokens) i = (if sn_identity before = i
    then Some \<lparr>ct_observed = sn_changed after, ct_normalized = fst (normalized_token tokens before),
      ct_observedSequence = sn_sequence after, ct_normalizedSequence = snd (normalized_token tokens before)\<rparr>
    else map_of tokens i)"
  using assms by (simp add: publish_token_def map_of_put Let_def case_prod_unfold)

lemma normalized_after_publish:
  assumes "length tokens < 65536" "sn_identity after = sn_identity before"
  shows "normalized_token (publish_token before after tokens) after = normalized_token tokens before"
  using assms by (simp add: normalized_token_def [of "publish_token before after tokens"] publish_token_lookup)

lemma normalized_other:
  assumes "length tokens < 65536" "sn_identity s \<noteq> sn_identity before"
  shows "normalized_token (publish_token before after tokens) s = normalized_token tokens s"
  using assms by (simp add: normalized_token_def publish_token_lookup)

lemma normalized_changed:
  assumes "length tokens < 65536" "sn_identity s = sn_identity before"
    and "(sn_changed s, sn_sequence s) \<noteq> (sn_changed after, sn_sequence after)"
  shows "normalized_token (publish_token before after tokens) s = (sn_changed s, sn_sequence s)"
  using assms by (auto simp: normalized_token_def publish_token_lookup)

lemma publish_token_length: "length tokens < 65536 \<Longrightarrow> length (publish_token before after tokens) \<le> length tokens + 1"
  using length_put by (simp add: publish_token_def Let_def case_prod_unfold)

text \<open>Publications in order; those of an identity follow one another from a state of it to another.\<close>

fun chained :: "string \<Rightarrow> source_info \<Rightarrow> (source_info \<times> source_info) list \<Rightarrow> source_info \<Rightarrow> bool" where
  "chained i s [] s' = (s = s')"
| "chained i s ((before, after) # ps) s' =
     (if sn_identity before = i then before = s \<and> sn_identity after = i \<and> chained i after ps s' else chained i s ps s')"

definition publish_all :: "(source_info \<times> source_info) list \<Rightarrow> token_table \<Rightarrow> token_table" where
  "publish_all ps tokens = fold (\<lambda>(before, after). publish_token before after) ps tokens"

lemma normalized_chain:
  "length tokens + length ps \<le> 65536 \<Longrightarrow> sn_identity s = i \<Longrightarrow> chained i s ps s' \<Longrightarrow>
     normalized_token (publish_all ps tokens) s' = normalized_token tokens s"
proof (induction ps arbitrary: tokens s)
  case (Cons p ps)
  obtain before after where p: "p = (before, after)" by fastforce
  let ?t = "publish_token before after tokens"
  have small: "length tokens < 65536" and next_small: "length ?t + length ps \<le> 65536"
    using Cons.prems(1) publish_token_length [of tokens before after] by auto
  have run: "publish_all (p # ps) tokens = publish_all ps ?t" by (simp add: publish_all_def p)
  show ?case
  proof (cases "sn_identity before = i")
    case True
    with Cons.prems p have "before = s" "sn_identity after = i" "chained i after ps s'" by auto
    with Cons.IH [OF next_small, of after] small run Cons.prems(2) show ?thesis by (simp add: normalized_after_publish)
  next
    case False
    with Cons.prems p have "chained i s ps s'" by simp
    with Cons.IH [OF next_small Cons.prems(2)] small run False Cons.prems(2) show ?thesis by (simp add: normalized_other)
  qed
qed (simp add: publish_all_def)

text \<open>After publications of an identity, only their last state stands for another.\<close>

lemma observed_chain:
  "length tokens + length ps \<le> 65536 \<Longrightarrow> sn_identity s = i \<Longrightarrow> chained i s ps s' \<Longrightarrow>
     list_ex (\<lambda>(before, after). sn_identity before = i) ps \<or>
       (\<exists>t. map_of tokens i = Some t \<and> ct_observed t = sn_changed s \<and> ct_observedSequence t = sn_sequence s) \<Longrightarrow>
     \<exists>t. map_of (publish_all ps tokens) i = Some t \<and> ct_observed t = sn_changed s' \<and> ct_observedSequence t = sn_sequence s'"
proof (induction ps arbitrary: tokens s)
  case (Cons p ps)
  obtain before after where p: "p = (before, after)" by fastforce
  let ?t = "publish_token before after tokens"
  have small: "length tokens < 65536" and next_small: "length ?t + length ps \<le> 65536"
    using Cons.prems(1) publish_token_length [of tokens before after] by auto
  have run: "publish_all (p # ps) tokens = publish_all ps ?t" by (simp add: publish_all_def p)
  show ?case
  proof (cases "sn_identity before = i")
    case True
    with Cons.prems p have "sn_identity after = i" "chained i after ps s'" by auto
    then show ?thesis
      unfolding run using True small by (intro Cons.IH [OF next_small, of after]) (simp_all add: publish_token_lookup)
  next
    case False
    with Cons.prems p have "chained i s ps s'" by simp
    then show ?thesis
      unfolding run using False small Cons.prems(2,4) p
      by (intro Cons.IH [OF next_small Cons.prems(2)]) (auto simp: publish_token_lookup)
  qed
qed (auto simp: publish_all_def)

lemma foreign_change:
  assumes "length tokens + length ps \<le> 65536" "sn_identity s = i" "chained i s ps s'"
    and "list_ex (\<lambda>(before, after). sn_identity before = i) ps"
    and "sn_identity x = i" "(sn_changed x, sn_sequence x) \<noteq> (sn_changed s', sn_sequence s')"
  shows "normalized_token (publish_all ps tokens) x = (sn_changed x, sn_sequence x)"
  using observed_chain [OF assms(1-3)] assms(4-6) by (auto simp: normalized_token_def)

text \<open>The access locks.\<close>

definition access_ok :: "access \<Rightarrow> bool" where
  "access_ok s \<longleftrightarrow> (\<forall>h i m. ac_handles s h = Some (i, m) \<longrightarrow> ac_locks s i = Some m) \<and>
     (\<forall>i m. ac_locks s i = Some m \<longrightarrow> m < ac_fresh s) \<and>
     (\<forall>i j m. ac_locks s i = Some m \<longrightarrow> ac_locks s j = Some m \<longrightarrow> i = j) \<and>
     (\<forall>i m. ac_locks s i = Some m \<longrightarrow> expired s m \<longrightarrow> i \<in> set (ac_closing s))"

lemma expired_iff: "expired s m \<longleftrightarrow> (\<forall>h i. ac_handles s h \<noteq> Some (i, m))"
  by (force simp: expired_def ran_def)

lemma access_new_ok: "access_ok access_new"
  by (simp add: access_ok_def access_new_def)

lemma access_okI:
  assumes "\<And>h i m. ac_handles s h = Some (i, m) \<Longrightarrow> ac_locks s i = Some m"
    and "\<And>i m. ac_locks s i = Some m \<Longrightarrow> m < ac_fresh s"
    and "\<And>i j m. ac_locks s i = Some m \<Longrightarrow> ac_locks s j = Some m \<Longrightarrow> i = j"
    and "\<And>i m. ac_locks s i = Some m \<Longrightarrow> (\<And>h. ac_handles s h \<noteq> Some (i, m)) \<Longrightarrow> i \<in> set (ac_closing s)"
  shows "access_ok s"
  unfolding access_ok_def expired_iff using assms by blast

lemma access_okD:
  assumes "access_ok s"
  shows "ac_handles s h = Some (i, m) \<Longrightarrow> ac_locks s i = Some m"
    and "ac_locks s i = Some m \<Longrightarrow> m < ac_fresh s"
    and "ac_locks s i = Some m \<Longrightarrow> ac_locks s j = Some m \<Longrightarrow> i = j"
    and "ac_locks s i = Some m \<Longrightarrow> (\<And>h. ac_handles s h \<noteq> Some (i, m)) \<Longrightarrow> i \<in> set (ac_closing s)"
proof -
  show "i \<in> set (ac_closing s)" if "ac_locks s i = Some m" "\<And>h. ac_handles s h \<noteq> Some (i, m)"
  proof -
    have "expired s m" unfolding expired_iff using assms that unfolding access_ok_def by metis
    with assms that(1) show ?thesis unfolding access_ok_def by blast
  qed
qed (use assms in \<open>unfold access_ok_def, blast+\<close>)

lemma not_expired_handle:
  assumes "access_ok s" "ac_locks s i = Some m"
  shows "\<not> expired s m \<longleftrightarrow> (\<exists>h. ac_handles s h = Some (i, m))"
  unfolding expired_iff using access_okD(1,3) [OF assms(1)] assms(2) by metis

text \<open>A new mutex for an identity without a live handle.\<close>

lemma acquire_fresh:
  assumes ok: "access_ok s" and free: "ac_handles s h = None" and dead: "\<And>g m. ac_handles s g \<noteq> Some (identity, m)"
  shows "access_ok (s\<lparr>ac_locks := (ac_locks s)(identity \<mapsto> ac_fresh s),
    ac_handles := (ac_handles s)(h \<mapsto> (identity, ac_fresh s)), ac_fresh := ac_fresh s + 1\<rparr>)"
proof -
  have new: "ac_locks s i \<noteq> Some (ac_fresh s)" for i using access_okD(2) [OF ok] by blast
  show ?thesis
  proof (rule access_okI, goal_cases)
    case (1 g i m)
    then show ?case using access_okD(1) [OF ok] dead by (auto split: if_splits)
  next
    case (2 i m)
    then show ?case using access_okD(2) [OF ok, of i m] by (auto split: if_splits)
  next
    case (3 i j m)
    then show ?case using access_okD(3) [OF ok, of i m j] new by (auto split: if_splits)
  next
    case (4 i m)
    show ?case
    proof (cases "i = identity")
      case True
      with 4(1) 4(2) [of h] show ?thesis by simp
    next
      case False
      have "ac_handles s g \<noteq> Some (i, m)" for g using 4(2) [of g] free by (cases "g = h") simp_all
      with 4(1) False show ?thesis using access_okD(4) [OF ok, of i m] by simp
    qed
  qed
qed

lemma acquire_ok:
  assumes ok: "access_ok s" and free: "ac_handles s h = None"
  shows "access_ok (access_acquire h identity s)"
proof (cases "ac_locks s identity")
  case None
  then have "ac_handles s g \<noteq> Some (identity, m)" for g m using access_okD(1) [OF ok] by fastforce
  with acquire_fresh [OF ok free] None show ?thesis by (simp add: access_acquire_def)
next
  case (Some m)
  show ?thesis
  proof (cases "expired s m")
    case True
    then have "ac_handles s g \<noteq> Some (identity, n)" for g n
      using not_expired_handle [OF ok Some] access_okD(1) [OF ok, of g identity n] Some by auto
    with acquire_fresh [OF ok free] Some True show ?thesis by (simp add: access_acquire_def)
  next
    case False
    then obtain g where g: "ac_handles s g = Some (identity, m)" using not_expired_handle [OF ok Some] by blast
    have "access_ok (s\<lparr>ac_handles := (ac_handles s)(h \<mapsto> (identity, m))\<rparr>)"
    proof (rule access_okI, goal_cases)
      case (4 i n)
      have "ac_handles s g \<noteq> Some (i, n)" for g using 4(2) [of g] free by (cases "g = h") simp_all
      then show ?case using 4(1) access_okD(4) [OF ok, of i n] by simp
    qed (use access_okD(1,2,3) [OF ok] Some in \<open>auto split: if_splits\<close>)
    with False Some show ?thesis by (simp add: access_acquire_def)
  qed
qed

lemma reset_ok:
  assumes ok: "access_ok s"
  shows "access_ok (access_reset h s)"
proof (cases "ac_handles s h")
  case (Some p)
  obtain identity m where p: "p = (identity, m)" by fastforce
  have "access_ok (s\<lparr>ac_handles := (ac_handles s)(h := None), ac_closing := identity # ac_closing s\<rparr>)"
  proof (rule access_okI, goal_cases)
    case (4 i n)
    show ?case
    proof (cases "i = identity")
      case False
      have "ac_handles s g \<noteq> Some (i, n)" for g using 4(2) [of g] Some p False by (cases "g = h") simp_all
      with 4(1) show ?thesis using access_okD(4) [OF ok, of i n] by simp
    qed simp
  qed (use access_okD(1,2,3) [OF ok] in \<open>auto split: if_splits\<close>)
  with Some p show ?thesis by (simp add: access_reset_def)
qed (use ok in \<open>simp add: access_reset_def\<close>)

lemma erase_ok:
  assumes ok: "access_ok s"
  shows "access_ok (access_erase identity s)"
proof -
  let ?s = "s\<lparr>ac_closing := remove1 identity (ac_closing s)\<rparr>"
  have same: "expired ?s m = expired s m" for m by (simp add: expired_iff)
  have other: "i \<in> set (remove1 identity (ac_closing s))" if "i \<in> set (ac_closing s)" "i \<noteq> identity" for i
    using that by simp
  consider (gone) "ac_locks s identity = None" | (live) m where "ac_locks s identity = Some m" "\<not> expired s m"
    | (dead) m where "ac_locks s identity = Some m" "expired s m" by blast
  then show ?thesis
  proof cases
    case gone
    have "access_ok ?s"
      by (rule access_okI; simp) (use access_okD [OF ok] other gone in \<open>metis option.distinct(1)\<close>)+
    with gone show ?thesis by (simp add: access_erase_def)
  next
    case live
    have "access_ok ?s"
    proof (rule access_okI, goal_cases)
      case (4 i n)
      then show ?case
        using live not_expired_handle [OF ok live(1)] access_okD(4) [OF ok, of i n] other by (cases "i = identity") auto
    qed (use access_okD(1,2,3) [OF ok] in auto)
    with live show ?thesis by (simp add: access_erase_def same)
  next
    case dead
    have none: "ac_handles s g \<noteq> Some (identity, m)" for g m'
      using not_expired_handle [OF ok dead(1)] dead by blast
    have "access_ok (?s\<lparr>ac_locks := (ac_locks s)(identity := None)\<rparr>)"
    proof (rule access_okI, goal_cases)
      case (1 g i n)
      then show ?case using access_okD(1) [OF ok, of g i n] none dead(1) by auto
    next
      case (4 i n)
      then show ?case using access_okD(4) [OF ok, of i n] other by (auto split: if_splits)
    qed (use access_okD(2,3) [OF ok] in \<open>auto split: if_splits\<close>)
    with dead show ?thesis by (simp add: access_erase_def same)
  qed
qed

lemma access_step_ok: "access_step s s' \<Longrightarrow> access_ok s \<Longrightarrow> access_ok s'"
  by (induction rule: access_step.induct) (simp_all add: acquire_ok reset_ok erase_ok)

lemma access_reachable_ok: "access_step\<^sup>*\<^sup>* access_new s \<Longrightarrow> access_ok s"
  by (induction rule: rtranclp_induct) (auto intro: access_new_ok access_step_ok)

end
