(* ===== verification/Preview_Properties.thy ===== *)
theory Preview_Properties
  imports Preview_Wave_Laws Preview_Load Preview_Worker Preview_Registry Native_Sample
begin

text \<open>
  The properties of the file presentation, and concrete inputs at which they apply: a text file, a
  PNG preview of 24 bytes, a canvas in a project directory and two source handles.
\<close>

section \<open>Previews\<close>

lemma ascii_iterate: "iterate_laws (ascii_library known)"
  by (simp add: iterate_laws_def ascii_library_def)

text \<open>
  C29: What the provider itself makes of a file - the waveform of a wave file, else a card with
  its name, type, size and first lines - passes the check of portable previews, whatever the name
  and the content of the file are: it is a bounded SVG document without any element, attribute or
  reference beyond the provider's own, so no text of a file becomes markup, and publication of the
  fallback never fails at this check.
\<close>
theorem preview_cards_inert:
  assumes "iterate_laws L" "\<forall>x. level x \<le> 144" "\<forall>a b c. length (duration a b c) \<le> 400"
  shows "validate_preview (fst (provider_preview L duration level (details_for L p sz modified s) s)) False = Inr ()"
  by (rule provider_preview_valid) (use assms in auto)

theorem preview_cards_inert_witness:
  "validate_preview (fst (provider_preview (ascii_library []) (\<lambda>_ _ _. ''1.000000'') (\<lambda>_. 0)
     (details_for (ascii_library []) ''/media/<script>.txt'' 10 0 ''<a href=1>'') ''<a href=1>'')) False = Inr ()"
  by (rule preview_cards_inert) (simp_all add: ascii_iterate)






section \<open>Companions\<close>

text \<open>
  C30: The companion that publication writes is read back as the record it was made of, its
  details, preview, version and bytes, exactly for a source of the same name, size, time of
  modification, version and change token; for any other source it is not used.
\<close>
theorem companion_current:
  assumes "persist_document L stamp preview details = Inr r" "portable_document L r token = Inr p"
    and "text_sha256 (fp_bytes preview) = Inr checksum" "int64 (fd_modifiedAtNs details)"
    and "\<forall>j \<in> {document_json r checksum, set_member ''sourceChangeToken'' (JString token) (document_json r checksum)}.
      \<forall>s. nl_dump L j = Some s \<longrightarrow> nl_parse L s = Some j"
  shows "load_companion L real_int source attribute (pr_document p) =
    (if current_source r token source
     then Some (r\<lparr>pr_document := pr_document p, pr_embedded := embedded_same L real_int source attribute p, pr_cacheHit := True\<rparr>)
     else None)"
proof -
  have "p\<lparr>pr_embedded := b, pr_cacheHit := True\<rparr> = r\<lparr>pr_document := pr_document p, pr_embedded := b, pr_cacheHit := True\<rparr>" for b
    using assms(2) by (auto simp: portable_document_def rbind_Inr_iff split: if_splits)
  then show ?thesis using load_iff [OF assms(1,2,5,3,4), of real_int source attribute] by simp
qed

definition shown_png :: file_preview where
  "shown_png = \<lparr>fp_mimeType = ''image/png'', fp_kind = ''image'',
     fp_bytes = png_signature @ ''....IHDR'' @ map char_of [0 :: nat, 0, 0, 2, 0, 0, 0, 1], fp_width = 2, fp_height = 1\<rparr>"

definition shown_details :: file_details where
  "shown_details = \<lparr>fd_name = ''a.png'', fd_extension = ''.png'', fd_mimeType = ''image/png'', fd_size = 24,
     fd_modifiedAtNs = 7, fd_properties = [(''author'', ''x'')]\<rparr>"

definition shown_record :: "string \<Rightarrow> string \<Rightarrow> presentation_record" where
  "shown_record stamp document = \<lparr>pr_details = shown_details, pr_preview = shown_png, pr_sourceVersion = stamp,
     pr_document = document, pr_embedded = False, pr_cacheHit = False\<rparr>"

lemma shown_png_valid: "validate_preview shown_png False = Inr ()"
  by (simp add: validate_preview_def shown_png_def png_signature_def part_at_def big_endian_def maximum_document_bytes_def)

lemma digest_exists: "length s < 100 \<Longrightarrow> \<exists>h. text_sha256 s = Inr h \<and> length h = 64"
proof -
  assume "length s < 100"
  then have "length (bytes_of s) \<le> sha_limit" by (simp add: bytes_of_def sha_limit_def)
  then obtain h where "sha256_update sha256_init (bytes_of s) = Inr h"
    using sha256_update_accepts [OF sha256_represents_init] by fastforce
  then show ?thesis using hexDigest_shape [of h] by (auto simp: text_sha256_def sha256_def)
qed

definition shown_checksum :: string where
  "shown_checksum = (case text_sha256 (fp_bytes shown_png) of Inr h \<Rightarrow> h | Inl _ \<Rightarrow> [])"

lemma shown_checksum_facts: "text_sha256 (fp_bytes shown_png) = Inr shown_checksum" "length shown_checksum = 64"
proof -
  have "length (fp_bytes shown_png) < 100" by (simp add: shown_png_def png_signature_def)
  then obtain h where "text_sha256 (fp_bytes shown_png) = Inr h" "length h = 64" using digest_exists by blast
  then show "text_sha256 (fp_bytes shown_png) = Inr shown_checksum" "length shown_checksum = 64"
    by (simp_all add: shown_checksum_def)
qed

definition shown_document :: json where
  "shown_document = document_json (shown_record ''1:s'' []) shown_checksum"

definition shown_portable :: json where
  "shown_portable = set_member ''sourceChangeToken'' (JString ''t'') shown_document"

definition shown_library :: native_library where
  "shown_library = ascii_library [shown_portable, shown_document]"

lemma shown_base64: "length (base64 (fp_bytes shown_png)) = 32"
  by (simp add: length_base64) (simp add: shown_png_def png_signature_def)

lemma shown_sizes:
  "length (compact shown_document) < length (compact shown_portable)"
  "length (compact shown_portable) \<le> 5000"
proof -
  have "length (quote shown_checksum) \<le> 400" "length (quote (base64 (fp_bytes shown_png))) \<le> 400"
    using length_quote [of shown_checksum] length_quote [of "base64 (fp_bytes shown_png)"] shown_checksum_facts shown_base64 by simp_all
  note bounds = this
  show "length (compact shown_document) < length (compact shown_portable)"
    by (simp add: shown_portable_def shown_document_def document_json_def)
  show "length (compact shown_portable) \<le> 5000"
    using bounds
    by (simp add: shown_portable_def shown_document_def document_json_def shown_record_def shown_details_def)
      (simp add: shown_png_def quote_def quote_char_def int_to_string_def nat_to_string.simps)
qed

lemma shown_laws:
  "\<forall>j \<in> {shown_document, shown_portable}. \<forall>s. nl_dump shown_library j = Some s \<longrightarrow> nl_parse shown_library s = Some j"
  using shown_sizes(1) by (auto simp: shown_library_def ascii_library_def)

lemma shown_persist:
  "persist_document shown_library ''1:s'' shown_png shown_details = Inr (shown_record ''1:s'' (compact shown_document))"
proof -
  have "serialize_record shown_library (shown_record ''1:s'' []) = Some (compact shown_document)"
    using shown_checksum_facts(1) by (simp add: serialize_record_def shown_record_def shown_document_def shown_library_def ascii_dump)
  moreover have "length (compact shown_document) \<le> maximum_document_bytes"
    using shown_sizes by (simp add: maximum_document_bytes_def)
  ultimately show ?thesis
    by (simp add: persist_document_def shown_png_valid shown_record_def of_option_def Let_def)
qed

lemma shown_portable_made:
  "portable_document shown_library (shown_record ''1:s'' (compact shown_document)) ''t'' =
     Inr (shown_record ''1:s'' (compact shown_portable))"
proof -
  have "nl_parse shown_library (compact shown_document) = Some shown_document"
    using shown_laws by (simp add: shown_library_def ascii_dump)
  moreover have "length (compact shown_portable) \<le> maximum_document_bytes"
    using shown_sizes by (simp add: maximum_document_bytes_def)
  ultimately show ?thesis
    by (simp add: portable_document_def shown_record_def of_option_def shown_portable_def [symmetric])
      (simp add: shown_library_def ascii_dump)
qed

definition shown_source :: "string \<Rightarrow> source_state" where
  "shown_source token = \<lparr>so_name = ''a.png'', so_size = 24, so_modified = 7, so_version = ''1:s'', so_token = token\<rparr>"

theorem companion_current_witness:
  "load_companion shown_library (\<lambda>_. 0) (shown_source ''t'') None (compact shown_portable) =
     Some (shown_record ''1:s'' (compact shown_portable)\<lparr>pr_cacheHit := True\<rparr>) \<and>
   load_companion shown_library (\<lambda>_. 0) (shown_source ''u'') None (compact shown_portable) = None"
proof -
  have range: "int64 (fd_modifiedAtNs shown_details)" by (simp add: int64_def shown_details_def)
  have document: "document_json (shown_record ''1:s'' (compact shown_document)) shown_checksum = shown_document"
    by (simp add: shown_document_def document_json_def shown_record_def)
  have "load_companion shown_library (\<lambda>_. 0) (shown_source token) None (compact shown_portable) =
      (if current_source (shown_record ''1:s'' (compact shown_document)) ''t'' (shown_source token)
       then Some (shown_record ''1:s'' (compact shown_portable)\<lparr>pr_cacheHit := True\<rparr>) else None)" for token
    using companion_current [OF shown_persist shown_portable_made shown_checksum_facts(1) range, of "\<lambda>_. 0" "shown_source token" None]
      shown_laws
    unfolding document shown_portable_def [symmetric]
    by (simp add: embedded_same_def shown_record_def)
  then show ?thesis by (simp add: current_source_def shown_source_def shown_record_def shown_details_def)
qed

section \<open>The worker\<close>

text \<open>
  C32: Whatever callers and the worker thread do, the intake queue never holds more than 4096
  files, no file waits in it twice, and no accepted file is lost or reordered: leaving aside the files
  below a cancelled root, the files handed to the decoder and then those still queued are the accepted
  ones in their order, and when the thread has returned all of them were handed over.
\<close>
theorem intake_nothing_lost:
  assumes "intake_run intake_new a t c s"
  shows "kept_of c (t @ in_queue s) = kept_of c a \<and> distinct (in_queue s) \<and> length (in_queue s) \<le> 4096 \<and>
    length (in_watches s) \<le> 128 \<and> (in_thread s = Returned \<longrightarrow> kept_of c t = kept_of c a)"
proof -
  have ok: "intake_ok s" by (rule run_ok [OF assms intake_new_ok])
  have kept: "kept_of c (t @ in_queue s) = kept_of c a" by (rule run_queue [OF assms]) (simp add: intake_new_def)
  have "in_queue s = []" if "in_thread s = Returned" using ok that by (auto simp: intake_ok_def)
  with ok kept show ?thesis by (auto simp: intake_ok_def)
qed

lemma intake_run_add: "intake_run s0 a t c s \<Longrightarrow> intake_apply (Add p) s = Some s' \<Longrightarrow>
    accepted (Add p) s = [p] \<Longrightarrow> intake_run s0 (a @ [p]) t c s'"
  using intake_run.event [of s0 a t c s "Add p" s'] by simp

lemma intake_run_take: "intake_run s0 a t c s \<Longrightarrow> intake_apply Take s = Some s' \<Longrightarrow>
    taken Take s = [p] \<Longrightarrow> intake_run s0 a (t @ [p]) c s'"
  using intake_run.event [of s0 a t c s Take s'] by simp

theorem intake_nothing_lost_witness:
  "\<exists>s. intake_run intake_new [''/p/a'', ''/p/b''] [''/p/a''] [] s \<and> kept_of [] ([''/p/a''] @ in_queue s) = kept_of [] [''/p/a'', ''/p/b'']"
proof -
  obtain s where s: "intake_run intake_new [''/p/a'', ''/p/b''] [''/p/a''] [] s"
  proof -
    have "intake_run intake_new ([] @ [''/p/a'']) [] [] (the (intake_add ''/p/a'' intake_new))"
      by (rule intake_run_add [OF intake_run.start]) (simp_all add: intake_add_def intake_new_def intake_start_def)
    from intake_run_add [OF this, of "''/p/b''"] have
      "intake_run intake_new [''/p/a'', ''/p/b''] [] [] (the (intake_add ''/p/b'' (the (intake_add ''/p/a'' intake_new))))"
      by (simp add: intake_add_def intake_new_def intake_start_def)
    from intake_run_take [OF this, of _ "''/p/a''"] show thesis
      by (rule_tac that) (simp_all add: intake_add_def intake_new_def intake_start_def intake_take_def worker_free_def)
  qed
  with intake_nothing_lost [OF s] show ?thesis by blast
qed




section \<open>Shared tables\<close>




text \<open>
  C35: The registry of source access gives the handles of a source one mutex and the handles of
  different sources different ones, in every interleaving of construction and destruction of handles,
  and once all destructors have run it is empty.
\<close>
theorem source_access_exclusive:
  assumes "access_step\<^sup>*\<^sup>* access_new s"
  shows "(ac_handles s h = Some (i, m) \<and> ac_handles s h' = Some (i', m') \<longrightarrow> (m = m') = (i = i')) \<and>
    (ac_handles s = Map.empty \<and> ac_closing s = [] \<longrightarrow> ac_locks s = Map.empty)"
proof (intro conjI impI)
  have ok: "access_ok s" by (rule access_reachable_ok [OF assms])
  show "(m = m') = (i = i')" if "ac_handles s h = Some (i, m) \<and> ac_handles s h' = Some (i', m')"
    using access_okD(1) [OF ok, of h i m] access_okD(1) [OF ok, of h' i' m'] access_okD(3) [OF ok, of i m i'] that by auto
  show "ac_locks s = Map.empty" if "ac_handles s = Map.empty \<and> ac_closing s = []"
  proof
    fix i
    show "ac_locks s i = None" using access_okD(4) [OF ok, of i] that by (cases "ac_locks s i") auto
  qed
qed

theorem source_access_exclusive_witness:
  "ac_handles (access_acquire 1 ''a'' (access_acquire 0 ''a'' access_new)) 0 =
   ac_handles (access_acquire 1 ''a'' (access_acquire 0 ''a'' access_new)) 1"
proof -
  let ?s = "access_acquire 1 ''a'' (access_acquire 0 ''a'' access_new)"
  have step: "access_step access_new (access_acquire 0 ''a'' access_new)" "access_step (access_acquire 0 ''a'' access_new) ?s"
    by (rule access_step.acquire, simp add: access_new_def access_acquire_def)+
  have run: "access_step\<^sup>*\<^sup>* access_new ?s"
    using step rtranclp.rtrancl_refl [where r = access_step and a = access_new]
      rtranclp.rtrancl_into_rtrancl [where r = access_step and a = access_new] by blast
  have first: "access_acquire 0 ''a'' access_new = \<lparr>ac_locks = [''a'' \<mapsto> 0], ac_handles = [0 \<mapsto> (''a'', 0)], ac_closing = [], ac_fresh = 1\<rparr>"
    by (simp add: access_acquire_def access_new_def)
  have "ac_handles ?s 0 = Some (''a'', 0)" and "\<exists>m. ac_handles ?s 1 = Some (''a'', m)"
    unfolding first by (auto simp: access_acquire_def)
  then obtain m where "ac_handles ?s 0 = Some (''a'', 0)" "ac_handles ?s 1 = Some (''a'', m)" by blast
  with source_access_exclusive [OF run, of 0 "''a''" 0 1 "''a''" m] show ?thesis by simp
qed

end
