(* ===== verification/Source_Capture.thy ===== *)
theory Source_Capture
  imports Batch_Read Native_Path Object_Hash Object_Format
begin

text \<open>
  \<open>ObjectSource\<close> of \<open>src/Objects/ObjectSource.cpp\<close> (the POSIX branch): \<open>inspect\<close> and the constructor that copies a
  source into a private snapshot, and the worker of \<open>ObjectSnapshotBatch\<close> around them.  Each of
  them is a machine that makes one system call in a step, so that the threads of a batch and
  other programs can act in between.  A handle is an open file description; its number is not
  modelled, so no two of them are ever the same.
\<close>

section \<open>The identity of a source\<close>

record file_stat =
  st_regular :: bool
  st_size :: int
  st_dev :: int
  st_ino :: int
  st_mtime :: "int \<times> int"
  st_ctime :: "int \<times> int"

definition colon_number :: "int \<Rightarrow> string" where
  "colon_number n = '':'' @ int_to_string n"

text \<open>The pieces in the order in which \<open>statIdentity\<close> feeds them to the hasher.\<close>

definition stat_pieces :: "file_stat \<Rightarrow> path \<Rightarrow> string list" where
  "stat_pieces st p =
     [p, colon_number (st_dev st) @ colon_number (st_ino st) @ colon_number (st_size st),
      colon_number (fst (st_mtime st)) @ colon_number (snd (st_mtime st)) @
        colon_number (fst (st_ctime st)) @ colon_number (snd (st_ctime st))]"

definition hash_texts :: "string list \<Rightarrow> (string, string) result" where
  "hash_texts fed =
     (case foldM (\<lambda>xs h. ObjectHash_update h xs) (map bytes_of fed) ObjectHash_init of
        Inl _ \<Rightarrow> Inl ''length_error''
      | Inr h \<Rightarrow> Inr (ObjectHash_finish h))"

definition stat_identity :: "file_stat \<Rightarrow> path \<Rightarrow> (string, source_identity) result" where
  "stat_identity st p =
     (if \<not> st_regular st \<or> st_size st < 0 then Inl ''invalid object source handle''
      else rbind (hash_texts (stat_pieces st p)) (\<lambda>stamp.
        Inr \<lparr>si_stamp = stamp, si_size = word_of_int (st_size st)\<rparr>))"

section \<open>System calls\<close>

type_synonym handle = nat

datatype 'a transfer = Interrupted | Broken | Transferred 'a

record 'w source_calls =
  sc_absolute :: "path \<Rightarrow> (string, path) result"           \<comment> \<open>the working directory is fixed\<close>
  sc_canonical :: "path \<Rightarrow> 'w \<Rightarrow> (string, path) result"
  sc_root :: "'w \<Rightarrow> handle option \<times> 'w"
  sc_openat :: "bool \<Rightarrow> handle \<Rightarrow> string \<Rightarrow> 'w \<Rightarrow> handle option \<times> 'w"  \<comment> \<open>with \<open>O_DIRECTORY\<close> or \<open>O_NONBLOCK\<close>; never follows a link\<close>
  sc_close :: "handle \<Rightarrow> 'w \<Rightarrow> 'w"
  sc_fstatat :: "handle \<Rightarrow> string \<Rightarrow> 'w \<Rightarrow> file_stat option"
  sc_fstat :: "handle \<Rightarrow> 'w \<Rightarrow> file_stat option"
  sc_stop :: "'w \<Rightarrow> bool"
  sc_is_directory :: "path \<Rightarrow> 'w \<Rightarrow> (string, bool) result"
  sc_lease :: "path \<Rightarrow> 'w \<Rightarrow> string option \<times> 'w"           \<comment> \<open>\<open>TemporaryLease\<close>, shared\<close>
  sc_unlease :: "path \<Rightarrow> 'w \<Rightarrow> 'w"
  sc_tick :: "'w \<Rightarrow> (int \<times> nat) \<times> 'w"                      \<comment> \<open>the steady clock and the counter\<close>
  sc_mkdir :: "path \<Rightarrow> 'w \<Rightarrow> (string, bool) result \<times> 'w"
  sc_chmod :: "path \<Rightarrow> 'w \<Rightarrow> string option \<times> 'w"
  sc_create :: "path \<Rightarrow> 'w \<Rightarrow> handle option \<times> 'w"          \<comment> \<open>\<open>O_CREAT | O_EXCL\<close>\<close>
  sc_read :: "handle \<Rightarrow> nat \<Rightarrow> nat \<Rightarrow> 'w \<Rightarrow> byte list transfer \<times> 'w"  \<comment> \<open>offset, length\<close>
  sc_write :: "handle \<Rightarrow> byte list \<Rightarrow> 'w \<Rightarrow> nat transfer \<times> 'w"
  sc_file_size :: "path \<Rightarrow> 'w \<Rightarrow> (string, nat) result"
  sc_remove :: "path \<Rightarrow> 'w \<Rightarrow> 'w"

text \<open>What a machine does in one step: it goes on, throws, or gives a value.\<close>

type_synonym ('b, 'v) progress = "'b + (string, 'v) result"

abbreviation go_on :: "'b \<Rightarrow> ('b, 'v) progress" where "go_on b \<equiv> Inl b"
abbreviation throw :: "string \<Rightarrow> ('b, 'v) progress" where "throw e \<equiv> Inr (Inl e)"
abbreviation give :: "'v \<Rightarrow> ('b, 'v) progress" where "give v \<equiv> Inr (Inr v)"

section \<open>\<open>direct\<close>, \<open>openDirect\<close> and \<open>inspect\<close>\<close>

definition direct :: "'w source_calls \<Rightarrow> path \<Rightarrow> 'w \<Rightarrow> (string, path) result" where
  "direct S p w = rbind (sc_absolute S p) (\<lambda>a.
     let a = lexically_normal a
     in rbind (sc_canonical S a w) (\<lambda>c. if c \<noteq> a then Inl ''redirected object source'' else Inr a))"

datatype descent = At_Root | At handle "string list"

definition parent_parts :: "path \<Rightarrow> string list" where
  "parent_parts p = (let d = parent_path p in if d = [] \<or> d = ''/'' then [] else split_on CHR ''/'' (tl d))"

fun descend_step :: "'w source_calls \<Rightarrow> bool \<Rightarrow> path \<Rightarrow> descent \<Rightarrow> 'w \<Rightarrow> (descent, handle) progress \<times> 'w" where
  "descend_step S directory p At_Root w =
     (case sc_root S w of
        (None, w) \<Rightarrow> (throw ''cannot open source root'', w)
      | (Some h, w) \<Rightarrow> (if p = ''/'' then give h else go_on (At h (parent_parts p)), w))"
| "descend_step S directory p (At h (part # parts)) w =
     (case sc_openat S True h part w of
        (None, w) \<Rightarrow> (throw ''redirected or unavailable source ancestor'', sc_close S h w)
      | (Some n, w) \<Rightarrow> (go_on (At n parts), sc_close S h w))"
| "descend_step S directory p (At h []) w =
     (case sc_openat S directory h (path_filename p) w of
        (None, w) \<Rightarrow> (throw ''cannot open direct object source'', sc_close S h w)
      | (Some n, w) \<Rightarrow> (give n, sc_close S h w))"

datatype inspection = Locating path | Reaching path descent | Looking path handle

fun inspect_step :: "'w source_calls \<Rightarrow> inspection \<Rightarrow> 'w \<Rightarrow> (inspection, source_identity) progress \<times> 'w" where
  "inspect_step S (Locating p) w =
     (case direct S p w of Inl e \<Rightarrow> (throw e, w) | Inr a \<Rightarrow> (go_on (Reaching a At_Root), w))"
| "inspect_step S (Reaching a d) w =
     (case descend_step S True (parent_path a) d w of
        (Inl d, w) \<Rightarrow> (go_on (Reaching a d), w)
      | (Inr (Inl e), w) \<Rightarrow> (throw e, w)
      | (Inr (Inr h), w) \<Rightarrow> (go_on (Looking a h), w))"
| "inspect_step S (Looking a h) w =
     (case sc_fstatat S h (path_filename a) w of
        None \<Rightarrow> (throw ''cannot inspect object source metadata'', sc_close S h w)
      | Some st \<Rightarrow> (Inr (stat_identity st a), sc_close S h w))"

section \<open>The constructor\<close>

record snapshot =
  sn_identity :: source_identity
  sn_staging :: path
  sn_directory :: path
  sn_file :: path
  sn_bytes :: "byte list"     \<comment> \<open>what the calls have written to the payload\<close>

text \<open>\<open>~ObjectSource\<close>: the payload, its directory, the lease.\<close>

definition snapshot_release :: "'w source_calls \<Rightarrow> snapshot \<Rightarrow> 'w \<Rightarrow> 'w" where
  "snapshot_release S v w = sc_unlease S (sn_staging v) (sc_remove S (sn_directory v) (sc_remove S (sn_file v) w))"

text \<open>What the constructor holds once it has opened the source.\<close>

record capturing =
  cg_source :: path
  cg_staging :: path
  cg_handle :: handle
  cg_identity :: source_identity
  cg_leased :: bool
  cg_directory :: path
  cg_file :: path
  cg_output :: "handle option"

text \<open>The unwinding: the local handles, then \<open>~Impl\<close>, then its members.\<close>

definition capture_unwind :: "'w source_calls \<Rightarrow> capturing \<Rightarrow> 'w \<Rightarrow> 'w" where
  "capture_unwind S c w =
     (let w = (case cg_output c of None \<Rightarrow> w | Some h \<Rightarrow> sc_close S h w);
          w = sc_close S (cg_handle c) w;
          w = (if cg_file c \<noteq> [] then sc_remove S (cg_file c) w else w);
          w = (if cg_directory c \<noteq> [] then sc_remove S (cg_directory c) w else w)
      in if cg_leased c then sc_unlease S (cg_staging c) w else w)"

datatype capture_phase =
    Polling_Start
  | Locating_Source
  | Locating_Staging path
  | Checking_Staging path path
  | Reaching_Source path path descent
  | Identifying path path handle
  | Leasing capturing
  | Naming capturing nat                       \<comment> \<open>attempts made\<close>
  | Protecting capturing
  | Creating capturing
  | Looping capturing "byte list"              \<comment> \<open>copied so far: the poll of the loop\<close>
  | Getting capturing "byte list"
  | Putting capturing "byte list" "byte list"  \<comment> \<open>and what is left of the buffer\<close>
  | Sealing capturing "byte list"
  | Polling_End capturing "byte list"
  | Confirming capturing "byte list"
  | Inspecting_Again capturing "byte list" inspection
  | Measuring capturing "byte list"

definition capture_fail :: "'w source_calls \<Rightarrow> capturing \<Rightarrow> string \<Rightarrow> 'w \<Rightarrow> (capture_phase, snapshot) progress \<times> 'w" where
  "capture_fail S c e w = (throw e, capture_unwind S c w)"

definition capture_cancelled :: string where "capture_cancelled = ''object snapshot cancelled''"

definition capture_changed :: string where "capture_changed = ''source changed while capturing object snapshot''"

definition stale_inventory :: string where "stale_inventory = ''source changed before snapshot; rescan required''"

definition copy_buffer :: "capturing \<Rightarrow> nat" where
  "copy_buffer c = min (max (unat (si_size (cg_identity c))) 1) (1024 * 1024)"

definition snapshot_of :: "capturing \<Rightarrow> byte list \<Rightarrow> snapshot" where
  "snapshot_of c got = \<lparr>sn_identity = cg_identity c, sn_staging = cg_staging c, sn_directory = cg_directory c,
     sn_file = cg_file c, sn_bytes = got\<rparr>"

definition snapshot_name :: "int \<Rightarrow> nat \<Rightarrow> string" where
  "snapshot_name clock counter = ''snapshot-'' @ int_to_string clock @ ''-'' @ nat_to_string counter"

fun capture_step ::
    "'w source_calls \<Rightarrow> path \<Rightarrow> path \<Rightarrow> source_identity option \<Rightarrow> capture_phase \<Rightarrow> 'w \<Rightarrow>
     (capture_phase, snapshot) progress \<times> 'w" where
  "capture_step S input staging expected Polling_Start w =
     (if sc_stop S w then throw capture_cancelled else go_on Locating_Source, w)"
| "capture_step S input staging expected Locating_Source w =
     (case direct S input w of Inl e \<Rightarrow> (throw e, w) | Inr source \<Rightarrow> (go_on (Locating_Staging source), w))"
| "capture_step S input staging expected (Locating_Staging source) w =
     (case direct S staging w of Inl e \<Rightarrow> (throw e, w) | Inr parent \<Rightarrow> (go_on (Checking_Staging source parent), w))"
| "capture_step S input staging expected (Checking_Staging source parent) w =
     (case sc_is_directory S parent w of
        Inl e \<Rightarrow> (throw e, w)
      | Inr ok \<Rightarrow> (if ok then go_on (Reaching_Source source parent At_Root) else throw ''invalid snapshot staging directory'', w))"
| "capture_step S input staging expected (Reaching_Source source parent d) w =
     (case descend_step S False source d w of
        (Inl d, w) \<Rightarrow> (go_on (Reaching_Source source parent d), w)
      | (Inr (Inl e), w) \<Rightarrow> (throw e, w)
      | (Inr (Inr h), w) \<Rightarrow> (go_on (Identifying source parent h), w))"
| "capture_step S input staging expected (Identifying source parent h) w =
     (case sc_fstat S h w of
        None \<Rightarrow> (throw ''cannot inspect object source handle'', sc_close S h w)
      | Some st \<Rightarrow> (case stat_identity st source of
          Inl e \<Rightarrow> (throw e, sc_close S h w)
        | Inr identity \<Rightarrow>
            if expected \<noteq> None \<and> expected \<noteq> Some identity then (throw stale_inventory, sc_close S h w)
            else (go_on (Leasing \<lparr>cg_source = source, cg_staging = parent, cg_handle = h, cg_identity = identity,
                    cg_leased = False, cg_directory = [], cg_file = [], cg_output = None\<rparr>), w)))"
| "capture_step S input staging expected (Leasing c) w =
     (case sc_lease S (cg_staging c) w of
        (Some e, w) \<Rightarrow> capture_fail S c e w
      | (None, w) \<Rightarrow> (go_on (Naming (c\<lparr>cg_leased := True\<rparr>) 0), w))"
| "capture_step S input staging expected (Naming c attempt) w =
     (if 64 \<le> attempt then capture_fail S c ''cannot create unique snapshot directory'' w
      else case sc_tick S w of ((clock, counter), w) \<Rightarrow>
        let candidate = path_append (cg_staging c) (snapshot_name clock counter)
        in case sc_mkdir S candidate w of
             (Inl e, w) \<Rightarrow> capture_fail S c e w
           | (Inr made, w) \<Rightarrow>
               (go_on (if made then Protecting (c\<lparr>cg_directory := candidate\<rparr>) else Naming c (attempt + 1)), w))"
| "capture_step S input staging expected (Protecting c) w =
     (case sc_chmod S (cg_directory c) w of
        (Some e, w) \<Rightarrow> capture_fail S c e w
      | (None, w) \<Rightarrow> (go_on (Creating (c\<lparr>cg_file := path_append (cg_directory c) ''payload''\<rparr>)), w))"
| "capture_step S input staging expected (Creating c) w =
     (case sc_create S (cg_file c) w of
        (None, w) \<Rightarrow> capture_fail S c ''cannot create snapshot payload'' w
      | (Some h, w) \<Rightarrow> (go_on (Looping (c\<lparr>cg_output := Some h\<rparr>) []), w))"
| "capture_step S input staging expected (Looping c got) w =
     (if sc_stop S w then capture_fail S c capture_cancelled w else (go_on (Getting c got), w))"
| "capture_step S input staging expected (Getting c got) w =
     (case sc_read S (cg_handle c) (length got) (copy_buffer c) w of
        (Interrupted, w) \<Rightarrow> (go_on (Looping c got), w)
      | (Broken, w) \<Rightarrow> capture_fail S c ''cannot read snapshot source'' w
      | (Transferred bytes, w) \<Rightarrow>
          if bytes = [] then (go_on (Sealing c got), w)
          else if unat (si_size (cg_identity c)) - length got < length bytes
            then capture_fail S c ''source grew while capturing object snapshot'' w
          else (go_on (Putting c got bytes), w))"
| "capture_step S input staging expected (Putting c got rest) w =
     (case sc_write S (the (cg_output c)) rest w of
        (Interrupted, w) \<Rightarrow> (go_on (Putting c got rest), w)
      | (Broken, w) \<Rightarrow> capture_fail S c ''cannot write source snapshot'' w
      | (Transferred n, w) \<Rightarrow>
          if n = 0 then capture_fail S c ''cannot write source snapshot'' w
          else if n < length rest then (go_on (Putting c (got @ take n rest) (drop n rest)), w)
          else (go_on (Looping c (got @ rest)), w))"
| "capture_step S input staging expected (Sealing c got) w =
     (let w = sc_close S (the (cg_output c)) w; c = c\<lparr>cg_output := None\<rparr>
      in case sc_chmod S (cg_file c) w of
           (Some e, w) \<Rightarrow> capture_fail S c e w
         | (None, w) \<Rightarrow> (go_on (Polling_End c got), w))"
| "capture_step S input staging expected (Polling_End c got) w =
     (if sc_stop S w then capture_fail S c capture_cancelled w else (go_on (Confirming c got), w))"
| "capture_step S input staging expected (Confirming c got) w =
     (case sc_fstat S (cg_handle c) w of
        None \<Rightarrow> capture_fail S c ''cannot inspect object source handle'' w
      | Some st \<Rightarrow> (case stat_identity st (cg_source c) of
          Inl e \<Rightarrow> capture_fail S c e w
        | Inr identity \<Rightarrow>
            if identity \<noteq> cg_identity c then capture_fail S c capture_changed w
            else (go_on (Inspecting_Again c got (Locating (cg_source c))), w)))"
| "capture_step S input staging expected (Inspecting_Again c got i) w =
     (case inspect_step S i w of
        (Inl i, w) \<Rightarrow> (go_on (Inspecting_Again c got i), w)
      | (Inr (Inl e), w) \<Rightarrow> capture_fail S c e w
      | (Inr (Inr identity), w) \<Rightarrow>
          if identity \<noteq> cg_identity c then capture_fail S c capture_changed w
          else (go_on (Measuring c got), w))"
| "capture_step S input staging expected (Measuring c got) w =
     (case sc_file_size S (cg_file c) w of
        Inl e \<Rightarrow> capture_fail S c e w
      | Inr n \<Rightarrow>
          if n \<noteq> unat (si_size (cg_identity c)) then capture_fail S c capture_changed w
          else (give (snapshot_of c got), sc_close S (cg_handle c) w))"

section \<open>The worker of a batch\<close>

record snapshot_request =
  rq_source :: path
  rq_identity :: source_identity

datatype snapshot_phase = Polling_Batch | Inspecting_First inspection | Capturing capture_phase

fun snapshot_step ::
    "'w source_calls \<Rightarrow> path \<Rightarrow> snapshot_request list \<Rightarrow> nat \<Rightarrow> snapshot_phase \<Rightarrow> 'w \<Rightarrow>
     (snapshot_phase, snapshot) progress \<times> 'w" where
  "snapshot_step S staging requests i Polling_Batch w =
     (if sc_stop S w then throw capture_cancelled else go_on (Inspecting_First (Locating (rq_source (requests ! i)))), w)"
| "snapshot_step S staging requests i (Inspecting_First b) w =
     (case inspect_step S b w of
        (Inl b, w) \<Rightarrow> (go_on (Inspecting_First b), w)
      | (Inr (Inl e), w) \<Rightarrow> (throw e, w)
      | (Inr (Inr identity), w) \<Rightarrow>
          (if identity \<noteq> rq_identity (requests ! i) then throw stale_inventory else go_on (Capturing Polling_Start), w))"
| "snapshot_step S staging requests i (Capturing b) w =
     (case capture_step S (rq_source (requests ! i)) staging (Some (rq_identity (requests ! i))) b w of
        (Inl b, w) \<Rightarrow> (go_on (Capturing b), w)
      | (Inr (Inl e), w) \<Rightarrow> (throw e, w)
      | (Inr (Inr v), w) \<Rightarrow>
          if sn_identity v \<noteq> rq_identity (requests ! i) then (throw stale_inventory, snapshot_release S v w)
          else (give v, w))"

definition snapshot_task ::
    "'w source_calls \<Rightarrow> path \<Rightarrow> snapshot_request list \<Rightarrow> (snapshot_phase, snapshot, 'w) task" where
  "snapshot_task S staging requests = \<lparr>t_start = (\<lambda>_. Polling_Batch), t_step = snapshot_step S staging requests\<rparr>"

text \<open>The constructor of \<open>ObjectSnapshotBatch\<close> up to the start of its threads.\<close>

fun requests_fit :: "u64 \<Rightarrow> snapshot_request list \<Rightarrow> bool" where
  "requests_fit remaining [] = True"
| "requests_fit remaining (r # rs) =
     (\<not> remaining < si_size (rq_identity r) \<and> requests_fit (remaining - si_size (rq_identity r)) rs)"

definition snapshots_start ::
    "'w source_calls \<Rightarrow> snapshot_request list \<Rightarrow> nat \<Rightarrow> nat \<Rightarrow> 'w \<Rightarrow> (string, (snapshot_phase, snapshot) pool) result" where
  "snapshots_start S requests hardware concurrency w =
     (if requests = [] \<or> maximum_batch_files < length requests then Inl ''invalid snapshot batch count''
      else if sc_stop S w then Inl capture_cancelled
      else if \<not> requests_fit maximum_batch_bytes requests then Inl ''snapshot batch exceeds 16 MiB''
      else Inr (pool_new (length requests) (thread_count hardware concurrency (length requests))))"

text \<open>Its end after the join: \<open>clear\<close> releases whatever was captured when it throws.\<close>

fun snapshots_clear :: "'w source_calls \<Rightarrow> snapshot option list \<Rightarrow> 'w \<Rightarrow> 'w" where
  "snapshots_clear S [] w = w"
| "snapshots_clear S (None # slots) w = snapshots_clear S slots w"
| "snapshots_clear S (Some v # slots) w = snapshots_clear S slots (snapshot_release S v w)"

definition snapshots_end ::
    "'w source_calls \<Rightarrow> (snapshot_phase, snapshot) pool \<Rightarrow> 'w \<Rightarrow> (string, snapshot list) result \<times> 'w" where
  "snapshots_end S p w = (case pool_result p of
     Inl e \<Rightarrow> (Inl e, snapshots_clear S (pl_slots p) w)
   | Inr vs \<Rightarrow> if sc_stop S w then (Inl capture_cancelled, snapshots_clear S (pl_slots p) w) else (Inr vs, w))"

end
