(* ===== verification/Source_Laws.thy ===== *)
theory Source_Laws
  imports Source_Capture
begin

text \<open>
  What a captured snapshot holds.  The stamp commits to the path and the fields of the status; a status that
  is the same before and after a copy means that the file did not change in between, which is
  what the code relies on of the system (\<open>source_laws\<close>).
\<close>

section \<open>The stamp\<close>

definition stat_fields :: "file_stat \<Rightarrow> int \<times> int \<times> int \<times> (int \<times> int) \<times> int \<times> int" where
  "stat_fields st = (st_dev st, st_ino st, st_size st, st_mtime st, st_ctime st)"

definition stat_text :: "file_stat \<Rightarrow> path \<Rightarrow> byte list" where
  "stat_text st p = bytes_of (concat (stat_pieces st p))"

definition stamp_collision :: "file_stat \<Rightarrow> path \<Rightarrow> file_stat \<Rightarrow> path \<Rightarrow> bool" where
  "stamp_collision st p st' p' \<longleftrightarrow>
     stat_text st p \<noteq> stat_text st' p' \<and> ObjectHash_digest (stat_text st p) = ObjectHash_digest (stat_text st' p')"

lemma colon_fields_unique:
  assumes "a @ '':'' @ b = c @ '':'' @ d" "CHR '':'' \<notin> set b" "CHR '':'' \<notin> set d"
  shows "a = c \<and> b = d"
  using assms by (induction a arbitrary: c) (auto simp: Cons_eq_append_conv append_eq_Cons_conv)

lemma int_to_string_no_colon: "CHR '':'' \<notin> set (int_to_string n)"
  using nat_to_string_digits [of "CHR '':''"] by (auto simp: int_to_string_def is_digit_def)

lemma colon_number_unique: "a @ colon_number m = b @ colon_number n \<longleftrightarrow> a = b \<and> m = n"
  using colon_fields_unique [of a "int_to_string m" b "int_to_string n"] int_to_string_no_colon
  by (auto simp: colon_number_def)

lemma stat_text_inject: "stat_text st p = stat_text st' p' \<longleftrightarrow> p = p' \<and> stat_fields st = stat_fields st'"
proof -
  let ?t = "\<lambda>st p. ((((((p @ colon_number (st_dev st)) @ colon_number (st_ino st)) @ colon_number (st_size st)) @
    colon_number (fst (st_mtime st))) @ colon_number (snd (st_mtime st))) @ colon_number (fst (st_ctime st))) @
    colon_number (snd (st_ctime st))"
  have "concat (stat_pieces st p) = ?t st p" for st p by (simp add: stat_pieces_def)
  then show ?thesis
    by (simp only: stat_text_def bytes_of_inj colon_number_unique) (auto simp: stat_fields_def prod_eq_iff)
qed

lemma hash_texts_digest:
  "hash_texts fed = (case ObjectHash_digest (bytes_of (concat fed)) of Inl _ \<Rightarrow> Inl ''length_error'' | Inr s \<Rightarrow> Inr s)"
proof -
  have all: "concat (map bytes_of fed) = bytes_of (concat fed)" by (induction fed) (simp_all add: bytes_of_def)
  show ?thesis
  proof (cases "length (bytes_of (concat fed)) \<le> sha_limit")
    case True
    obtain h where "ObjectHash_update ObjectHash_init (bytes_of (concat fed)) = Inr h" "ObjectHash_represents h (bytes_of (concat fed))"
      using object_hash.update_accepts [OF object_hash.represents_empty] True by fastforce
    moreover obtain g where "foldM (\<lambda>xs h. ObjectHash_update h xs) (map bytes_of fed) ObjectHash_init = Inr g"
        "ObjectHash_represents g (bytes_of (concat fed))"
      using object_hash.update_all_accepts [OF object_hash.represents_empty, of "map bytes_of fed"] True all by auto
    ultimately show ?thesis by (simp add: hash_texts_def ObjectHash_digest_def object_hash.finish_hash)
  next
    case False
    then show ?thesis
      using object_hash.update_refuses [OF object_hash.represents_empty, of "bytes_of (concat fed)"]
        object_hash.update_all_refuses [OF object_hash.represents_empty, of "map bytes_of fed"] all
      by (simp add: hash_texts_def ObjectHash_digest_def)
  qed
qed

lemma stat_identity_Inr:
  "stat_identity st p = Inr I \<longleftrightarrow> st_regular st \<and> 0 \<le> st_size st \<and>
     ObjectHash_digest (stat_text st p) = Inr (si_stamp I) \<and> si_size I = word_of_int (st_size st)"
  by (cases I) (auto simp: stat_identity_def hash_texts_digest stat_text_def rbind_Inr_iff split: sum.splits)

lemma same_stamp:
  assumes "stat_identity st p = Inr I" "stat_identity st' p' = Inr I'" "si_stamp I = si_stamp I'"
  shows "(p = p' \<and> stat_fields st = stat_fields st') \<or> stamp_collision st p st' p'"
  using assms stat_text_inject by (auto simp: stat_identity_Inr stamp_collision_def)

section \<open>What the code relies on\<close>

type_synonym inode = "int \<times> int"

definition inode_of :: "file_stat \<Rightarrow> inode" where "inode_of st = (st_dev st, st_ino st)"

text \<open>
  The order of worlds in time, the file behind a handle, and what is true of a file in a world.
\<close>

record 'w world_view =
  wv_change :: "'w \<Rightarrow> 'w \<Rightarrow> bool"
  wv_inode :: "handle \<Rightarrow> inode"
  wv_stat :: "inode \<Rightarrow> 'w \<Rightarrow> file_stat"
  wv_content :: "inode \<Rightarrow> 'w \<Rightarrow> byte list"

abbreviation follows :: "'w world_view \<Rightarrow> 'w \<Rightarrow> 'w \<Rightarrow> bool" where
  "follows V \<equiv> rtranclp (wv_change V)"

definition calls_follow :: "'w source_calls \<Rightarrow> 'w world_view \<Rightarrow> bool" where
  "calls_follow S V \<longleftrightarrow>
     (\<forall>w. follows V w (snd (sc_root S w))) \<and> (\<forall>b h n w. follows V w (snd (sc_openat S b h n w))) \<and>
     (\<forall>h w. follows V w (sc_close S h w)) \<and> (\<forall>p w. follows V w (snd (sc_lease S p w))) \<and>
     (\<forall>p w. follows V w (sc_unlease S p w)) \<and> (\<forall>w. follows V w (snd (sc_tick S w))) \<and>
     (\<forall>p w. follows V w (snd (sc_mkdir S p w))) \<and> (\<forall>p w. follows V w (snd (sc_chmod S p w))) \<and>
     (\<forall>p w. follows V w (snd (sc_create S p w))) \<and> (\<forall>h k n w. follows V w (snd (sc_read S h k n w))) \<and>
     (\<forall>h xs w. follows V w (snd (sc_write S h xs w))) \<and> (\<forall>p w. follows V w (sc_remove S p w))"

definition source_laws :: "'w source_calls \<Rightarrow> 'w world_view \<Rightarrow> bool" where
  "source_laws S V \<longleftrightarrow> calls_follow S V \<and>
     (\<forall>h w st. sc_fstat S h w = Some st \<longrightarrow> inode_of st = wv_inode V h \<and> st = wv_stat V (inode_of st) w) \<and>
     (\<forall>h n w st. sc_fstatat S h n w = Some st \<longrightarrow> st = wv_stat V (inode_of st) w) \<and>
     (\<forall>h off n w bytes w'. 0 < n \<longrightarrow> sc_read S h off n w = (Transferred bytes, w') \<longrightarrow>
        bytes = take (length bytes) (drop off (wv_content V (wv_inode V h) w)) \<and>
        (bytes = [] \<longrightarrow> length (wv_content V (wv_inode V h) w) \<le> off)) \<and>
     (\<forall>f w0 w1 w2. follows V w0 w1 \<longrightarrow> follows V w1 w2 \<longrightarrow>
        stat_fields (wv_stat V f w0) = stat_fields (wv_stat V f w2) \<longrightarrow> wv_content V f w1 = wv_content V f w0)"

lemma law_frozen:
  "source_laws S V \<Longrightarrow> follows V w0 w1 \<Longrightarrow> follows V w1 w2 \<Longrightarrow>
   stat_fields (wv_stat V f w0) = stat_fields (wv_stat V f w2) \<Longrightarrow> wv_content V f w1 = wv_content V f w0"
  unfolding source_laws_def by blast

lemma law_fstat:
  "source_laws S V \<Longrightarrow> sc_fstat S h w = Some st \<Longrightarrow> inode_of st = wv_inode V h \<and> st = wv_stat V (inode_of st) w"
  unfolding source_laws_def by blast

lemma law_fstatat:
  "source_laws S V \<Longrightarrow> sc_fstatat S h n w = Some st \<Longrightarrow> st = wv_stat V (inode_of st) w"
  unfolding source_laws_def by blast

lemma law_read:
  "source_laws S V \<Longrightarrow> 0 < n \<Longrightarrow> sc_read S h off n w = (Transferred bytes, w') \<Longrightarrow>
   bytes = take (length bytes) (drop off (wv_content V (wv_inode V h) w)) \<and>
   (bytes = [] \<longrightarrow> length (wv_content V (wv_inode V h) w) \<le> off)"
  unfolding source_laws_def by blast

named_theorems follow_intro \<open>system calls lead to later worlds\<close>

lemma law_follow [follow_intro]:
  assumes "source_laws S V"
  shows "sc_root S w = (x1, w') \<Longrightarrow> follows V w w'" "sc_openat S b h n w = (x1, w') \<Longrightarrow> follows V w w'"
    "follows V w (sc_close S h w)" "sc_lease S p w = (x2, w') \<Longrightarrow> follows V w w'" "follows V w (sc_unlease S p w)"
    "sc_tick S w = (x3, w') \<Longrightarrow> follows V w w'" "sc_mkdir S p w = (x4, w') \<Longrightarrow> follows V w w'"
    "sc_chmod S p w = (x2, w') \<Longrightarrow> follows V w w'" "sc_create S p w = (x1, w') \<Longrightarrow> follows V w w'"
    "sc_read S h k m w = (x5, w') \<Longrightarrow> follows V w w'" "sc_write S h xs w = (x6, w') \<Longrightarrow> follows V w w'"
    "follows V w (sc_remove S p w)"
  using assms unfolding source_laws_def calls_follow_def by (metis snd_conv)+

lemma descend_follows: "source_laws S V \<Longrightarrow> descend_step S b p d w = (r, w') \<Longrightarrow> follows V w w'"
  by (cases "(S, b, p, d, w)" rule: descend_step.cases)
    (auto split: prod.splits option.splits if_splits intro: follow_intro rtranclp_trans)

lemma inspect_follows: "source_laws S V \<Longrightarrow> inspect_step S i w = (r, w') \<Longrightarrow> follows V w w'"
  by (cases i) (auto split: prod.splits option.splits sum.splits intro: follow_intro dest: descend_follows)

lemma release_follows: "source_laws S V \<Longrightarrow> follows V w (snapshot_release S v w)"
  unfolding snapshot_release_def by (meson law_follow rtranclp_trans)

lemma unwind_follows:
  assumes "source_laws S V"
  shows "follows V w (capture_unwind S c w)"
proof -
  note close = law_follow(3) [OF assms] and gone = law_follow(12) [OF assms] and unlease = law_follow(5) [OF assms]
  have "follows V w (case cg_output c of None \<Rightarrow> w | Some h \<Rightarrow> sc_close S h w)" (is "follows V w ?a")
    using close by (simp split: option.split)
  then have "follows V w (sc_close S (cg_handle c) ?a)" (is "follows V w ?b")
    by (rule rtranclp_trans) (rule close)
  moreover have "follows V x (if b then sc_remove S p x else x)" for b p x using gone by simp
  moreover have "follows V x (if b then sc_unlease S p x else x)" for b p x using unlease by simp
  ultimately show ?thesis unfolding capture_unwind_def Let_def by (meson rtranclp_trans)
qed

lemma capture_follows:
  assumes laws: "source_laws S V" and step: "capture_step S input staging expected b w = (r, w')"
  shows "follows V w w'"
proof -
  note close = law_follow(3) [OF laws] and unwind = unwind_follows [OF laws]
  have after: "follows V u (capture_unwind S c x)" if "follows V u x" for c u x
    using that unwind by (rule rtranclp_trans)
  show ?thesis
  proof (cases b)
    case (Naming c attempt)
    obtain clock counter x where tick: "sc_tick S w = ((clock, counter), x)" by (metis surj_pair)
    have "follows V w x" by (rule law_follow(6) [OF laws tick])
    moreover have "follows V x w'" if "\<not> 64 \<le> attempt"
      using step that tick law_follow(7) [OF laws] unwind unfolding Naming
      by (auto simp: capture_fail_def Let_def split: sum.splits prod.splits if_splits intro!: after)
    ultimately show ?thesis using step unwind Naming
      by (cases "64 \<le> attempt") (auto simp: capture_fail_def intro: rtranclp_trans)
  qed (use step in \<open>auto simp: capture_fail_def Let_def close unwind after law_follow [OF laws] descend_follows [OF laws]
      inspect_follows [OF laws] split: sum.splits option.splits prod.splits if_splits transfer.splits
      intro!: after intro: law_follow [OF laws] descend_follows [OF laws] inspect_follows [OF laws] rtranclp_trans [OF close]\<close>)
qed

lemma snapshot_follows:
  assumes laws: "source_laws S V" and step: "snapshot_step S staging requests i b w = (r, w')"
  shows "follows V w w'"
  using step
  by (cases b) (auto split: sum.splits prod.splits if_splits
      dest: inspect_follows [OF laws] capture_follows [OF laws] intro: release_follows [OF laws] rtranclp_trans)

section \<open>The capture\<close>

definition source_path :: "'w source_calls \<Rightarrow> path \<Rightarrow> path" where
  "source_path S p = (case sc_absolute S p of Inl _ \<Rightarrow> [] | Inr a \<Rightarrow> lexically_normal a)"

lemma direct_Inr: "direct S p w = Inr a \<Longrightarrow> a = source_path S p"
  by (auto simp: direct_def Let_def rbind_Inr_iff source_path_def split: if_splits)

text \<open>A world after \<open>w0\<close> and until \<open>w\<close> in which the open source had the status \<open>st\<close> and the captured identity.\<close>

definition seen_at :: "'w source_calls \<Rightarrow> 'w world_view \<Rightarrow> path \<Rightarrow> 'w \<Rightarrow> capturing \<Rightarrow> 'w \<Rightarrow> 'w \<Rightarrow> bool" where
  "seen_at S V input w0 c w w1 \<longleftrightarrow>
     cg_source c = source_path S input \<and> follows V w0 w1 \<and> follows V w1 w \<and>
     inode_of (wv_stat V (wv_inode V (cg_handle c)) w1) = wv_inode V (cg_handle c) \<and>
     stat_identity (wv_stat V (wv_inode V (cg_handle c)) w1) (cg_source c) = Inr (cg_identity c)"

text \<open>What has been copied is right if the file is still found unchanged at some later time.\<close>

definition unchanged_later :: "'w world_view \<Rightarrow> inode \<Rightarrow> 'w \<Rightarrow> 'w \<Rightarrow> bool" where
  "unchanged_later V f w1 w \<longleftrightarrow> (\<exists>w2. follows V w w2 \<and> stat_fields (wv_stat V f w2) = stat_fields (wv_stat V f w1))"

definition copied :: "'w source_calls \<Rightarrow> 'w world_view \<Rightarrow> path \<Rightarrow> 'w \<Rightarrow> capturing \<Rightarrow> byte list \<Rightarrow> bool \<Rightarrow> 'w \<Rightarrow> bool" where
  "copied S V input w0 c got whole w \<longleftrightarrow> (\<exists>w1. seen_at S V input w0 c w w1 \<and>
     (unchanged_later V (wv_inode V (cg_handle c)) w1 w \<longrightarrow>
        got = (if whole then id else take (length got)) (wv_content V (wv_inode V (cg_handle c)) w1)))"

text \<open>
  The bytes of a snapshot: those the source had in a world \<open>w1\<close> in which it had the identity, or the
  source had two different statuses with one stamp.
\<close>

definition capture_sound ::
    "'w source_calls \<Rightarrow> 'w world_view \<Rightarrow> path \<Rightarrow> 'w \<Rightarrow> source_identity \<Rightarrow> byte list \<Rightarrow> 'w \<Rightarrow> bool" where
  "capture_sound S V input w0 identity got w \<longleftrightarrow> (\<exists>w1 f. follows V w0 w1 \<and> follows V w1 w \<and>
     inode_of (wv_stat V f w1) = f \<and> stat_identity (wv_stat V f w1) (source_path S input) = Inr identity \<and>
     (got = wv_content V f w1 \<or>
      (\<exists>w2. follows V w1 w2 \<and> follows V w2 w \<and>
         stamp_collision (wv_stat V f w2) (source_path S input) (wv_stat V f w1) (source_path S input))))"

definition finished :: "'w source_calls \<Rightarrow> 'w world_view \<Rightarrow> path \<Rightarrow> 'w \<Rightarrow> capturing \<Rightarrow> byte list \<Rightarrow> 'w \<Rightarrow> bool" where
  "finished S V input w0 c got w \<longleftrightarrow> capture_sound S V input w0 (cg_identity c) got w"

fun capture_ok :: "'w source_calls \<Rightarrow> 'w world_view \<Rightarrow> path \<Rightarrow> 'w \<Rightarrow> capture_phase \<Rightarrow> 'w \<Rightarrow> bool" where
  "capture_ok S V input w0 Polling_Start w = True"
| "capture_ok S V input w0 Locating_Source w = True"
| "capture_ok S V input w0 (Locating_Staging source) w = (source = source_path S input)"
| "capture_ok S V input w0 (Checking_Staging source parent) w = (source = source_path S input)"
| "capture_ok S V input w0 (Reaching_Source source parent d) w = (source = source_path S input)"
| "capture_ok S V input w0 (Identifying source parent h) w = (source = source_path S input)"
| "capture_ok S V input w0 (Leasing c) w = copied S V input w0 c [] False w"
| "capture_ok S V input w0 (Naming c attempt) w = copied S V input w0 c [] False w"
| "capture_ok S V input w0 (Protecting c) w = copied S V input w0 c [] False w"
| "capture_ok S V input w0 (Creating c) w = copied S V input w0 c [] False w"
| "capture_ok S V input w0 (Looping c got) w = copied S V input w0 c got False w"
| "capture_ok S V input w0 (Getting c got) w = copied S V input w0 c got False w"
| "capture_ok S V input w0 (Putting c got rest) w = copied S V input w0 c (got @ rest) False w"
| "capture_ok S V input w0 (Sealing c got) w = copied S V input w0 c got True w"
| "capture_ok S V input w0 (Polling_End c got) w = copied S V input w0 c got True w"
| "capture_ok S V input w0 (Confirming c got) w = copied S V input w0 c got True w"
| "capture_ok S V input w0 (Inspecting_Again c got i) w = finished S V input w0 c got w"
| "capture_ok S V input w0 (Measuring c got) w = finished S V input w0 c got w"

lemma copied_later: "copied S V input w0 c got whole w \<Longrightarrow> follows V w w' \<Longrightarrow> copied S V input w0 c got whole w'"
  unfolding copied_def seen_at_def unchanged_later_def by (meson rtranclp_trans)

lemma capture_sound_later:
  "capture_sound S V input w0 identity got w \<Longrightarrow> follows V w w' \<Longrightarrow> capture_sound S V input w0 identity got w'"
  unfolding capture_sound_def by (elim exE conjE, intro exI conjI) (auto intro: rtranclp_trans)

lemma capture_ok_later: "capture_ok S V input w0 b w \<Longrightarrow> follows V w w' \<Longrightarrow> capture_ok S V input w0 b w'"
  by (cases b) (auto simp: finished_def intro: copied_later capture_sound_later)

lemma copied_cong [simp]:
  "copied S V input w0 (c\<lparr>cg_leased := l\<rparr>) got whole w = copied S V input w0 c got whole w"
  "copied S V input w0 (c\<lparr>cg_directory := d\<rparr>) got whole w = copied S V input w0 c got whole w"
  "copied S V input w0 (c\<lparr>cg_file := d\<rparr>) got whole w = copied S V input w0 c got whole w"
  "copied S V input w0 (c\<lparr>cg_output := out\<rparr>) got whole w = copied S V input w0 c got whole w"
  by (simp_all add: copied_def seen_at_def)

lemma copied_more:
  assumes laws: "source_laws S V" and sofar: "copied S V input w0 c got False w"
    and read: "sc_read S (cg_handle c) (length got) n w = (Transferred bytes, w')" and n: "0 < n"
  shows "copied S V input w0 c (got @ bytes) (bytes = []) w'"
proof -
  let ?f = "wv_inode V (cg_handle c)"
  from sofar obtain w1 where w1: "seen_at S V input w0 c w w1"
    and prefix: "unchanged_later V ?f w1 w \<longrightarrow> got = take (length got) (wv_content V ?f w1)"
    by (auto simp: copied_def)
  have next_world: "follows V w w'" by (rule law_follow(10) [OF laws read])
  note bytes = law_read [OF laws n read]
  have more_right: "got @ bytes = (if bytes = [] then id else take (length (got @ bytes))) (wv_content V ?f w1)"
    if later: "unchanged_later V ?f w1 w'"
  proof -
    from later obtain w2 where w2: "follows V w' w2" "stat_fields (wv_stat V ?f w2) = stat_fields (wv_stat V ?f w1)"
      by (auto simp: unchanged_later_def)
    then have "follows V w w2" using next_world by (simp add: rtranclp_trans)
    then have "unchanged_later V ?f w1 w" using w2(2) by (auto simp: unchanged_later_def)
    with prefix have got: "got = take (length got) (wv_content V ?f w1)" by simp
    have "follows V w1 w" using w1 by (simp add: seen_at_def)
    then have content: "wv_content V ?f w = wv_content V ?f w1"
      by (rule law_frozen [OF laws _ \<open>follows V w w2\<close> w2(2) [symmetric]])
    note same = content got
    show ?thesis
    proof (cases "bytes = []")
      case True
      then have "length (wv_content V ?f w1) \<le> length got" using bytes same(1) by simp
      then have "take (length got) (wv_content V ?f w1) = wv_content V ?f w1" by (rule take_all)
      with same(2) True show ?thesis by simp
    next
      case False
      have "take (length got + length bytes) (wv_content V ?f w1) = got @ bytes"
        using bytes same by (simp add: take_add)
      with False show ?thesis by simp
    qed
  qed
  have "seen_at S V input w0 c w' w1" using w1 next_world by (auto simp: seen_at_def)
  with more_right show ?thesis unfolding copied_def by blast
qed

lemma copied_start:
  assumes laws: "source_laws S V" and "sc_fstat S h w = Some st" "stat_identity st (source_path S input) = Inr identity"
    and "follows V w0 w"
  shows "copied S V input w0 \<lparr>cg_source = source_path S input, cg_staging = parent, cg_handle = h, cg_identity = identity,
    cg_leased = l, cg_directory = d, cg_file = e, cg_output = out\<rparr> [] False w"
  using law_fstat [OF assms(1, 2)] assms(3, 4) by (auto simp: copied_def seen_at_def intro!: exI [of _ w])

lemma copied_confirmed:
  assumes laws: "source_laws S V" and whole: "copied S V input w0 c got True w"
    and stat: "sc_fstat S (cg_handle c) w = Some st" "stat_identity st (cg_source c) = Inr (cg_identity c)"
  shows "finished S V input w0 c got w"
proof -
  let ?f = "wv_inode V (cg_handle c)"
  from whole obtain w1 where w1: "seen_at S V input w0 c w w1"
    and content: "unchanged_later V ?f w1 w \<longrightarrow> got = wv_content V ?f w1" by (auto simp: copied_def)
  have st: "st = wv_stat V ?f w" using law_fstat [OF laws stat(1)] by metis
  have first: "stat_identity (wv_stat V ?f w1) (cg_source c) = Inr (cg_identity c)" using w1 unfolding seen_at_def by blast
  have "stat_fields (wv_stat V ?f w) = stat_fields (wv_stat V ?f w1) \<or>
      stamp_collision (wv_stat V ?f w) (cg_source c) (wv_stat V ?f w1) (cg_source c)"
    using same_stamp [OF stat(2) first refl] st by simp
  then have "got = wv_content V ?f w1 \<or> stamp_collision (wv_stat V ?f w) (cg_source c) (wv_stat V ?f w1) (cg_source c)"
    using content by (auto simp: unchanged_later_def)
  moreover have path: "cg_source c = source_path S input" and order: "follows V w0 w1" "follows V w1 w"
    "inode_of (wv_stat V ?f w1) = ?f" using w1 by (simp_all add: seen_at_def)
  ultimately show ?thesis using first unfolding finished_def capture_sound_def path by blast
qed

lemma capture_step_ok:
  assumes laws: "source_laws S V" and w0: "follows V w0 w" and body: "capture_ok S V input w0 b w"
    and step: "capture_step S input staging expected b w = (Inl b', w')"
  shows "capture_ok S V input w0 b' w'"
proof -
  note world = capture_follows [OF laws step]
  show ?thesis
  proof (cases b)
    case (Getting c got)
    have "0 < copy_buffer c" by (simp add: copy_buffer_def)
    note more = copied_more [OF laws _ _ this]
    from body Getting have sofar: "copied S V input w0 c got False w" by simp
    obtain t x where read: "sc_read S (cg_handle c) (length got) (copy_buffer c) w = (t, x)" by fastforce
    show ?thesis
    proof (cases t)
      case (Transferred bytes)
      with more [OF sofar] read step Getting show ?thesis
        by (cases "bytes = []") (auto simp: capture_fail_def split: if_splits)
    qed (use read step Getting copied_later [OF sofar world] in \<open>auto simp: capture_fail_def\<close>)
  next
    case (Identifying source parent h)
    with step body w0 show ?thesis
      by (auto split: option.splits sum.splits if_splits intro!: copied_start [OF laws])
  next
    case (Confirming c got)
    with step body show ?thesis
      by (auto simp: capture_fail_def split: option.splits sum.splits if_splits intro: copied_confirmed [OF laws])
  next
    case (Inspecting_Again c got i)
    with step body world show ?thesis
      by (auto simp: capture_fail_def finished_def split: sum.splits prod.splits if_splits intro: capture_sound_later)
  next
    case (Putting c got rest)
    with step body world show ?thesis
      by (auto simp: capture_fail_def split: transfer.splits prod.splits if_splits intro: copied_later)
  next
    case (Naming c k)
    with step body copied_later [OF _ world] show ?thesis
      by (auto simp: capture_fail_def Let_def split: sum.splits prod.splits if_splits)
  qed (use step body copied_later [OF _ world] in \<open>auto simp: capture_fail_def Let_def dest: direct_Inr
      split: sum.splits option.splits prod.splits if_splits\<close>)
qed

lemma capture_step_value:
  assumes laws: "source_laws S V" and body: "capture_ok S V input w0 b w"
    and step: "capture_step S input staging expected b w = (Inr (Inr v), w')"
  shows "capture_sound S V input w0 (sn_identity v) (sn_bytes v) w'"
proof -
  from step obtain c got where "b = Measuring c got" "v = snapshot_of c got" "w' = sc_close S (cg_handle c) w"
    by (cases b) (auto simp: capture_fail_def Let_def
      split: sum.splits option.splits prod.splits if_splits transfer.splits)
  with body show ?thesis
    by (auto simp: finished_def snapshot_of_def intro: capture_sound_later law_follow(3) [OF laws])
qed

end
