(* ===== verification/Source_Batch.thy ===== *)
theory Source_Batch
  imports Source_Laws
begin

text \<open>
  The threads of \<open>ObjectSnapshotBatch\<close> satisfy the contract of a pool: whatever a thread stores is a sound
  snapshot of its source.  \<open>body_run\<close> is the same machine run by one thread alone, as by the
  constructor of \<open>ObjectSource\<close>.
\<close>

section \<open>One thread alone\<close>

inductive body_run ::
    "('b, 'v, 'w) task \<Rightarrow> ('w \<Rightarrow> 'w \<Rightarrow> bool) \<Rightarrow> nat \<Rightarrow> 'w \<Rightarrow> ('b, 'v) progress \<times> 'w \<Rightarrow> bool"
  for T env i w0 where
  start: "body_run T env i w0 (go_on (t_start T i), w0)"
| step: "body_run T env i w0 (go_on b, w) \<Longrightarrow> body_run T env i w0 (t_step T i b w)"
| world: "body_run T env i w0 (r, w) \<Longrightarrow> env w w' \<Longrightarrow> body_run T env i w0 (r, w')"

definition capture_task ::
    "'w source_calls \<Rightarrow> path \<Rightarrow> path \<Rightarrow> source_identity option \<Rightarrow> (capture_phase, snapshot, 'w) task" where
  "capture_task S input staging expected =
     \<lparr>t_start = (\<lambda>_. Polling_Start), t_step = (\<lambda>_. capture_step S input staging expected)\<rparr>"

definition inspect_task :: "'w source_calls \<Rightarrow> path \<Rightarrow> (inspection, source_identity, 'w) task" where
  "inspect_task S input = \<lparr>t_start = (\<lambda>_. Locating input), t_step = (\<lambda>_. inspect_step S)\<rparr>"

lemma capture_run_sound:
  assumes laws: "source_laws S V" and run: "body_run (capture_task S input staging expected) (follows V) 0 w0 (give v, w)"
  shows "capture_sound S V input w0 (sn_identity v) (sn_bytes v) w"
proof -
  have "follows V w0 (snd s) \<and> (case fst s of
      Inl b \<Rightarrow> capture_ok S V input w0 b (snd s)
    | Inr (Inl e) \<Rightarrow> True
    | Inr (Inr v) \<Rightarrow> capture_sound S V input w0 (sn_identity v) (sn_bytes v) (snd s))"
    if "body_run (capture_task S input staging expected) (follows V) 0 w0 s" for s
    using that
  proof (induction rule: body_run.induct)
    case start
    then show ?case by (simp add: capture_task_def)
  next
    case (step b w)
    obtain r w' where next_step: "capture_step S input staging expected b w = (r, w')" by fastforce
    have "follows V w0 w'"
      using step.IH capture_follows [OF laws next_step] by (auto intro: rtranclp_trans)
    with step.IH next_step show ?case
      by (auto simp: capture_task_def split: sum.splits intro: capture_step_ok [OF laws] capture_step_value [OF laws])
  next
    case (world r w w')
    then show ?case
      by (auto split: sum.splits intro: capture_ok_later capture_sound_later rtranclp_trans)
  qed
  from this [OF run] show ?thesis by simp
qed

text \<open>What \<open>inspect\<close> reports was the status of a file in a world on the way.\<close>

fun inspect_ok :: "'w source_calls \<Rightarrow> path \<Rightarrow> inspection \<Rightarrow> bool" where
  "inspect_ok S input (Locating p) = (p = input)"
| "inspect_ok S input (Reaching a d) = (a = source_path S input)"
| "inspect_ok S input (Looking a h) = (a = source_path S input)"

definition inspected :: "'w source_calls \<Rightarrow> 'w world_view \<Rightarrow> path \<Rightarrow> source_identity \<Rightarrow> file_stat \<Rightarrow> 'w \<Rightarrow> bool" where
  "inspected S V input identity st w \<longleftrightarrow>
     st = wv_stat V (inode_of st) w \<and> stat_identity st (source_path S input) = Inr identity"

lemma inspect_step_ok:
  "inspect_ok S input i \<Longrightarrow> inspect_step S i w = (Inl i', w') \<Longrightarrow> inspect_ok S input i'"
  by (cases i) (auto split: sum.splits option.splits prod.splits dest: direct_Inr)

lemma inspect_step_value:
  assumes laws: "source_laws S V" and "inspect_ok S input i" "inspect_step S i w = (Inr (Inr identity), w')"
  shows "\<exists>st. inspected S V input identity st w"
proof -
  from assms obtain h st where "sc_fstatat S h (path_filename (source_path S input)) w = Some st"
      "stat_identity st (source_path S input) = Inr identity"
    by (cases i) (auto split: sum.splits option.splits prod.splits)
  with law_fstatat [OF laws] show ?thesis unfolding inspected_def by blast
qed

section \<open>The threads of a batch\<close>

text \<open>
  The inventory has seen request \<open>i\<close> with status \<open>seen i\<close> in the world \<open>ws i\<close>, before the batch.
\<close>

definition snapshots_reached ::
    "'w source_calls \<Rightarrow> 'w world_view \<Rightarrow> snapshot_request list \<Rightarrow> (nat \<Rightarrow> file_stat) \<Rightarrow> (nat \<Rightarrow> 'w) \<Rightarrow> 'w \<Rightarrow> bool" where
  "snapshots_reached S V requests seen ws w \<longleftrightarrow> source_laws S V \<and>
     (\<forall>i < length requests. follows V (ws i) w \<and>
        inspected S V (rq_source (requests ! i)) (rq_identity (requests ! i)) (seen i) (ws i))"

fun snapshot_ok :: "'w source_calls \<Rightarrow> 'w world_view \<Rightarrow> snapshot_request list \<Rightarrow> (nat \<Rightarrow> 'w) \<Rightarrow> nat \<Rightarrow> snapshot_phase \<Rightarrow> 'w \<Rightarrow> bool" where
  "snapshot_ok S V requests ws i Polling_Batch w = True"
| "snapshot_ok S V requests ws i (Inspecting_First b) w = True"
| "snapshot_ok S V requests ws i (Capturing b) w = capture_ok S V (rq_source (requests ! i)) (ws i) b w"

text \<open>
  A snapshot holds what the source contained when the inventory saw it, unless a file had at that
  time or later another status with the same stamp.
\<close>

definition stamp_reused :: "'w source_calls \<Rightarrow> 'w world_view \<Rightarrow> path \<Rightarrow> file_stat \<Rightarrow> 'w \<Rightarrow> bool" where
  "stamp_reused S V input st w0 \<longleftrightarrow> (\<exists>f w. follows V w0 w \<and>
     stamp_collision (wv_stat V f w) (source_path S input) st (source_path S input))"

definition snapshot_promised ::
    "'w source_calls \<Rightarrow> 'w world_view \<Rightarrow> snapshot_request list \<Rightarrow> (nat \<Rightarrow> file_stat) \<Rightarrow> (nat \<Rightarrow> 'w) \<Rightarrow> nat \<Rightarrow> snapshot \<Rightarrow> bool" where
  "snapshot_promised S V requests seen ws i v \<longleftrightarrow>
     sn_identity v = rq_identity (requests ! i) \<and>
     (sn_bytes v = wv_content V (inode_of (seen i)) (ws i) \<or>
      stamp_reused S V (rq_source (requests ! i)) (seen i) (ws i))"

lemma capture_sound_inspected:
  assumes laws: "source_laws S V" and sound: "capture_sound S V input w0 identity got w"
    and seen: "inspected S V input identity st w0"
  shows "got = wv_content V (inode_of st) w0 \<or> stamp_reused S V input st w0"
proof -
  let ?p = "source_path S input"
  from sound obtain w1 f where w1: "follows V w0 w1" "inode_of (wv_stat V f w1) = f"
      "stat_identity (wv_stat V f w1) ?p = Inr identity"
    and got: "got = wv_content V f w1 \<or> (\<exists>w2. follows V w1 w2 \<and> stamp_collision (wv_stat V f w2) ?p (wv_stat V f w1) ?p)"
    unfolding capture_sound_def by blast
  from seen have st: "st = wv_stat V (inode_of st) w0" "stat_identity st ?p = Inr identity"
    by (simp_all add: inspected_def)
  from same_stamp [OF w1(3) st(2) refl] show ?thesis
  proof
    assume "?p = ?p \<and> stat_fields (wv_stat V f w1) = stat_fields st"
    then have fields: "stat_fields (wv_stat V f w1) = stat_fields st" by simp
    then have f: "f = inode_of st" using w1(2) by (auto simp: stat_fields_def inode_of_def)
    then have "stat_fields (wv_stat V f w0) = stat_fields (wv_stat V f w1)" using fields st(1) by simp
    then have content: "wv_content V f w1 = wv_content V f w0" by (rule law_frozen [OF laws w1(1) rtranclp.rtrancl_refl])
    from got show ?thesis
    proof
      assume "got = wv_content V f w1"
      with content f show ?thesis by simp
    next
      assume "\<exists>w2. follows V w1 w2 \<and> stamp_collision (wv_stat V f w2) ?p (wv_stat V f w1) ?p"
      then obtain w2 where w2: "follows V w1 w2" "stamp_collision (wv_stat V f w2) ?p (wv_stat V f w1) ?p" by blast
      moreover have "stat_text (wv_stat V f w1) ?p = stat_text st ?p" using fields by (simp add: stat_text_inject)
      ultimately have "stamp_collision (wv_stat V f w2) ?p st ?p" by (simp add: stamp_collision_def)
      moreover have "follows V w0 w2" using w1(1) w2(1) by (rule rtranclp_trans)
      ultimately show ?thesis unfolding stamp_reused_def by blast
    qed
  next
    assume "stamp_collision (wv_stat V f w1) ?p st ?p"
    with w1(1) show ?thesis unfolding stamp_reused_def by blast
  qed
qed

lemma snapshot_task_simps [simp]:
  "t_start (snapshot_task S staging requests) i = Polling_Batch"
  "t_step (snapshot_task S staging requests) = snapshot_step S staging requests"
  by (simp_all add: snapshot_task_def)

lemma snapshot_ok_later:
  "snapshot_ok S V requests ws i b w \<Longrightarrow> follows V w w' \<Longrightarrow> snapshot_ok S V requests ws i b w'"
  by (cases b) (auto intro: capture_ok_later)

lemma snapshot_step_ok:
  assumes reached: "snapshots_reached S V requests seen ws w" "i < length requests"
    and body: "snapshot_ok S V requests ws i b w" and step: "snapshot_step S staging requests i b w = (Inl b', w')"
  shows "snapshot_ok S V requests ws i b' w'"
proof -
  have laws: "source_laws S V" "follows V (ws i) w" using reached by (auto simp: snapshots_reached_def)
  show ?thesis
    using step body by (cases b) (auto split: sum.splits prod.splits if_splits intro: capture_step_ok [OF laws])
qed

lemma snapshot_step_value:
  assumes reached: "snapshots_reached S V requests seen ws w" "i < length requests"
    and body: "snapshot_ok S V requests ws i b w" and step: "snapshot_step S staging requests i b w = (Inr (Inr v), w')"
  shows "snapshot_promised S V requests seen ws i v"
proof -
  have laws: "source_laws S V" and seen: "inspected S V (rq_source (requests ! i)) (rq_identity (requests ! i)) (seen i) (ws i)"
    using reached by (auto simp: snapshots_reached_def)
  from step obtain c where "b = Capturing c" "sn_identity v = rq_identity (requests ! i)"
      "capture_step S (rq_source (requests ! i)) staging (Some (rq_identity (requests ! i))) c w = (Inr (Inr v), w')"
    by (cases b) (auto split: sum.splits prod.splits if_splits)
  with body capture_step_value [OF laws] capture_sound_inspected [OF laws _ seen] show ?thesis
    unfolding snapshot_promised_def by fastforce
qed

interpretation snapshot_pool: pool_task "snapshot_task S staging requests" "length requests" "follows V"
  "snapshots_reached S V requests seen ws" "snapshot_ok S V requests ws" "snapshot_promised S V requests seen ws"
  for S staging requests V seen ws
proof
  show "snapshots_reached S V requests seen ws w'"
    if "snapshots_reached S V requests seen ws w" "follows V w w'" for w w'
    using that by (auto simp: snapshots_reached_def)
  show "follows V w w'"
    if "snapshots_reached S V requests seen ws w" "t_step (snapshot_task S staging requests) i b w = (r, w')" for w i b r w'
    using that by (auto simp: snapshots_reached_def dest: snapshot_follows)
qed (auto intro: snapshot_ok_later snapshot_step_ok snapshot_step_value)

lemma requests_fit_sum:
  "requests_fit remaining rs \<Longrightarrow> sum_list (map (\<lambda>r. unat (si_size (rq_identity r))) rs) \<le> unat remaining"
proof (induction rs arbitrary: remaining)
  case (Cons r rs)
  then have "si_size (rq_identity r) \<le> remaining" "requests_fit (remaining - si_size (rq_identity r)) rs"
    by (auto simp: not_less)
  with Cons.IH [of "remaining - si_size (rq_identity r)"] show ?case by (simp add: unat_sub word_le_nat_alt)
qed simp

lemma snapshots_start_Inr:
  assumes "snapshots_start S requests hardware concurrency w = Inr p0"
  shows "requests \<noteq> [] \<and> length requests \<le> 256 \<and> requests_fit maximum_batch_bytes requests \<and>
    p0 = pool_new (length requests) (thread_count hardware concurrency (length requests)) \<and>
    0 < thread_count hardware concurrency (length requests)"
  using assms thread_count_pos [of "length requests" hardware concurrency]
  by (auto simp: snapshots_start_def maximum_batch_files_def split: if_splits)

lemma snapshot_batch_joined:
  assumes "snapshots_start S requests hardware concurrency w0 = Inr p0" "source_laws S V"
    and "\<forall>i < length requests. follows V (ws i) w0 \<and>
      inspected S V (rq_source (requests ! i)) (rq_identity (requests ! i)) (seen i) (ws i)"
    and "pool_run (snapshot_task S staging requests) (length requests) (follows V) (p0, w0) m (p, w1)"
    and "pool_joined p" "snapshots_end S p w1 = (Inr snapshots, w2)"
  shows "length snapshots = length requests \<and>
    (\<forall>i < length requests. snapshot_promised S V requests seen ws i (snapshots ! i)) \<and>
    sum_list (map (\<lambda>r. unat (si_size (rq_identity r))) requests) \<le> 16 * 1024 * 1024"
proof -
  note start = snapshots_start_Inr [OF assms(1)]
  have result: "pool_result p = Inr snapshots" using assms(6) by (auto simp: snapshots_end_def split: sum.splits if_splits)
  have "snapshots_reached S V requests seen ws w0" using assms(2, 3) by (simp add: snapshots_reached_def)
  with start snapshot_pool.joined_values [of S staging requests V _ w0 m p w1 seen ws snapshots] assms(4, 5) result
  have "length snapshots = length requests \<and> (\<forall>i < length requests. snapshot_promised S V requests seen ws i (snapshots ! i))"
    by auto
  moreover have "unat maximum_batch_bytes = 16 * 1024 * 1024" by (simp add: maximum_batch_bytes_def)
  ultimately show ?thesis using start requests_fit_sum [of maximum_batch_bytes requests] by simp
qed

lemma capture_sound_earlier:
  "capture_sound S V input w1 identity got w \<Longrightarrow> follows V w0 w1 \<Longrightarrow> capture_sound S V input w0 identity got w"
  unfolding capture_sound_def by (elim exE conjE, intro exI conjI) (auto intro: rtranclp_trans)

end
