(* ===== verification/Source_Ledger.thy ===== *)
theory Source_Ledger
  imports Source_Batch "HOL-Library.Multiset"
begin

text \<open>
  What a capture holds of the system: handles, paths it has made, leases.  However the
  constructor of \<open>ObjectSource\<close> ends, it has closed its handles; when it throws it has also removed its paths
  and given up its lease, and otherwise the destructor does.
\<close>

section \<open>The ledger\<close>

record 'w source_ledger =
  lg_handles :: "'w \<Rightarrow> handle set"
  lg_paths :: "'w \<Rightarrow> path set"
  lg_leases :: "'w \<Rightarrow> path multiset"

definition ledger :: "'w source_ledger \<Rightarrow> 'w \<Rightarrow> handle set \<times> path set \<times> path multiset" where
  "ledger G w = (lg_handles G w, lg_paths G w, lg_leases G w)"

definition opens_fresh :: "'w source_ledger \<Rightarrow> 'w \<Rightarrow> handle option \<times> 'w \<Rightarrow> bool" where
  "opens_fresh G w r \<longleftrightarrow> (case r of
     (None, w') \<Rightarrow> ledger G w' = ledger G w
   | (Some h, w') \<Rightarrow> h \<notin> lg_handles G w \<and> ledger G w' = (insert h (lg_handles G w), lg_paths G w, lg_leases G w))"

definition lease_entered :: "'w source_calls \<Rightarrow> 'w source_ledger \<Rightarrow> path \<Rightarrow> 'w \<Rightarrow> bool" where
  "lease_entered S G p w \<longleftrightarrow> (case sc_lease S p w of
        (None, w') \<Rightarrow> ledger G w' = (lg_handles G w, lg_paths G w, add_mset p (lg_leases G w))
      | (Some e, w') \<Rightarrow> ledger G w' = ledger G w)"

definition directory_entered :: "'w source_calls \<Rightarrow> 'w source_ledger \<Rightarrow> path \<Rightarrow> 'w \<Rightarrow> bool" where
  "directory_entered S G p w \<longleftrightarrow> (case sc_mkdir S p w of
        (Inr True, w') \<Rightarrow> p \<notin> lg_paths G w \<and> (\<forall>name. path_append p name \<notin> lg_paths G w) \<and>
          ledger G w' = (lg_handles G w, insert p (lg_paths G w), lg_leases G w)
      | (_, w') \<Rightarrow> ledger G w' = ledger G w)"

definition payload_entered :: "'w source_calls \<Rightarrow> 'w source_ledger \<Rightarrow> path \<Rightarrow> 'w \<Rightarrow> bool" where
  "payload_entered S G p w \<longleftrightarrow> (case sc_create S p w of
        (None, w') \<Rightarrow> ledger G w' = ledger G w
      | (Some h, w') \<Rightarrow> h \<notin> lg_handles G w \<and>
          ledger G w' = (insert h (lg_handles G w), insert p (lg_paths G w), lg_leases G w))"

definition ledger_laws :: "'w source_calls \<Rightarrow> 'w source_ledger \<Rightarrow> bool" where
  "ledger_laws S G \<longleftrightarrow>
     (\<forall>w. opens_fresh G w (sc_root S w)) \<and> (\<forall>b h n w. opens_fresh G w (sc_openat S b h n w)) \<and>
     (\<forall>h w. ledger G (sc_close S h w) = (lg_handles G w - {h}, lg_paths G w, lg_leases G w)) \<and>
     (\<forall>p w. lease_entered S G p w) \<and>
     (\<forall>p w. ledger G (sc_unlease S p w) = (lg_handles G w, lg_paths G w, lg_leases G w - {#p#})) \<and>
     (\<forall>w. ledger G (snd (sc_tick S w)) = ledger G w) \<and>
     (\<forall>p w. directory_entered S G p w) \<and>
     (\<forall>p w. ledger G (snd (sc_chmod S p w)) = ledger G w) \<and>
     (\<forall>p w. payload_entered S G p w) \<and>
     (\<forall>h off n w. ledger G (snd (sc_read S h off n w)) = ledger G w) \<and>
     (\<forall>h xs w. ledger G (snd (sc_write S h xs w)) = ledger G w) \<and>
     (\<forall>p w. ledger G (sc_remove S p w) = (lg_handles G w, lg_paths G w - {p}, lg_leases G w))"

lemma ledger_law:
  assumes "ledger_laws S G"
  shows "ledger G (sc_close S h w) = (lg_handles G w - {h}, lg_paths G w, lg_leases G w)"
    "ledger G (sc_unlease S p w) = (lg_handles G w, lg_paths G w, lg_leases G w - {#p#})"
    "ledger G (sc_remove S p w) = (lg_handles G w, lg_paths G w - {p}, lg_leases G w)"
    "ledger G (snd (sc_tick S w)) = ledger G w" "ledger G (snd (sc_chmod S p w)) = ledger G w"
    "ledger G (snd (sc_read S h off n w)) = ledger G w" "ledger G (snd (sc_write S h xs w)) = ledger G w"
    "opens_fresh G w (sc_root S w)" "opens_fresh G w (sc_openat S b h m w)" "lease_entered S G p w"
    "directory_entered S G p w" "payload_entered S G p w"
  using assms by (simp_all add: ledger_laws_def)

lemma ledger_law_close [simp]:
  assumes "ledger_laws S G"
  shows "lg_handles G (sc_close S h w) = lg_handles G w - {h}" "lg_paths G (sc_close S h w) = lg_paths G w"
    "lg_leases G (sc_close S h w) = lg_leases G w"
    "lg_handles G (sc_unlease S p w) = lg_handles G w" "lg_paths G (sc_unlease S p w) = lg_paths G w"
    "lg_leases G (sc_unlease S p w) = lg_leases G w - {#p#}"
    "lg_handles G (sc_remove S p w) = lg_handles G w" "lg_paths G (sc_remove S p w) = lg_paths G w - {p}"
    "lg_leases G (sc_remove S p w) = lg_leases G w"
  using ledger_law(1-3) [OF assms] by (simp_all add: ledger_def)

lemma ledger_law_quiet:
  assumes "ledger_laws S G"
  shows "sc_tick S w = (x, w') \<Longrightarrow> ledger G w' = ledger G w"
    "sc_chmod S p w = (e, w') \<Longrightarrow> ledger G w' = ledger G w"
    "sc_read S h off n w = (t, w') \<Longrightarrow> ledger G w' = ledger G w"
    "sc_write S h xs w = (u, w') \<Longrightarrow> ledger G w' = ledger G w"
    "sc_root S w = (None, w') \<Longrightarrow> ledger G w' = ledger G w"
    "sc_openat S b h m w = (None, w') \<Longrightarrow> ledger G w' = ledger G w"
  using ledger_law(4) [OF assms, of w] ledger_law(5) [OF assms, of p w] ledger_law(6) [OF assms, of h off n w]
    ledger_law(7) [OF assms, of h xs w] ledger_law(8) [OF assms, of w] ledger_law(9) [OF assms, of w b h m]
  by (simp_all add: opens_fresh_def)

lemma ledger_law_open:
  assumes "ledger_laws S G"
  shows "sc_root S w = (Some h, w') \<Longrightarrow> h \<notin> lg_handles G w \<and> ledger G w' = (insert h (lg_handles G w), lg_paths G w, lg_leases G w)"
    "sc_openat S b d m w = (Some h, w') \<Longrightarrow> h \<notin> lg_handles G w \<and> ledger G w' = (insert h (lg_handles G w), lg_paths G w, lg_leases G w)"
  using ledger_law(8) [OF assms, of w] ledger_law(9) [OF assms, of w b d m] by (simp_all add: opens_fresh_def)

section \<open>What each phase holds\<close>

definition only_handle :: "'w source_ledger \<Rightarrow> 'w \<Rightarrow> handle \<Rightarrow> 'w \<Rightarrow> bool" where
  "only_handle G w0 h w \<longleftrightarrow> h \<notin> lg_handles G w0 \<and>
     ledger G w = (insert h (lg_handles G w0), lg_paths G w0, lg_leases G w0)"

fun descent_holds :: "'w source_ledger \<Rightarrow> 'w \<Rightarrow> descent \<Rightarrow> 'w \<Rightarrow> bool" where
  "descent_holds G w0 At_Root w = (ledger G w = ledger G w0)"
| "descent_holds G w0 (At h parts) w = only_handle G w0 h w"

lemma only_handle_close: "ledger_laws S G \<Longrightarrow> only_handle G w0 h w \<Longrightarrow> ledger G (sc_close S h w) = ledger G w0"
  by (auto simp: only_handle_def ledger_def)

lemma only_handle_next:
  assumes laws: "ledger_laws S G" and h: "only_handle G w0 h w" and opened: "sc_openat S b h name w = (found, x)"
  shows "case found of None \<Rightarrow> ledger G (sc_close S h x) = ledger G w0 | Some n \<Rightarrow> only_handle G w0 n (sc_close S h x)"
proof (cases found)
  case None
  with ledger_law_quiet(6) [OF laws] opened have "ledger G x = ledger G w" by blast
  with h laws None show ?thesis by (auto simp: only_handle_def ledger_def)
next
  case (Some n)
  with ledger_law_open(2) [OF laws] opened have "n \<notin> lg_handles G w"
      "ledger G x = (insert n (lg_handles G w), lg_paths G w, lg_leases G w)" by blast+
  with h laws Some show ?thesis by (auto simp: only_handle_def ledger_def)
qed

lemma descend_step_holds:
  assumes laws: "ledger_laws S G" and holds: "descent_holds G w0 d w" and step: "descend_step S b p d w = (r, w')"
  shows "case r of Inl d' \<Rightarrow> descent_holds G w0 d' w' | Inr (Inl e) \<Rightarrow> ledger G w' = ledger G w0
    | Inr (Inr h) \<Rightarrow> only_handle G w0 h w'"
proof (cases d)
  case At_Root
  obtain found x where opened: "sc_root S w = (found, x)" by fastforce
  show ?thesis
  proof (cases found)
    case None
    with opened At_Root step holds ledger_law_quiet(5) [OF laws] show ?thesis by auto
  next
    case (Some h)
    from At_Root holds have "ledger G w = ledger G w0" by simp
    with ledger_law_open(1) [OF laws opened [unfolded Some]] have "only_handle G w0 h x"
      by (simp add: only_handle_def ledger_def)
    with opened Some At_Root step show ?thesis by auto
  qed
next
  case (At h parts)
  show ?thesis
  proof (cases parts)
    case Nil
    obtain found x where opened: "sc_openat S b h (path_filename p) w = (found, x)" by fastforce
    with only_handle_next [OF laws _ opened] holds At Nil step show ?thesis by (auto split: option.splits)
  next
    case (Cons part rest)
    obtain found x where opened: "sc_openat S True h part w = (found, x)" by fastforce
    with only_handle_next [OF laws _ opened] holds At Cons step show ?thesis by (auto split: option.splits)
  qed
qed

fun inspection_holds :: "'w source_ledger \<Rightarrow> 'w \<Rightarrow> inspection \<Rightarrow> 'w \<Rightarrow> bool" where
  "inspection_holds G w0 (Locating p) w = (ledger G w = ledger G w0)"
| "inspection_holds G w0 (Reaching a d) w = descent_holds G w0 d w"
| "inspection_holds G w0 (Looking a h) w = only_handle G w0 h w"

lemma inspect_step_holds:
  assumes laws: "ledger_laws S G" and holds: "inspection_holds G w0 i w" and step: "inspect_step S i w = (r, w')"
  shows "case r of Inl i' \<Rightarrow> inspection_holds G w0 i' w' | Inr _ \<Rightarrow> ledger G w' = ledger G w0"
proof (cases i)
  case (Reaching a d)
  obtain q x where next_step: "descend_step S True (parent_path a) d w = (q, x)" by fastforce
  with descend_step_holds [OF laws _ next_step] holds Reaching step show ?thesis by (auto split: sum.splits)
qed (use holds step only_handle_close [OF laws] in \<open>auto split: sum.splits option.splits\<close>)

text \<open>From the opened source on; \<open>made\<close> says that the payload has been created.\<close>

definition capturing_holds :: "'w source_ledger \<Rightarrow> 'w \<Rightarrow> capturing \<Rightarrow> bool \<Rightarrow> 'w \<Rightarrow> bool" where
  "capturing_holds G w0 c made w \<longleftrightarrow>
     insert (cg_handle c) (set_option (cg_output c)) \<inter> lg_handles G w0 = {} \<and>
     lg_handles G w = insert (cg_handle c) (set_option (cg_output c)) \<union> lg_handles G w0 \<and>
     (cg_directory c \<noteq> [] \<longrightarrow> cg_directory c \<notin> lg_paths G w0 \<and> (\<forall>name. path_append (cg_directory c) name \<notin> lg_paths G w0)) \<and>
     (cg_file c \<noteq> [] \<longrightarrow> cg_file c \<notin> lg_paths G w0) \<and> (made \<longrightarrow> cg_file c \<noteq> []) \<and>
     lg_paths G w = {p. p = cg_directory c \<and> p \<noteq> []} \<union> {p. p = cg_file c \<and> made} \<union> lg_paths G w0 \<and>
     lg_leases G w = (if cg_leased c then {#cg_staging c#} else {#}) + lg_leases G w0"

lemma capturing_holds_cong: "ledger G w' = ledger G w \<Longrightarrow> capturing_holds G w0 c made w' = capturing_holds G w0 c made w"
  by (simp add: capturing_holds_def ledger_def)

lemma unwind_ledger:
  assumes laws: "ledger_laws S G" and holds: "capturing_holds G w0 c made w"
  shows "ledger G (capture_unwind S c w) = ledger G w0"
proof -
  have "lg_handles G (capture_unwind S c w) = lg_handles G w0"
    using holds laws by (cases "cg_output c") (auto simp: capture_unwind_def Let_def capturing_holds_def)
  moreover have "lg_paths G (capture_unwind S c w) = lg_paths G w0"
    using holds laws by (cases "cg_output c") (auto simp: capture_unwind_def Let_def capturing_holds_def)
  moreover have "lg_leases G (capture_unwind S c w) = lg_leases G w0"
    using holds laws by (cases "cg_output c") (auto simp: capture_unwind_def Let_def capturing_holds_def)
  ultimately show ?thesis by (simp add: ledger_def)
qed

definition open_holds :: "'w source_ledger \<Rightarrow> 'w \<Rightarrow> capturing \<Rightarrow> 'w \<Rightarrow> bool" where
  "open_holds G w0 c w \<longleftrightarrow> capturing_holds G w0 c True w \<and> cg_leased c \<and> cg_directory c \<noteq> [] \<and>
     (\<exists>h. cg_output c = Some h \<and> h \<noteq> cg_handle c)"

definition sealed_holds :: "'w source_ledger \<Rightarrow> 'w \<Rightarrow> capturing \<Rightarrow> 'w \<Rightarrow> bool" where
  "sealed_holds G w0 c w \<longleftrightarrow> capturing_holds G w0 c True w \<and> cg_leased c \<and> cg_directory c \<noteq> [] \<and> cg_output c = None"

text \<open>The ledger of each phase.\<close>

fun capture_holds :: "'w source_ledger \<Rightarrow> 'w \<Rightarrow> capture_phase \<Rightarrow> 'w \<Rightarrow> bool" where
  "capture_holds G w0 Polling_Start w = (ledger G w = ledger G w0)"
| "capture_holds G w0 Locating_Source w = (ledger G w = ledger G w0)"
| "capture_holds G w0 (Locating_Staging source) w = (ledger G w = ledger G w0)"
| "capture_holds G w0 (Checking_Staging source parent) w = (ledger G w = ledger G w0)"
| "capture_holds G w0 (Reaching_Source source parent d) w = descent_holds G w0 d w"
| "capture_holds G w0 (Identifying source parent h) w = only_handle G w0 h w"
| "capture_holds G w0 (Leasing c) w =
     (capturing_holds G w0 c False w \<and> \<not> cg_leased c \<and> cg_directory c = [] \<and> cg_file c = [] \<and> cg_output c = None)"
| "capture_holds G w0 (Naming c attempt) w =
     (capturing_holds G w0 c False w \<and> cg_leased c \<and> cg_directory c = [] \<and> cg_file c = [] \<and> cg_output c = None)"
| "capture_holds G w0 (Protecting c) w =
     (capturing_holds G w0 c False w \<and> cg_leased c \<and> cg_directory c \<noteq> [] \<and> cg_file c = [] \<and> cg_output c = None)"
| "capture_holds G w0 (Creating c) w =
     (capturing_holds G w0 c False w \<and> cg_leased c \<and> cg_directory c \<noteq> [] \<and> cg_file c \<noteq> [] \<and> cg_output c = None)"
| "capture_holds G w0 (Looping c got) w = open_holds G w0 c w"
| "capture_holds G w0 (Getting c got) w = open_holds G w0 c w"
| "capture_holds G w0 (Putting c got rest) w = open_holds G w0 c w"
| "capture_holds G w0 (Sealing c got) w = open_holds G w0 c w"
| "capture_holds G w0 (Polling_End c got) w = sealed_holds G w0 c w"
| "capture_holds G w0 (Confirming c got) w = sealed_holds G w0 c w"
| "capture_holds G w0 (Inspecting_Again c got i) w = (\<exists>x. sealed_holds G w0 c x \<and> inspection_holds G x i w)"
| "capture_holds G w0 (Measuring c got) w = sealed_holds G w0 c w"

lemma capture_fail_ledger:
  assumes "ledger_laws S G" "capturing_holds G w0 c made x" "capture_fail S c e x = (r, w')"
  shows "case r of Inr (Inr v) \<Rightarrow> False | Inr (Inl e) \<Rightarrow> ledger G w' = ledger G w0 | Inl b' \<Rightarrow> capture_holds G w0 b' w'"
  using assms unwind_ledger by (auto simp: capture_fail_def)

lemma sealed_holds_close:
  assumes laws: "ledger_laws S G" and "open_holds G w0 c w"
  shows "sealed_holds G w0 (c\<lparr>cg_output := None\<rparr>) (sc_close S (the (cg_output c)) w)"
  using assms by (auto simp: open_holds_def sealed_holds_def capturing_holds_def)

lemma only_handle_capturing:
  "only_handle G w0 h w \<Longrightarrow> capturing_holds G w0 \<lparr>cg_source = source, cg_staging = parent, cg_handle = h, cg_identity = identity,
     cg_leased = False, cg_directory = [], cg_file = [], cg_output = None\<rparr> False w"
  by (auto simp: only_handle_def capturing_holds_def ledger_def)

lemma capturing_holds_leased:
  assumes "ledger_laws S G" "sc_lease S (cg_staging c) w = (None, w')" "capturing_holds G w0 c False w" "\<not> cg_leased c"
  shows "capturing_holds G w0 (c\<lparr>cg_leased := True\<rparr>) False w'"
  using assms(2-) ledger_law(10) [OF assms(1), of "cg_staging c" w]
  by (auto simp: lease_entered_def capturing_holds_def ledger_def)

lemma capturing_holds_directory:
  assumes "ledger_laws S G" "sc_mkdir S p w = (Inr True, w')" "capturing_holds G w0 c False w" "cg_directory c = []" "p \<noteq> []"
  shows "capturing_holds G w0 (c\<lparr>cg_directory := p\<rparr>) False w'"
  using assms(2-) ledger_law(11) [OF assms(1), of p w]
  by (auto simp: directory_entered_def capturing_holds_def ledger_def)

lemma capturing_holds_payload:
  assumes "ledger_laws S G" "sc_create S (cg_file c) w = (Some h, w')" "capturing_holds G w0 c False w" "cg_output c = None"
    "cg_file c \<noteq> []" "cg_leased c" "cg_directory c \<noteq> []"
  shows "open_holds G w0 (c\<lparr>cg_output := Some h\<rparr>) w'"
  using assms(2-) ledger_law(12) [OF assms(1), of "cg_file c" w]
  by (auto simp: payload_entered_def capturing_holds_def open_holds_def ledger_def)

lemma ledger_law_failed:
  assumes "ledger_laws S G"
  shows "sc_create S p w = (None, w') \<Longrightarrow> ledger G w' = ledger G w" "sc_lease S p w = (Some y, w') \<Longrightarrow> ledger G w' = ledger G w"
    "sc_mkdir S p w = (Inl y, w') \<Longrightarrow> ledger G w' = ledger G w" "sc_mkdir S p w = (Inr False, w') \<Longrightarrow> ledger G w' = ledger G w"
  using ledger_law(10-12) [OF assms, of p w] by (simp_all add: lease_entered_def directory_entered_def payload_entered_def)

lemma holds_cong:
  assumes "ledger G w' = ledger G w"
  shows "only_handle G w0 h w' = only_handle G w0 h w" "descent_holds G w0 d w' = descent_holds G w0 d w"
    "inspection_holds G w0 i w' = inspection_holds G w0 i w"
    "open_holds G w0 c w' = open_holds G w0 c w" "sealed_holds G w0 c w' = sealed_holds G w0 c w"
proof -
  note capturing = capturing_holds_cong [OF assms]
  show only: "only_handle G w0 h w' = only_handle G w0 h w" for h unfolding only_handle_def assms ..
  show descent: "descent_holds G w0 d w' = descent_holds G w0 d w" for d by (cases d) (simp_all only: descent_holds.simps assms only)
  show "inspection_holds G w0 i w' = inspection_holds G w0 i w"
    by (cases i) (simp_all only: inspection_holds.simps assms only descent)
  show "open_holds G w0 c w' = open_holds G w0 c w" "sealed_holds G w0 c w' = sealed_holds G w0 c w"
    unfolding open_holds_def sealed_holds_def capturing by (rule refl)+
qed

lemma capture_holds_cong:
  assumes "ledger G w' = ledger G w"
  shows "capture_holds G w0 b w' = capture_holds G w0 b w"
  by (cases b) (simp_all only: capture_holds.simps assms capturing_holds_cong [OF assms] holds_cong [OF assms])

text \<open>The ledger at the end of a step.\<close>

definition step_holds :: "'w source_ledger \<Rightarrow> 'w \<Rightarrow> (capture_phase, snapshot) progress \<Rightarrow> 'w \<Rightarrow> bool" where
  "step_holds G w0 r w \<longleftrightarrow> (case r of
     Inl b \<Rightarrow> capture_holds G w0 b w
   | Inr (Inl e) \<Rightarrow> ledger G w = ledger G w0
   | Inr (Inr v) \<Rightarrow>
       ledger G w = (lg_handles G w0, {sn_directory v, sn_file v} \<union> lg_paths G w0, add_mset (sn_staging v) (lg_leases G w0)) \<and>
       sn_directory v \<notin> lg_paths G w0 \<and> sn_file v \<notin> lg_paths G w0)"

lemma step_holds_simps [simp]:
  "step_holds G w0 (Inl b) w = capture_holds G w0 b w"
  "step_holds G w0 (Inr (Inl e)) w = (ledger G w = ledger G w0)"
  by (simp_all add: step_holds_def)

lemma fail_holds:
  "ledger_laws S G \<Longrightarrow> capturing_holds G w0 c made w \<Longrightarrow> step_holds G w0 (throw e) (capture_unwind S c w)"
  by (simp add: unwind_ledger)

lemma sealed_value:
  "ledger_laws S G \<Longrightarrow> sealed_holds G w0 c w \<Longrightarrow> step_holds G w0 (give (snapshot_of c got)) (sc_close S (cg_handle c) w)"
  by (auto simp: step_holds_def sealed_holds_def capturing_holds_def snapshot_of_def ledger_def)

lemma path_append_nonempty: "name \<noteq> [] \<Longrightarrow> path_append p name \<noteq> []"
  by (simp add: path_append_def)

lemma failed_holds:
  assumes laws: "ledger_laws S G" and "capture_fail S c e x = (r, w')"
  shows "ledger G x = ledger G w \<Longrightarrow> capturing_holds G w0 c made w \<Longrightarrow> step_holds G w0 r w'"
    "ledger G x = ledger G w \<Longrightarrow> open_holds G w0 c w \<Longrightarrow> step_holds G w0 r w'"
    "sealed_holds G w0 c x \<Longrightarrow> step_holds G w0 r w'"
proof -
  have fail: "capturing_holds G w0 c made x \<Longrightarrow> step_holds G w0 r w'" for made
    using assms(2) fail_holds [OF laws, of w0 c made x e] by (auto simp: capture_fail_def)
  show "step_holds G w0 r w'" if "ledger G x = ledger G w" "capturing_holds G w0 c made w"
    using fail capturing_holds_cong [OF that(1)] that(2) by blast
  show "step_holds G w0 r w'" if "ledger G x = ledger G w" "open_holds G w0 c w"
    using fail capturing_holds_cong [OF that(1)] that(2) unfolding open_holds_def by blast
  show "step_holds G w0 r w'" if "sealed_holds G w0 c x"
    using fail that unfolding sealed_holds_def by blast
qed

lemma leasing_holds:
  assumes laws: "ledger_laws S G" and "capture_holds G w0 (Leasing c) w"
    and step: "capture_step S input staging expected (Leasing c) w = (r, w')"
  shows "step_holds G w0 r w'"
proof -
  obtain e x where lease: "sc_lease S (cg_staging c) w = (e, x)" by fastforce
  show ?thesis
  proof (cases e)
    case None
    with lease step capturing_holds_leased [OF laws, of c w x w0] assms(2) show ?thesis by auto
  next
    case (Some m)
    with lease step have "capture_fail S c m x = (r, w')" by simp
    then show ?thesis
      by (rule failed_holds(1) [where made = False, OF laws _ ledger_law_failed(2) [OF laws lease [unfolded Some]]]) (use assms(2) in simp)
  qed
qed

lemma naming_holds:
  assumes laws: "ledger_laws S G" and holds: "capture_holds G w0 (Naming c attempt) w"
    and step: "capture_step S input staging expected (Naming c attempt) w = (r, w')"
  shows "step_holds G w0 r w'"
proof (cases "64 \<le> attempt")
  case True
  with step failed_holds(1) [OF laws, of c _ w r w' w w0 False] holds show ?thesis by simp
next
  case False
  obtain clock counter x where tick: "sc_tick S w = ((clock, counter), x)" by (metis surj_pair)
  have same: "ledger G x = ledger G w" by (rule ledger_law_quiet(1) [OF laws tick])
  define p where "p = path_append (cg_staging c) (snapshot_name clock counter)"
  have p: "p \<noteq> []" unfolding p_def by (simp add: path_append_nonempty snapshot_name_def)
  obtain m y where made: "sc_mkdir S p x = (m, y)" by fastforce
  have c: "capturing_holds G w0 c False x" "cg_leased c" "cg_directory c = []" "cg_file c = []" "cg_output c = None"
    using holds capturing_holds_cong [OF same] by simp_all
  have result: "(r, w') = (case m of Inl e \<Rightarrow> capture_fail S c e y
      | Inr ok \<Rightarrow> (go_on (if ok then Protecting (c\<lparr>cg_directory := p\<rparr>) else Naming c (attempt + 1)), y))"
    using step False tick made unfolding p_def by (simp add: Let_def)
  show ?thesis
  proof (cases m)
    case (Inl e)
    with result have "capture_fail S c e y = (r, w')" by simp
    then show ?thesis by (rule failed_holds(1) [OF laws _ ledger_law_failed(3) [OF laws made [unfolded Inl]] c(1)])
  next
    case (Inr ok)
    show ?thesis
    proof (cases ok)
      case True
      with capturing_holds_directory [OF laws _ c(1, 3) p] made Inr result c p show ?thesis by simp
    next
      case False
      with made Inr have "ledger G y = ledger G x" using ledger_law_failed(4) [OF laws, of p x y] by simp
      with result Inr False c capturing_holds_cong [of G y x w0 c False] show ?thesis by simp
    qed
  qed
qed

lemma making_holds:
  assumes laws: "ledger_laws S G" and "b = Protecting c \<or> b = Creating c" "capture_holds G w0 b w"
    and step: "capture_step S input staging expected b w = (r, w')"
  shows "step_holds G w0 r w'"
  using assms(2)
proof
  assume b: "b = Protecting c"
  obtain e x where chmod: "sc_chmod S (cg_directory c) w = (e, x)" by fastforce
  note same = ledger_law_quiet(2) [OF laws chmod]
  have holds: "capturing_holds G w0 c False w" "cg_leased c" "cg_directory c \<noteq> []" "cg_output c = None" "cg_file c = []"
    using assms(3) b by simp_all
  from holds(1) have x: "capturing_holds G w0 c False x" unfolding capturing_holds_cong [OF same] .
  have "capturing_holds G w0 (c\<lparr>cg_file := path_append (cg_directory c) ''payload''\<rparr>) False x"
    using x holds(3) unfolding capturing_holds_def by simp
  note next_holds = this and fail = failed_holds(1) [OF laws _ same holds(1)]
  show ?thesis
  proof (cases e)
    case None
    with chmod step b have "r = go_on (Creating (c\<lparr>cg_file := path_append (cg_directory c) ''payload''\<rparr>))" "w' = x" by simp_all
    with next_holds holds(2-4) show ?thesis by (simp add: path_append_nonempty)
  next
    case (Some m)
    with chmod step b have "capture_fail S c m x = (r, w')" by simp
    then show ?thesis by (rule fail)
  qed
next
  assume b: "b = Creating c"
  obtain e x where create: "sc_create S (cg_file c) w = (e, x)" by fastforce
  show ?thesis
  proof (cases e)
    case None
    with create step b have "capture_fail S c ''cannot create snapshot payload'' x = (r, w')" by simp
    then show ?thesis
      by (rule failed_holds(1) [where made = False, OF laws _ ledger_law_failed(1) [OF laws create [unfolded None]]]) (use assms(3) b in simp)
  next
    case (Some h)
    with create step b have "r = go_on (Looping (c\<lparr>cg_output := Some h\<rparr>) [])" "w' = x" by simp_all
    moreover have "open_holds G w0 (c\<lparr>cg_output := Some h\<rparr>) x"
      using assms(3) b by (intro capturing_holds_payload [OF laws create [unfolded Some]]) simp_all
    ultimately show ?thesis by simp
  qed
qed

lemma looping_holds:
  assumes laws: "ledger_laws S G" and holds: "open_holds G w0 c w"
    and step: "capture_step S input staging expected (Looping c got) w = (r, w')"
  shows "step_holds G w0 r w'"
proof (cases "sc_stop S w")
  case True
  with step have "capture_fail S c capture_cancelled w = (r, w')" by simp
  then show ?thesis by (rule failed_holds(2) [OF laws _ refl holds])
next
  case False
  with step holds show ?thesis by auto
qed

lemma getting_holds:
  assumes laws: "ledger_laws S G" and holds: "open_holds G w0 c w"
    and step: "capture_step S input staging expected (Getting c got) w = (r, w')"
  shows "step_holds G w0 r w'"
proof -
  obtain t x where read: "sc_read S (cg_handle c) (length got) (copy_buffer c) w = (t, x)" by fastforce
  note same = ledger_law_quiet(3) [OF laws read]
  have x: "open_holds G w0 c x" using holds holds_cong(4) [OF same] by blast
  note fail = failed_holds(2) [OF laws _ refl x]
  show ?thesis using step read x by (cases t) (auto split: if_splits intro: fail)
qed

lemma putting_holds:
  assumes laws: "ledger_laws S G" and holds: "open_holds G w0 c w"
    and step: "capture_step S input staging expected (Putting c got rest) w = (r, w')"
  shows "step_holds G w0 r w'"
proof -
  obtain t x where wrote: "sc_write S (the (cg_output c)) rest w = (t, x)" by fastforce
  note same = ledger_law_quiet(4) [OF laws wrote]
  have x: "open_holds G w0 c x" using holds holds_cong(4) [OF same] by blast
  note fail = failed_holds(2) [OF laws _ refl x]
  show ?thesis using step wrote x by (cases t) (auto split: if_splits intro: fail)
qed

lemma sealing_holds:
  assumes laws: "ledger_laws S G" and holds: "open_holds G w0 c w"
    and step: "capture_step S input staging expected (Sealing c got) w = (r, w')"
  shows "step_holds G w0 r w'"
proof -
  let ?c = "c\<lparr>cg_output := None\<rparr>"
  obtain e x where chmod: "sc_chmod S (cg_file ?c) (sc_close S (the (cg_output c)) w) = (e, x)" by fastforce
  have "sealed_holds G w0 ?c x"
    using sealed_holds_close [OF laws holds] holds_cong(5) [OF ledger_law_quiet(2) [OF laws chmod]] by simp
  note fail = failed_holds(3) [OF laws _ this] and x = this
  show ?thesis using chmod step x by (cases e) (auto simp: Let_def intro: fail)
qed

lemma ending_holds:
  assumes laws: "ledger_laws S G" and holds: "sealed_holds G w0 c w"
    and step: "capture_step S input staging expected b w = (r, w')"
  shows "b = Polling_End c got \<Longrightarrow> step_holds G w0 r w'" "b = Confirming c got \<Longrightarrow> step_holds G w0 r w'"
    "b = Measuring c got \<Longrightarrow> step_holds G w0 r w'"
proof -
  note fail = failed_holds(3) [OF laws _ holds]
  show "step_holds G w0 r w'" if "b = Polling_End c got" using step holds that by (auto split: if_splits intro: fail)
  show "step_holds G w0 r w'" if "b = Confirming c got"
    using step holds that by (auto split: if_splits option.splits sum.splits intro: fail)
  show "step_holds G w0 r w'" if "b = Measuring c got"
    using step that by (auto split: if_splits sum.splits intro: fail sealed_value [OF laws holds])
qed

lemma inspecting_holds:
  assumes laws: "ledger_laws S G" and holds: "capture_holds G w0 (Inspecting_Again c got i) w"
    and step: "capture_step S input staging expected (Inspecting_Again c got i) w = (r, w')"
  shows "step_holds G w0 r w'"
proof -
  obtain x where x: "sealed_holds G w0 c x" "inspection_holds G x i w" using holds by auto
  obtain q y where inspect: "inspect_step S i w = (q, y)" by fastforce
  note after = inspect_step_holds [OF laws x(2) inspect]
  show ?thesis
  proof (cases q)
    case (Inl i')
    with inspect step have r: "r = go_on (Inspecting_Again c got i')" "w' = y" by simp_all
    have "inspection_holds G x i' y" using after Inl by simp
    with x(1) show ?thesis unfolding r step_holds_simps capture_holds.simps by blast
  next
    case (Inr res)
    with after have same: "ledger G y = ledger G x" by simp
    from x(1) have y: "sealed_holds G w0 c y" unfolding holds_cong(5) [OF same] .
    note fail = failed_holds(3) [OF laws _ y]
    show ?thesis using inspect step Inr y by (cases res) (auto split: if_splits intro: fail)
  qed
qed

lemma capture_step_holds:
  assumes laws: "ledger_laws S G" and holds: "capture_holds G w0 b w"
    and step: "capture_step S input staging expected b w = (r, w')"
  shows "step_holds G w0 r w'"
proof (cases b)
  case (Reaching_Source source parent d)
  obtain q x where "descend_step S False source d w = (q, x)" by fastforce
  with descend_step_holds [OF laws _ this, of w0] holds step Reaching_Source show ?thesis by (auto split: sum.splits)
next
  case (Identifying source parent h)
  then have "only_handle G w0 h w" using holds by simp
  with only_handle_close [OF laws this] only_handle_capturing [OF this] step Identifying show ?thesis
    by (auto split: option.splits sum.splits if_splits)
next
  case (Leasing c)
  from holds step show ?thesis unfolding Leasing by (rule leasing_holds [OF laws])
next
  case (Naming c attempt)
  from holds step show ?thesis unfolding Naming by (rule naming_holds [OF laws])
next
  case (Inspecting_Again c got i)
  from holds step show ?thesis unfolding Inspecting_Again by (rule inspecting_holds [OF laws])
next
  case (Protecting c)
  with making_holds [OF laws _ holds step, of c] show ?thesis by simp
next
  case (Creating c)
  with making_holds [OF laws _ holds step, of c] show ?thesis by simp
next
  case (Looping c got)
  from holds step show ?thesis unfolding Looping capture_holds.simps by (rule looping_holds [OF laws])
next
  case (Getting c got)
  from holds step show ?thesis unfolding Getting capture_holds.simps by (rule getting_holds [OF laws])
next
  case (Putting c got rest)
  from holds step show ?thesis unfolding Putting capture_holds.simps by (rule putting_holds [OF laws])
next
  case (Sealing c got)
  from holds step show ?thesis unfolding Sealing capture_holds.simps by (rule sealing_holds [OF laws])
next
  case (Polling_End c got)
  with holds have "sealed_holds G w0 c w" by simp
  then show ?thesis using ending_holds(1) [OF laws _ step] Polling_End by blast
next
  case (Confirming c got)
  with holds have "sealed_holds G w0 c w" by simp
  then show ?thesis using ending_holds(2) [OF laws _ step] Confirming by blast
next
  case (Measuring c got)
  with holds have "sealed_holds G w0 c w" by simp
  then show ?thesis using ending_holds(3) [OF laws _ step] Measuring by blast
qed (use holds step in \<open>auto split: sum.splits if_splits\<close>)

lemma release_ledger:
  assumes "ledger_laws S G" "step_holds G w0 (give v) w"
  shows "ledger G (snapshot_release S v w) = ledger G w0"
  using assms by (auto simp: step_holds_def snapshot_release_def ledger_def)

lemma capture_run_ledger:
  assumes laws: "ledger_laws S G" and quiet: "\<And>w w'. env w w' \<Longrightarrow> ledger G w' = ledger G w"
    and run: "body_run (capture_task S input staging expected) env 0 w0 s"
  shows "step_holds G w0 (fst s) (snd s)"
  using run
proof (induction rule: body_run.induct)
  case start
  then show ?case by (simp add: capture_task_def)
next
  case (step b w)
  obtain r w' where "capture_step S input staging expected b w = (r, w')" by fastforce
  with capture_step_holds [OF laws _ this] step.IH show ?case by (simp add: capture_task_def)
next
  case (world r w w')
  note same = quiet [OF world.hyps(2)]
  from world.IH show ?case using capture_holds_cong [OF same] same by (auto simp: step_holds_def split: sum.splits)
qed

end
