(* ===== verification/Source_Properties.thy ===== *)
theory Source_Properties
  imports Source_Ledger
begin

text \<open>
  The claims on sources and snapshots, and the system of their witnesses: one file of one byte,
  handles counted upwards, and a directory for snapshots.
\<close>

section \<open>Driving a machine\<close>

primrec drive :: "('b, 'v, 'w) task \<Rightarrow> nat \<Rightarrow> nat \<Rightarrow> ('b, 'v) progress \<times> 'w \<Rightarrow> ('b, 'v) progress \<times> 'w" where
  "drive T i 0 s = s"
| "drive T i (Suc k) s = drive T i k (case s of (Inl b, w) \<Rightarrow> t_step T i b w | _ \<Rightarrow> s)"

lemma drive_numeral: "drive T i (numeral k) s = drive T i (pred_numeral k) (case s of (Inl b, w) \<Rightarrow> t_step T i b w | _ \<Rightarrow> s)"
  by (simp add: numeral_eq_Suc)

lemma drive_given [simp]: "drive T i k (Inr r, w) = (Inr r, w)"
  by (induction k) simp_all


text \<open>A thread of a pool that runs a machine to its end.\<close>

lemma drive_pool:
  assumes "pool_run T n env s0 m (p, w)" "k < length (pl_workers p)" "pl_workers p ! k = Running i b"
    and "drive T i j (Inl b, w) = (Inr (Inr v), w')"
  shows "\<exists>m q. pool_run T n env s0 m (q, w') \<and> q = put_worker k Testing (p\<lparr>pl_slots := (pl_slots p)[i := Some v]\<rparr>)"
  using assms
proof (induction j arbitrary: m p b w)
  case (Suc j)
  obtain r x where step: "t_step T i b w = (r, x)" by fastforce
  have run: "pool_run T n env s0 (Suc m) (worker_step T n k (Running i b) (p, w))"
    using pool_run.work [OF Suc.prems(1), of k "Running i b"] Suc.prems(2, 3) by simp
  show ?case
  proof (cases r)
    case (Inl b')
    let ?q = "put_worker k (Running i b') p"
    have "pool_run T n env s0 (Suc m) (?q, x)" using run step Inl by simp
    moreover have "drive T i j (Inl b', x) = (Inr (Inr v), w')" using Suc.prems(4) step Inl by simp
    ultimately obtain m' where "pool_run T n env s0 m' (put_worker k Testing (?q\<lparr>pl_slots := (pl_slots ?q)[i := Some v]\<rparr>), w')"
      using Suc.IH [of "Suc m" ?q x b'] Suc.prems(2) by (auto simp: put_worker_def)
    then show ?thesis by (auto simp: put_worker_def)
  next
    case (Inr res)
    with Suc.prems(4) step have "res = Inr v" "x = w'" by auto
    with run step Inr show ?thesis by auto
  qed
qed simp

section \<open>A system\<close>

type_synonym sample_system = "nat \<times> handle set \<times> path set \<times> path multiset"

definition sample_source_open :: "sample_system \<Rightarrow> handle option \<times> sample_system" where
  "sample_source_open = (\<lambda>(n, H, P, M). if n \<in> H then (None, (n, H, P, M)) else (Some n, (n + 1, insert n H, P, M)))"

definition sample_source_stat :: file_stat where
  "sample_source_stat = \<lparr>st_regular = True, st_size = 1, st_dev = 2, st_ino = 3, st_mtime = (4, 5), st_ctime = (6, 7)\<rparr>"

definition sample_source_calls :: "sample_system source_calls" where
  "sample_source_calls = \<lparr>
     sc_absolute = Inr, sc_canonical = (\<lambda>p w. Inr p), sc_root = sample_source_open, sc_openat = (\<lambda>_ _ _. sample_source_open),
     sc_close = (\<lambda>h (n, H, P, M). (n, H - {h}, P, M)), sc_fstatat = (\<lambda>_ _ _. Some sample_source_stat),
     sc_fstat = (\<lambda>_ _. Some sample_source_stat), sc_stop = (\<lambda>_. False), sc_is_directory = (\<lambda>_ _. Inr True),
     sc_lease = (\<lambda>p (n, H, P, M). (None, (n, H, P, add_mset p M))),
     sc_unlease = (\<lambda>p (n, H, P, M). (n, H, P, M - {#p#})), sc_tick = (\<lambda>w. ((0, 0), w)),
     sc_mkdir = (\<lambda>p (n, H, P, M). if P = {} then (Inr True, (n, H, {p}, M)) else (Inr False, (n, H, P, M))),
     sc_chmod = (\<lambda>_ w. (None, w)),
     sc_create = (\<lambda>p (n, H, P, M). if n \<in> H then (None, (n, H, P, M)) else (Some n, (n + 1, insert n H, insert p P, M))),
     sc_read = (\<lambda>_ off n w. (Transferred (take n (drop off [7])), w)), sc_write = (\<lambda>_ xs w. (Transferred (length xs), w)),
     sc_file_size = (\<lambda>_ _. Inr 1), sc_remove = (\<lambda>p (n, H, P, M). (n, H, P - {p}, M))\<rparr>"

definition sample_view :: "sample_system world_view" where
  "sample_view = \<lparr>wv_change = (\<lambda>_ _. True), wv_inode = (\<lambda>_. (2, 3)), wv_stat = (\<lambda>_ _. sample_source_stat), wv_content = (\<lambda>_ _. [7])\<rparr>"


definition sample_source_start :: sample_system where "sample_source_start = (0, {}, {}, {#})"

definition sample_source_identity :: source_identity where
  "sample_source_identity = (case stat_identity sample_source_stat ''/a'' of Inr I \<Rightarrow> I | Inl _ \<Rightarrow> \<lparr>si_stamp = [], si_size = 0\<rparr>)"

lemma sample_source_stat_identity: "stat_identity sample_source_stat ''/a'' = Inr sample_source_identity" and sample_source_identity_size: "si_size sample_source_identity = 1"
proof -
  have "length (stat_text sample_source_stat ''/a'') \<le> sha_limit"
    by (simp add: stat_text_def stat_pieces_def sample_source_stat_def colon_number_def int_to_string_def bytes_of_def sha_limit_def
        nat_to_string.simps)
  then obtain h where "ObjectHash_update ObjectHash_init (stat_text sample_source_stat ''/a'') = Inr h"
    using object_hash.update_accepts [OF object_hash.represents_empty, of "stat_text sample_source_stat ''/a''"] by fastforce
  then have "ObjectHash_digest (stat_text sample_source_stat ''/a'') = Inr (ObjectHash_finish h)" by (simp add: ObjectHash_digest_def)
  then have "stat_identity sample_source_stat ''/a'' = Inr \<lparr>si_stamp = ObjectHash_finish h, si_size = 1\<rparr>"
    by (simp add: stat_identity_Inr) (simp add: sample_source_stat_def)
  then show "stat_identity sample_source_stat ''/a'' = Inr sample_source_identity" "si_size sample_source_identity = 1"
    by (simp_all add: sample_source_identity_def)
qed

lemma sample_follows [simp]: "follows sample_view w w'"
  by (simp add: sample_view_def r_into_rtranclp)

lemma sample_source_laws: "source_laws sample_source_calls sample_view"
  by (auto simp: source_laws_def calls_follow_def)
    (auto simp: sample_source_calls_def sample_view_def inode_of_def sample_source_stat_def take_Cons' drop_Cons' split: if_splits nat.splits)

lemma path_append_other [simp]: "name \<noteq> [] \<Longrightarrow> path_append p name \<noteq> p" "name \<noteq> [] \<Longrightarrow> p \<noteq> path_append p name"
  by (auto simp: path_append_def)


lemma sample_normal: "lexically_normal ''/a'' = ''/a''" "lexically_normal ''/s'' = ''/s''" "parent_path ''/a'' = ''/''"
    "path_filename ''/a'' = ''a''" "parent_parts ''/a'' = []" "source_path sample_source_calls ''/a'' = ''/a''"
  by (simp_all add: lexically_normal_def parent_path_def path_filename_def parent_parts_def source_path_def sample_source_calls_def Let_def)

definition sample_captured :: snapshot where
  "sample_captured = \<lparr>sn_identity = sample_source_identity, sn_staging = ''/s'', sn_directory = path_append ''/s'' (snapshot_name 0 0),
     sn_file = path_append (path_append ''/s'' (snapshot_name 0 0)) ''payload'', sn_bytes = [7]\<rparr>"

lemmas sample_source_defs = sample_source_calls_def sample_source_open_def direct_def sample_normal(1-5) copy_buffer_def sample_source_identity_size Let_def
  insert_Diff_if drive_numeral sample_source_start_def sample_source_stat_identity snapshot_of_def sample_captured_def

lemma sample_inspect: "drive (inspect_task sample_source_calls ''/a'') 0 3 (go_on (Locating ''/a''), sample_source_start) =
    (give sample_source_identity, (1, {}, {}, {#}))"
  by (simp add: inspect_task_def sample_source_defs)


definition sample_requests :: "snapshot_request list" where
  "sample_requests = [\<lparr>rq_source = ''/a'', rq_identity = sample_source_identity\<rparr>]"

lemma sample_snapshot_drive:
  "drive (snapshot_task sample_source_calls ''/s'' sample_requests) 0 27 (go_on Polling_Batch, sample_source_start) =
     (give sample_captured, (5, {}, {sn_file sample_captured, sn_directory sample_captured}, {#''/s''#}))"
  by (simp add: snapshot_task_def sample_requests_def sample_source_defs)

lemma sample_inspected: "inspected sample_source_calls sample_view ''/a'' sample_source_identity sample_source_stat w"
  using sample_source_stat_identity
  by (simp add: inspected_def sample_normal(6)) (simp add: sample_view_def)

abbreviation sample_pool_state :: "snapshot_phase worker \<Rightarrow> nat \<Rightarrow> snapshot option \<Rightarrow> (snapshot_phase, snapshot) pool" where
  "sample_pool_state x c v \<equiv> \<lparr>pl_cursor = c, pl_failed = False, pl_slots = [v], pl_errors = [None], pl_workers = [x]\<rparr>"

abbreviation sample_batch_run :: "(snapshot_phase, snapshot) pool \<Rightarrow> sample_system \<Rightarrow> nat \<Rightarrow> bool" where
  "sample_batch_run p w m \<equiv> pool_run (snapshot_task sample_source_calls ''/s'' sample_requests) 1 (follows sample_view)
     (pool_new 1 1, sample_source_start) m (p, w)"

lemma sample_batch_step:
  assumes "\<exists>m. sample_batch_run (sample_pool_state x c v) w m" "x \<noteq> Stopped"
    and "worker_step (snapshot_task sample_source_calls ''/s'' sample_requests) 1 0 x (sample_pool_state x c v, w) = (sample_pool_state y d u, w')"
  shows "\<exists>m. sample_batch_run (sample_pool_state y d u) w' m"
proof -
  from assms(1) obtain m where "sample_batch_run (sample_pool_state x c v) w m" ..
  from pool_run.work [OF this, of 0 x] assms(2, 3) show ?thesis by auto
qed

definition sample_batch_end :: sample_system where
  "sample_batch_end = (5, {}, {sn_file sample_captured, sn_directory sample_captured}, {#''/s''#})"

lemma sample_batch_joined: "\<exists>m. sample_batch_run (sample_pool_state Stopped 2 (Some sample_captured)) sample_batch_end m"
proof -
  note step = sample_batch_step
  have "\<exists>m. sample_batch_run (sample_pool_state Testing 0 None) sample_source_start m"
    using pool_run.start [of _ 1 _ "(pool_new 1 1, sample_source_start)"] by (fastforce simp: pool_new_def)
  then have "\<exists>m. sample_batch_run (sample_pool_state Taking 0 None) sample_source_start m"
    by (rule step) (simp_all add: put_worker_def)
  then have "\<exists>m. sample_batch_run (sample_pool_state (Running 0 Polling_Batch) 1 None) sample_source_start m"
    by (rule step) (simp_all add: put_worker_def)
  then obtain m where "sample_batch_run (sample_pool_state (Running 0 Polling_Batch) 1 None) sample_source_start m" ..
  from drive_pool [OF this _ _ sample_snapshot_drive, of 0]
  have "\<exists>m. sample_batch_run (sample_pool_state Testing 1 (Some sample_captured)) sample_batch_end m"
    by (auto simp: put_worker_def sample_batch_end_def)
  then have "\<exists>m. sample_batch_run (sample_pool_state Taking 1 (Some sample_captured)) sample_batch_end m"
    by (rule step) (simp_all add: put_worker_def)
  then show ?thesis by (rule step) (simp_all add: put_worker_def)
qed

section \<open>Claims\<close>

text \<open>
  C40: the stamp of a source commits to its path, file, size and times: two statuses with the same stamp agree
  in all of them and in the path, or the texts hashed for them collide.
\<close>

theorem source_stamp_commits:
  assumes "stat_identity st p = Inr I" "stat_identity st' p' = Inr I'" "si_stamp I = si_stamp I'"
  shows "(p = p' \<and> st_dev st = st_dev st' \<and> st_ino st = st_ino st' \<and> st_size st = st_size st' \<and>
      st_mtime st = st_mtime st' \<and> st_ctime st = st_ctime st') \<or>
    (stat_text st p \<noteq> stat_text st' p' \<and> ObjectHash_digest (stat_text st p) = ObjectHash_digest (stat_text st' p'))"
  using same_stamp [OF assms] by (auto simp: stat_fields_def stamp_collision_def)

theorem source_stamp_commits_witness:
  "(''/a'' = ''/a'' \<and> st_ino sample_source_stat = 3) \<or>
    (\<exists>a b. a \<noteq> b \<and> ObjectHash_digest a = ObjectHash_digest b)"
  using source_stamp_commits [OF sample_source_stat_identity sample_source_stat_identity refl] by (auto simp: sample_source_stat_def)

text \<open>
  C38: whatever the threads of a snapshot batch and other programs do meanwhile, every snapshot of a batch that is
  joined without an exception has the identity its source had in the inventory, and holds the bytes the
  source contained when the inventory saw it, unless a stamp was used for two different statuses.  Together the sources have at most 16 MiB.
\<close>

theorem snapshot_batch_contents:
  assumes "snapshots_start S requests hardware concurrency w0 = Inr p0" "source_laws S V"
    and "\<forall>i < length requests. follows V (ws i) w0 \<and>
      inspected S V (rq_source (requests ! i)) (rq_identity (requests ! i)) (seen i) (ws i)"
    and "pool_run (snapshot_task S staging requests) (length requests) (follows V) (p0, w0) m (p, w1)"
    and "pool_joined p" "snapshots_end S p w1 = (Inr snapshots, w2)"
  shows "length snapshots = length requests \<and>
    (\<forall>i < length requests. sn_identity (snapshots ! i) = rq_identity (requests ! i) \<and>
       (sn_bytes (snapshots ! i) = wv_content V (inode_of (seen i)) (ws i) \<or>
        stamp_reused S V (rq_source (requests ! i)) (seen i) (ws i))) \<and>
    sum_list (map (\<lambda>r. unat (si_size (rq_identity r))) requests) \<le> 16 * 1024 * 1024"
  using snapshot_batch_joined [OF assms] by (simp add: snapshot_promised_def)



theorem snapshot_batch_contents_witness:
  "\<exists>m p w. sample_batch_run p w m \<and> pool_joined p \<and> pool_result p = Inr [sample_captured] \<and>
     (sn_bytes sample_captured = wv_content sample_view (2, 3) sample_source_start \<or>
      stamp_reused sample_source_calls sample_view ''/a'' sample_source_stat sample_source_start)"
proof -
  let ?p = "sample_pool_state Stopped 2 (Some sample_captured)"
  from sample_batch_joined obtain m where run: "sample_batch_run ?p sample_batch_end m" ..
  have joined: "pool_joined ?p" "pool_result ?p = Inr [sample_captured]"
    by (simp_all add: pool_joined_def pool_result_def)
  have start: "snapshots_start sample_source_calls sample_requests 8 1 sample_source_start = Inr (pool_new 1 1)"
    by (simp add: snapshots_start_def sample_requests_def maximum_batch_files_def maximum_batch_bytes_def thread_count_def
      sample_source_identity_size sample_source_calls_def)
  have seen: "\<forall>i < length sample_requests. follows sample_view sample_source_start sample_source_start \<and>
      inspected sample_source_calls sample_view (rq_source (sample_requests ! i)) (rq_identity (sample_requests ! i)) sample_source_stat sample_source_start"
    using sample_inspected by (simp add: sample_requests_def)
  have ending: "snapshots_end sample_source_calls ?p sample_batch_end = (Inr [sample_captured], sample_batch_end)"
    unfolding snapshots_end_def joined(2) by (simp add: sample_source_calls_def)
  have one: "length sample_requests = 1" "rq_source (sample_requests ! 0) = ''/a''" by (simp_all add: sample_requests_def)
  have "inode_of sample_source_stat = (2, 3)" by (simp add: inode_of_def sample_source_stat_def)
  with snapshot_batch_contents [OF start sample_source_laws seen _ joined(1) ending] run
  have "sn_bytes sample_captured = wv_content sample_view (2, 3) sample_source_start \<or>
      stamp_reused sample_source_calls sample_view ''/a'' sample_source_stat sample_source_start"
    by (auto simp: one)
  with run joined show ?thesis by blast
qed

end
